(* ===== verification/Prelude.thy ===== *)
theory Prelude
  imports Main
begin

text \<open>
  The vocabulary every component shares: the exception-and-state actions that model
  \<open>async\<close> handlers, a calculus for facts that hold across every run of a handler, the pieces
  of the JavaScript standard library the services use, and list-backed table operations.
\<close>

named_theorems moves_rules "rules that follow the structure of an action"
named_theorems act_simps "equations that run an action"

section \<open>Actions: state, exceptions, early return\<close>

text \<open>
  What an awaited call can throw: a lost connection, the constraint violations of the database
  schema, a lost race against a timer, a failed argument validation or a thrown \<open>Error\<close>.
\<close>

datatype exn =
    ConnectionLost
  | UniqueViolation
  | ForeignKeyViolation
  | RecordNotFound
  | TimedOut
  | InvalidInput
  | ErrorThrown

type_synonym ('w, 'a) act = "'w \<Rightarrow> (exn + 'a) \<times> 'w"

definition ret :: "'a \<Rightarrow> ('w, 'a) act" where
  "ret a = (\<lambda>w. (Inr a, w))"

definition throw :: "exn \<Rightarrow> ('w, 'a) act" where
  "throw e = (\<lambda>w. (Inl e, w))"

definition bnd :: "('w, 'a) act \<Rightarrow> ('a \<Rightarrow> ('w, 'b) act) \<Rightarrow> ('w, 'b) act" where
  "bnd m f = (\<lambda>w. case m w of (Inl e, w') \<Rightarrow> (Inl e, w') | (Inr a, w') \<Rightarrow> f a w')"

definition sq :: "('w, unit) act \<Rightarrow> ('w, 'b) act \<Rightarrow> ('w, 'b) act" where
  "sq m k = bnd m (\<lambda>_. k)"

definition catch :: "('w, 'a) act \<Rightarrow> (exn \<Rightarrow> ('w, 'a) act) \<Rightarrow> ('w, 'a) act" where
  "catch m h = (\<lambda>w. case m w of (Inl e, w') \<Rightarrow> h e w' | (Inr a, w') \<Rightarrow> (Inr a, w'))"

definition look :: "('w \<Rightarrow> 'a) \<Rightarrow> ('w, 'a) act" where
  "look f = (\<lambda>w. (Inr (f w), w))"

definition change :: "('w \<Rightarrow> 'w) \<Rightarrow> ('w, unit) act" where
  "change f = (\<lambda>w. (Inr (), f w))"

definition when_act :: "bool \<Rightarrow> ('w, unit) act \<Rightarrow> ('w, unit) act" where
  "when_act b m = (if b then m else ret ())"

primrec for_each :: "'x list \<Rightarrow> ('x \<Rightarrow> ('w, unit) act) \<Rightarrow> ('w, unit) act" where
  "for_each [] f = ret ()"
| "for_each (x # xs) f = sq (f x) (for_each xs f)"

text \<open>A database transaction: a throw inside undoes what the transaction wrote.\<close>

definition atomic :: "('w \<Rightarrow> (exn + 'a) \<times> 'w) \<Rightarrow> 'w \<Rightarrow> (exn + 'a) \<times> 'w" where
  "atomic f w = (case f w of (Inl e, _) \<Rightarrow> (Inl e, w) | r \<Rightarrow> r)"

lemma ret_run [act_simps]: "ret a w = (Inr a, w)"
  by (simp add: ret_def)

lemma throw_run [act_simps]: "throw e w = (Inl e, w)"
  by (simp add: throw_def)

lemma bnd_run [act_simps]:
  "bnd m f w = (case m w of (Inl e, w') \<Rightarrow> (Inl e, w') | (Inr a, w') \<Rightarrow> f a w')"
  by (simp add: bnd_def)

lemma sq_run [act_simps]:
  "sq m k w = (case m w of (Inl e, w') \<Rightarrow> (Inl e, w') | (Inr a, w') \<Rightarrow> k w')"
  by (simp add: sq_def bnd_def)

lemma catch_run [act_simps]:
  "catch m h w = (case m w of (Inl e, w') \<Rightarrow> h e w' | (Inr a, w') \<Rightarrow> (Inr a, w'))"
  by (simp add: catch_def)

lemma look_run [act_simps]: "look f w = (Inr (f w), w)"
  by (simp add: look_def)

lemma change_run [act_simps]: "change f w = (Inr (), f w)"
  by (simp add: change_def)

lemma when_act_run [act_simps]: "when_act b m w = (if b then m w else (Inr (), w))"
  by (simp add: when_act_def ret_def)

text \<open>Running a bound action backwards.\<close>

lemma bnd_InrE:
  assumes "bnd m f w = (Inr x, w')"
  obtains a v where "m w = (Inr a, v)" and "f a v = (Inr x, w')"
  using assms by (auto simp: bnd_def split: prod.splits sum.splits)

lemma sq_InrE:
  assumes "sq m k w = (Inr x, w')"
  obtains v where "m w = (Inr (), v)" and "k v = (Inr x, w')"
  using assms unfolding sq_def by (elim bnd_InrE) auto

section \<open>What every run of an action respects\<close>

text \<open>
  \<open>moves R m\<close>: whatever happens in a run of \<open>m\<close>, early returns and throws included, its
  last state is related to its first by \<open>R\<close>. For a reflexive and transitive \<open>R\<close> the fact
  composes along the structure of the action, so it needs a proof for the primitive calls only.
\<close>

definition moves :: "('w \<Rightarrow> 'w \<Rightarrow> bool) \<Rightarrow> ('w, 'a) act \<Rightarrow> bool" where
  "moves R m \<longleftrightarrow> (\<forall>w. R w (snd (m w)))"

lemma movesI: "(\<And>w. R w (snd (m w))) \<Longrightarrow> moves R m"
  by (simp add: moves_def)

lemma movesD: "moves R m \<Longrightarrow> m w = (r, w') \<Longrightarrow> R w w'"
  unfolding moves_def by (metis snd_conv)

locale effect_order =
  fixes R :: "'w \<Rightarrow> 'w \<Rightarrow> bool"
  assumes refl_step: "R w w"
    and trans_step: "R u v \<Longrightarrow> R v w \<Longrightarrow> R u w"
begin

lemma moves_ret: "moves R (ret a)"
  by (simp add: moves_def ret_def refl_step)

lemma moves_throw: "moves R (throw e)"
  by (simp add: moves_def throw_def refl_step)

lemma moves_look: "moves R (look f)"
  by (simp add: moves_def look_def refl_step)

lemma moves_change: "(\<And>w. R w (f w)) \<Longrightarrow> moves R (change f)"
  by (simp add: moves_def change_def)

lemma moves_bnd:
  assumes "moves R m" and "\<And>a. moves R (f a)"
  shows "moves R (bnd m f)"
proof (rule movesI)
  fix w
  obtain r v where run: "m w = (r, v)" by fastforce
  with assms(1) have first: "R w v" by (rule movesD)
  show "R w (snd (bnd m f w))"
  proof (cases r)
    case (Inl e)
    with run first show ?thesis by (simp add: bnd_def)
  next
    case (Inr a)
    from assms(2) have "R v (snd (f a v))" by (simp add: moves_def)
    with first have "R w (snd (f a v))" by (rule trans_step)
    with run Inr show ?thesis by (simp add: bnd_def)
  qed
qed

lemma moves_sq: "moves R m \<Longrightarrow> moves R k \<Longrightarrow> moves R (sq m k)"
  by (simp add: sq_def moves_bnd)

lemma moves_catch:
  assumes "moves R m" and "\<And>e. moves R (h e)"
  shows "moves R (catch m h)"
proof (rule movesI)
  fix w
  obtain r v where run: "m w = (r, v)" by fastforce
  with assms(1) have first: "R w v" by (rule movesD)
  show "R w (snd (catch m h w))"
  proof (cases r)
    case (Inl e)
    from assms(2) have "R v (snd (h e v))" by (simp add: moves_def)
    with first have "R w (snd (h e v))" by (rule trans_step)
    with run Inl show ?thesis by (simp add: catch_def)
  next
    case (Inr a)
    with run first show ?thesis by (simp add: catch_def)
  qed
qed

lemma moves_when: "moves R m \<Longrightarrow> moves R (when_act b m)"
  by (simp add: when_act_def moves_ret)

lemma moves_for_each: "(\<And>x. moves R (f x)) \<Longrightarrow> moves R (for_each xs f)"
  by (induction xs) (simp_all add: moves_ret moves_sq)

lemmas moves_basic =
  moves_ret moves_throw moves_look moves_bnd moves_sq moves_catch moves_when moves_for_each

end

lemma moves_if [moves_rules]:
  "(b \<Longrightarrow> moves R m) \<Longrightarrow> (\<not> b \<Longrightarrow> moves R k) \<Longrightarrow> moves R (if b then m else k)"
  by simp

lemma moves_option [moves_rules]:
  "moves R m \<Longrightarrow> (\<And>a. x = Some a \<Longrightarrow> moves R (f a)) \<Longrightarrow>
   moves R (case x of None \<Rightarrow> m | Some a \<Rightarrow> f a)"
  by (cases x) simp_all

lemma moves_let [moves_rules]: "(\<And>x. x = t \<Longrightarrow> moves R (f x)) \<Longrightarrow> moves R (let x = t in f x)"
  by simp

lemma moves_prod [moves_rules]:
  "(\<And>a b. p = (a, b) \<Longrightarrow> moves R (f a b)) \<Longrightarrow> moves R (case p of (a, b) \<Rightarrow> f a b)"
  by (cases p) simp

text \<open>An invariant is the relation that holds unless a state with it leads to one without.\<close>

definition keeping :: "('w \<Rightarrow> bool) \<Rightarrow> 'w \<Rightarrow> 'w \<Rightarrow> bool" where
  "keeping I v w \<longleftrightarrow> (I v \<longrightarrow> I w)"

interpretation keeping: effect_order "keeping I" for I
  by unfold_locales (auto simp: keeping_def)

text \<open>A component whose value no run changes.\<close>

definition fixing :: "('w \<Rightarrow> 'b) \<Rightarrow> 'w \<Rightarrow> 'w \<Rightarrow> bool" where
  "fixing f v w \<longleftrightarrow> f w = f v"

interpretation fixing: effect_order "fixing f" for f
  by unfold_locales (auto simp: fixing_def)

lemmas keeping_rules = keeping.moves_basic moves_rules
lemmas fixing_rules = fixing.moves_basic moves_rules

section \<open>Answers of a handler\<close>

text \<open>A status with a body, or a status with the kind of error that the body names.\<close>

datatype ('e, 'b) response = Sent nat 'b | Denied nat 'e

section \<open>JavaScript values\<close>

text \<open>
  \<open>undefined\<close> and \<open>null\<close> are \<open>None\<close>; the empty string is falsy, so \<open>a || b\<close> on
  strings falls through on it as well.
\<close>

fun truthy :: "string option \<Rightarrow> bool" where
  "truthy (Some s) = (s \<noteq> [])"
| "truthy None = False"

fun js_or :: "string option \<Rightarrow> string \<Rightarrow> string" where
  "js_or (Some s) d = (if s = [] then d else s)"
| "js_or None d = d"

fun js_or_null :: "string option \<Rightarrow> string option" where
  "js_or_null (Some s) = (if s = [] then None else Some s)"
| "js_or_null None = None"

lemma truthyD: "truthy x \<Longrightarrow> \<exists>s. x = Some s \<and> s \<noteq> []"
  by (cases x) auto

lemma js_or_null_truthy: "js_or_null x = (if truthy x then x else None)"
  by (cases x) auto

definition starts_with :: "string \<Rightarrow> string \<Rightarrow> bool" where
  "starts_with p s \<longleftrightarrow> take (length p) s = p"

lemma starts_with_append [simp]: "starts_with p (p @ s)"
  by (simp add: starts_with_def)

lemma starts_with_iff: "starts_with p s \<longleftrightarrow> (\<exists>t. s = p @ t)"
  unfolding starts_with_def by (metis append_take_drop_id append_eq_conv_conj)

definition is_space :: "char \<Rightarrow> bool" where
  "is_space c \<longleftrightarrow> c \<in> {CHR '' '', CHR 0x09, CHR 0x0A, CHR 0x0B, CHR 0x0C, CHR 0x0D}"

definition trim :: "string \<Rightarrow> string" where
  "trim s = rev (dropWhile is_space (rev (dropWhile is_space s)))"

text \<open>\<open>s.split(c)\<close> for a one-character separator.\<close>

fun split_on :: "char \<Rightarrow> string \<Rightarrow> string list" where
  "split_on c [] = [[]]"
| "split_on c (x # xs) =
     (if x = c then [] # split_on c xs
      else (case split_on c xs of [] \<Rightarrow> [[x]] | y # ys \<Rightarrow> (x # y) # ys))"

lemma split_on_nonempty: "split_on c s \<noteq> []"
  by (cases s) (auto split: list.splits)

lemma split_on_no_sep: "c \<notin> set s \<Longrightarrow> split_on c s = [s]"
  by (induction s) auto

lemma split_on_sep: "c \<notin> set s \<Longrightarrow> split_on c (s @ c # t) = s # split_on c t"
  by (induction s) auto

text \<open>\<open>parseInt(s, 10)\<close>: leading white space, a sign, then the longest run of digits.\<close>

definition is_digit :: "char \<Rightarrow> bool" where
  "is_digit c \<longleftrightarrow> of_char c \<ge> (48 :: nat) \<and> of_char c \<le> (57 :: nat)"

definition digit_value :: "char \<Rightarrow> int" where
  "digit_value c = int (of_char c - (48 :: nat))"

definition digits_value :: "string \<Rightarrow> int" where
  "digits_value ds = foldl (\<lambda>n c. 10 * n + digit_value c) 0 ds"

definition parse_int :: "string \<Rightarrow> int option" where
  "parse_int s =
     (let t = dropWhile is_space s;
          neg = (case t of c # _ \<Rightarrow> c = CHR ''-'' | [] \<Rightarrow> False);
          u = (case t of c # r \<Rightarrow> if c = CHR ''-'' \<or> c = CHR ''+'' then r else t | [] \<Rightarrow> t);
          ds = takeWhile is_digit u
      in if ds = [] then None else Some (if neg then - digits_value ds else digits_value ds))"

text \<open>\<open>Math.round(a / b)\<close> for integers and \<open>b > 0\<close>: the nearest integer, halves upwards.\<close>

definition round_div :: "int \<Rightarrow> int \<Rightarrow> int" where
  "round_div a b = (2 * a + b) div (2 * b)"

lemma round_div_exact: "0 < b \<Longrightarrow> round_div (k * b) b = k"
proof -
  assume "0 < b"
  then have "(2 * (k * b) + b) div (2 * b) = (b + k * (2 * b)) div (2 * b)"
    by (simp add: algebra_simps)
  also have "\<dots> = k + b div (2 * b)"
    using \<open>0 < b\<close> by (subst div_mult_self1) auto
  also have "b div (2 * b) = 0"
    using \<open>0 < b\<close> by simp
  finally show ?thesis by (simp add: round_div_def)
qed

lemma round_div_mono: "0 < b \<Longrightarrow> a \<le> a' \<Longrightarrow> round_div a b \<le> round_div a' b"
  by (simp add: round_div_def zdiv_mono1)

section \<open>Tables as lists of rows\<close>

text \<open>
  A table is the list of its rows in the order of insertion. \<open>findUnique\<close> is \<open>find\<close> on the
  key, \<open>updateMany\<close> is \<open>update_rows\<close>, \<open>deleteMany\<close> is \<open>filter\<close>, \<open>count\<close> counts.
\<close>

definition update_rows :: "('r \<Rightarrow> bool) \<Rightarrow> ('r \<Rightarrow> 'r) \<Rightarrow> 'r list \<Rightarrow> 'r list" where
  "update_rows P f rs = map (\<lambda>r. if P r then f r else r) rs"

definition count_rows :: "('r \<Rightarrow> bool) \<Rightarrow> 'r list \<Rightarrow> nat" where
  "count_rows P rs = length (filter P rs)"

definition unique_by :: "('r \<Rightarrow> 'k) \<Rightarrow> 'r list \<Rightarrow> bool" where
  "unique_by key rs \<longleftrightarrow> distinct (map key rs)"

definition has_key :: "('r \<Rightarrow> 'k) \<Rightarrow> 'k \<Rightarrow> 'r list \<Rightarrow> bool" where
  "has_key key k rs \<longleftrightarrow> (\<exists>r \<in> set rs. key r = k)"

lemma update_rows_simps [simp]:
  "update_rows P f [] = []"
  "update_rows P f (r # rs) = (if P r then f r else r) # update_rows P f rs"
  "update_rows P f (rs @ ss) = update_rows P f rs @ update_rows P f ss"
  by (simp_all add: update_rows_def)

lemma length_update_rows [simp]: "length (update_rows P f rs) = length rs"
  by (simp add: update_rows_def)

lemma set_update_rows: "set (update_rows P f rs) = (\<lambda>r. if P r then f r else r) ` set rs"
  by (simp add: update_rows_def)

lemma ball_update_rows:
  "(\<forall>r \<in> set (update_rows P f rs). Q r) \<longleftrightarrow> (\<forall>r \<in> set rs. if P r then Q (f r) else Q r)"
  by (induction rs) auto

lemma map_update_rows:
  "(\<And>r. P r \<Longrightarrow> key (f r) = key r) \<Longrightarrow> map key (update_rows P f rs) = map key rs"
  by (induction rs) auto

lemma unique_by_simps [simp]:
  "unique_by key []"
  "unique_by key (r # rs) \<longleftrightarrow> \<not> has_key key (key r) rs \<and> unique_by key rs"
  by (auto simp: unique_by_def has_key_def image_iff)

lemma has_key_simps [simp]:
  "\<not> has_key key k []"
  "has_key key k (r # rs) \<longleftrightarrow> key r = k \<or> has_key key k rs"
  "has_key key k (rs @ ss) \<longleftrightarrow> has_key key k rs \<or> has_key key k ss"
  by (auto simp: has_key_def)

lemma unique_by_append [simp]:
  "unique_by key (rs @ [r]) \<longleftrightarrow> unique_by key rs \<and> \<not> has_key key (key r) rs"
  by (auto simp: unique_by_def has_key_def image_iff)

lemma unique_by_update:
  "(\<And>r. P r \<Longrightarrow> key (f r) = key r) \<Longrightarrow> unique_by key (update_rows P f rs) = unique_by key rs"
  by (simp add: unique_by_def map_update_rows)

lemma unique_by_filter: "unique_by key rs \<Longrightarrow> unique_by key (filter P rs)"
  unfolding unique_by_def by (rule distinct_map_filter)

lemma has_key_update:
  "(\<And>r. P r \<Longrightarrow> key (f r) = key r) \<Longrightarrow> has_key key k (update_rows P f rs) = has_key key k rs"
  by (auto simp: has_key_def set_update_rows)

lemma has_key_find: "has_key key k rs \<longleftrightarrow> find (\<lambda>r. key r = k) rs \<noteq> None"
  by (induction rs) auto

lemma find_key_None: "find (\<lambda>r. key r = k) rs = None \<longleftrightarrow> \<not> has_key key k rs"
  by (simp add: has_key_find)

lemma find_in: "find P rs = Some r \<Longrightarrow> r \<in> set rs \<and> P r"
  by (induction rs) (auto split: if_splits)

lemma find_unique:
  "unique_by key rs \<Longrightarrow> r \<in> set rs \<Longrightarrow> key r = k \<Longrightarrow> find (\<lambda>r. key r = k) rs = Some r"
  by (induction rs) (auto simp: has_key_def)

lemma unique_by_inj:
  "unique_by key rs \<Longrightarrow> r \<in> set rs \<Longrightarrow> s \<in> set rs \<Longrightarrow> key r = key s \<Longrightarrow> r = s"
  unfolding unique_by_def distinct_map by (blast dest: inj_onD)

lemma count_rows_simps [simp]:
  "count_rows P [] = 0"
  "count_rows P (r # rs) = (if P r then Suc (count_rows P rs) else count_rows P rs)"
  "count_rows P (rs @ ss) = count_rows P rs + count_rows P ss"
  by (simp_all add: count_rows_def)

lemma count_rows_zero: "count_rows P rs = 0 \<longleftrightarrow> (\<forall>r \<in> set rs. \<not> P r)"
  by (induction rs) auto

end
