(* ===== verification/Redis_Store.thy ===== *)
theory Redis_Store
  imports Prelude
begin

text \<open>
  Redis, the service the handlers keep locks, rate limits and tokens in, as an interface: a
  record of the commands the code sends, taken by every definition that uses them, and a locale
  with what the documentation promises of each command in terms of a view of the store, from keys
  to a value and an expiry time. The last section implements the interface with an association
  list, so that the model can be run.
\<close>

section \<open>Numbers as strings\<close>

definition digit_char :: "nat \<Rightarrow> char" where
  "digit_char n = char_of (48 + n)"

fun show_nat :: "nat \<Rightarrow> string" where
  "show_nat n = (if n < 10 then [digit_char n] else show_nat (n div 10) @ [digit_char (n mod 10)])"

declare show_nat.simps [simp del]

definition show_int :: "int \<Rightarrow> string" where
  "show_int n = (if n < 0 then CHR ''-'' # show_nat (nat (- n)) else show_nat (nat n))"

lemma digit_char: "n < 10 \<Longrightarrow> is_digit (digit_char n) \<and> digit_value (digit_char n) = int n"
  by (simp add: is_digit_def digit_value_def digit_char_def)

lemma show_nat_digits: "show_nat n \<noteq> [] \<and> (\<forall>c \<in> set (show_nat n). is_digit c)"
proof (induction n rule: show_nat.induct)
  case (1 n)
  then show ?case by (subst (1 2) show_nat.simps) (auto simp: digit_char)
qed

lemma digits_value_snoc: "digits_value (ds @ [c]) = 10 * digits_value ds + digit_value c"
  by (simp add: digits_value_def)

lemma digits_value_show: "digits_value (show_nat n) = int n"
proof (induction n rule: show_nat.induct)
  case (1 n)
  show ?case
  proof (cases "n < 10")
    case True
    then show ?thesis by (subst show_nat.simps) (simp add: digits_value_def digit_char)
  next
    case False
    with 1 have "digits_value (show_nat (n div 10)) = int (n div 10)" by simp
    moreover have "10 * int (n div 10) + int (n mod 10) = int n" by presburger
    ultimately show ?thesis using False
      by (subst show_nat.simps) (simp add: digits_value_snoc digit_char)
  qed
qed

lemma digit_not_special: "is_digit c \<Longrightarrow> \<not> is_space c \<and> c \<noteq> CHR ''-'' \<and> c \<noteq> CHR ''+''"
  by (auto simp: is_digit_def is_space_def)

lemma parse_digits:
  assumes "ds \<noteq> []" and "\<forall>c \<in> set ds. is_digit c"
  shows "parse_int ds = Some (digits_value ds)"
    and "parse_int (CHR ''-'' # ds) = Some (- digits_value ds)"
proof -
  have all: "takeWhile is_digit ds = ds" using assms(2) by simp
  obtain c cs where ds: "ds = c # cs" using assms(1) by (cases ds) auto
  with assms(2) have c: "\<not> is_space c" "c \<noteq> CHR ''-''" "c \<noteq> CHR ''+''"
    using digit_not_special by auto
  then have "dropWhile is_space ds = ds" by (simp add: ds)
  with c all ds show "parse_int ds = Some (digits_value ds)"
    by (simp add: parse_int_def)
  have "\<not> is_space CHR ''-''" by (simp add: is_space_def)
  with assms show "parse_int (CHR ''-'' # ds) = Some (- digits_value ds)"
    by (simp add: parse_int_def Let_def takeWhile_eq_all_conv [THEN iffD2])
qed

lemma parse_show: "parse_int (show_int n) = Some n"
  by (simp add: show_int_def parse_digits show_nat_digits digits_value_show)

section \<open>The commands and what they promise\<close>

text \<open>
  Times are milliseconds since the epoch, as \<open>Date.now()\<close> gives them; the expiry arguments of
  \<open>SET \<dots> EX\<close> and \<open>EXPIRE\<close> are seconds. \<open>redis_scan\<close> gives the batches of keys that one full
  iteration of \<open>SCAN\<close> with \<open>MATCH prefix*\<close> returns before the cursor is back at 0.
\<close>

record 'r redis_ops =
  redis_get :: "int \<Rightarrow> string \<Rightarrow> 'r \<Rightarrow> string option"
  redis_set_ex :: "int \<Rightarrow> string \<Rightarrow> string \<Rightarrow> int \<Rightarrow> 'r \<Rightarrow> 'r"
  redis_set_nx :: "int \<Rightarrow> string \<Rightarrow> string \<Rightarrow> int \<Rightarrow> 'r \<Rightarrow> bool \<times> 'r"
  redis_incr :: "int \<Rightarrow> string \<Rightarrow> 'r \<Rightarrow> int \<times> 'r"
  redis_expire :: "int \<Rightarrow> string \<Rightarrow> int \<Rightarrow> 'r \<Rightarrow> 'r"
  redis_del :: "int \<Rightarrow> string list \<Rightarrow> 'r \<Rightarrow> 'r"
  redis_getdel :: "int \<Rightarrow> string \<Rightarrow> 'r \<Rightarrow> string option \<times> 'r"
  redis_scan :: "int \<Rightarrow> string \<Rightarrow> 'r \<Rightarrow> string list list"

type_synonym entry = "string \<times> int option"

definition live :: "int \<Rightarrow> entry option \<Rightarrow> string option" where
  "live t e = (case e of
       None \<Rightarrow> None
     | Some (v, None) \<Rightarrow> Some v
     | Some (v, Some x) \<Rightarrow> if t < x then Some v else None)"

lemma live_simps [simp]:
  "live t None = None"
  "live t (Some (v, None)) = Some v"
  "live t (Some (v, Some x)) = (if t < x then Some v else None)"
  by (simp_all add: live_def)

text \<open>A key that is no longer live stays so until it is written.\<close>

lemma live_later: "live t e = None \<Longrightarrow> t \<le> u \<Longrightarrow> live u e = None"
  by (auto simp: live_def split: option.splits if_splits)

definition counter_of :: "int \<Rightarrow> entry option \<Rightarrow> int" where
  "counter_of t e = (case live t e of
       None \<Rightarrow> 0
     | Some v \<Rightarrow> (case parse_int v of None \<Rightarrow> 0 | Some n \<Rightarrow> n))"

definition expiry_of :: "int \<Rightarrow> entry option \<Rightarrow> int option" where
  "expiry_of t e = (if live t e = None then None else snd (the e))"

locale redis_store =
  fixes R :: "'r redis_ops" and view :: "'r \<Rightarrow> string \<Rightarrow> entry option"
  assumes get_law: "redis_get R t k r = live t (view r k)"
    and set_law: "view (redis_set_ex R t k v s r) = (view r)(k \<mapsto> (v, Some (t + 1000 * s)))"
    and nx_law: "fst (redis_set_nx R t k v s r) = (live t (view r k) = None)"
    and nx_view_law: "view (snd (redis_set_nx R t k v s r)) =
      (if live t (view r k) = None then (view r)(k \<mapsto> (v, Some (t + 1000 * s))) else view r)"
    and incr_law: "fst (redis_incr R t k r) = counter_of t (view r k) + 1"
    and incr_view_law: "view (snd (redis_incr R t k r)) =
      (view r)(k \<mapsto> (show_int (counter_of t (view r k) + 1), expiry_of t (view r k)))"
    and expire_law: "view (redis_expire R t k s r) =
      (if live t (view r k) = None then view r
       else (view r)(k \<mapsto> (fst (the (view r k)), Some (t + 1000 * s))))"
    and del_law: "view (redis_del R t ks r) = (\<lambda>k. if k \<in> set ks then None else view r k)"
    and getdel_law: "fst (redis_getdel R t k r) = live t (view r k)"
    and getdel_view_law: "view (snd (redis_getdel R t k r)) = (view r)(k := None)"
    and scan_law: "starts_with p k \<Longrightarrow> live t (view r k) \<noteq> None \<Longrightarrow>
      \<exists>b \<in> set (redis_scan R t p r). k \<in> set b"
    and scan_match_law: "b \<in> set (redis_scan R t p r) \<Longrightarrow> k \<in> set b \<Longrightarrow> starts_with p k"
begin

lemma get_after_set: "0 < s \<Longrightarrow> redis_get R t k (redis_set_ex R t k v s r) = Some v"
  by (simp add: get_law set_law)

lemma get_other_after_set:
  "k \<noteq> k' \<Longrightarrow> redis_get R t k (redis_set_ex R u k' v s r) = redis_get R t k r"
  by (simp add: get_law set_law)

text \<open>\<open>SET NX\<close> is a lock: of two attempts within the expiry time only the first succeeds.\<close>

lemma nx_lock:
  assumes "redis_set_nx R t k v s r = (True, r')" and "t' < t + 1000 * s"
  shows "\<not> fst (redis_set_nx R t' k v' s' r')" and "redis_get R t' k r' = Some v"
proof -
  have "live t (view r k) = None" "view r' = (view r)(k \<mapsto> (v, Some (t + 1000 * s)))"
    using assms(1) nx_law [of t k v s r] nx_view_law [of t k v s r] by (simp_all split: if_splits)
  with assms(2) show "\<not> fst (redis_set_nx R t' k v' s' r')" "redis_get R t' k r' = Some v"
    by (simp_all add: nx_law get_law)
qed

text \<open>\<open>GETDEL\<close> consumes: a second read finds nothing.\<close>

lemma getdel_once: "redis_getdel R t k r = (v, r') \<Longrightarrow> redis_getdel R t' k r' = (w, r'') \<Longrightarrow> w = None"
  using getdel_law [of t' k r'] getdel_view_law [of t k r] by simp

text \<open>The first \<open>INCR\<close> of a window answers 1, and each further one adds one.\<close>

lemma incr_first: "redis_get R t k r = None \<Longrightarrow> fst (redis_incr R t k r) = 1"
  by (simp add: incr_law get_law counter_of_def)

lemma incr_next:
  assumes "redis_incr R t k r = (n, r')" and "expiry_of t (view r k) = None \<or> (\<exists>x. expiry_of t (view r k) = Some x \<and> t' < x)"
  shows "fst (redis_incr R t' k r') = n + 1"
proof -
  have "view r' k = Some (show_int n, expiry_of t (view r k))"
    using assms(1) incr_law [of t k r] incr_view_law [of t k r] by simp
  with assms(2) show ?thesis by (auto simp: incr_law counter_of_def parse_show)
qed

text \<open>Deleting every batch of a full iteration leaves no live key with the prefix.\<close>

lemma scan_del_all:
  assumes "starts_with p k" and "\<forall>b \<in> set (redis_scan R t p r). \<forall>x \<in> set b. view r' x = None"
    and "view r' k = None \<or> view r' k = view r k" and "t \<le> t'"
  shows "redis_get R t' k r' = None"
proof (cases "live t (view r k) = None")
  case True
  with assms(3,4) show ?thesis by (auto simp: get_law dest: live_later)
next
  case False
  with scan_law [OF assms(1)] assms(2) show ?thesis by (fastforce simp: get_law)
qed

end

section \<open>An association-list Redis\<close>

type_synonym alist_redis = "(string \<times> entry) list"

definition put :: "string \<Rightarrow> entry \<Rightarrow> alist_redis \<Rightarrow> alist_redis" where
  "put k e r = (k, e) # filter (\<lambda>p. fst p \<noteq> k) r"

definition alist_redis_ops :: "alist_redis redis_ops" where
  "alist_redis_ops =
     \<lparr>redis_get = (\<lambda>t k r. live t (map_of r k)),
      redis_set_ex = (\<lambda>t k v s r. put k (v, Some (t + 1000 * s)) r),
      redis_set_nx = (\<lambda>t k v s r.
        if live t (map_of r k) = None then (True, put k (v, Some (t + 1000 * s)) r) else (False, r)),
      redis_incr = (\<lambda>t k r.
        let n = counter_of t (map_of r k) + 1
        in (n, put k (show_int n, expiry_of t (map_of r k)) r)),
      redis_expire = (\<lambda>t k s r.
        if live t (map_of r k) = None then r
        else put k (fst (the (map_of r k)), Some (t + 1000 * s)) r),
      redis_del = (\<lambda>t ks r. filter (\<lambda>p. fst p \<notin> set ks) r),
      redis_getdel = (\<lambda>t k r. (live t (map_of r k), filter (\<lambda>p. fst p \<noteq> k) r)),
      redis_scan = (\<lambda>t p r. [filter (starts_with p) (map fst r)])\<rparr>"

lemma map_of_filter_key:
  "map_of (filter (\<lambda>p. P (fst p)) r) k = (if P k then map_of r k else None)"
  by (induction r) auto

lemma map_of_put [simp]: "map_of (put k e r) = (map_of r)(k \<mapsto> e)"
  by (rule ext) (simp add: put_def map_of_filter_key [where P = "\<lambda>x. x \<noteq> k"])

interpretation alist_redis: redis_store alist_redis_ops map_of
proof
  fix t :: int and p k :: string and r :: alist_redis
  assume "starts_with p k" and "live t (map_of r k) \<noteq> None"
  then have "k \<in> fst ` set r"
    by (metis live_simps(1) map_of_eq_None_iff)
  with \<open>starts_with p k\<close> show "\<exists>b \<in> set (redis_scan alist_redis_ops t p r). k \<in> set b"
    by (simp add: alist_redis_ops_def)
qed (auto simp: alist_redis_ops_def Let_def fun_eq_iff map_of_filter_key
       map_of_filter_key [where P = "\<lambda>x. x \<noteq> k" for k]
       map_of_filter_key [where P = "\<lambda>x. x \<notin> set ks" for ks])

end
