(* ===== verification/Schema.thy ===== *)
theory Schema
  imports Redis_Store
begin

text \<open>
  The state the services share: the rows of the database, as packages/db/prisma/schema.prisma
  declares them with their keys and references, the message brokers, the module-level variables of
  the services, and the clock; then the awaited calls that are the only way a handler touches it.
\<close>

section \<open>Enumerations of the schema\<close>

datatype plan_tier = FREE | PRO | TEAM
datatype role = GUEST | LEARNER | CONTRIBUTOR | ADMIN
datatype difficulty = JUNIOR | MID | SENIOR
datatype category = KUBERNETES | DOCKER | CICD | TERRAFORM | BASH | SECURITY | MONITORING
datatype session_status = ACTIVE | COMPLETED | EXPIRED | TERMINATED
datatype submission_status = SubPending | SubRunning | SubCompleted | SubFailed
datatype check_status = CheckPassed | CheckFailed
datatype onboarding_state = ObNew | TourDismissed | TourCompleted
datatype org_role = MEMBER | ORG_ADMIN | OWNER
datatype invite_status = PENDING | ACCEPTED | InviteExpired | CANCELLED
datatype scenario_status = PRIVATE | PENDING_REVIEW | APPROVED | REJECTED
datatype node_type = CONCEPT | SCENARIO | QUIZ
datatype share_type = CHALLENGE_SOLVE | BADGE_EARNED | QUIZ_MASTERY | CERTIFICATE

text \<open>The roles of an organization are ordered by what they may do.\<close>

instantiation org_role :: linorder
begin

fun rank_of :: "org_role \<Rightarrow> nat" where
  "rank_of MEMBER = 0"
| "rank_of ORG_ADMIN = 1"
| "rank_of OWNER = 2"

definition less_eq_org_role :: "org_role \<Rightarrow> org_role \<Rightarrow> bool" where
  "less_eq_org_role a b \<longleftrightarrow> rank_of a \<le> rank_of b"

definition less_org_role :: "org_role \<Rightarrow> org_role \<Rightarrow> bool" where
  "less_org_role a b \<longleftrightarrow> rank_of a < rank_of b"

instance
proof
  fix a b :: org_role
  assume "a \<le> b" and "b \<le> a"
  then show "a = b" by (cases a; cases b) (simp_all add: less_eq_org_role_def)
qed (auto simp: less_eq_org_role_def less_org_role_def)

end

section \<open>Rows\<close>

record user =
  user_id :: string
  user_name :: "string option"
  user_username :: "string option"
  user_email :: string
  user_password :: "string option"
  user_role :: role
  user_xp :: int
  user_isPublic :: bool
  user_orgId :: "string option"
  user_onboardingState :: onboarding_state
  user_emailVerified :: "int option"
  user_githubId :: "string option"
  user_googleId :: "string option"
  user_ssoId :: "string option"
  user_mfaEnabled :: bool
  user_mfaSecret :: "string option"
  user_avatarUrl :: "string option"
  user_jobTitle :: "string option"
  user_lastLoginAt :: "int option"
  user_firstLoginAt :: "int option"
  user_currentStreak :: int
  user_longestStreak :: int
  user_lastActivityDate :: "int option"

record org =
  org_id :: string
  org_name :: string
  org_slug :: string
  org_planTier :: plan_tier
  org_seatsPurchased :: int
  org_ssoProvider :: "string option"
  org_ssoDomain :: "string option"
  org_ssoMetadataUrl :: "string option"

record org_member =
  mem_userId :: string
  mem_orgId :: string
  mem_orgRole :: org_role
  mem_joinedAt :: int

record org_invite =
  inv_id :: string
  inv_orgId :: string
  inv_email :: string
  inv_token :: string
  inv_orgRole :: org_role
  inv_status :: invite_status
  inv_expiresAt :: int

record challenge =
  ch_id :: string
  ch_title :: string
  ch_slug :: "string option"
  ch_description :: string
  ch_difficulty :: difficulty
  ch_category :: category
  ch_tags :: "string list"
  ch_xp :: int
  ch_dockerImage :: string
  ch_moduleId :: "string option"
  ch_editorial :: "string option"
  ch_authorNotes :: "string option"
  ch_contributedByOrgId :: "string option"
  ch_requiredProvider :: string
  ch_guestTrialEligible :: bool
  ch_createdAt :: int

record learning_module =
  mod_id :: string
  mod_title :: string
  mod_order :: int
  mod_pathId :: string

record learning_path =
  path_id :: string
  path_title :: string
  path_description :: string
  path_slug :: string
  path_icon :: "string option"
  path_timeEstimate :: "string option"
  path_category :: "string option"
  path_tags :: "string list"
  path_createdAt :: int

record lab_session =
  ls_id :: string
  ls_userId :: string
  ls_challengeId :: string
  ls_status :: session_status
  ls_startedAt :: int
  ls_endedAt :: "int option"

record completion =
  co_userId :: string
  co_nodeId :: string
  co_createdAt :: int

text \<open>A question of a quiz, with the fields that the code names and in the types it gives them.\<close>

record question =
  q_id :: string
  q_correctIndex :: int
  q_question :: "string option"
  q_text :: "string option"
  q_options :: "string list"
  q_explanation :: "string option"

text \<open>
  What the code reads of a quiz's metadata. Each entry may be missing; \<open>questions\<close> counts as missing
  if it is no array.
\<close>

record quiz_metadata =
  qm_slug :: "string option"
  qm_category :: "string option"
  qm_questions :: "question list option"
  qm_editorial :: "string option"
  qm_takeaways :: "string list option"

datatype node_metadata =
    NoMetadata
  | ScenarioMetadata int category difficulty "string list"
  | QuizMetadata quiz_metadata
  | OtherMetadata

record node =
  nd_id :: string
  nd_type :: node_type
  nd_title :: string
  nd_description :: string
  nd_metadata :: node_metadata

record edge =
  ed_fromId :: string
  ed_toId :: string

record run_result =
  rr_stdout :: string
  rr_stderr :: string
  rr_exitCode :: int
  rr_durationMs :: int

record submission =
  sub_status :: submission_status
  sub_userId :: string
  sub_challengeId :: string
  sub_result :: run_result
  sub_createdAt :: int

record check_result =
  cr_userId :: string
  cr_challengeId :: string
  cr_checkId :: string
  cr_status :: check_status
  cr_message :: string
  cr_lastRunAt :: int

record badge =
  bd_id :: string
  bd_slug :: string
  bd_title :: string
  bd_roadmapId :: "string option"

record user_badge =
  ub_userId :: string
  ub_badgeId :: string
  ub_earnedAt :: int

record quiz_attempt =
  qa_userId :: string
  qa_nodeId :: string
  qa_score :: int
  qa_total :: int
  qa_passed :: bool
  qa_answers :: "(string \<times> int) list"
  qa_createdAt :: int

record user_session =
  us_id :: string
  us_userId :: string
  us_tokenHash :: "string option"
  us_lastSeenAt :: int
  us_revokedAt :: "int option"

record security_log =
  sl_userId :: "string option"
  sl_action :: string
  sl_createdAt :: int

record pair_row =
  pr_targetId :: string
  pr_userId :: string
  pr_createdAt :: int

record comment =
  cm_id :: string
  cm_challengeId :: string
  cm_userId :: string
  cm_parentId :: "string option"
  cm_content :: string
  cm_isPinned :: bool
  cm_createdAt :: int

record comment_vote =
  cv_commentId :: string
  cv_userId :: string
  cv_vote :: int

record challenge_list =
  cl_id :: string
  cl_userId :: string
  cl_name :: string
  cl_description :: "string option"
  cl_isPublic :: bool
  cl_createdAt :: int

record list_item =
  li_listId :: string
  li_challengeId :: string
  li_order :: int

record org_scenario =
  os_id :: string
  os_orgId :: string
  os_createdByUserId :: string
  os_title :: string
  os_description :: string
  os_difficulty :: difficulty
  os_category :: category
  os_dockerImage :: string
  os_setupInstructions :: string
  os_checks :: "(string \<times> string \<times> string) list"
  os_status :: scenario_status
  os_createdAt :: int

record path_assignment =
  pa_orgId :: string
  pa_learningPathId :: string
  pa_userId :: "string option"
  pa_assignedByUserId :: string
  pa_assignedAt :: int

record article =
  art_id :: string
  art_slug :: string
  art_title :: string
  art_summary :: string
  art_content :: string
  art_category :: string
  art_badge :: string
  art_authorName :: string
  art_authorRole :: string
  art_authorAvatar :: "string option"
  art_readTime :: string
  art_tags :: "string list"
  art_featured :: bool
  art_publishedAt :: int

record article_report =
  rep_articleId :: string
  rep_userId :: string
  rep_reason :: string
  rep_details :: "string option"

text \<open>What a share token remembers of a solved challenge.\<close>

record share_snapshot =
  sn_challengeTitle :: string
  sn_difficulty :: difficulty
  sn_category :: category
  sn_xpEarned :: int
  sn_completedAt :: int
  sn_verifiedChecks :: "(string \<times> check_status \<times> string) list"

record share_token =
  sh_token :: string
  sh_type :: share_type
  sh_userId :: string
  sh_challengeId :: "string option"
  sh_custom :: string
  sh_snapshot :: "share_snapshot option"
  sh_views :: int
  sh_createdAt :: int

section \<open>Events and messages\<close>

datatype end_reason = EndCompleted | EndTerminated | EndExpired

datatype payload =
    SessionStarted string string string string int "string option"
  | SessionEnded string end_reason
  | OrgInviteSent string string string string
  | OrgMemberJoined string string org_role
  | UserRegistered string string "string option"
  | EmailVerificationRequested string string string
  | PasswordResetRequested string string string
  | UserDeleted string
  | WelcomeJob string string
  | VerificationJob string string string
  | Raw string

record outbox_event =
  ob_id :: string
  ob_eventType :: string
  ob_payload :: payload
  ob_processed :: bool
  ob_retryCount :: nat
  ob_failed :: bool
  ob_createdAt :: int

text \<open>The columns of a new event with their defaults.\<close>

definition new_outbox_event :: "string \<Rightarrow> string \<Rightarrow> payload \<Rightarrow> int \<Rightarrow> outbox_event" where
  "new_outbox_event i ty p t = \<lparr>ob_id = i, ob_eventType = ty, ob_payload = p, ob_processed = False,
     ob_retryCount = 0, ob_failed = False, ob_createdAt = t\<rparr>"

section \<open>The database\<close>

record db =
  users :: "user list"
  orgs :: "org list"
  orgMembers :: "org_member list"
  orgInvites :: "org_invite list"
  challenges :: "challenge list"
  modules :: "learning_module list"
  learningPaths :: "learning_path list"
  labSessions :: "lab_session list"
  completions :: "completion list"
  nodes :: "node list"
  edges :: "edge list"
  submissions :: "submission list"
  checkResults :: "check_result list"
  badges :: "badge list"
  userBadges :: "user_badge list"
  quizAttempts :: "quiz_attempt list"
  userSessions :: "user_session list"
  securityLogs :: "security_log list"
  challengeLikes :: "pair_row list"
  challengeBookmarks :: "pair_row list"
  userFollows :: "pair_row list"
  comments :: "comment list"
  commentVotes :: "comment_vote list"
  challengeLists :: "challenge_list list"
  listItems :: "list_item list"
  orgScenarios :: "org_scenario list"
  pathAssignments :: "path_assignment list"
  shareTokens :: "share_token list"
  articles :: "article list"
  articleLikes :: "pair_row list"
  articleBookmarks :: "pair_row list"
  articleReports :: "article_report list"
  coreOutbox :: "outbox_event list"
  authOutbox :: "outbox_event list"

definition pair_key :: "pair_row \<Rightarrow> string \<times> string" where
  "pair_key r = (pr_targetId r, pr_userId r)"

definition completion_key :: "completion \<Rightarrow> string \<times> string" where
  "completion_key c = (co_userId c, co_nodeId c)"

definition check_key :: "check_result \<Rightarrow> string \<times> string \<times> string" where
  "check_key c = (cr_userId c, cr_challengeId c, cr_checkId c)"

definition user_badge_key :: "user_badge \<Rightarrow> string \<times> string" where
  "user_badge_key b = (ub_userId b, ub_badgeId b)"

definition member_key :: "org_member \<Rightarrow> string \<times> string" where
  "member_key m = (mem_userId m, mem_orgId m)"

definition vote_key :: "comment_vote \<Rightarrow> string \<times> string" where
  "vote_key v = (cv_commentId v, cv_userId v)"

definition list_name_key :: "challenge_list \<Rightarrow> string \<times> string" where
  "list_name_key l = (cl_userId l, cl_name l)"

definition item_key :: "list_item \<Rightarrow> string \<times> string" where
  "item_key i = (li_listId i, li_challengeId i)"

abbreviation has_user :: "db \<Rightarrow> string \<Rightarrow> bool" where
  "has_user d u \<equiv> has_key user_id u (users d)"

abbreviation has_challenge :: "db \<Rightarrow> string \<Rightarrow> bool" where
  "has_challenge d c \<equiv> has_key ch_id c (challenges d)"

abbreviation find_user :: "string \<Rightarrow> db \<Rightarrow> user option" where
  "find_user u d \<equiv> find (\<lambda>r. user_id r = u) (users d)"

abbreviation find_challenge :: "string \<Rightarrow> db \<Rightarrow> challenge option" where
  "find_challenge c d \<equiv> find (\<lambda>r. ch_id r = c) (challenges d)"

abbreviation find_session :: "string \<Rightarrow> db \<Rightarrow> lab_session option" where
  "find_session i d \<equiv> find (\<lambda>s. ls_id s = i) (labSessions d)"

text \<open>
  The keys of the tables that the theorems rely on, a selection of the \<open>@id\<close>, \<open>@unique\<close>, \<open>@@id\<close> and
  \<open>@@unique\<close> of the schema. Keys that no statement needs are left out: the user names and the identifiers
  at the providers, the slugs of challenges and paths, the pairs of edges, the hashes of sessions and the
  assignments of paths. The writes of the services are refused by the keys that are named where they are
  modelled.
\<close>

definition keys_ok :: "db \<Rightarrow> bool" where
  "keys_ok d \<longleftrightarrow>
     unique_by user_id (users d) \<and> unique_by user_email (users d) \<and>
     unique_by org_id (orgs d) \<and> unique_by org_slug (orgs d) \<and>
     unique_by member_key (orgMembers d) \<and>
     unique_by inv_id (orgInvites d) \<and> unique_by inv_token (orgInvites d) \<and>
     unique_by ch_id (challenges d) \<and>
     unique_by ls_id (labSessions d) \<and>
     unique_by completion_key (completions d) \<and>
     unique_by nd_id (nodes d) \<and>
     unique_by check_key (checkResults d) \<and>
     unique_by bd_slug (badges d) \<and>
     unique_by user_badge_key (userBadges d) \<and>
     unique_by pair_key (challengeLikes d) \<and> unique_by pair_key (challengeBookmarks d) \<and>
     unique_by pair_key (userFollows d) \<and>
     unique_by cm_id (comments d) \<and> unique_by vote_key (commentVotes d) \<and>
     unique_by cl_id (challengeLists d) \<and> unique_by list_name_key (challengeLists d) \<and>
     unique_by item_key (listItems d) \<and>
     unique_by us_id (userSessions d) \<and> unique_by sh_token (shareTokens d) \<and>
     unique_by art_id (articles d) \<and> unique_by art_slug (articles d) \<and>
     unique_by pair_key (articleLikes d) \<and> unique_by pair_key (articleBookmarks d)"

text \<open>
  The references between the tables that the theorems rely on, again a selection: those of users and
  learning paths to organizations, of challenges to modules and of modules to paths, of assignments to paths and of share tokens
  to challenges are left out.
\<close>

definition refs_ok :: "db \<Rightarrow> bool" where
  "refs_ok d \<longleftrightarrow>
     (\<forall>s \<in> set (labSessions d). has_user d (ls_userId s) \<and> has_challenge d (ls_challengeId s)) \<and>
     (\<forall>c \<in> set (completions d). has_user d (co_userId c) \<and> has_key nd_id (co_nodeId c) (nodes d)) \<and>
     (\<forall>b \<in> set (userBadges d). has_user d (ub_userId b) \<and> has_key bd_id (ub_badgeId b) (badges d)) \<and>
     (\<forall>s \<in> set (submissions d). has_user d (sub_userId s) \<and> has_challenge d (sub_challengeId s)) \<and>
     (\<forall>c \<in> set (checkResults d). has_user d (cr_userId c)) \<and>
     (\<forall>m \<in> set (orgMembers d). has_user d (mem_userId m) \<and> has_key org_id (mem_orgId m) (orgs d)) \<and>
     (\<forall>i \<in> set (orgInvites d). has_key org_id (inv_orgId i) (orgs d)) \<and>
     (\<forall>q \<in> set (quizAttempts d). has_user d (qa_userId q) \<and> has_key nd_id (qa_nodeId q) (nodes d)) \<and>
     (\<forall>e \<in> set (edges d). has_key nd_id (ed_fromId e) (nodes d) \<and> has_key nd_id (ed_toId e) (nodes d)) \<and>
     (\<forall>s \<in> set (userSessions d). has_user d (us_userId s)) \<and>
     (\<forall>r \<in> set (challengeLikes d). has_challenge d (pr_targetId r) \<and> has_user d (pr_userId r)) \<and>
     (\<forall>r \<in> set (challengeBookmarks d). has_challenge d (pr_targetId r) \<and> has_user d (pr_userId r)) \<and>
     (\<forall>r \<in> set (userFollows d). has_user d (pr_targetId r) \<and> has_user d (pr_userId r)) \<and>
     (\<forall>c \<in> set (comments d). has_user d (cm_userId c) \<and> has_challenge d (cm_challengeId c) \<and>
        (cm_parentId c = None \<or> cm_parentId c \<in> (\<lambda>p. Some (cm_id p)) ` set (comments d))) \<and>
     (\<forall>v \<in> set (commentVotes d). has_user d (cv_userId v) \<and> has_key cm_id (cv_commentId v) (comments d)) \<and>
     (\<forall>l \<in> set (challengeLists d). has_user d (cl_userId l)) \<and>
     (\<forall>i \<in> set (listItems d). has_key cl_id (li_listId i) (challengeLists d) \<and> has_challenge d (li_challengeId i)) \<and>
     (\<forall>s \<in> set (orgScenarios d). has_key org_id (os_orgId s) (orgs d) \<and> has_user d (os_createdByUserId s)) \<and>
     (\<forall>a \<in> set (pathAssignments d). has_key org_id (pa_orgId a) (orgs d)) \<and>
     (\<forall>s \<in> set (shareTokens d). has_user d (sh_userId s)) \<and>
     (\<forall>r \<in> set (articleLikes d). has_key art_id (pr_targetId r) (articles d) \<and> has_user d (pr_userId r)) \<and>
     (\<forall>r \<in> set (articleBookmarks d). has_key art_id (pr_targetId r) (articles d) \<and> has_user d (pr_userId r)) \<and>
     (\<forall>r \<in> set (articleReports d). has_key art_id (rep_articleId r) (articles d) \<and> has_user d (rep_userId r))"

definition constraints :: "db \<Rightarrow> bool" where
  "constraints d \<longleftrightarrow> keys_ok d \<and> refs_ok d"

text \<open>A write that the database refuses if one of its constraints would be violated.\<close>

fun guarded :: "(exn \<times> bool) list \<Rightarrow> db \<Rightarrow> db \<Rightarrow> (exn + unit) \<times> db" where
  "guarded [] d' d = (Inr (), d')"
| "guarded ((e, violated) # gs) d' d = (if violated then (Inl e, d) else guarded gs d' d)"

lemma guarded_cases: "snd (guarded gs d' d) = d' \<or> snd (guarded gs d' d) = d"
  by (induction gs) auto

section \<open>The world of a handler\<close>

record breaker =
  circuitOpenUntil :: int
  consecutiveFailures :: nat
  backoffMs :: int

record probe =
  probeCircuitOpenUntil :: int
  consecutiveProbeFailures :: nat

record 'r world =
  db :: db
  redis :: 'r
  kafka :: "(string \<times> payload) list"
  rabbit :: "(string \<times> payload) list"
  producerReady :: bool
  coreBreaker :: breaker
  authBreaker :: breaker
  probeState :: probe
  clock :: int
  calls :: nat
  fresh :: nat

text \<open>
  How an awaited call ends: it is done, it fails without an effect, or its effect happens and the
  acknowledgement is lost, so that the caller sees a throw. \<open>outcome\<close> and \<open>latency\<close> give
  both for the n-th call of a run; \<open>uuid\<close> gives the n-th generated identifier, and
  \<open>cuid\<close> the identifier that the database client generates for a new row of a table with the given ones.
\<close>

datatype outcome = Done | Failed | Unacked

datatype probe_answer = ProbeThrows | ProbeStatus int "bool option"

record 'r env =
  redis_api :: "'r redis_ops"
  outcome_of :: "nat \<Rightarrow> outcome"
  latency :: "nat \<Rightarrow> nat"
  uuid :: "nat \<Rightarrow> string"
  cuid :: "string list \<Rightarrow> string"
  publicGatewayUrl :: string
  sessionTTLMins :: int
  guestTrialTTLMins :: int
  probe_health :: "nat \<Rightarrow> string \<Rightarrow> probe_answer"
  fetch_guest_token :: "nat \<Rightarrow> string \<Rightarrow> string option"
  oneTransaction :: bool

text \<open>What the client promises of \<open>@default(cuid())\<close>.\<close>

definition cuid_fresh :: "'r env \<Rightarrow> bool" where
  "cuid_fresh E \<longleftrightarrow> (\<forall>ks. cuid E ks \<notin> set ks)"

definition tick :: "'r env \<Rightarrow> 'r world \<Rightarrow> 'r world" where
  "tick E w = w\<lparr>calls := Suc (calls w), clock := clock w + int (latency E (calls w))\<rparr>"

definition await :: "'r env \<Rightarrow> ('r world \<Rightarrow> (exn + 'a) \<times> 'r world) \<Rightarrow> ('r world, 'a) act" where
  "await E f = (\<lambda>w. let w1 = tick E w in
     case outcome_of E (calls w) of
       Done \<Rightarrow> f w1
     | Failed \<Rightarrow> (Inl ConnectionLost, w1)
     | Unacked \<Rightarrow> (Inl ConnectionLost, snd (f w1)))"

text \<open>\<open>Promise.race\<close> against a timer: the call goes on, but its caller sees the timeout.\<close>

definition await_within ::
  "'r env \<Rightarrow> nat \<Rightarrow> ('r world \<Rightarrow> (exn + 'a) \<times> 'r world) \<Rightarrow> ('r world, 'a) act" where
  "await_within E ms f = (\<lambda>w.
     if latency E (calls w) \<le> ms then await E f w
     else (Inl TimedOut,
       (snd (await E f w))\<lparr>clock := clock w + int ms\<rparr>))"

definition run_db :: "'r env \<Rightarrow> (db \<Rightarrow> (exn + 'a) \<times> db) \<Rightarrow> ('r world, 'a) act" where
  "run_db E f = await E (\<lambda>w. case f (db w) of (r, d) \<Rightarrow> (r, w\<lparr>db := d\<rparr>))"

definition query :: "'r env \<Rightarrow> (db \<Rightarrow> 'a) \<Rightarrow> ('r world, 'a) act" where
  "query E f = run_db E (\<lambda>d. (Inr (f d), d))"

definition write_db :: "'r env \<Rightarrow> (db \<Rightarrow> db) \<Rightarrow> ('r world, unit) act" where
  "write_db E f = run_db E (\<lambda>d. (Inr (), f d))"

text \<open>A column with the default \<open>now()\<close> is filled with the time at which the write runs.\<close>

definition run_db_at :: "'r env \<Rightarrow> (int \<Rightarrow> db \<Rightarrow> (exn + 'a) \<times> db) \<Rightarrow> ('r world, 'a) act" where
  "run_db_at E f = await E (\<lambda>w. case f (clock w) (db w) of (r, d) \<Rightarrow> (r, w\<lparr>db := d\<rparr>))"

definition redis_read ::
  "'r env \<Rightarrow> (int \<Rightarrow> 'r \<Rightarrow> 'a) \<Rightarrow> ('r world, 'a) act" where
  "redis_read E f = await E (\<lambda>w. (Inr (f (clock w) (redis w)), w))"

definition redis_write ::
  "'r env \<Rightarrow> (int \<Rightarrow> 'r \<Rightarrow> 'r) \<Rightarrow> ('r world, unit) act" where
  "redis_write E f = await E (\<lambda>w. (Inr (), w\<lparr>redis := f (clock w) (redis w)\<rparr>))"

definition redis_run ::
  "'r env \<Rightarrow> (int \<Rightarrow> 'r \<Rightarrow> 'a \<times> 'r) \<Rightarrow> ('r world, 'a) act" where
  "redis_run E f = await E (\<lambda>w. case f (clock w) (redis w) of (a, r) \<Rightarrow> (Inr a, w\<lparr>redis := r\<rparr>))"

definition now :: "('r world, int) act" where
  "now = look clock"

definition new_id :: "'r env \<Rightarrow> ('r world, string) act" where
  "new_id E = (\<lambda>w. (Inr (uuid E (fresh w)), w\<lparr>fresh := Suc (fresh w)\<rparr>))"

text \<open>A generated identifier that the database fills in while it runs the write.\<close>

definition with_id :: "'r env \<Rightarrow> (string \<Rightarrow> ('r world, 'a) act) \<Rightarrow> ('r world, 'a) act" where
  "with_id E f = bnd (new_id E) f"

text \<open>A random value of a library: a function of the number of the draw.\<close>

definition draw :: "(nat \<Rightarrow> 'a) \<Rightarrow> ('r world, 'a) act" where
  "draw f = (\<lambda>w. (Inr (f (fresh w)), w\<lparr>fresh := Suc (fresh w)\<rparr>))"

section \<open>Transactions\<close>

text \<open>
  Both clients of \<open>packages/db/index.ts\<close> extend every model operation so that it runs in a batch
  transaction of the base client. Prisma documents that \<open>$transaction\<close> of a client extended in
  this way may not work as intended: the operations given to it run in transactions of their own.
  \<open>oneTransaction\<close> tells which of the two holds of the client at hand. If it does not, a batch runs
  each of its operations and throws if one of them did, and an interactive transaction is its body.
\<close>

definition settled :: "('w, 'a) act \<Rightarrow> ('w, exn + 'a) act" where
  "settled m = (\<lambda>w. case m w of (r, w') \<Rightarrow> (Inr r, w'))"

definition both ::
  "(int \<Rightarrow> db \<Rightarrow> (exn + unit) \<times> db) \<Rightarrow> (int \<Rightarrow> db \<Rightarrow> (exn + 'a) \<times> db) \<Rightarrow> int \<Rightarrow> db \<Rightarrow> (exn + 'a) \<times> db" where
  "both f g t d = (case f t d of
       (Inl e, _) \<Rightarrow> (Inl e, d)
     | (Inr _, d1) \<Rightarrow> (case g t d1 of (Inl e, _) \<Rightarrow> (Inl e, d) | (Inr a, d2) \<Rightarrow> (Inr a, d2)))"

definition batch ::
  "'r env \<Rightarrow> (int \<Rightarrow> db \<Rightarrow> (exn + unit) \<times> db) \<Rightarrow> (int \<Rightarrow> db \<Rightarrow> (exn + 'a) \<times> db) \<Rightarrow> ('r world, 'a) act" where
  "batch E f g =
     (if oneTransaction E then run_db_at E (both f g)
      else
        bnd (settled (run_db_at E f)) (\<lambda>first.
        bnd (run_db_at E g) (\<lambda>a.
        case first of Inl e \<Rightarrow> throw e | Inr _ \<Rightarrow> ret a)))"

definition interactive :: "'r env \<Rightarrow> ('r world, 'a) act \<Rightarrow> ('r world, 'a) act" where
  "interactive E m =
     (if oneTransaction E then (\<lambda>w. case m w of
        (Inl e, v) \<Rightarrow> (Inl e, v\<lparr>db := db w\<rparr>)
      | (Inr a, v) \<Rightarrow> (case outcome_of E (calls v) of
            Done \<Rightarrow> (Inr a, tick E v)
          | Failed \<Rightarrow> (Inl ConnectionLost, (tick E v)\<lparr>db := db w\<rparr>)
          | Unacked \<Rightarrow> (Inl ConnectionLost, tick E v)))
      else m)"

lemma tick_simps [simp]:
  "db (tick E w) = db w" "redis (tick E w) = redis w" "kafka (tick E w) = kafka w"
  "rabbit (tick E w) = rabbit w" "fresh (tick E w) = fresh w"
  "producerReady (tick E w) = producerReady w" "coreBreaker (tick E w) = coreBreaker w"
  "authBreaker (tick E w) = authBreaker w" "probeState (tick E w) = probeState w"
  "calls (tick E w) = Suc (calls w)"
  "clock (tick E w) = clock w + int (latency E (calls w))"
  by (simp_all add: tick_def)

lemma await_Inr: "await E f w = (Inr a, w') \<Longrightarrow> f (tick E w) = (Inr a, w')"
  by (simp add: await_def Let_def split: outcome.splits)

lemma query_result: "query E f w =
   ((case outcome_of E (calls w) of Done \<Rightarrow> Inr (f (db w)) | _ \<Rightarrow> Inl ConnectionLost), tick E w)"
  by (cases "outcome_of E (calls w)") (simp_all add: query_def run_db_def await_def Let_def tick_def)

lemma query_Inr: "query E f w = (Inr a, w') \<Longrightarrow> f (db w) = a \<and> w' = tick E w"
  by (simp add: query_result split: outcome.splits)

text \<open>A batch that returns has done both operations.\<close>

lemma run_db_at_Inr:
  "run_db_at E f w = (Inr a, v) \<Longrightarrow> \<exists>d. f (clock (tick E w)) (db w) = (Inr a, d) \<and> v = (tick E w)\<lparr>db := d\<rparr>"
  unfolding run_db_at_def by (auto dest!: await_Inr simp del: tick_simps(11) split: prod.splits)

lemma batch_Inr:
  assumes "batch E f g w = (Inr a, v)"
  obtains t t' d where "f t (db w) = (Inr (), d)" and "g t' d = (Inr a, db v)"
    and "kafka v = kafka w" and "rabbit v = rabbit w" and "redis v = redis w"
proof (cases "oneTransaction E")
  case True
  with assms have "run_db_at E (both f g) w = (Inr a, v)" by (simp add: batch_def)
  from run_db_at_Inr [OF this] obtain d2 where
    "both f g (clock (tick E w)) (db w) = (Inr a, d2)" and "v = (tick E w)\<lparr>db := d2\<rparr>" by blast
  then show ?thesis
    using that [of "clock (tick E w)" _ "clock (tick E w)"]
    by (auto simp: both_def simp del: tick_simps(11) split: prod.splits sum.splits)
next
  case False
  with assms obtain u where f: "run_db_at E f w = (Inr (), u)" and g: "run_db_at E g u = (Inr a, v)"
    by (auto simp: batch_def settled_def ret_def throw_def elim!: bnd_InrE split: prod.splits sum.splits)
  from run_db_at_Inr [OF f] obtain d where d: "f (clock (tick E w)) (db w) = (Inr (), d)"
    "u = (tick E w)\<lparr>db := d\<rparr>" by blast
  from run_db_at_Inr [OF g] d show ?thesis
    using that [of "clock (tick E w)" d "clock (tick E u)"] by (auto simp del: tick_simps(11))
qed

section \<open>What awaited calls respect\<close>

locale world_order = effect_order R
  for R :: "'r world \<Rightarrow> 'r world \<Rightarrow> bool" +
  assumes tick_step: "R w (w\<lparr>calls := n, clock := t\<rparr>)"
    and clock_step: "R w (w\<lparr>clock := t\<rparr>)"
    and fresh_step: "R w (w\<lparr>fresh := n\<rparr>)"
begin

lemma tick_moves: "R w (tick E w)"
  by (simp add: tick_def tick_step)

lemma moves_await:
  assumes "\<And>w. R w (snd (f w))"
  shows "moves R (await E f)"
proof (rule movesI)
  fix w
  have "R w (snd (f (tick E w)))" using tick_moves assms by (rule trans_step)
  then show "R w (snd (await E f w))"
    by (simp add: await_def Let_def tick_moves split: outcome.split)
qed

lemma moves_await_within:
  assumes "\<And>w. R w (snd (f w))"
  shows "moves R (await_within E ms f)"
proof (rule movesI)
  fix w
  have step: "R w (snd (await E f w))" using moves_await [OF assms] by (simp add: moves_def)
  with clock_step show "R w (snd (await_within E ms f w))"
    by (auto simp: await_within_def intro: trans_step)
qed

lemma moves_new_id: "moves R (new_id E)"
  by (simp add: moves_def new_id_def fresh_step)

lemma moves_draw: "moves R (draw f)"
  by (simp add: moves_def draw_def fresh_step)

lemma moves_now: "moves R now"
  by (simp add: now_def moves_look)

lemma moves_with_id: "(\<And>i. moves R (f i)) \<Longrightarrow> moves R (with_id E f)"
  by (simp add: with_id_def moves_bnd moves_new_id)

end

text \<open>
  Facts about the database alone: every call to a broker, to Redis or to the clock is invisible to
  them, and a call to the database needs only the write itself to be looked at.
\<close>

definition on_db :: "(db \<Rightarrow> db \<Rightarrow> bool) \<Rightarrow> 'r world \<Rightarrow> 'r world \<Rightarrow> bool" where
  "on_db P v w \<longleftrightarrow> P (db v) (db w)"

locale db_order =
  fixes P :: "db \<Rightarrow> db \<Rightarrow> bool"
  assumes db_refl: "P d d"
    and db_trans: "P a b \<Longrightarrow> P b c \<Longrightarrow> P a c"

sublocale db_order \<subseteq> lifted: world_order "on_db P"
  by unfold_locales (auto simp: on_db_def db_refl intro: db_trans)

context db_order
begin

lemma moves_quiet: "(\<And>w. db (snd (f w)) = db w) \<Longrightarrow> moves (on_db P) (await E f)"
  by (rule lifted.moves_await) (simp add: on_db_def db_refl)

lemma moves_quiet_within: "(\<And>w. db (snd (f w)) = db w) \<Longrightarrow> moves (on_db P) (await_within E ms f)"
  by (rule lifted.moves_await_within) (simp add: on_db_def db_refl)

lemma moves_redis:
  "moves (on_db P) (redis_read E f1)"
  "moves (on_db P) (redis_write E f2)"
  "moves (on_db P) (redis_run E f3)"
  unfolding redis_read_def redis_write_def redis_run_def
  by (rule moves_quiet, simp split: prod.split)+

lemma moves_quiet_change: "(\<And>w. db (f w) = db w) \<Longrightarrow> moves (on_db P) (change f)"
  by (rule lifted.moves_change) (simp add: on_db_def db_refl)

lemma moves_run_db: "(\<And>d. P d (snd (f d))) \<Longrightarrow> moves (on_db P) (run_db E f)"
  unfolding run_db_def
  by (rule lifted.moves_await) (auto simp: on_db_def split: prod.split, metis snd_conv)

lemma moves_run_db_at: "(\<And>t d. P d (snd (f t d))) \<Longrightarrow> moves (on_db P) (run_db_at E f)"
  unfolding run_db_at_def
  by (rule lifted.moves_await) (auto simp: on_db_def split: prod.split, metis snd_conv)

lemma moves_query: "moves (on_db P) (query E f)"
  unfolding query_def by (rule moves_run_db) (simp add: db_refl)

lemma moves_write: "(\<And>d. P d (f d)) \<Longrightarrow> moves (on_db P) (write_db E f)"
  unfolding write_db_def by (rule moves_run_db) simp

lemma moves_settled: "moves (on_db P) m \<Longrightarrow> moves (on_db P) (settled m)"
  by (simp add: moves_def settled_def case_prod_beta)

lemma moves_batch:
  assumes "\<And>t d. P d (snd (f t d))" and "\<And>t d. P d (snd (g t d))"
  shows "moves (on_db P) (batch E f g)"
proof -
  have "P d (snd (both f g t d))" for t d
    using db_trans [OF assms(1) [of d t] assms(2) [of "snd (f t d)" t]] db_refl
    by (auto simp: both_def split: prod.split sum.split)
  then have one: "moves (on_db P) (run_db_at E (both f g))" by (rule moves_run_db_at)
  have two: "moves (on_db P) (run_db_at E f)" "moves (on_db P) (run_db_at E g)"
    by (intro moves_run_db_at assms)+
  show ?thesis
    unfolding batch_def
    by (auto intro!: one two lifted.moves_basic moves_settled split: sum.split)
qed

lemma moves_batch_one:
  "oneTransaction E \<Longrightarrow> (\<And>t d. P d (snd (both f g t d))) \<Longrightarrow> moves (on_db P) (batch E f g)"
  by (simp add: batch_def moves_run_db_at)

lemma moves_interactive:
  assumes "moves (on_db P) m"
  shows "moves (on_db P) (interactive E m)"
  using assms
  by (auto simp: interactive_def moves_def on_db_def db_refl split: prod.split sum.split outcome.split)
     (metis snd_conv)+

lemma atomic_step:
  assumes "\<And>d. P d (snd (f d))"
  shows "P d (snd (atomic f d))"
proof -
  from assms have "P d (snd (f d))" .
  then show ?thesis by (auto simp: atomic_def db_refl split: prod.split sum.split)
qed

lemma guarded_step: "P d d' \<Longrightarrow> P d (snd (guarded gs d' d))"
  using guarded_cases [of gs d' d] db_refl by auto

lemmas db_moves =
  lifted.moves_basic lifted.moves_new_id lifted.moves_draw lifted.moves_now lifted.moves_with_id
  moves_redis moves_query

end

text \<open>Invariants of the database, and relations between its states, are of this kind.\<close>

interpretation kept: db_order "keeping I" for I
  by unfold_locales (auto simp: keeping_def)

interpretation fixed: db_order "fixing f" for f
  by unfold_locales (auto simp: fixing_def)

section \<open>What a run does to the database\<close>

text \<open>
  \<open>db_post m d Q\<close>: a run of \<open>m\<close> that starts with the database \<open>d\<close>, whatever the other parts
  of the world and however its calls end, gives a result and a database that \<open>Q\<close> holds of. The
  rules below compute it along the structure of \<open>m\<close>.
\<close>

definition db_post :: "('r world, 'a) act \<Rightarrow> db \<Rightarrow> (exn + 'a \<Rightarrow> db \<Rightarrow> bool) \<Rightarrow> bool" where
  "db_post m d Q \<longleftrightarrow> (\<forall>w. db w = d \<longrightarrow> Q (fst (m w)) (db (snd (m w))))"

named_theorems post_rules "rules that compute the outcomes of an action"
named_theorems calm_rules "rules that compute the outcome of an action whose calls are all done"

lemma db_postD: "db_post m d Q \<Longrightarrow> m w = (r, w') \<Longrightarrow> db w = d \<Longrightarrow> Q r (db w')"
  unfolding db_post_def by (metis fst_conv snd_conv)

lemma db_post_moves: "(\<And>d. db_post m d (\<lambda>_ d'. P d d')) \<Longrightarrow> moves (on_db P) m"
  by (simp add: db_post_def moves_def on_db_def)

lemma moves_db_post: "moves (on_db P) m \<Longrightarrow> db_post m d (\<lambda>_ d'. P d d')"
  by (auto simp: db_post_def moves_def on_db_def)

lemma moves_db_run: "moves (on_db P) m \<Longrightarrow> P (db w) (db (snd (m w)))"
  by (simp add: moves_def on_db_def)

lemma db_post_run: "db_post m d Q \<Longrightarrow> db w = d \<Longrightarrow> Q (fst (m w)) (db (snd (m w)))"
  by (simp add: db_post_def)

lemma db_post_conseq:
  "db_post m d Q' \<Longrightarrow> (\<And>r d'. Q' r d' \<Longrightarrow> Q r d') \<Longrightarrow> db_post m d Q"
  by (auto simp: db_post_def)

lemma db_post_conj: "db_post m d Q \<Longrightarrow> db_post m d Q' \<Longrightarrow> db_post m d (\<lambda>r d'. Q r d' \<and> Q' r d')"
  by (auto simp: db_post_def)

lemma post_ret [post_rules, calm_rules]: "Q (Inr a) d \<Longrightarrow> db_post (ret a) d Q"
  by (simp add: db_post_def ret_def)

lemma post_throw [post_rules, calm_rules]: "Q (Inl e) d \<Longrightarrow> db_post (throw e) d Q"
  by (simp add: db_post_def throw_def)

lemma post_bnd_conseq:
  assumes "db_post m d Q'" and "\<And>e d'. Q' (Inl e) d' \<Longrightarrow> Q (Inl e) d'"
    and "\<And>a d'. Q' (Inr a) d' \<Longrightarrow> db_post (f a) d' Q"
  shows "db_post (bnd m f) d Q"
  unfolding db_post_def
proof (intro allI impI)
  fix w :: "'a world" assume w: "db w = d"
  obtain r v where run: "m w = (r, v)" by fastforce
  with assms(1) w have Q': "Q' r (db v)" by (auto dest: db_postD)
  show "Q (fst (bnd m f w)) (db (snd (bnd m f w)))"
  proof (cases r)
    case (Inl e)
    with Q' assms(2) run show ?thesis by (simp add: bnd_def)
  next
    case (Inr a)
    with Q' have "db_post (f a) (db v) Q" using assms(3) by simp
    with run Inr show ?thesis by (simp add: bnd_def db_post_def)
  qed
qed

definition passing ::
  "('a \<Rightarrow> ('r world, 'b) act) \<Rightarrow> (exn + 'b \<Rightarrow> db \<Rightarrow> bool) \<Rightarrow> exn + 'a \<Rightarrow> db \<Rightarrow> bool" where
  "passing f Q r d = (case r of Inl e \<Rightarrow> Q (Inl e) d | Inr a \<Rightarrow> db_post (f a) d Q)"

definition recovering ::
  "(exn \<Rightarrow> ('r world, 'a) act) \<Rightarrow> (exn + 'a \<Rightarrow> db \<Rightarrow> bool) \<Rightarrow> exn + 'a \<Rightarrow> db \<Rightarrow> bool" where
  "recovering h Q r d = (case r of Inl e \<Rightarrow> db_post (h e) d Q | Inr a \<Rightarrow> Q (Inr a) d)"

lemma passing_simps [post_rules, calm_rules]:
  "Q (Inl e) d \<Longrightarrow> passing f Q (Inl e) d"
  "db_post (f a) d Q' \<Longrightarrow> passing f Q' (Inr a) d"
  by (simp_all add: passing_def)

lemma recovering_simps [post_rules, calm_rules]:
  "db_post (h e) d Q \<Longrightarrow> recovering h Q (Inl e) d"
  "Q' (Inr a) d \<Longrightarrow> recovering h Q' (Inr a) d"
  by (simp_all add: recovering_def)

lemma post_bnd [post_rules, calm_rules]: "db_post m d (passing f Q) \<Longrightarrow> db_post (bnd m f) d Q"
  by (erule post_bnd_conseq) (simp_all add: passing_def)

lemma post_sq [post_rules, calm_rules]: "db_post m d (passing (\<lambda>_. k) Q) \<Longrightarrow> db_post (sq m k) d Q"
  unfolding sq_def by (rule post_bnd)

lemma post_sq_conseq:
  assumes "db_post m d Q'" and "\<And>e d'. Q' (Inl e) d' \<Longrightarrow> Q (Inl e) d'"
    and "\<And>a d'. Q' (Inr a) d' \<Longrightarrow> db_post k d' Q"
  shows "db_post (sq m k) d Q"
  unfolding sq_def by (rule post_bnd_conseq [OF assms])

lemma post_catch [post_rules, calm_rules]:
  assumes "db_post m d (recovering h Q)"
  shows "db_post (catch m h) d Q"
  unfolding db_post_def
proof (intro allI impI)
  fix w :: "'a world" assume w: "db w = d"
  obtain r v where run: "m w = (r, v)" by fastforce
  with assms w have "case r of Inl e \<Rightarrow> db_post (h e) (db v) Q | Inr a \<Rightarrow> Q (Inr a) (db v)"
    by (auto dest: db_postD simp: recovering_def)
  with run show "Q (fst (catch m h w)) (db (snd (catch m h w)))"
    by (auto simp: catch_def db_post_def split: sum.split)
qed

lemma post_await:
  fixes E :: "'r env"
  assumes "Q (Inl ConnectionLost) d"
    and "\<And>w. db w = d \<Longrightarrow> Q (fst (f w)) (db (snd (f w)))"
    and "\<And>w. db w = d \<Longrightarrow> Q (Inl ConnectionLost) (db (snd (f w)))"
  shows "db_post (await E f) d Q"
  unfolding db_post_def
proof (intro allI impI)
  fix w :: "'r world" assume "db w = d"
  then have "db (tick E w) = d" by simp
  with assms(1) assms(2,3) [of "tick E w"] show "Q (fst (await E f w)) (db (snd (await E f w)))"
    by (simp add: await_def Let_def split: outcome.split)
qed

lemma post_query [post_rules]:
  "Q (Inl ConnectionLost) d \<Longrightarrow> Q (Inr (f d)) d \<Longrightarrow> db_post (query E f) d Q"
  unfolding query_def run_db_def by (rule post_await) auto

lemma post_run_db:
  "Q (Inl ConnectionLost) d \<Longrightarrow> Q (fst (f d)) (snd (f d)) \<Longrightarrow> Q (Inl ConnectionLost) (snd (f d)) \<Longrightarrow>
   db_post (run_db E f) d Q"
  unfolding run_db_def by (rule post_await) (auto split: prod.split)

lemma post_run_db_at:
  "Q (Inl ConnectionLost) d \<Longrightarrow> (\<And>t. Q (fst (f t d)) (snd (f t d))) \<Longrightarrow>
   (\<And>t. Q (Inl ConnectionLost) (snd (f t d))) \<Longrightarrow> db_post (run_db_at E f) d Q"
  unfolding run_db_at_def
  by (rule post_await) (auto split: prod.split, (metis fst_conv snd_conv)+)

lemma guarded_ok: "list_all (\<lambda>g. \<not> snd g) gs \<Longrightarrow> guarded gs d' d = (Inr (), d')"
  by (induction gs) auto

lemma guarded_outcomes:
  "(\<exists>e. guarded gs d' d = (Inl e, d)) \<or> list_all (\<lambda>g. \<not> snd g) gs \<and> guarded gs d' d = (Inr (), d')"
proof (induction gs)
  case (Cons g gs)
  then show ?case by (cases g; cases "snd g") auto
qed simp

text \<open>A write under constraints: either one of them is violated, or the write happens.\<close>

lemma guarded_split:
  "(\<And>e. Q (Inl e) d) \<Longrightarrow> (list_all (\<lambda>g. \<not> snd g) gs \<Longrightarrow> Q (Inr ()) d') \<Longrightarrow>
   Q (fst (guarded gs d' d)) (snd (guarded gs d' d))"
  by (induction gs) auto

lemma post_guarded [post_rules]:
  assumes "\<And>e. Q (Inl e) d"
    and "list_all (\<lambda>g. \<not> snd g) (gs d) \<Longrightarrow> Q (Inr ()) (u d)"
    and "list_all (\<lambda>g. \<not> snd g) (gs d) \<Longrightarrow> Q (Inl ConnectionLost) (u d)"
  shows "db_post (run_db E (\<lambda>d. guarded (gs d) (u d) d)) d Q"
  using assms
  by (auto intro!: post_run_db guarded_split [where Q = Q] guarded_split [where Q = "\<lambda>_. Q (Inl ConnectionLost)"])

lemma post_guarded_at [post_rules]:
  assumes "\<And>e. Q (Inl e) d"
    and "\<And>t. list_all (\<lambda>g. \<not> snd g) (gs t d) \<Longrightarrow> Q (Inr ()) (u t d)"
    and "\<And>t. list_all (\<lambda>g. \<not> snd g) (gs t d) \<Longrightarrow> Q (Inl ConnectionLost) (u t d)"
  shows "db_post (run_db_at E (\<lambda>t d. guarded (gs t d) (u t d) d)) d Q"
  using assms
  by (auto intro!: post_run_db_at guarded_split [where Q = Q] guarded_split [where Q = "\<lambda>_. Q (Inl ConnectionLost)"])

lemma post_write_db [post_rules]:
  "Q (Inl ConnectionLost) d \<Longrightarrow> Q (Inr ()) (f d) \<Longrightarrow> Q (Inl ConnectionLost) (f d) \<Longrightarrow>
   db_post (write_db E f) d Q"
  unfolding write_db_def by (rule post_run_db) simp_all

text \<open>Calls that leave the database alone: their answer is arbitrary here.\<close>

lemma post_quiet:
  "(\<And>w. db (snd (f w)) = db w) \<Longrightarrow> (\<And>r. Q r d) \<Longrightarrow> db_post (await E f) d Q"
  by (rule post_await) auto

lemma post_quiet_within:
  "(\<And>w. db (snd (f w)) = db w) \<Longrightarrow> (\<And>r. Q r d) \<Longrightarrow> db_post (await_within E ms f) d Q"
  by (auto simp: db_post_def await_within_def await_def Let_def split: outcome.split)

lemma post_redis [post_rules]:
  "(\<And>e. Q (Inl e) d) \<Longrightarrow> (\<And>a. Q (Inr a) d) \<Longrightarrow> db_post (redis_read E f1) d Q"
  "(\<And>e. Q2 (Inl e) d) \<Longrightarrow> Q2 (Inr ()) d \<Longrightarrow> db_post (redis_write E f2) d Q2"
  "(\<And>e. Q3 (Inl e) d) \<Longrightarrow> (\<And>a. Q3 (Inr a) d) \<Longrightarrow> db_post (redis_run E f3) d Q3"
  unfolding redis_read_def redis_write_def redis_run_def
  by (rule post_await, auto split: prod.split)+

lemma post_now [post_rules, calm_rules]: "(\<And>t. Q (Inr t) d) \<Longrightarrow> db_post now d Q"
  by (simp add: db_post_def now_def look_def)

lemma post_new_id [post_rules, calm_rules]: "(\<And>i. Q (Inr i) d) \<Longrightarrow> db_post (new_id E) d Q"
  by (simp add: db_post_def new_id_def)

lemma post_draw [post_rules, calm_rules]: "(\<And>n. Q (Inr (f n)) d) \<Longrightarrow> db_post (draw f) d Q"
  by (simp add: db_post_def draw_def)

lemma post_look [post_rules, calm_rules]: "(\<And>w. db w = d \<Longrightarrow> Q (Inr (f w)) d) \<Longrightarrow> db_post (look f) d Q"
  by (simp add: db_post_def look_def)

lemma post_change: "(\<And>w. db (f w) = db w) \<Longrightarrow> Q (Inr ()) d \<Longrightarrow> db_post (change f) d Q"
  by (simp add: db_post_def change_def)

lemma post_when [post_rules, calm_rules]:
  "(b \<Longrightarrow> db_post m d Q) \<Longrightarrow> (\<not> b \<Longrightarrow> Q (Inr ()) d) \<Longrightarrow> db_post (when_act b m) d Q"
  by (simp add: when_act_def post_ret)

lemma post_if [post_rules, calm_rules]:
  "(b \<Longrightarrow> db_post m d Q) \<Longrightarrow> (\<not> b \<Longrightarrow> db_post k d Q) \<Longrightarrow> db_post (if b then m else k) d Q"
  by simp

lemma post_option [post_rules, calm_rules]:
  "(x = None \<Longrightarrow> db_post m d Q) \<Longrightarrow> (\<And>a. x = Some a \<Longrightarrow> db_post (f a) d Q) \<Longrightarrow>
   db_post (case x of None \<Rightarrow> m | Some a \<Rightarrow> f a) d Q"
  by (cases x) simp_all

lemma post_sum [post_rules, calm_rules]:
  "(\<And>e. x = Inl e \<Longrightarrow> db_post (m e) d Q) \<Longrightarrow> (\<And>a. x = Inr a \<Longrightarrow> db_post (f a) d Q) \<Longrightarrow>
   db_post (case x of Inl e \<Rightarrow> m e | Inr a \<Rightarrow> f a) d Q"
  by (cases x) simp_all

lemma post_prod [post_rules, calm_rules]:
  "(\<And>a b. p = (a, b) \<Longrightarrow> db_post (f a b) d Q) \<Longrightarrow> db_post (case p of (a, b) \<Rightarrow> f a b) d Q"
  by (cases p) simp

lemma post_let [post_rules, calm_rules]: "(\<And>x. x = t \<Longrightarrow> db_post (f x) d Q) \<Longrightarrow> db_post (let x = t in f x) d Q"
  by simp

text \<open>A batch of a write under constraints and one that always succeeds, such as an outbox row.\<close>

lemma post_settled: "db_post m d (\<lambda>r. Q (Inr r)) \<Longrightarrow> db_post (settled m) d Q"
  by (simp add: db_post_def settled_def case_prod_beta)

lemma post_batch [post_rules]:
  assumes "\<And>e. Q (Inl e) d" and "\<And>e t. Q (Inl e) (v t d)"
    and "\<And>t. list_all (\<lambda>g. \<not> snd g) (gs t d) \<Longrightarrow> Q (Inl ConnectionLost) (u t d)"
    and "\<And>t t'. list_all (\<lambda>g. \<not> snd g) (gs t d) \<Longrightarrow> Q (Inl ConnectionLost) (v t' (u t d))"
    and "\<And>t t'. list_all (\<lambda>g. \<not> snd g) (gs t d) \<Longrightarrow> Q (Inr (a t' (u t d))) (v t' (u t d))"
  shows "db_post (batch E (\<lambda>t d. guarded (gs t d) (u t d) d) (\<lambda>t d. (Inr (a t d), v t d))) d Q"
proof (cases "oneTransaction E")
  case True
  have one: "both (\<lambda>t d. guarded (gs t d) (u t d) d) (\<lambda>t d. (Inr (a t d), v t d)) t d = (Inl e, d)"
    if "guarded (gs t d) (u t d) d = (Inl e, d)" for t e using that by (simp add: both_def)
  have two: "both (\<lambda>t d. guarded (gs t d) (u t d) d) (\<lambda>t d. (Inr (a t d), v t d)) t d =
      (Inr (a t (u t d)), v t (u t d))" if "guarded (gs t d) (u t d) d = (Inr (), u t d)" for t
    using that by (simp add: both_def)
  have outcome: "Q (fst (both (\<lambda>t d. guarded (gs t d) (u t d) d) (\<lambda>t d. (Inr (a t d), v t d)) t d))
        (snd (both (\<lambda>t d. guarded (gs t d) (u t d) d) (\<lambda>t d. (Inr (a t d), v t d)) t d)) \<and>
      Q (Inl ConnectionLost) (snd (both (\<lambda>t d. guarded (gs t d) (u t d) d) (\<lambda>t d. (Inr (a t d), v t d)) t d))"
    for t using guarded_outcomes [of "gs t d" "u t d" d] assms
    by (auto simp: one two)
  show ?thesis
    unfolding batch_def using True assms(1) outcome by (simp add: post_run_db_at)
next
  case False
  then show ?thesis
    by (simp add: batch_def, intro post_rules post_settled post_run_db_at)
       (auto simp: passing_def intro!: post_rules assms)
qed

text \<open>
  An interactive transaction: if its body throws, the writes are undone or not; if it returns, they
  stay unless the commit fails.
\<close>

definition settling :: "db \<Rightarrow> (exn + 'a \<Rightarrow> db \<Rightarrow> bool) \<Rightarrow> exn + 'a \<Rightarrow> db \<Rightarrow> bool" where
  "settling d0 Q r d = (case r of
       Inl e \<Rightarrow> Q (Inl e) d0 \<and> Q (Inl e) d
     | Inr a \<Rightarrow> Q (Inr a) d \<and> Q (Inl ConnectionLost) d0 \<and> Q (Inl ConnectionLost) d)"

lemma settling_simps [post_rules]:
  "Q (Inl e) d0 \<Longrightarrow> Q (Inl e) d \<Longrightarrow> settling d0 Q (Inl e) d"
  "Q2 (Inr a) d \<Longrightarrow> Q2 (Inl ConnectionLost) d0 \<Longrightarrow> Q2 (Inl ConnectionLost) d \<Longrightarrow> settling d0 Q2 (Inr a) d"
  by (simp_all add: settling_def)

lemma post_interactive [post_rules]:
  assumes "db_post m d (settling d Q)"
  shows "db_post (interactive E m) d Q"
  unfolding db_post_def
proof (intro allI impI)
  fix w :: "'a world" assume w: "db w = d"
  obtain r v where run: "m w = (r, v)" by fastforce
  with assms w have "settling d Q r (db v)" by (auto dest: db_postD)
  with run w show "Q (fst (interactive E m w)) (db (snd (interactive E m w)))"
    by (auto simp: interactive_def settling_def split: sum.split outcome.split)
qed

section \<open>Runs without a fault\<close>

text \<open>
  In a calm environment every awaited call is done. What a handler promises when nothing fails is
  computed with \<open>calm_rules\<close>, which differ from \<open>post_rules\<close> in the calls only.
\<close>

definition calm :: "'r env \<Rightarrow> bool" where
  "calm E \<longleftrightarrow> (\<forall>n. outcome_of E n = Done)"

lemma calm_await:
  fixes E :: "'r env"
  assumes "calm E" and "\<And>w. db w = d \<Longrightarrow> Q (fst (f w)) (db (snd (f w)))"
  shows "db_post (await E f) d Q"
  unfolding db_post_def
proof (intro allI impI)
  fix w :: "'r world" assume "db w = d"
  then have "db (tick E w) = d" by simp
  with assms(1) assms(2) [of "tick E w"] show "Q (fst (await E f w)) (db (snd (await E f w)))"
    by (simp add: await_def Let_def calm_def)
qed

lemma calm_run_db: "calm E \<Longrightarrow> Q (fst (f d)) (snd (f d)) \<Longrightarrow> db_post (run_db E f) d Q"
  unfolding run_db_def by (rule calm_await) (auto split: prod.split)

lemma calm_run_db_at:
  "calm E \<Longrightarrow> (\<And>t. Q (fst (f t d)) (snd (f t d))) \<Longrightarrow> db_post (run_db_at E f) d Q"
  unfolding run_db_at_def by (rule calm_await) (auto split: prod.split, metis fst_conv snd_conv)

lemma calm_query [calm_rules]: "calm E \<Longrightarrow> Q (Inr (f d)) d \<Longrightarrow> db_post (query E f) d Q"
  unfolding query_def by (rule calm_run_db) simp_all

lemma calm_write_db [calm_rules]: "calm E \<Longrightarrow> Q (Inr ()) (f d) \<Longrightarrow> db_post (write_db E f) d Q"
  unfolding write_db_def by (rule calm_run_db) simp_all

lemma calm_guarded [calm_rules]:
  "calm E \<Longrightarrow> list_all (\<lambda>g. \<not> snd g) (gs d) \<Longrightarrow> Q (Inr ()) (u d) \<Longrightarrow>
   db_post (run_db E (\<lambda>d. guarded (gs d) (u d) d)) d Q"
  by (rule calm_run_db) (simp_all add: guarded_ok)

lemma calm_guarded_at [calm_rules]:
  "calm E \<Longrightarrow> (\<And>t. list_all (\<lambda>g. \<not> snd g) (gs t d)) \<Longrightarrow> (\<And>t. Q (Inr ()) (u t d)) \<Longrightarrow>
   db_post (run_db_at E (\<lambda>t d. guarded (gs t d) (u t d) d)) d Q"
  by (rule calm_run_db_at) (simp_all add: guarded_ok)

lemma calm_settled [calm_rules]: "db_post m d (\<lambda>r. Q (Inr r)) \<Longrightarrow> db_post (settled m) d Q"
  by (rule post_settled)

lemma calm_batch [calm_rules]:
  assumes "calm E" and "\<And>t. list_all (\<lambda>g. \<not> snd g) (gs t d)"
    and "\<And>t t'. Q (Inr (a t' (u t d))) (v t' (u t d))"
  shows "db_post (batch E (\<lambda>t d. guarded (gs t d) (u t d) d) (\<lambda>t d. (Inr (a t d), v t d))) d Q"
proof (cases "oneTransaction E")
  case True
  have "both (\<lambda>t d. guarded (gs t d) (u t d) d) (\<lambda>t d. (Inr (a t d), v t d)) t d =
      (Inr (a t (u t d)), v t (u t d))" for t
    using assms(2) [of t] by (simp add: both_def guarded_ok)
  with True assms(1,3) show ?thesis by (simp add: batch_def calm_run_db_at)
next
  case False
  then show ?thesis
    by (simp add: batch_def, intro calm_rules calm_run_db_at assms(1))
       (auto simp: passing_def guarded_ok assms intro!: calm_rules calm_run_db_at)
qed

lemma calm_interactive [calm_rules]:
  assumes "calm E" and "db_post m d (\<lambda>r d'. case r of Inl e \<Rightarrow> Q (Inl e) d \<and> Q (Inl e) d' | Inr a \<Rightarrow> Q (Inr a) d')"
  shows "db_post (interactive E m) d Q"
  unfolding db_post_def
proof (intro allI impI)
  fix w :: "'a world" assume w: "db w = d"
  obtain r v where run: "m w = (r, v)" by fastforce
  with assms w have "case r of Inl e \<Rightarrow> Q (Inl e) d \<and> Q (Inl e) (db v) | Inr a \<Rightarrow> Q (Inr a) (db v)"
    by (auto dest: db_postD)
  with run w assms(1) show "Q (fst (interactive E m w)) (db (snd (interactive E m w)))"
    by (auto simp: interactive_def calm_def split: sum.split_asm)
qed

lemma calm_redis [calm_rules]:
  "calm E \<Longrightarrow> (\<And>a. Q (Inr a) d) \<Longrightarrow> db_post (redis_read E f1) d Q"
  "calm E \<Longrightarrow> Q2 (Inr ()) d \<Longrightarrow> db_post (redis_write E f2) d Q2"
  "calm E \<Longrightarrow> (\<And>a. Q3 (Inr a) d) \<Longrightarrow> db_post (redis_run E f3) d Q3"
  unfolding redis_read_def redis_write_def redis_run_def
  by (rule calm_await, simp, simp split: prod.split)+

section \<open>Framing\<close>

text \<open>
  Most calls of a handler leave the part of the database alone that a fact is about. With
  \<open>moves (on_db (fixing F)) m\<close> such a call is one step of the proof, whatever it does elsewhere.
\<close>

lemma frame_post:
  assumes "moves (on_db (fixing F)) m" and "\<And>r d'. F d' = F d \<Longrightarrow> Q r d'"
  shows "db_post m d Q"
  using moves_db_post [OF assms(1)] by (rule db_post_conseq) (rule assms(2), simp add: fixing_def)

lemma frame_bnd:
  assumes "moves (on_db (fixing F)) m" and "\<And>e d'. F d' = F d \<Longrightarrow> Q (Inl e) d'"
    and "\<And>a d'. F d' = F d \<Longrightarrow> db_post (f a) d' Q"
  shows "db_post (bnd m f) d Q"
  by (rule post_bnd_conseq [OF frame_post [OF assms(1), where Q = "\<lambda>_ d'. F d' = F d"]])
     (auto intro: assms)

lemma frame_sq:
  assumes "moves (on_db (fixing F)) m" and "\<And>e d'. F d' = F d \<Longrightarrow> Q (Inl e) d'"
    and "\<And>d'. F d' = F d \<Longrightarrow> db_post k d' Q"
  shows "db_post (sq m k) d Q"
  unfolding sq_def by (rule frame_bnd [OF assms])

lemma moves_db_mono:
  "moves (on_db P) m \<Longrightarrow> (\<And>d d'. P d d' \<Longrightarrow> P' d d') \<Longrightarrow> moves (on_db P') m"
  by (simp add: moves_def on_db_def)

text \<open>In a handler whose every run keeps an invariant, one write under constraints at a time.\<close>

lemma keeping_guarded:
  "(\<And>d. list_all (\<lambda>g. \<not> snd g) (gs d) \<Longrightarrow> I d \<Longrightarrow> I (u d)) \<Longrightarrow>
   moves (on_db (keeping I)) (run_db E (\<lambda>d. guarded (gs d) (u d) d))"
  by (rule db_post_moves) (auto intro!: post_guarded simp: keeping_def)

lemma keeping_guarded_at:
  "(\<And>t d. list_all (\<lambda>g. \<not> snd g) (gs t d) \<Longrightarrow> I d \<Longrightarrow> I (u t d)) \<Longrightarrow>
   moves (on_db (keeping I)) (run_db_at E (\<lambda>t d. guarded (gs t d) (u t d) d))"
  by (rule db_post_moves) (auto intro!: post_guarded_at simp: keeping_def)

lemma keeping_write:
  "(\<And>d. I d \<Longrightarrow> I (f d)) \<Longrightarrow> moves (on_db (keeping I)) (write_db E f)"
  by (rule kept.moves_write) (simp add: keeping_def)

lemma fixing_guarded:
  "(\<And>d. F (u d) = F d) \<Longrightarrow> moves (on_db (fixing F)) (run_db E (\<lambda>d. guarded (gs d) (u d) d))"
  by (rule db_post_moves) (auto intro!: post_guarded simp: fixing_def)

lemma fixing_guarded_at:
  "(\<And>t d. F (u t d) = F d) \<Longrightarrow>
   moves (on_db (fixing F)) (run_db_at E (\<lambda>t d. guarded (gs t d) (u t d) d))"
  by (rule db_post_moves) (auto intro!: post_guarded_at simp: fixing_def)

lemma fixing_write:
  "(\<And>d. F (f d) = F d) \<Longrightarrow> moves (on_db (fixing F)) (write_db E f)"
  by (rule fixed.moves_write) (simp add: fixing_def)

lemmas keeping_steps =
  kept.db_moves kept.lifted.moves_for_each moves_rules keeping_write keeping_guarded keeping_guarded_at

lemmas fixing_steps =
  fixed.db_moves fixed.lifted.moves_for_each moves_rules fixing_write fixing_guarded fixing_guarded_at

lemmas constraint_defs = constraints_def keys_ok_def refs_ok_def
lemmas row_updates = unique_by_update has_key_update ball_update_rows

end
