(* ===== verification/Redis_Calls.thy ===== *)
theory Redis_Calls
  imports Schema
begin

text \<open>
  The calls to Redis that the handlers share, and the auth service's calls with a time limit
  (\<open>services/auth/src/utils/redis-safe.ts\<close>), which fail open.
\<close>

section \<open>Reading, writing and deleting a key\<close>

definition redis_lookup :: "'r env \<Rightarrow> string \<Rightarrow> ('r world, string option) act" where
  "redis_lookup E key = redis_read E (\<lambda>t r. redis_get (redis_api E) t key r)"

definition redis_put :: "'r env \<Rightarrow> string \<Rightarrow> string \<Rightarrow> int \<Rightarrow> ('r world, unit) act" where
  "redis_put E key v ttl = redis_write E (\<lambda>t. redis_set_ex (redis_api E) t key v ttl)"

definition redis_delete :: "'r env \<Rightarrow> string \<Rightarrow> ('r world, unit) act" where
  "redis_delete E key = redis_write E (\<lambda>t r. redis_del (redis_api E) t [key] r)"

definition redis_take :: "'r env \<Rightarrow> string \<Rightarrow> ('r world, string option) act" where
  "redis_take E key = redis_run E (\<lambda>t r. redis_getdel (redis_api E) t key r)"

definition redis_count :: "'r env \<Rightarrow> string \<Rightarrow> ('r world, int) act" where
  "redis_count E key = redis_run E (\<lambda>t. redis_incr (redis_api E) t key)"

definition redis_expires :: "'r env \<Rightarrow> string \<Rightarrow> int \<Rightarrow> ('r world, unit) act" where
  "redis_expires E key ttl = redis_write E (\<lambda>t. redis_expire (redis_api E) t key ttl)"

lemmas redis_call_defs = redis_lookup_def redis_put_def redis_delete_def redis_take_def
  redis_count_def redis_expires_def

section \<open>Calls with a time limit\<close>

text \<open>
  \<open>Promise.race\<close> of several awaited calls against a timer: they go on, but after \<open>ms\<close>
  milliseconds their caller sees the timeout.
\<close>

definition act_within :: "nat \<Rightarrow> ('r world, 'a) act \<Rightarrow> ('r world, 'a) act" where
  "act_within ms m = (\<lambda>w. case m w of (r, v) \<Rightarrow>
     if clock v - clock w \<le> int ms then (r, v) else (Inl TimedOut, v\<lparr>clock := clock w + int ms\<rparr>))"

definition redisSafeExecute :: "('r world, 'a) act \<Rightarrow> nat \<Rightarrow> ('r world, 'a option) act" where
  "redisSafeExecute operation timeoutMs =
     catch (bnd (act_within timeoutMs operation) (\<lambda>a. ret (Some a))) (\<lambda>_. ret None)"

definition redisSafeGet :: "'r env \<Rightarrow> string \<Rightarrow> nat \<Rightarrow> ('r world, string option) act" where
  "redisSafeGet E key timeoutMs = catch (act_within timeoutMs (redis_lookup E key)) (\<lambda>_. ret None)"

section \<open>What these calls do\<close>

lemma post_redis_calls [post_rules]:
  "(\<And>e. Q (Inl e) d) \<Longrightarrow> (\<And>a. Q (Inr a) d) \<Longrightarrow> db_post (redis_lookup E key) d Q"
  "(\<And>e. Q2 (Inl e) d) \<Longrightarrow> Q2 (Inr ()) d \<Longrightarrow> db_post (redis_put E key v ttl) d Q2"
  "(\<And>e. Q3 (Inl e) d) \<Longrightarrow> Q3 (Inr ()) d \<Longrightarrow> db_post (redis_delete E key) d Q3"
  "(\<And>e. Q4 (Inl e) d) \<Longrightarrow> (\<And>a. Q4 (Inr a) d) \<Longrightarrow> db_post (redis_take E key) d Q4"
  "(\<And>e. Q5 (Inl e) d) \<Longrightarrow> (\<And>a. Q5 (Inr a) d) \<Longrightarrow> db_post (redis_count E key) d Q5"
  "(\<And>e. Q6 (Inl e) d) \<Longrightarrow> Q6 (Inr ()) d \<Longrightarrow> db_post (redis_expires E key ttl) d Q6"
  unfolding redis_call_defs by (intro post_rules; assumption)+

lemma calm_redis_calls [calm_rules]:
  "calm E \<Longrightarrow> (\<And>a. Q (Inr a) d) \<Longrightarrow> db_post (redis_lookup E key) d Q"
  "calm E \<Longrightarrow> Q2 (Inr ()) d \<Longrightarrow> db_post (redis_put E key v ttl) d Q2"
  "calm E \<Longrightarrow> Q3 (Inr ()) d \<Longrightarrow> db_post (redis_delete E key) d Q3"
  "calm E \<Longrightarrow> (\<And>a. Q4 (Inr a) d) \<Longrightarrow> db_post (redis_take E key) d Q4"
  unfolding redis_call_defs by (intro calm_rules; assumption)+

lemma post_within: "db_post m d (\<lambda>r d'. Q r d' \<and> Q (Inl TimedOut) d') \<Longrightarrow> db_post (act_within ms m) d Q"
  by (auto simp: db_post_def act_within_def split: prod.split)

lemma post_safe_execute [post_rules]:
  assumes "db_post m d (\<lambda>r d'. Q (Inr None) d' \<and> (\<forall>a. r = Inr a \<longrightarrow> Q (Inr (Some a)) d'))"
  shows "db_post (redisSafeExecute m ms) d Q"
  unfolding redisSafeExecute_def
  by (intro post_rules post_within db_post_conseq [OF assms])
     (auto simp: passing_def recovering_def split: sum.split intro!: post_ret)

lemma post_safe_get [post_rules, calm_rules]:
  "(\<And>a. Q (Inr a) d) \<Longrightarrow> db_post (redisSafeGet E key ms) d Q"
  unfolding redisSafeGet_def
  by (intro post_rules post_within conjI) (auto intro!: post_rules)

context db_order
begin

lemma moves_within: "moves (on_db P) m \<Longrightarrow> moves (on_db P) (act_within ms m)"
  by (auto simp: moves_def on_db_def act_within_def split: prod.split) (metis snd_conv)

lemma moves_redis_calls:
  "moves (on_db P) (redis_lookup E key)" "moves (on_db P) (redis_put E key v ttl)"
  "moves (on_db P) (redis_delete E key)" "moves (on_db P) (redis_take E key)"
  "moves (on_db P) (redis_count E key)" "moves (on_db P) (redis_expires E key ttl)"
  "moves (on_db P) (redisSafeGet E key ms)"
  unfolding redisSafeGet_def redis_call_defs by (intro db_moves moves_within)+

lemma moves_safe_execute: "moves (on_db P) m \<Longrightarrow> moves (on_db P) (redisSafeExecute m ms)"
  unfolding redisSafeExecute_def by (intro db_moves moves_within)

end

section \<open>Their answers\<close>

lemma redis_lookup_Inr:
  "redis_lookup E k w = (Inr a, w') \<Longrightarrow> w' = tick E w \<and> a = redis_get (redis_api E) (clock w') k (redis w)"
  unfolding redis_lookup_def redis_read_def by (auto dest: await_Inr)

lemma redis_run_Inr:
  "redis_run E f w = (Inr a, w') \<Longrightarrow> w' = (tick E w)\<lparr>redis := snd (f (clock (tick E w)) (redis w))\<rparr> \<and>
     a = fst (f (clock (tick E w)) (redis w))"
  unfolding redis_run_def by (auto dest!: await_Inr split: prod.splits)

lemma redisSafeGet_run:
  "redisSafeGet E k ms w = (r, w') \<Longrightarrow> \<exists>a. r = Inr a \<and>
     (a = None \<or> a = redis_get (redis_api E) (clock (tick E w)) k (redis w)) \<and>
     redis w' = redis w \<and> db w' = db w"
  by (auto simp: redisSafeGet_def catch_def act_within_def redis_lookup_def redis_read_def await_def
      Let_def ret_def split: outcome.splits if_splits)

lemma interactive_Inr:
  "interactive E m w = (Inr a, w') \<Longrightarrow> \<exists>v. m w = (Inr a, v) \<and> db w' = db v \<and> redis w' = redis v \<and> clock v \<le> clock w'"
  by (auto simp: interactive_def split: if_splits prod.splits sum.splits outcome.splits)

lemma run_db_Inr: "run_db E f w = (Inr a, w') \<Longrightarrow> \<exists>d. f (db w) = (Inr a, d) \<and> w' = (tick E w)\<lparr>db := d\<rparr>"
  unfolding run_db_def by (auto dest!: await_Inr split: prod.splits)

lemma redis_delete_Inr:
  "redis_delete E k w = (Inr a, w') \<Longrightarrow>
   w' = (tick E w)\<lparr>redis := redis_del (redis_api E) (clock (tick E w)) [k] (redis w)\<rparr>"
  unfolding redis_delete_def redis_write_def by (auto dest: await_Inr)

lemma guarded_Inr: "guarded gs d' d = (Inr a, d'') \<Longrightarrow> d'' = d'"
  using guarded_outcomes [of gs d' d] by auto

lemma redis_put_Inr:
  "redis_put E k v s w = (Inr a, w') \<Longrightarrow>
   w' = (tick E w)\<lparr>redis := redis_set_ex (redis_api E) (clock (tick E w)) k v s (redis w)\<rparr>"
  unfolding redis_put_def redis_write_def by (auto dest: await_Inr)

section \<open>Runs in a calm environment\<close>

lemma calm_awaits: "calm E \<Longrightarrow> await E f w = f (tick E w)"
  by (simp add: await_def Let_def calm_def)

lemma calm_runs:
  assumes "calm E"
  shows "query E q w = (Inr (q (db w)), tick E w)"
    and "run_db E f w = (case f (db w) of (r, d) \<Rightarrow> (r, (tick E w)\<lparr>db := d\<rparr>))"
    and "run_db_at E g w = (case g (clock (tick E w)) (db w) of (r, d) \<Rightarrow> (r, (tick E w)\<lparr>db := d\<rparr>))"
    and "write_db E h w = (Inr (), (tick E w)\<lparr>db := h (db w)\<rparr>)"
    and "redis_read E j w = (Inr (j (clock (tick E w)) (redis w)), tick E w)"
    and "redis_write E l w = (Inr (), (tick E w)\<lparr>redis := l (clock (tick E w)) (redis w)\<rparr>)"
    and "redis_run E m w =
      (case m (clock (tick E w)) (redis w) of (a, r) \<Rightarrow> (Inr a, (tick E w)\<lparr>redis := r\<rparr>))"
  by (simp_all add: query_def run_db_def run_db_at_def write_db_def redis_read_def redis_write_def
      redis_run_def calm_awaits [OF assms])

lemma calm_redis_runs:
  assumes "calm E"
  shows "redis_lookup E k w = (Inr (redis_get (redis_api E) (clock (tick E w)) k (redis w)), tick E w)"
    and "redis_put E k v s w =
      (Inr (), (tick E w)\<lparr>redis := redis_set_ex (redis_api E) (clock (tick E w)) k v s (redis w)\<rparr>)"
    and "redis_delete E k w =
      (Inr (), (tick E w)\<lparr>redis := redis_del (redis_api E) (clock (tick E w)) [k] (redis w)\<rparr>)"
    and "redis_take E k w = (case redis_getdel (redis_api E) (clock (tick E w)) k (redis w) of
      (a, r) \<Rightarrow> (Inr a, (tick E w)\<lparr>redis := r\<rparr>))"
    and "redis_count E k w = (case redis_incr (redis_api E) (clock (tick E w)) k (redis w) of
      (a, r) \<Rightarrow> (Inr a, (tick E w)\<lparr>redis := r\<rparr>))"
    and "redis_expires E k s w =
      (Inr (), (tick E w)\<lparr>redis := redis_expire (redis_api E) (clock (tick E w)) k s (redis w)\<rparr>)"
  unfolding redis_call_defs by (simp_all add: calm_runs [OF assms])

end
