(* ===== verification/Example.thy ===== *)
theory Example
  imports Schema
begin

text \<open>
  A small database, an environment and a world on which the witnesses evaluate the handlers: two
  learners and an administrator, one path with two challenges, and Redis as an association list.
\<close>

section \<open>Environments\<close>

definition calm_env :: "alist_redis env" where
  "calm_env = \<lparr>redis_api = alist_redis_ops, outcome_of = (\<lambda>n. Done), latency = (\<lambda>n. 0),
     uuid = (\<lambda>n. ''id-'' @ show_nat n),
     cuid = (\<lambda>ks. CHR ''c'' # concat ks), publicGatewayUrl = ''wss://gw'', sessionTTLMins = 30,
     guestTrialTTLMins = 10, probe_health = (\<lambda>n url. ProbeStatus 200 (Some True)),
     fetch_guest_token = (\<lambda>n s. Some ''guest-token''), oneTransaction = True\<rparr>"

text \<open>The same environment, but the listed calls end otherwise.\<close>

definition faulty_env :: "(nat \<times> outcome) list \<Rightarrow> alist_redis env" where
  "faulty_env fs = calm_env\<lparr>outcome_of := (\<lambda>n. case map_of fs n of None \<Rightarrow> Done | Some f \<Rightarrow> f)\<rparr>"

lemma calm_calm_env [simp]: "calm calm_env"
  by (simp add: calm_def calm_env_def)

lemma cuid_calm_env [simp]: "cuid_fresh calm_env" "cuid_fresh (faulty_env fs)"
proof -
  have "length k \<le> length (concat ks)" if "k \<in> set ks" for k and ks :: "string list"
    using that by (induction ks) auto
  then have "CHR ''c'' # concat ks \<notin> set ks" for ks by fastforce
  then show "cuid_fresh calm_env" "cuid_fresh (faulty_env fs)"
    by (simp_all add: cuid_fresh_def faulty_env_def calm_env_def)
qed

lemma calm_env_sel [simp]:
  "redis_api calm_env = alist_redis_ops" "outcome_of calm_env n = Done" "latency calm_env n = 0"
  "uuid calm_env n = ''id-'' @ show_nat n" "sessionTTLMins calm_env = 30"
  by (simp_all add: calm_env_def)

section \<open>Rows\<close>

definition example_user :: "string \<Rightarrow> role \<Rightarrow> user" where
  "example_user i r = \<lparr>user_id = i, user_name = None, user_username = Some i,
     user_email = i @ ''@x.io'', user_password = Some ''hash'', user_role = r, user_xp = 0,
     user_isPublic = True, user_orgId = None, user_onboardingState = ObNew,
     user_emailVerified = Some 0, user_githubId = None, user_googleId = None, user_ssoId = None,
     user_mfaEnabled = False, user_mfaSecret = None, user_avatarUrl = None, user_jobTitle = None,
     user_lastLoginAt = None, user_firstLoginAt = None, user_currentStreak = 0,
     user_longestStreak = 0, user_lastActivityDate = None\<rparr>"

definition example_challenge :: "string \<Rightarrow> int \<Rightarrow> bool \<Rightarrow> challenge" where
  "example_challenge i x g = \<lparr>ch_id = i, ch_title = ''T'', ch_slug = None, ch_description = ''D'',
     ch_difficulty = JUNIOR, ch_category = DOCKER, ch_tags = [], ch_xp = x, ch_dockerImage = ''img'',
     ch_moduleId = Some ''m1'', ch_editorial = Some ''ed'', ch_authorNotes = None,
     ch_contributedByOrgId = None, ch_requiredProvider = ''docker'', ch_guestTrialEligible = g,
     ch_createdAt = 0\<rparr>"

definition example_session :: "string \<Rightarrow> string \<Rightarrow> string \<Rightarrow> session_status \<Rightarrow> lab_session" where
  "example_session i u c st =
     \<lparr>ls_id = i, ls_userId = u, ls_challengeId = c, ls_status = st, ls_startedAt = 0, ls_endedAt = None\<rparr>"

definition example_db :: db where
  "example_db =
     \<lparr>users = [example_user ''ann'' LEARNER, example_user ''bob'' LEARNER, example_user ''root'' ADMIN],
      orgs = [], orgMembers = [], orgInvites = [],
      challenges = [example_challenge ''c1'' 50 True, example_challenge ''c2'' 80 False],
      modules = [\<lparr>mod_id = ''m1'', mod_title = ''M'', mod_order = 0, mod_pathId = ''p1''\<rparr>],
      learningPaths = [\<lparr>path_id = ''p1'', path_title = ''P'', path_description = ''D'', path_slug = ''p'', path_icon = None,
        path_timeEstimate = None, path_category = None, path_tags = [], path_createdAt = 0\<rparr>],
      labSessions = [example_session ''s1'' ''ann'' ''c1'' ACTIVE], completions = [],
      nodes = [], edges = [], submissions = [], checkResults = [],
      badges = [\<lparr>bd_id = ''b1'', bd_slug = ''first-blood'', bd_title = ''First'', bd_roadmapId = None\<rparr>,
                \<lparr>bd_id = ''b2'', bd_slug = ''path-p'', bd_title = ''Path'', bd_roadmapId = Some ''p1''\<rparr>],
      userBadges = [], quizAttempts = [], userSessions = [], securityLogs = [],
      challengeLikes = [], challengeBookmarks = [], userFollows = [], comments = [],
      commentVotes = [], challengeLists = [], listItems = [], orgScenarios = [], pathAssignments = [],
      shareTokens = [], articles = [], articleLikes = [], articleBookmarks = [], articleReports = [],
      coreOutbox = [], authOutbox = []\<rparr>"

definition example_world :: "db \<Rightarrow> alist_redis world" where
  "example_world d = \<lparr>db = d, redis = [], kafka = [], rabbit = [], producerReady = True,
     coreBreaker = \<lparr>circuitOpenUntil = 0, consecutiveFailures = 0, backoffMs = 5000\<rparr>,
     authBreaker = \<lparr>circuitOpenUntil = 0, consecutiveFailures = 0, backoffMs = 5000\<rparr>,
     probeState = \<lparr>probeCircuitOpenUntil = 0, consecutiveProbeFailures = 0\<rparr>,
     clock = 1000, calls = 0, fresh = 0\<rparr>"

lemma example_world_sel [simp]:
  "db (example_world d) = d" "clock (example_world d) = 1000" "redis (example_world d) = []"
  "kafka (example_world d) = []" "rabbit (example_world d) = []"
  "producerReady (example_world d)" "calls (example_world d) = 0" "fresh (example_world d) = 0"
  by (simp_all add: example_world_def)

lemma example_constraints [simp]: "constraints example_db"
  by code_simp

end
