(* ===== verification/Brokers.thy ===== *)
theory Brokers
  imports Example
begin

text \<open>
  The message brokers behind packages/messaging: what \<open>emit\<close> and \<open>publish\<close> hand over, how a
  Kafka message is retried and forwarded to its dead letter topic, what a RabbitMQ consumer answers,
  and the delays of reconnection. The brokers themselves are the lists of what they were given.
\<close>

section \<open>Topics and queues\<close>

fun topic_of :: "payload \<Rightarrow> string" where
  "topic_of (UserRegistered _ _ _) = ''identity.user.registered''"
| "topic_of (EmailVerificationRequested _ _ _) = ''identity.email.verification''"
| "topic_of (PasswordResetRequested _ _ _) = ''identity.password.reset''"
| "topic_of (UserDeleted _) = ''identity.user.deleted''"
| "topic_of (SessionStarted _ _ _ _ _ _) = ''sandbox.session.started''"
| "topic_of (SessionEnded _ _) = ''sandbox.session.ended''"
| "topic_of _ = []"

definition PROVISION_SANDBOX :: string where "PROVISION_SANDBOX = ''provision.sandbox''"
definition TERMINATE_SANDBOX :: string where "TERMINATE_SANDBOX = ''terminate.sandbox''"

section \<open>Publishing\<close>

text \<open>\<open>emit\<close> throws at once while there is no producer.\<close>

definition kafka_send :: "string \<Rightarrow> payload \<Rightarrow> 'r world \<Rightarrow> (exn + unit) \<times> 'r world" where
  "kafka_send t p w = (Inr (), w\<lparr>kafka := kafka w @ [(t, p)]\<rparr>)"

definition kafka_emit :: "'r env \<Rightarrow> payload \<Rightarrow> ('r world, unit) act" where
  "kafka_emit E p = bnd (look producerReady) (\<lambda>ready.
     if ready then await E (kafka_send (topic_of p) p) else throw ErrorThrown)"

definition rabbit_send :: "string \<Rightarrow> payload \<Rightarrow> 'r world \<Rightarrow> (exn + unit) \<times> 'r world" where
  "rabbit_send q p w = (Inr (), w\<lparr>rabbit := rabbit w @ [(q, p)]\<rparr>)"

definition rabbit_publish :: "'r env \<Rightarrow> string \<Rightarrow> payload \<Rightarrow> ('r world, unit) act" where
  "rabbit_publish E q p = await E (rabbit_send q p)"

text \<open>The same calls raced against a timer of \<open>ms\<close> milliseconds.\<close>

definition kafka_emit_within :: "'r env \<Rightarrow> nat \<Rightarrow> string \<Rightarrow> payload \<Rightarrow> ('r world, unit) act" where
  "kafka_emit_within E ms t p = bnd (look producerReady) (\<lambda>ready.
     if ready then await_within E ms (kafka_send t p) else throw ErrorThrown)"

definition rabbit_publish_within :: "'r env \<Rightarrow> nat \<Rightarrow> string \<Rightarrow> payload \<Rightarrow> ('r world, unit) act" where
  "rabbit_publish_within E ms q p = await_within E ms (rabbit_send q p)"

text \<open>None of them is a call to the database.\<close>

context db_order
begin

lemma moves_mail:
  "moves (on_db P) (kafka_emit E p)" "moves (on_db P) (rabbit_publish E q p)"
  "moves (on_db P) (kafka_emit_within E ms t p)" "moves (on_db P) (rabbit_publish_within E ms q p)"
  unfolding kafka_emit_def rabbit_publish_def kafka_emit_within_def rabbit_publish_within_def
  by (intro db_moves moves_rules moves_quiet moves_quiet_within; simp add: kafka_send_def rabbit_send_def)+

end

lemma unit_answer: "(\<And>e. Q (Inl e) d) \<Longrightarrow> Q (Inr ()) d \<Longrightarrow> Q (r :: exn + unit) d"
  by (cases r) auto

lemma post_mail [post_rules]:
  "(\<And>e. Q (Inl e) d) \<Longrightarrow> Q (Inr ()) d \<Longrightarrow> db_post (kafka_emit E p) d Q"
  "(\<And>e. Q (Inl e) d) \<Longrightarrow> Q (Inr ()) d \<Longrightarrow> db_post (rabbit_publish E q p) d Q"
  "(\<And>e. Q (Inl e) d) \<Longrightarrow> Q (Inr ()) d \<Longrightarrow> db_post (kafka_emit_within E ms t p) d Q"
  "(\<And>e. Q (Inl e) d) \<Longrightarrow> Q (Inr ()) d \<Longrightarrow> db_post (rabbit_publish_within E ms q p) d Q"
  by (rule frame_post [where F = "\<lambda>d. d"], rule fixed.moves_mail, simp, erule unit_answer, assumption)+

section \<open>How a consumer takes a Kafka message\<close>

text \<open>\<open>setTimeout\<close> awaited: time passes.\<close>

definition sleep :: "int \<Rightarrow> ('r world, unit) act" where
  "sleep ms = change (\<lambda>w. w\<lparr>clock := clock w + ms\<rparr>)"

text \<open>\<open>connect ()\<close> of the producer, once; a failure leaves it unset and schedules a retry.\<close>

definition initProducer :: "'r env \<Rightarrow> ('r world, unit) act" where
  "initProducer E = bnd (look producerReady) (\<lambda>ready.
     if ready then ret () else await E (\<lambda>w. (Inr (), w\<lparr>producerReady := True\<rparr>)))"

definition maxRetries :: nat where "maxRetries = 3"

text \<open>
  The attempts \<open>attempt, attempt + 1, \<dots>, maxRetries\<close>: decode, handle, and on an error wait before
  the next one; the answer is \<open>success\<close>. \<open>ev\<close> is None when the value does not parse.
\<close>

fun attempts ::
  "('e \<Rightarrow> ('r world, unit) act) \<Rightarrow> 'e option \<Rightarrow> nat \<Rightarrow> nat \<Rightarrow> ('r world, bool) act" where
  "attempts handler ev attempt 0 = ret False"
| "attempts handler ev attempt (Suc n) = bnd
     (catch (sq (case ev of None \<Rightarrow> throw ErrorThrown | Some e \<Rightarrow> handler e) (ret True)) (\<lambda>_. ret False))
     (\<lambda>success.
        if success then ret True
        else sq (when_act (attempt < maxRetries) (sleep (int attempt * 1000)))
          (attempts handler ev (attempt + 1) n))"

definition eachMessage ::
  "'r env \<Rightarrow> string \<Rightarrow> (string \<Rightarrow> 'e option) \<Rightarrow> ('e \<Rightarrow> ('r world, unit) act) \<Rightarrow> string \<Rightarrow>
   ('r world, unit) act" where
  "eachMessage E topic parse handler rawPayload =
     bnd (attempts handler (parse rawPayload) 1 maxRetries) (\<lambda>success.
     if success then ret ()
     else sq (initProducer E) (await E (kafka_send (topic @ ''.dlq'') (Raw rawPayload))))"

lemma attempts_success:
  assumes "attempts handler ev k n w = (r, w')"
  shows "\<exists>b. r = Inr b \<and> (b \<longrightarrow> (\<exists>e v. ev = Some e \<and> handler e v = (Inr (), w')))"
  using assms
proof (induction n arbitrary: k w)
  case 0
  then show ?case by (auto simp: ret_def)
next
  case (Suc n)
  let ?go = "case ev of None \<Rightarrow> throw ErrorThrown | Some e \<Rightarrow> handler e"
  obtain x v where run: "?go w = (x, v)" by fastforce
  show ?case
  proof (cases x)
    case (Inl e)
    with run Suc.prems have "attempts handler ev (k + 1) n (if k < maxRetries then
        snd (sleep (int k * 1000) v) else v) = (r, w')"
      by (auto simp: act_simps sleep_def split: if_splits)
    then show ?thesis by (rule Suc.IH)
  next
    case (Inr u)
    with run Suc.prems have "r = Inr True" "v = w'" by (auto simp: act_simps)
    with run Inr show ?thesis by (cases ev) (auto simp: throw_def)
  qed
qed

text \<open>A Kafka message whose processing returns ended in a run of the handler that threw
  nothing, or stands in the dead letter topic: none is dropped.\<close>

lemma message_accounted:
  assumes "eachMessage E topic parse handler raw w = (Inr (), w')"
  shows "(\<exists>e v. parse raw = Some e \<and> handler e v = (Inr (), w')) \<or>
    (topic @ ''.dlq'', Raw raw) \<in> set (kafka w')"
proof -
  obtain r v where run: "attempts handler (parse raw) 1 maxRetries w = (r, v)" by fastforce
  from attempts_success [OF run] obtain b
    where b: "r = Inr b" "b \<longrightarrow> (\<exists>e u. parse raw = Some e \<and> handler e u = (Inr (), v))" by blast
  show ?thesis
  proof (cases b)
    case True
    with run b assms show ?thesis by (auto simp: eachMessage_def act_simps)
  next
    case False
    obtain r1 v1 where "initProducer E v = (r1, v1)" by fastforce
    with False run b assms have "await E (kafka_send (topic @ ''.dlq'') (Raw raw)) v1 = (Inr (), w')"
      by (auto simp: eachMessage_def act_simps split: sum.splits)
    then show ?thesis
      by (auto simp: await_def Let_def kafka_send_def split: outcome.splits)
  qed
qed

text \<open>A handler that always throws: the message ends in the dead letter topic.\<close>

lemma message_accounted_witness:
  "(''t.dlq'', Raw ''m'') \<in> set (kafka (snd
     (eachMessage calm_env ''t'' Some (\<lambda>e. throw ErrorThrown) ''m'' (example_world example_db))))"
proof -
  let ?m = "eachMessage calm_env ''t'' Some (\<lambda>e. throw ErrorThrown) ''m''"
  have "fst (?m (example_world example_db)) = Inr ()"
    by (simp add: eachMessage_def maxRetries_def numeral_3_eq_3 act_simps sleep_def initProducer_def
        await_def Let_def kafka_send_def)
  then obtain w' where "?m (example_world example_db) = (Inr (), w')"
    by (metis prod.collapse)
  with message_accounted [of calm_env "''t''" Some "\<lambda>e. throw ErrorThrown" "''m''"
      "example_world example_db" w'] show ?thesis
    by (simp add: throw_def)
qed

section \<open>RabbitMQ: reconnection and delivery\<close>

text \<open>\<open>Math.min(baseDelayMs * Math.pow(2, attempt - 1), 30000)\<close>.\<close>

definition reconnect_delay :: "nat \<Rightarrow> int" where
  "reconnect_delay attempt = min (1000 * 2 ^ (attempt - 1)) 30000"

definition maxAttempts :: nat where "maxAttempts = 10"

text \<open>
  The client holds a connection and a channel. \<open>init\<close> opens both if there is no connection; of an
  attempt we are told whether the connection comes up, and whether its channel does.
\<close>

record rabbit_client =
  connection :: bool
  channel :: bool

datatype connect_answer = NoBroker | NoChannel | Connected

definition init :: "connect_answer \<Rightarrow> rabbit_client \<Rightarrow> rabbit_client" where
  "init a c = (if connection c then c
     else case a of
       NoBroker \<Rightarrow> c
     | NoChannel \<Rightarrow> c\<lparr>connection := True\<rparr>
     | Connected \<Rightarrow> \<lparr>connection = True, channel = True\<rparr>)"

text \<open>The handlers of the events that the connection and the channel raise.\<close>

definition on_connection_lost :: "rabbit_client \<Rightarrow> rabbit_client" where
  "on_connection_lost c = \<lparr>connection = False, channel = False\<rparr>"

definition on_channel_lost :: "rabbit_client \<Rightarrow> rabbit_client" where
  "on_channel_lost c = c\<lparr>channel := False\<rparr>"

text \<open>
  The loop of \<open>reconnectWithBackoff\<close>: \<open>n\<close> attempts are left, \<open>broker k\<close> is what attempt \<open>k\<close> meets.
  The answer is the attempt that found a channel, the time spent waiting, and the client.
\<close>

fun reconnectWithBackoff ::
  "(nat \<Rightarrow> connect_answer) \<Rightarrow> nat \<Rightarrow> nat \<Rightarrow> rabbit_client \<Rightarrow> nat option \<times> int \<times> rabbit_client" where
  "reconnectWithBackoff broker attempt 0 c = (None, 0, c)"
| "reconnectWithBackoff broker attempt (Suc n) c =
     (let c' = init (broker attempt) c in
      if channel c' then (Some attempt, 0, c')
      else let (r, t, c'') = reconnectWithBackoff broker (attempt + 1) n c'
           in (r, reconnect_delay attempt + t, c''))"

datatype verdict = Ack | NackToDLQ

definition rabbit_deliver ::
  "(string \<Rightarrow> 'e option) \<Rightarrow> ('e \<Rightarrow> ('w, unit) act) \<Rightarrow> string \<Rightarrow> ('w, verdict) act" where
  "rabbit_deliver parse handler raw =
     (case parse raw of
        None \<Rightarrow> ret NackToDLQ
      | Some content \<Rightarrow> catch (sq (handler content) (ret Ack)) (\<lambda>_. ret NackToDLQ))"

text \<open>Each RabbitMQ message is answered exactly once: acknowledged if the handler ran without an
  error, rejected to the dead letter queue if the body does not parse or the handler threw.\<close>

lemma rabbit_verdict:
  "fst (rabbit_deliver parse handler raw w) = Inr
     (case parse raw of
        None \<Rightarrow> NackToDLQ
      | Some e \<Rightarrow> (case fst (handler e w) of Inl _ \<Rightarrow> NackToDLQ | Inr _ \<Rightarrow> Ack))"
  by (auto simp: rabbit_deliver_def act_simps split: option.split prod.split sum.split)

lemma reconnect_delay_bounds: "1000 \<le> reconnect_delay k \<and> reconnect_delay k \<le> 30000"
proof -
  have "(1000 :: int) * 1 \<le> 1000 * 2 ^ (k - 1)" by (intro mult_left_mono) simp_all
  then show ?thesis by (simp add: reconnect_delay_def)
qed

lemma reconnect_wait: "fst (snd (reconnectWithBackoff broker k n c)) \<le> 30000 * int n"
proof (induction n arbitrary: k c)
  case (Suc n)
  have "reconnect_delay k + fst (snd (reconnectWithBackoff broker (k + 1) n c')) \<le> 30000 + 30000 * int n"
    for c' using Suc.IH [of "k + 1"] reconnect_delay_bounds [of k] by (intro add_mono) simp_all
  then show ?case by (simp add: case_prod_beta Let_def)
qed simp

text \<open>A connection without a channel is never mended: \<open>init\<close> leaves it alone.\<close>

lemma reconnect_no_channel:
  "connection c \<Longrightarrow> \<not> channel c \<Longrightarrow> fst (reconnectWithBackoff broker k n c) = None \<and>
     snd (snd (reconnectWithBackoff broker k n c)) = c"
  by (induction n arbitrary: k) (auto simp: init_def case_prod_beta Let_def)

lemma reconnect_found:
  "\<not> connection c \<Longrightarrow> \<not> channel c \<Longrightarrow>
   (case fst (reconnectWithBackoff broker k n c) of
     Some a \<Rightarrow> broker a = Connected \<and> k \<le> a \<and> a < k + n \<and> (\<forall>j. k \<le> j \<and> j < a \<longrightarrow> broker j = NoBroker)
   | None \<Rightarrow> (\<forall>j. k \<le> j \<and> j < k + n \<and> broker j = Connected \<longrightarrow>
        (\<exists>i. k \<le> i \<and> i < j \<and> broker i = NoChannel)))"
proof (induction n arbitrary: k)
  case (Suc n)
  have from_k: "k \<le> j \<longleftrightarrow> j = k \<or> k + 1 \<le> j" for j by linarith
  show ?case
  proof (cases "broker k")
    case NoBroker
    then have step: "fst (reconnectWithBackoff broker k (Suc n) c) =
        fst (reconnectWithBackoff broker (k + 1) n c)"
      using Suc.prems by (simp add: init_def case_prod_beta Let_def)
    show ?thesis
    proof (cases "fst (reconnectWithBackoff broker (k + 1) n c)")
      case None
      with Suc.IH [OF Suc.prems, of "k + 1"] step NoBroker show ?thesis by (auto simp: from_k)
    next
      case (Some a)
      with Suc.IH [OF Suc.prems, of "k + 1"] step NoBroker show ?thesis by (auto simp: from_k)
    qed
  next
    case NoChannel
    with Suc.prems reconnect_no_channel [of "c\<lparr>connection := True\<rparr>" broker "k + 1" n]
    have none: "fst (reconnectWithBackoff broker k (Suc n) c) = None"
      by (simp add: init_def case_prod_beta Let_def)
    have "\<exists>i. k \<le> i \<and> i < j \<and> broker i = NoChannel" if "k \<le> j" "broker j = Connected" for j
      using that NoChannel by (cases "j = k") auto
    with none show ?thesis by simp
  next
    case Connected
    with Suc.prems show ?thesis by (auto simp: init_def Let_def)
  qed
qed auto

text \<open>C40. After the connection is lost, reconnection tries at most ten times, stops with a channel at the
  first attempt that finds the broker if that attempt opens one, and waits at most five minutes.\<close>

theorem reconnect_first_success:
  "let (r, t, c') = reconnectWithBackoff broker 1 maxAttempts (on_connection_lost c) in t \<le> 300000 \<and>
     (case r of
        Some a \<Rightarrow> broker a = Connected \<and> a \<in> {1..10} \<and> {j \<in> {1..<a}. broker j \<noteq> NoBroker} = {}
      | None \<Rightarrow> {j \<in> {1..10}. broker j = Connected \<and> {i \<in> {1..<j}. broker i = NoChannel} = {}} = {})"
proof -
  let ?r = "reconnectWithBackoff broker 1 10 \<lparr>connection = False, channel = False\<rparr>"
  note found = reconnect_found [where broker = broker and k = 1 and n = 10
      and c = "\<lparr>connection = False, channel = False\<rparr>", simplified]
  show ?thesis
  proof (cases "fst ?r")
    case None
    with found reconnect_wait [of broker 1 10 "\<lparr>connection = False, channel = False\<rparr>"] show ?thesis
      by (auto simp: maxAttempts_def on_connection_lost_def case_prod_beta)
  next
    case (Some a)
    with found reconnect_wait [of broker 1 10 "\<lparr>connection = False, channel = False\<rparr>"] show ?thesis
      by (auto simp: maxAttempts_def on_connection_lost_def case_prod_beta)
  qed
qed

text \<open>When the broker closes the channel but not the connection, the client never recovers: its ten
  attempts change nothing however well the broker answers, and neither does any later one, because
  \<open>init\<close> opens a channel only together with a connection.\<close>

lemma lost_channel_stays_lost:
  assumes "connection c"
  shows "fst (reconnectWithBackoff broker k n (on_channel_lost c)) = None \<and>
    snd (snd (reconnectWithBackoff broker k n (on_channel_lost c))) = on_channel_lost c \<and>
    \<not> channel (init a (on_channel_lost c))"
  using assms reconnect_no_channel [of "on_channel_lost c" broker k n]
  by (simp add: on_channel_lost_def init_def)

lemma lost_channel_stays_lost_witness:
  "fst (reconnectWithBackoff (\<lambda>_. Connected) 1 10
     (on_channel_lost \<lparr>connection = True, channel = True\<rparr>)) = None"
  using lost_channel_stays_lost [of "\<lparr>connection = True, channel = True\<rparr>"] by simp

end
