(* ===== verification/Streak.thy ===== *)
theory Streak
  imports Prelude
begin

text \<open>
  Activity streaks: \<open>calculateStreak\<close> of services/core/src/utils/streak.ts, over the calendar
  functions of JavaScript's \<open>Date\<close>. A \<open>Date\<close> is its time value, the milliseconds since the
  epoch; the calendar follows the definitions of the language standard (days from years, the
  month table, and \<open>Date.UTC\<close>'s reading of the years 0 to 99 as 1900 to 1999).
\<close>

section \<open>The UTC calendar of Date\<close>

type_synonym date = int

definition MS_PER_DAY :: int where
  "MS_PER_DAY = 24 * 60 * 60 * 1000"

definition day_number :: "date \<Rightarrow> int" where
  "day_number t = t div MS_PER_DAY"

definition day_from_year :: "int \<Rightarrow> int" where
  "day_from_year y =
     365 * (y - 1970) + (y - 1969) div 4 - (y - 1901) div 100 + (y - 1601) div 400"

definition year_of_day :: "int \<Rightarrow> int" where
  "year_of_day d =
     (let y = 1970 + (400 * d) div 146097
      in if day_from_year (y + 1) \<le> d then y + 1
         else if d < day_from_year y then y - 1 else y)"

definition is_leap :: "int \<Rightarrow> bool" where
  "is_leap y \<longleftrightarrow> y mod 4 = 0 \<and> (y mod 100 \<noteq> 0 \<or> y mod 400 = 0)"

definition month_start :: "bool \<Rightarrow> nat \<Rightarrow> int" where
  "month_start leap m =
     [0, 31, 59, 90, 120, 151, 181, 212, 243, 273, 304, 334] ! m + (if leap \<and> 2 \<le> m then 1 else 0)"

definition getUTCFullYear :: "date \<Rightarrow> int" where
  "getUTCFullYear t = year_of_day (day_number t)"

definition day_in_year :: "date \<Rightarrow> int" where
  "day_in_year t = day_number t - day_from_year (getUTCFullYear t)"

definition getUTCMonth :: "date \<Rightarrow> nat" where
  "getUTCMonth t =
     length (filter (\<lambda>m. month_start (is_leap (getUTCFullYear t)) m \<le> day_in_year t) [1..<12])"

definition getUTCDate :: "date \<Rightarrow> int" where
  "getUTCDate t = day_in_year t - month_start (is_leap (getUTCFullYear t)) (getUTCMonth t) + 1"

definition Date_UTC :: "int \<Rightarrow> nat \<Rightarrow> int \<Rightarrow> date" where
  "Date_UTC y m d =
     (let yr = (if 0 \<le> y \<and> y \<le> 99 then 1900 + y else y)
      in (day_from_year yr + month_start (is_leap yr) m + d - 1) * MS_PER_DAY)"

definition utc_midnight :: "date \<Rightarrow> date" where
  "utc_midnight t = Date_UTC (getUTCFullYear t) (getUTCMonth t) (getUTCDate t)"

lemma Date_UTC_midnight:
  assumes "\<not> (0 \<le> getUTCFullYear t \<and> getUTCFullYear t \<le> 99)"
  shows "utc_midnight t = day_number t * MS_PER_DAY"
  using assms by (auto simp: utc_midnight_def Date_UTC_def getUTCDate_def day_in_year_def)

lemma year_of_day_bounds:
  "day_from_year (year_of_day d) \<le> d \<and> d < day_from_year (year_of_day d + 1)"
proof -
  define q where "q = (400 * d) div 146097"
  have q: "146097 * q \<le> 400 * d" "400 * d < 146097 * q + 146097"
    unfolding q_def by linarith+
  have low: "day_from_year (1970 + q - 1) \<le> d"
  proof -
    have "4 * (q div 4) \<le> q" "q + 68 < 100 * ((q + 68) div 100) + 100"
      "400 * ((q + 368) div 400) \<le> q + 368" by linarith+
    with q show ?thesis unfolding day_from_year_def by (simp add: algebra_simps)
  qed
  have high: "d < day_from_year (1970 + q + 1 + 1)"
  proof -
    have "q + 3 < 4 * ((q + 3) div 4) + 4" "100 * ((q + 71) div 100) \<le> q + 71"
      "q + 371 < 400 * ((q + 371) div 400) + 400" by linarith+
    with q show ?thesis unfolding day_from_year_def by (simp add: algebra_simps)
  qed
  show ?thesis
    using low high unfolding year_of_day_def q_def [symmetric] Let_def by auto
qed

lemma day_from_year_mono: "x \<le> y \<Longrightarrow> day_from_year x \<le> day_from_year y"
proof -
  assume "x \<le> y"
  then obtain n where "y = x + int n" by (metis zle_iff_zadd)
  moreover have "day_from_year x \<le> day_from_year (x + int n)" for n
  proof (induction n)
    case (Suc n)
    have "day_from_year z \<le> day_from_year (z + 1)" for z
    proof -
      have "(z - 1969) div 4 \<le> (z + 1 - 1969) div 4"
        "(z - 1601) div 400 \<le> (z + 1 - 1601) div 400"
        "(z + 1 - 1901) div 100 \<le> (z - 1901) div 100 + 1"
        by linarith+
      moreover have "365 * (z - 1970) + a - c + b \<le> 365 * (z + 1 - 1970) + a' - c' + b'"
        if "a \<le> a'" "b \<le> b'" "c' \<le> c + 1" for a a' b b' c c' :: int
        using that by (simp add: algebra_simps)
      ultimately show ?thesis unfolding day_from_year_def by blast
    qed
    from this [of "x + int n"] Suc show ?case by (simp add: algebra_simps)
  qed simp
  ultimately show ?thesis by blast
qed

lemma year_after_epoch: "0 \<le> t \<Longrightarrow> 1970 \<le> getUTCFullYear t"
proof (rule ccontr)
  assume "0 \<le> t" and "\<not> 1970 \<le> getUTCFullYear t"
  then have "day_from_year (getUTCFullYear t + 1) \<le> day_from_year 1970"
    by (intro day_from_year_mono) simp
  moreover have "day_from_year 1970 = 0" by (simp add: day_from_year_def)
  moreover have "0 \<le> day_number t"
    using \<open>0 \<le> t\<close> by (simp add: day_number_def MS_PER_DAY_def)
  ultimately show False
    using year_of_day_bounds [of "day_number t"] by (simp add: getUTCFullYear_def)
qed


section \<open>calculateStreak\<close>

record streak_state =
  currentStreak :: int
  longestStreak :: int
  lastActivityDate :: "date option"

record streak_update =
  upd_currentStreak :: int
  upd_longestStreak :: int
  upd_lastActivityDate :: date
  incremented :: bool

definition calculateStreak :: "streak_state \<Rightarrow> date \<Rightarrow> streak_update" where
  "calculateStreak state activityDate =
     (let currentLongest = longestStreak state;
          current = currentStreak state;
          kept = (if current > 0 then current else 1)
      in case lastActivityDate state of
           None \<Rightarrow>
             \<lparr>upd_currentStreak = 1, upd_longestStreak = max currentLongest 1,
              upd_lastActivityDate = activityDate, incremented = True\<rparr>
         | Some lastDate \<Rightarrow>
             (let actMidnight = utc_midnight activityDate;
                  lastMidnight = utc_midnight lastDate;
                  dayDiff = round_div (actMidnight - lastMidnight) MS_PER_DAY
              in if dayDiff = 0 then
                   \<lparr>upd_currentStreak = kept, upd_longestStreak = max currentLongest kept,
                    upd_lastActivityDate = activityDate, incremented = False\<rparr>
                 else if dayDiff = 1 then
                   (let newCurrent = (if current > 0 then current else 0) + 1
                    in \<lparr>upd_currentStreak = newCurrent,
                        upd_longestStreak = max currentLongest newCurrent,
                        upd_lastActivityDate = activityDate, incremented = True\<rparr>)
                 else if dayDiff > 1 then
                   \<lparr>upd_currentStreak = 1, upd_longestStreak = max currentLongest 1,
                    upd_lastActivityDate = activityDate, incremented = True\<rparr>
                 else
                   \<lparr>upd_currentStreak = kept, upd_longestStreak = max currentLongest kept,
                    upd_lastActivityDate = lastDate, incremented = False\<rparr>))"

text \<open>What the callers do with the result: store its three dates and counts in the user's row.\<close>

definition apply_activity :: "streak_state \<Rightarrow> date \<Rightarrow> streak_state" where
  "apply_activity s t =
     (let u = calculateStreak s t
      in \<lparr>currentStreak = upd_currentStreak u, longestStreak = upd_longestStreak u,
          lastActivityDate = Some (upd_lastActivityDate u)\<rparr>)"

definition new_streak :: streak_state where
  "new_streak = \<lparr>currentStreak = 0, longestStreak = 0, lastActivityDate = None\<rparr>"

text \<open>The difference of two midnights is a whole number of days, so the rounding is exact.\<close>

lemma midnight_difference:
  assumes "0 \<le> s" and "0 \<le> t"
  shows "round_div (utc_midnight s - utc_midnight t) MS_PER_DAY = day_number s - day_number t"
proof -
  have "utc_midnight s = day_number s * MS_PER_DAY" "utc_midnight t = day_number t * MS_PER_DAY"
    using year_after_epoch [OF assms(1)] year_after_epoch [OF assms(2)]
    by (auto intro!: Date_UTC_midnight)
  then have "utc_midnight s - utc_midnight t = (day_number s - day_number t) * MS_PER_DAY"
    by (simp add: left_diff_distrib)
  moreover have "0 < MS_PER_DAY" by (simp add: MS_PER_DAY_def)
  ultimately show ?thesis by (simp only: round_div_exact)
qed

lemma day_number_mono: "s \<le> t \<Longrightarrow> day_number s \<le> day_number t"
  by (simp add: day_number_def MS_PER_DAY_def zdiv_mono1)

text \<open>The update of each of the documented cases, in terms of calendar days.\<close>

lemma apply_activity_first:
  "lastActivityDate s = None \<Longrightarrow>
   apply_activity s t =
     \<lparr>currentStreak = 1, longestStreak = max (longestStreak s) 1, lastActivityDate = Some t\<rparr>"
  by (simp add: apply_activity_def calculateStreak_def)

lemma apply_activity_next:
  assumes "lastActivityDate s = Some l" and "0 \<le> l" and "0 \<le> t"
  shows "apply_activity s t =
    (let d = day_number t - day_number l; c = currentStreak s;
         new = (if d = 0 \<or> d < 0 then if c > 0 then c else 1
                else if d = 1 then (if c > 0 then c else 0) + 1 else 1)
     in \<lparr>currentStreak = new, longestStreak = max (longestStreak s) new,
         lastActivityDate = Some (if d < 0 then l else t)\<rparr>)"
  using assms
  by (simp add: apply_activity_def calculateStreak_def midnight_difference Let_def)

section \<open>What a streak counts\<close>

text \<open>
  \<open>day_block D e n\<close>: the \<open>n\<close> days that end with day \<open>e\<close> are all days of activity. A user's
  current streak is the length of the longest block that ends on the last day of activity, and
  the longest streak is the length of the longest block of all.
\<close>

definition day_block :: "int set \<Rightarrow> int \<Rightarrow> int \<Rightarrow> bool" where
  "day_block D e n \<longleftrightarrow> (\<forall>i. 0 \<le> i \<and> i < n \<longrightarrow> e - i \<in> D)"

definition streak_counts :: "int set \<Rightarrow> int \<Rightarrow> int \<Rightarrow> int \<Rightarrow> bool" where
  "streak_counts D e c l \<longleftrightarrow>
     day_block D e c \<and> e - c \<notin> D \<and>
     (\<exists>x. day_block D x l) \<and> (\<forall>x. \<not> day_block D x (l + 1))"

lemma day_block_mono: "day_block D e n \<Longrightarrow> D \<subseteq> D' \<Longrightarrow> day_block D' e n"
  by (auto simp: day_block_def)

lemma day_block_le: "day_block D e n \<Longrightarrow> m \<le> n \<Longrightarrow> day_block D e m"
  by (auto simp: day_block_def)

lemma day_block_insert_next:
  assumes "day_block D e c" and "0 \<le> c"
  shows "day_block (insert (e + 1) D) (e + 1) (c + 1)"
  unfolding day_block_def
proof (intro allI impI)
  fix i assume i: "0 \<le> i \<and> i < c + 1"
  show "e + 1 - i \<in> insert (e + 1) D"
  proof (cases "i = 0")
    case False
    with i have "e - (i - 1) \<in> D" using assms(1) unfolding day_block_def by simp
    then show ?thesis by (simp add: algebra_simps)
  qed simp
qed

text \<open>A block of a set with a new last day is an old block, or ends on the new day.\<close>

lemma day_block_insert_cases:
  assumes block: "day_block (insert d D) x n" and last: "\<forall>a \<in> D. a < d" and n: "0 < n"
  shows "day_block D x n \<or> x = d"
proof (cases "x = d")
  case False
  have "x \<in> insert d D" using block n unfolding day_block_def by fastforce
  with False last have "x < d" by auto
  then have "day_block D x n" using block unfolding day_block_def by fastforce
  then show ?thesis ..
qed simp

lemma day_block_at_gap:
  assumes "day_block D d n" and "d - k \<notin> D" and "0 \<le> k"
  shows "n \<le> k"
  using assms unfolding day_block_def by (meson linorder_not_le)


lemma streak_counts_same_day:
  assumes "streak_counts D e c l"
  shows "streak_counts D e c (max l c)"
proof -
  from assms have "day_block D e c" "\<not> day_block D e (l + 1)" by (auto simp: streak_counts_def)
  then have "\<not> l + 1 \<le> c" using day_block_le by blast
  then have "max l c = l" by simp
  with assms show ?thesis by simp
qed

lemma streak_counts_new_day:
  assumes counts: "streak_counts D e c l" and c: "0 \<le> c"
    and last: "\<forall>a \<in> D. a < d" and e: "e < d"
    and c': "c' = (if d = e + 1 then c + 1 else 1)" and pred: "d \<noteq> e + 1 \<Longrightarrow> d - 1 \<notin> D"
  shows "streak_counts (insert d D) d c' (max l c')"
proof -
  have old: "day_block D e c" "e - c \<notin> D" using counts by (auto simp: streak_counts_def)
  have block: "day_block (insert d D) d c'"
  proof (cases "d = e + 1")
    case True
    with c' day_block_insert_next [OF old(1) c] show ?thesis by simp
  next
    case False
    then show ?thesis by (simp add: c' day_block_def)
  qed
  have gap: "d - c' \<notin> insert d D"
    using old(2) c c' pred by auto
  have some: "\<exists>x. day_block (insert d D) x (max l c')"
  proof (cases "l \<le> c'")
    case True
    with block show ?thesis by (auto simp: max_absorb2)
  next
    case False
    moreover obtain x where "day_block D x l" using counts by (auto simp: streak_counts_def)
    ultimately show ?thesis by (auto simp: max_absorb1 intro: day_block_mono)
  qed
  have "\<not> day_block (insert d D) x (max l c' + 1)" for x
  proof
    assume long: "day_block (insert d D) x (max l c' + 1)"
    have "0 < max l c' + 1" using c c' by (simp add: max_def)
    then have "day_block D x (max l c' + 1) \<or> x = d"
      by (rule day_block_insert_cases [OF long last])
    then show False
    proof
      assume "day_block D x (max l c' + 1)"
      then have "day_block D x (l + 1)" by (rule day_block_le) simp
      with counts show False by (auto simp: streak_counts_def)
    next
      assume "x = d"
      with long have "day_block (insert d D) d (max l c' + 1)" by simp
      moreover have "0 \<le> c'" using c c' by simp
      ultimately have "max l c' + 1 \<le> c'" by (rule day_block_at_gap [OF _ gap])
      then show False by simp
    qed
  qed
  with block gap some show ?thesis by (simp add: streak_counts_def)
qed

lemma streak_counts_singleton: "streak_counts {d} d 1 1"
proof -
  have "\<not> day_block {d} x 2" for x
  proof
    assume "day_block {d} x 2"
    then have "x - 0 \<in> {d}" "x - 1 \<in> {d}" unfolding day_block_def by fastforce+
    then show False by simp
  qed
  moreover have "day_block {d} d 1" by (simp add: day_block_def)
  ultimately show ?thesis by (auto simp: streak_counts_def)
qed

text \<open>
  \<open>tracks acts s\<close>: the state \<open>s\<close> counts the activity at the times \<open>acts\<close>, which are in order.
\<close>

definition tracks :: "date list \<Rightarrow> streak_state \<Rightarrow> bool" where
  "tracks acts s \<longleftrightarrow>
     lastActivityDate s = Some (last acts) \<and> 1 \<le> currentStreak s \<and>
     (\<forall>a \<in> set acts. 0 \<le> a \<and> a \<le> last acts) \<and>
     streak_counts (day_number ` set acts) (day_number (last acts))
       (currentStreak s) (longestStreak s)"

lemma tracks_first: "0 \<le> t \<Longrightarrow> tracks [t] (apply_activity new_streak t)"
  by (simp add: tracks_def new_streak_def apply_activity_first streak_counts_singleton)

lemma tracks_next:
  assumes acts: "tracks acts s" "acts \<noteq> []" "last acts \<le> t"
  shows "tracks (acts @ [t]) (apply_activity s t)"
proof -
  let ?D = "day_number ` set acts" and ?e = "day_number (last acts)" and ?d = "day_number t"
  have last: "last acts \<in> set acts" using acts(2) by simp
  have counts: "streak_counts ?D ?e (currentStreak s) (longestStreak s)" "1 \<le> currentStreak s"
    and l: "lastActivityDate s = Some (last acts)"
    and times: "\<forall>a \<in> set acts. 0 \<le> a \<and> a \<le> last acts"
    using acts(1) by (auto simp: tracks_def)
  have pos: "0 \<le> last acts" "0 \<le> t" using times last acts(3) by fastforce+
  have all: "\<forall>a \<in> set (acts @ [t]). 0 \<le> a \<and> a \<le> t" using times acts(3) pos by auto
  have le: "?e \<le> ?d" using acts(3) by (rule day_number_mono)
  have old: "\<forall>a \<in> ?D. a \<le> ?e" using times day_number_mono by blast
  show ?thesis
  proof (cases "?d = ?e")
    case True
    then have "insert ?d ?D = ?D" using last by auto
    with True counts pos all show ?thesis
      by (simp add: tracks_def apply_activity_next [OF l] streak_counts_same_day Let_def)
  next
    case False
    let ?c' = "if ?d = ?e + 1 then currentStreak s + 1 else 1"
    have "?d - 1 \<notin> ?D" if "?d \<noteq> ?e + 1" using that False le old by fastforce
    moreover have "\<forall>a \<in> ?D. a < ?d" using old le False by fastforce
    ultimately have "streak_counts (insert ?d ?D) ?d ?c' (max (longestStreak s) ?c')"
      using counts le False by (intro streak_counts_new_day [OF counts(1)]) auto
    with counts pos all le False show ?thesis
      by (auto simp: tracks_def apply_activity_next [OF l] Let_def)
  qed
qed

text \<open>
  The state after any run of activity in time order counts it: the streak of the user's row is
  the longest block of consecutive days that ends today, and the record is the longest of all.
\<close>

lemma tracks_run:
  "acts \<noteq> [] \<Longrightarrow> sorted acts \<Longrightarrow> \<forall>a \<in> set acts. 0 \<le> a \<Longrightarrow>
   tracks acts (foldl apply_activity new_streak acts)"
proof (induction acts rule: rev_induct)
  case (snoc t acts)
  show ?case
  proof (cases "acts = []")
    case True
    with snoc.prems show ?thesis by (simp add: tracks_first)
  next
    case False
    with snoc have "tracks acts (foldl apply_activity new_streak acts)" "last acts \<le> t"
      by (auto simp: sorted_append)
    with False show ?thesis by (simp add: tracks_next)
  qed
qed simp

lemma apply_activity_bounds:
  "1 \<le> currentStreak (apply_activity s t) \<and>
   currentStreak (apply_activity s t) \<le> longestStreak (apply_activity s t) \<and>
   longestStreak s \<le> longestStreak (apply_activity s t)"
  by (simp add: apply_activity_def calculateStreak_def Let_def split: option.split)

text \<open>C31. After any activity in time order, a new user's current streak is the number of
  consecutive UTC days of activity that end with the last one, and the longest streak is the
  length of the longest run of consecutive days of activity: \<open>calculateStreak\<close> counts days.\<close>

theorem streak_counts_days:
  assumes "acts \<noteq> []" and "sorted acts" and "\<forall>a \<in> set acts. 0 \<le> a"
  shows "streak_counts (day_number ` set acts) (day_number (last acts))
    (currentStreak (foldl apply_activity new_streak acts))
    (longestStreak (foldl apply_activity new_streak acts))"
  using tracks_run [OF assms] by (simp add: tracks_def)

lemma streak_counts_days_witness:
  "streak_counts {0, 1, 5} 5 1 2"
proof -
  let ?acts = "[3600000, 90000000, 90000001, 440000000 :: int]"
  have "foldl apply_activity new_streak ?acts =
      \<lparr>currentStreak = 1, longestStreak = 2, lastActivityDate = Some 440000000\<rparr>"
    by (simp add: new_streak_def apply_activity_first apply_activity_next
        day_number_def MS_PER_DAY_def)
  moreover have "day_number ` set ?acts = {0, 1, 5}" and "day_number (last ?acts) = 5"
    by (auto simp: day_number_def MS_PER_DAY_def)
  ultimately show ?thesis using streak_counts_days [of ?acts] by simp
qed

text \<open>An activity that arrives late, of an earlier UTC day than the last one, changes nothing of a
  counted streak: the clock of the row does not go back and no day is counted for it.\<close>

lemma late_activity_ignored:
  assumes "lastActivityDate s = Some l" and "0 \<le> t" and "0 \<le> l"
    and "day_number t < day_number l"
    and "1 \<le> currentStreak s" and "currentStreak s \<le> longestStreak s"
  shows "apply_activity s t = s"
  using assms by (simp add: apply_activity_next Let_def)

lemma late_activity_ignored_witness:
  "let s = \<lparr>currentStreak = 4, longestStreak = 6, lastActivityDate = Some 440000000\<rparr>
   in apply_activity s 90000000 = s"
  using late_activity_ignored
    [of "\<lparr>currentStreak = 4, longestStreak = 6, lastActivityDate = Some 440000000\<rparr>" 440000000 90000000]
  by (simp add: day_number_def MS_PER_DAY_def)

end
