(* ===== verification/Badges.thy ===== *)
theory Badges
  imports Example
begin

text \<open>
  Milestone badges: services/core/src/utils/badges.ts. \<open>awardBadgeIfEligible\<close> gives a badge
  once, \<open>evaluateMilestoneBadges\<close> decides which badges a solve has earned.
\<close>

section \<open>awardBadgeIfEligible\<close>

datatype badge_award = NotAwarded | Awarded string string string

definition create_userBadge :: "user_badge \<Rightarrow> db \<Rightarrow> (exn + unit) \<times> db" where
  "create_userBadge b d = guarded
     [(UniqueViolation, has_key user_badge_key (user_badge_key b) (userBadges d)),
      (ForeignKeyViolation, \<not> has_user d (ub_userId b)),
      (ForeignKeyViolation, \<not> has_key bd_id (ub_badgeId b) (badges d))]
     (d\<lparr>userBadges := userBadges d @ [b]\<rparr>) d"

definition awardBadgeIfEligible :: "'r env \<Rightarrow> string \<Rightarrow> string \<Rightarrow> ('r world, badge_award) act" where
  "awardBadgeIfEligible E userId badgeSlug = catch
     (bnd (query E (\<lambda>d. find (\<lambda>b. bd_slug b = badgeSlug) (badges d))) (\<lambda>badge.
      case badge of
        None \<Rightarrow> ret NotAwarded
      | Some b \<Rightarrow>
          bnd (query E (\<lambda>d. find (\<lambda>u. user_badge_key u = (userId, bd_id b)) (userBadges d))) (\<lambda>existing.
          if existing \<noteq> None then ret NotAwarded
          else
            bnd now (\<lambda>t.
            sq (run_db E (create_userBadge
                  \<lparr>ub_userId = userId, ub_badgeId = bd_id b, ub_earnedAt = t\<rparr>))
            (ret (Awarded (bd_id b) (bd_slug b) (bd_title b)))))))
     (\<lambda>_. ret NotAwarded)"

section \<open>evaluateMilestoneBadges\<close>

text \<open>\<open>challenge?.module?.path\<close> with the ids of the challenges of all its modules.\<close>

definition path_of_challenge :: "db \<Rightarrow> string \<Rightarrow> (string \<times> string list) option" where
  "path_of_challenge d cid =
     Option.bind (find_challenge cid d) (\<lambda>c.
     Option.bind (ch_moduleId c) (\<lambda>mid.
     Option.bind (find (\<lambda>m. mod_id m = mid) (modules d)) (\<lambda>m.
     Some (mod_pathId m,
       concat (map (\<lambda>n. map ch_id (filter (\<lambda>c. ch_moduleId c = Some (mod_id n)) (challenges d)))
         (filter (\<lambda>n. mod_pathId n = mod_pathId m) (modules d)))))))"

definition completed_sessions :: "db \<Rightarrow> string \<Rightarrow> lab_session list" where
  "completed_sessions d u = filter (\<lambda>s. ls_userId s = u \<and> ls_status s = COMPLETED) (labSessions d)"

text \<open>The recurring \<open>if (\<dots>) { const res = await award(\<dots>); if (res.awarded) push(slug) }\<close>.\<close>

definition award_when ::
  "'r env \<Rightarrow> string \<Rightarrow> bool \<Rightarrow> string \<Rightarrow> string list \<Rightarrow> ('r world, string list) act" where
  "award_when E userId b slug awarded =
     (if b then bnd (awardBadgeIfEligible E userId slug) (\<lambda>res.
        ret (if res \<noteq> NotAwarded then awarded @ [slug] else awarded))
      else ret awarded)"

definition evaluateMilestoneBadges ::
  "'r env \<Rightarrow> string \<Rightarrow> int \<Rightarrow> string option \<Rightarrow> ('r world, string list) act" where
  "evaluateMilestoneBadges E userId currentStreak challengeId =
     bnd (query E (\<lambda>d. length (completed_sessions d userId))) (\<lambda>totalCompleted.
     bnd (award_when E userId (totalCompleted \<ge> 1) ''first-blood'' []) (\<lambda>a1.
     bnd (award_when E userId (currentStreak \<ge> 3) ''streak-3'' a1) (\<lambda>a2.
     bnd (award_when E userId (currentStreak \<ge> 7) ''streak-7'' a2) (\<lambda>a3.
     bnd (award_when E userId (currentStreak \<ge> 30) ''streak-30'' a3) (\<lambda>a4.
     if \<not> truthy challengeId then ret a4
     else
       bnd (query E (\<lambda>d. path_of_challenge d (the challengeId))) (\<lambda>path.
       case path of
         None \<Rightarrow> ret a4
       | Some (pid, allPathChallengeIds) \<Rightarrow>
           if length allPathChallengeIds > 0 then
             bnd (query E (\<lambda>d. map ls_challengeId (filter (\<lambda>s. ls_challengeId s \<in> set allPathChallengeIds)
                     (completed_sessions d userId)))) (\<lambda>completedSet.
             if list_all (\<lambda>cid. cid \<in> set completedSet) allPathChallengeIds then
               bnd (query E (\<lambda>d. find (\<lambda>b. bd_roadmapId b = Some pid) (badges d))) (\<lambda>pathBadge.
               case pathBadge of
                 None \<Rightarrow> ret a4
               | Some b \<Rightarrow> award_when E userId True (bd_slug b) a4)
             else ret a4)
           else ret a4))))))"

section \<open>Badges are given once, and for what the rules say\<close>

text \<open>
  What a run may do to the badges of a user: add one row for a badge that exists and that the user
  does not have. Nothing else of the database changes.
\<close>

inductive badge_step :: "string \<Rightarrow> (badge \<Rightarrow> bool) \<Rightarrow> db \<Rightarrow> db \<Rightarrow> bool" for u ok where
  none: "badge_step u ok d d"
| give: "badge_step u ok d d' \<Longrightarrow> b \<in> set (badges d') \<Longrightarrow> ok b \<Longrightarrow>
    \<not> has_key user_badge_key (u, bd_id b) (userBadges d') \<Longrightarrow> has_user d' u \<Longrightarrow>
    badge_step u ok d (d'\<lparr>userBadges := userBadges d' @
      [\<lparr>ub_userId = u, ub_badgeId = bd_id b, ub_earnedAt = t\<rparr>]\<rparr>)"

lemma badge_step_trans: "badge_step u ok b c \<Longrightarrow> badge_step u ok a b \<Longrightarrow> badge_step u ok a c"
  by (induction rule: badge_step.induct) (auto intro: badge_step.intros)

lemma badge_step_mono: "badge_step u ok a b \<Longrightarrow> (\<And>x. ok x \<Longrightarrow> ok' x) \<Longrightarrow> badge_step u ok' a b"
  by (induction rule: badge_step.induct) (auto intro: badge_step.intros)

interpretation badge_order: db_order "badge_step u ok" for u ok
  by unfold_locales (auto intro: badge_step.none badge_step_trans)

text \<open>What every such run keeps, for use by the components that evaluate badges.\<close>

lemma badge_step_frame:
  "badge_step u ok d d' \<Longrightarrow> \<exists>ubs. d' = d\<lparr>userBadges := userBadges d @ ubs\<rparr> \<and>
     (\<forall>r \<in> set ubs. ub_userId r = u \<and> (\<exists>b \<in> set (badges d). ok b \<and> bd_id b = ub_badgeId r))"
proof (induction rule: badge_step.induct)
  case none
  then show ?case by (intro exI [of _ "[]"]) simp
next
  case (give d d' b t)
  then obtain ubs where "d' = d\<lparr>userBadges := userBadges d @ ubs\<rparr>"
    and "\<forall>r \<in> set ubs. ub_userId r = u \<and> (\<exists>b \<in> set (badges d). ok b \<and> bd_id b = ub_badgeId r)"
    by blast
  with give show ?case
    by (intro exI [of _ "ubs @ [\<lparr>ub_userId = u, ub_badgeId = bd_id b, ub_earnedAt = t\<rparr>]"]) auto
qed

lemma badge_step_keys:
  "badge_step u ok d d' \<Longrightarrow> unique_by user_badge_key (userBadges d) \<Longrightarrow>
   unique_by user_badge_key (userBadges d')"
  by (induction rule: badge_step.induct) (auto simp: user_badge_key_def)

lemma badge_step_constraints:
  "badge_step u ok d d' \<Longrightarrow> constraints d \<Longrightarrow> constraints d'"
proof (induction rule: badge_step.induct)
  case (give d d' b t)
  moreover have "has_key bd_id (bd_id b) (badges d')" using give.hyps by (auto simp: has_key_def)
  ultimately show ?case
    by (auto simp: constraints_def keys_ok_def refs_ok_def user_badge_key_def)
qed simp

lemma award_step:
  "db_post (awardBadgeIfEligible E u slug) d (\<lambda>r d'.
     badge_step u (\<lambda>b. bd_slug b = slug) d d' \<and>
     (\<exists>a. r = Inr a \<and> (a = NotAwarded \<or> (\<exists>i t. a = Awarded i slug t))))"
  unfolding awardBadgeIfEligible_def create_userBadge_def
  apply (intro post_rules)
  apply (auto simp: badge_step.none user_badge_key_def find_key_None dest!: find_in
      intro!: badge_step.give [OF badge_step.none, simplified])
  done

text \<open>
  The rules as a list: the slugs a solve of \<open>cid\<close> has earned, given the streak and what the
  user has completed.
\<close>

definition path_done :: "db \<Rightarrow> string \<Rightarrow> string list \<Rightarrow> bool" where
  "path_done d u cids \<longleftrightarrow> cids \<noteq> [] \<and> (\<forall>c \<in> set cids. \<exists>s \<in> set (completed_sessions d u). ls_challengeId s = c)"

definition path_slugs :: "db \<Rightarrow> string \<Rightarrow> string option \<Rightarrow> string list" where
  "path_slugs d u cid =
     (if \<not> truthy cid then [] else
      case path_of_challenge d (the cid) of
        None \<Rightarrow> []
      | Some (pid, cids) \<Rightarrow>
          if path_done d u cids then
            (case find (\<lambda>b. bd_roadmapId b = Some pid) (badges d) of None \<Rightarrow> [] | Some b \<Rightarrow> [bd_slug b])
          else [])"

definition earned_slugs :: "db \<Rightarrow> string \<Rightarrow> int \<Rightarrow> string option \<Rightarrow> string list" where
  "earned_slugs d u streak cid =
     (if completed_sessions d u \<noteq> [] then [''first-blood''] else []) @
     (if streak \<ge> 3 then [''streak-3''] else []) @
     (if streak \<ge> 7 then [''streak-7''] else []) @
     (if streak \<ge> 30 then [''streak-30''] else []) @
     path_slugs d u cid"

lemma rules_frame [simp]:
  "completed_sessions (d\<lparr>userBadges := x\<rparr>) u = completed_sessions d u"
  "path_of_challenge (d\<lparr>userBadges := x\<rparr>) c = path_of_challenge d c"
  by (simp_all add: completed_sessions_def path_of_challenge_def)

lemma slugs_frame [simp]:
  "path_slugs (d\<lparr>userBadges := x\<rparr>) u cid = path_slugs d u cid"
  "earned_slugs (d\<lparr>userBadges := x\<rparr>) u n cid = earned_slugs d u n cid"
  by (simp_all add: path_slugs_def path_done_def earned_slugs_def cong: option.case_cong if_cong)

text \<open>The state of an evaluation that started at \<open>d0\<close> and is through with the slugs \<open>L\<close>.\<close>

definition awarding ::
  "'r env \<Rightarrow> string \<Rightarrow> (badge \<Rightarrow> bool) \<Rightarrow> db \<Rightarrow> string list \<Rightarrow> db \<Rightarrow> bool" where
  "awarding E u ok d0 L d \<longleftrightarrow> badge_step u ok d0 d \<and>
     (calm E \<and> has_user d0 u \<longrightarrow> (\<forall>slug \<in> set L. \<forall>b.
        find (\<lambda>b. bd_slug b = slug) (badges d0) = Some b \<longrightarrow>
        has_key user_badge_key (u, bd_id b) (userBadges d)))"

lemma awarding_start: "awarding E u ok d [] d"
  by (simp add: awarding_def badge_step.none)

lemma badge_step_keeps:
  assumes "badge_step u ok d d'"
  shows "badges d' = badges d" "users d' = users d"
    "has_key user_badge_key k (userBadges d) \<Longrightarrow> has_key user_badge_key k (userBadges d')"
    "completed_sessions d' v = completed_sessions d v" "path_of_challenge d' c = path_of_challenge d c"
    "path_slugs d' v cid = path_slugs d v cid"
  using badge_step_frame [OF assms] by auto

lemma award_calm:
  assumes "calm E" and "has_user d u"
  shows "db_post (awardBadgeIfEligible E u slug) d (\<lambda>r d'. \<forall>b.
     find (\<lambda>b. bd_slug b = slug) (badges d) = Some b \<longrightarrow>
     has_key user_badge_key (u, bd_id b) (userBadges d'))"
  unfolding awardBadgeIfEligible_def create_userBadge_def
  apply (intro calm_rules assms(1))
  using assms(2) find_key_None [of user_badge_key]
  apply (auto simp: user_badge_key_def has_key_def dest!: find_in)
  done

lemma award_when_awarding:
  assumes inv: "awarding E u ok d0 L d" and ok: "\<And>x. b \<Longrightarrow> bd_slug x = slug \<Longrightarrow> ok x"
  shows "db_post (award_when E u b slug a) d
    (\<lambda>r d'. (\<exists>a'. r = Inr a') \<and> awarding E u ok d0 (L @ (if b then [slug] else [])) d')"
proof (cases b)
  case False
  with inv show ?thesis by (auto simp: award_when_def intro!: post_ret)
next
  case True
  have step: "badge_step u ok d0 d" using inv by (simp add: awarding_def)
  have goes: "badge_step u ok d d'" if "badge_step u (\<lambda>b. bd_slug b = slug) d d'" for d'
    using that ok [OF True] by (rule badge_step_mono)
  have both: "db_post (awardBadgeIfEligible E u slug) d (\<lambda>r d'.
       (badge_step u (\<lambda>b. bd_slug b = slug) d d' \<and>
        (\<exists>a. r = Inr a \<and> (a = NotAwarded \<or> (\<exists>i t. a = Awarded i slug t)))) \<and>
       (calm E \<and> has_user d u \<longrightarrow> (\<forall>b. find (\<lambda>b. bd_slug b = slug) (badges d) = Some b \<longrightarrow>
          has_key user_badge_key (u, bd_id b) (userBadges d'))))"
    by (rule db_post_conj [OF award_step])
       (use award_calm [where E = E and d = d and u = u and slug = slug] in \<open>auto simp: db_post_def\<close>)
  have one: "db_post (awardBadgeIfEligible E u slug) d (\<lambda>r d'.
     (\<exists>x. r = Inr x) \<and> awarding E u ok d0 (L @ [slug]) d')"
  proof (rule db_post_conseq [OF both], elim conjE exE)
    fix r :: "exn + badge_award" and d' a
    assume given: "badge_step u (\<lambda>b. bd_slug b = slug) d d'" and r: "r = Inr a"
      and held: "calm E \<and> has_user d u \<longrightarrow> (\<forall>b. find (\<lambda>b. bd_slug b = slug) (badges d) = Some b \<longrightarrow>
          has_key user_badge_key (u, bd_id b) (userBadges d'))"
    have "badge_step u ok d0 d'" using goes [OF given] step by (rule badge_step_trans)
    with inv held r show "(\<exists>x. r = Inr x) \<and> awarding E u ok d0 (L @ [slug]) d'"
      by (auto simp: awarding_def badge_step_keeps [OF step] intro: badge_step_keeps(3) [OF given])
  qed
  show ?thesis
    unfolding award_when_def using True
    by simp (rule post_bnd_conseq [OF one], auto intro: post_ret)
qed

lemma award_then:
  assumes "awarding E u ok d0 L d" and "\<And>x. b \<Longrightarrow> bd_slug x = slug \<Longrightarrow> ok x"
    and "\<And>a d'. awarding E u ok d0 (L @ (if b then [slug] else [])) d' \<Longrightarrow> db_post (f a) d' Q"
  shows "db_post (bnd (award_when E u b slug a) f) d Q"
  by (rule post_bnd_conseq [OF award_when_awarding [OF assms(1,2)]]) (auto intro: assms(3))

text \<open>A query that throws ends the evaluation; one that is done goes on with its answer.\<close>

lemma ask_then:
  assumes "\<not> calm E \<Longrightarrow> Q (Inl ConnectionLost) d" and "db_post (g (f d)) d Q"
  shows "db_post (bnd (query E f) g) d Q"
proof (cases "calm E")
  case True
  then show ?thesis by (intro calm_rules assms(2))
next
  case False
  then show ?thesis by (intro post_rules assms)
qed

lemma done_path_iff:
  "length cids > 0 \<and> list_all (\<lambda>cid. cid \<in> set (map ls_challengeId
     (filter (\<lambda>s. ls_challengeId s \<in> set cids) (completed_sessions d u)))) cids \<longleftrightarrow> path_done d u cids"
  by (auto simp: path_done_def list_all_iff)

lemma awarding_set: "awarding E u ok d0 L d \<Longrightarrow> set M = set L \<Longrightarrow> awarding E u ok d0 M d"
  by (simp add: awarding_def)

text \<open>The path badge, the last rule, after the rules about counts.\<close>

lemma path_award:
  assumes inv: "awarding E u ok d0 L d" and ok: "\<And>x. bd_slug x \<in> set (path_slugs d0 u cid) \<Longrightarrow> ok x"
  shows "db_post (if \<not> truthy cid then ret a4
     else
       bnd (query E (\<lambda>d. path_of_challenge d (the cid))) (\<lambda>path.
       case path of
         None \<Rightarrow> ret a4
       | Some (pid, allPathChallengeIds) \<Rightarrow>
           if length allPathChallengeIds > 0 then
             bnd (query E (\<lambda>d. map ls_challengeId (filter (\<lambda>s. ls_challengeId s \<in> set allPathChallengeIds)
                     (completed_sessions d u)))) (\<lambda>completedSet.
             if list_all (\<lambda>cid. cid \<in> set completedSet) allPathChallengeIds then
               bnd (query E (\<lambda>d. find (\<lambda>b. bd_roadmapId b = Some pid) (badges d))) (\<lambda>pathBadge.
               case pathBadge of
                 None \<Rightarrow> ret a4
               | Some b \<Rightarrow> award_when E u True (bd_slug b) a4)
             else ret a4)
           else ret a4)) d
    (\<lambda>r d'. badge_step u ok d0 d' \<and> (calm E \<longrightarrow> awarding E u ok d0 (L @ path_slugs d0 u cid) d'))"
proof -
  have step: "badge_step u ok d0 d" using inv by (simp add: awarding_def)
  note same = badge_step_keeps(1,4,5) [OF step]
  define Q where "Q = (\<lambda>(r :: exn + string list) d'. badge_step u ok d0 d' \<and>
    (calm E \<longrightarrow> awarding E u ok d0 (L @ path_slugs d0 u cid) d'))"
  have stop: "Q (Inr a) d" if "path_slugs d0 u cid = []" for a
    using inv step that by (simp add: Q_def)
  have fault: "Q (Inl e) d" if "\<not> calm E" for e
    using step that by (simp add: Q_def)
  have last_one: "db_post (award_when E u True slug a4) d Q" if "path_slugs d0 u cid = [slug]" for slug
    unfolding Q_def
    by (rule db_post_conseq [OF award_when_awarding [OF inv]])
       (use that ok in \<open>auto simp: awarding_def\<close>)
  show ?thesis
    unfolding Q_def [symmetric]
    by (intro post_if ask_then post_option post_prod post_ret last_one stop fault)
       (auto simp: same path_slugs_def done_path_iff [symmetric] list_all_iff split: if_splits)
qed

lemma evaluate_steps:
  fixes cid :: "string option"
  shows "db_post (evaluateMilestoneBadges E u n cid) d (\<lambda>r d'.
     let ok = (\<lambda>b. bd_slug b \<in> set (earned_slugs d u n cid)) in
     badge_step u ok d d' \<and> (calm E \<longrightarrow> awarding E u ok d (earned_slugs d u n cid) d'))"
proof -
  define ok :: "badge \<Rightarrow> bool" where "ok = (\<lambda>b. bd_slug b \<in> set (earned_slugs d u n cid))"
  define Q where "Q = (\<lambda>(r :: exn + string list) d'. badge_step u ok d d' \<and>
    (calm E \<longrightarrow> awarding E u ok d (earned_slugs d u n cid) d'))"
  have earned: "earned_slugs d u n cid =
     (((([] @ (if 1 \<le> length (completed_sessions d u) then [''first-blood''] else [])) @
     (if 3 \<le> n then [''streak-3''] else [])) @
     (if 7 \<le> n then [''streak-7''] else [])) @
     (if 30 \<le> n then [''streak-30''] else [])) @ path_slugs d u cid"
    by (simp add: earned_slugs_def Suc_le_eq)
  have ok: "ok b" if "bd_slug b \<in> set (earned_slugs d u n cid)" for b
    using that by (simp add: ok_def)
  have "db_post (evaluateMilestoneBadges E u n cid) d Q"
    unfolding evaluateMilestoneBadges_def
    apply (rule ask_then)
     apply (simp add: Q_def badge_step.none)
    apply (rule award_then [OF awarding_start [where ok = ok]], rule ok, simp add: earned)
    apply (erule award_then, rule ok, simp add: earned)
    apply (erule award_then, rule ok, simp add: earned)
    apply (erule award_then, rule ok, simp add: earned)
    apply (rule db_post_conseq, erule path_award [where cid = cid], rule ok, simp add: earned)
    apply (unfold Q_def earned, assumption)
    done
  then show ?thesis by (simp add: Q_def ok_def Let_def)
qed


lemma evaluate_badge_step:
  "db_post (evaluateMilestoneBadges E u n cid) d (\<lambda>r d'.
     badge_step u (\<lambda>b. bd_slug b \<in> set (earned_slugs d u n cid)) d d')"
  by (rule db_post_conseq [OF evaluate_steps]) (simp add: Let_def)

text \<open>
  Properties of badges: whatever fails, a run adds rows for the given user only, each for a badge
  whose rule is met, none of them a second time; without faults every rule that is met and whose
  badge exists ends in a row.
\<close>

text \<open>C32. An evaluation of the milestone badges, whatever calls fail in it, leaves the database
  as it was except for new badges of this user, each of them one whose rule is met, and keeps the
  constraints of the schema, so no badge is held twice.\<close>

theorem badges_sound:
  assumes "constraints (db w)"
  shows "let w' = snd (evaluateMilestoneBadges E u n cid w) in
    (\<exists>new. db w' = (db w)\<lparr>userBadges := userBadges (db w) @ new\<rparr> \<and>
      (\<forall>row \<in> set new. ub_userId row = u \<and> (\<exists>b \<in> set (badges (db w)).
         bd_id b = ub_badgeId row \<and> bd_slug b \<in> set (earned_slugs (db w) u n cid)))) \<and>
    constraints (db w')"
proof -
  let ?w' = "snd (evaluateMilestoneBadges E u n cid w)"
  have step: "badge_step u (\<lambda>b. bd_slug b \<in> set (earned_slugs (db w) u n cid)) (db w) (db ?w')"
    using evaluate_badge_step by (rule db_postD [OF _ surjective_pairing]) simp
  from badge_step_frame [OF this] badge_step_constraints [OF this assms] show ?thesis
    unfolding Let_def by blast
qed

text \<open>A database in which Ann has solved both challenges of the path.\<close>

definition solved_db :: db where
  "solved_db = example_db\<lparr>labSessions := [example_session ''s1'' ''ann'' ''c1'' COMPLETED,
     example_session ''s2'' ''ann'' ''c2'' COMPLETED]\<rparr>"

lemma badges_sound_witness:
  "constraints (db (snd (evaluateMilestoneBadges (faulty_env [(7, Unacked)]) ''ann'' 1 (Some ''c1'')
     (example_world solved_db))))"
proof -
  have "constraints (db (example_world solved_db))" by code_simp
  then show ?thesis
    using badges_sound [of "example_world solved_db" "faulty_env [(7, Unacked)]" "''ann''" 1 "Some ''c1''"]
    by (simp add: Let_def)
qed

text \<open>When no call fails, every badge whose rule is met is held afterwards.\<close>

lemma badges_complete:
  assumes "calm E" and "has_user (db w) u"
    and "slug \<in> set (earned_slugs (db w) u n cid)"
    and "find (\<lambda>b. bd_slug b = slug) (badges (db w)) = Some b"
  shows "has_key user_badge_key (u, bd_id b)
    (userBadges (db (snd (evaluateMilestoneBadges E u n cid w))))"
  using evaluate_steps [of E u n cid "db w"] assms
  by (simp add: db_post_def awarding_def Let_def)

lemma badges_complete_witness:
  "has_key user_badge_key (''ann'', ''b2'')
     (userBadges (db (snd (evaluateMilestoneBadges calm_env ''ann'' 1 (Some ''c1'') (example_world solved_db)))))"
proof -
  let ?w = "example_world solved_db"
  have "has_user (db ?w) ''ann''" by code_simp
  moreover have "''path-p'' \<in> set (earned_slugs (db ?w) ''ann'' 1 (Some ''c1''))" by code_simp
  moreover have "find (\<lambda>b. bd_slug b = ''path-p'') (badges (db ?w)) =
     Some \<lparr>bd_id = ''b2'', bd_slug = ''path-p'', bd_title = ''Path'', bd_roadmapId = Some ''p1''\<rparr>"
    by code_simp
  ultimately show ?thesis
    using badges_complete [where E = calm_env and w = ?w and u = "''ann''" and n = 1
      and slug = "''path-p''" and cid = "Some ''c1''"] by simp
qed

end
