(* ===== verification/Progress.thy ===== *)
theory Progress
  imports Badges Streak
begin

text \<open>
  The progress consumers of services/core/src/modules/progress/consumers.ts: what the service does
  when it learns from the broker that a challenge was solved, that an attempt failed, or that a
  sandbox could not be provisioned. The broker redelivers, so each handler may run again for the
  same event, after a run of it that stopped half way.
\<close>

section \<open>The events\<close>

record check =
  checkId :: string
  check_passed :: bool
  check_message :: string

record solve_event =
  submissionId :: string
  ev_challengeId :: string
  ev_userId :: string
  ev_result :: run_result
  ev_checks :: "check list option"

definition is_guest :: "string \<Rightarrow> bool" where
  "is_guest u \<longleftrightarrow> starts_with ''guest_'' u"

section \<open>The writes\<close>

definition node_title :: "challenge option \<Rightarrow> string" where
  "node_title c = js_or (map_option ch_title c) ''Challenge Lab''"

definition node_description :: "challenge option \<Rightarrow> string" where
  "node_description c = js_or (map_option ch_description c) ''Interactive lab scenario''"

text \<open>\<open>challenge?.xp || 100\<close>: an xp of 0 is falsy and shows as 100.\<close>

definition scenario_metadata :: "challenge option \<Rightarrow> node_metadata" where
  "scenario_metadata c = ScenarioMetadata
     (case c of None \<Rightarrow> 100 | Some c \<Rightarrow> if ch_xp c = 0 then 100 else ch_xp c)
     (case c of None \<Rightarrow> DOCKER | Some c \<Rightarrow> ch_category c)
     (case c of None \<Rightarrow> JUNIOR | Some c \<Rightarrow> ch_difficulty c)
     (case c of None \<Rightarrow> [] | Some c \<Rightarrow> ch_tags c)"

definition upsert_node :: "string \<Rightarrow> challenge option \<Rightarrow> node list \<Rightarrow> node list" where
  "upsert_node cid c ns =
     (if has_key nd_id cid ns then
        update_rows (\<lambda>n. nd_id n = cid) (\<lambda>n. n\<lparr>nd_title := node_title c,
          nd_description := node_description c, nd_metadata := scenario_metadata c\<rparr>) ns
      else ns @ [\<lparr>nd_id = cid, nd_type = SCENARIO, nd_title = node_title c,
          nd_description = node_description c, nd_metadata = scenario_metadata c\<rparr>])"

definition upsert_completion :: "string \<Rightarrow> string \<Rightarrow> int \<Rightarrow> db \<Rightarrow> (exn + unit) \<times> db" where
  "upsert_completion u cid t d = (let exists = has_key completion_key (u, cid) (completions d) in
     guarded
       [(ForeignKeyViolation, \<not> exists \<and> \<not> has_user d u),
        (ForeignKeyViolation, \<not> exists \<and> \<not> has_key nd_id cid (nodes d))]
       (if exists then d
        else d\<lparr>completions := completions d @ [\<lparr>co_userId = u, co_nodeId = cid, co_createdAt = t\<rparr>]\<rparr>) d)"

definition upsert_check :: "string \<Rightarrow> string \<Rightarrow> check \<Rightarrow> int \<Rightarrow> db \<Rightarrow> (exn + unit) \<times> db" where
  "upsert_check u cid c t d =
     (let key = (u, cid, checkId c);
          st = (if check_passed c then CheckPassed else CheckFailed)
      in guarded [(ForeignKeyViolation, \<not> has_key check_key key (checkResults d) \<and> \<not> has_user d u)]
        (d\<lparr>checkResults :=
           if has_key check_key key (checkResults d) then
             update_rows (\<lambda>r. check_key r = key)
               (\<lambda>r. r\<lparr>cr_status := st, cr_message := check_message c, cr_lastRunAt := t\<rparr>) (checkResults d)
           else checkResults d @ [\<lparr>cr_userId = u, cr_challengeId = cid, cr_checkId = checkId c,
             cr_status = st, cr_message = check_message c, cr_lastRunAt = t\<rparr>]\<rparr>) d)"

definition save_checks ::
  "'r env \<Rightarrow> string \<Rightarrow> string \<Rightarrow> check list option \<Rightarrow> ('r world, unit) act" where
  "save_checks E u cid checks =
     (case checks of
        None \<Rightarrow> ret ()
      | Some cs \<Rightarrow> for_each cs (\<lambda>c. bnd now (\<lambda>t. run_db E (upsert_check u cid c t))))"

definition user_streak :: "user \<Rightarrow> streak_state" where
  "user_streak u = \<lparr>currentStreak = user_currentStreak u, longestStreak = user_longestStreak u,
     lastActivityDate = user_lastActivityDate u\<rparr>"

definition store_streak :: "streak_update option \<Rightarrow> user \<Rightarrow> user" where
  "store_streak s u = (case s of None \<Rightarrow> u | Some s \<Rightarrow>
     u\<lparr>user_currentStreak := upd_currentStreak s, user_longestStreak := upd_longestStreak s,
       user_lastActivityDate := Some (upd_lastActivityDate s)\<rparr>)"

definition add_xp :: "string \<Rightarrow> int \<Rightarrow> streak_update option \<Rightarrow> db \<Rightarrow> (exn + unit) \<times> db" where
  "add_xp u xp s d = guarded [(RecordNotFound, \<not> has_user d u)]
     (d\<lparr>users := update_rows (\<lambda>r. user_id r = u)
        (\<lambda>r. store_streak s (r\<lparr>user_xp := user_xp r + xp\<rparr>)) (users d)\<rparr>) d"

definition end_active :: "string \<Rightarrow> session_status \<Rightarrow> int \<Rightarrow> db \<Rightarrow> db" where
  "end_active sid st t d = d\<lparr>labSessions := update_rows (\<lambda>s. ls_id s = sid \<and> ls_status s = ACTIVE)
     (\<lambda>s. s\<lparr>ls_status := st, ls_endedAt := Some t\<rparr>) (labSessions d)\<rparr>"

definition create_submission ::
  "submission_status \<Rightarrow> string \<Rightarrow> string \<Rightarrow> run_result \<Rightarrow> int \<Rightarrow> db \<Rightarrow> (exn + unit) \<times> db" where
  "create_submission st u cid res t d = guarded
     [(ForeignKeyViolation, \<not> has_user d u), (ForeignKeyViolation, \<not> has_challenge d cid)]
     (d\<lparr>submissions := submissions d @ [\<lparr>sub_status = st, sub_userId = u, sub_challengeId = cid,
        sub_result = res, sub_createdAt = t\<rparr>]\<rparr>) d"

section \<open>The handlers\<close>

text \<open>
  The body of the try block for a registered user: first the completion, then what follows from
  its being the first.
\<close>

definition settle_solve ::
  "'r env \<Rightarrow> solve_event \<Rightarrow> challenge option \<Rightarrow> bool \<Rightarrow> ('r world, unit) act" where
  "settle_solve E ev challenge isFirstSolve = (let u = ev_userId ev; cid = ev_challengeId ev in
     sq (save_checks E u cid (ev_checks ev)) (
     bnd (query E (find_user u)) (\<lambda>currentUser.
     bnd now (\<lambda>t.
     let xpEarned = (case challenge of None \<Rightarrow> 100 | Some c \<Rightarrow> ch_xp c);
         streakUpdate = map_option (\<lambda>r. calculateStreak (user_streak r) t) currentUser
     in
     sq (when_act isFirstSolve (run_db E (add_xp u xpEarned streakUpdate))) (
     bnd now (\<lambda>t'.
     sq (write_db E (end_active (submissionId ev) COMPLETED t')) (
     sq (run_db_at E (create_submission SubCompleted u cid (ev_result ev))) (
     when_act isFirstSolve
       (bnd (evaluateMilestoneBadges E u
          (case streakUpdate of None \<Rightarrow> 0 | Some s \<Rightarrow> upd_currentStreak s) (Some cid))
        (\<lambda>_. ret ()))))))))))"

definition record_solve :: "'r env \<Rightarrow> solve_event \<Rightarrow> ('r world, unit) act" where
  "record_solve E ev = (let u = ev_userId ev; cid = ev_challengeId ev in
     bnd (query E (find_challenge cid)) (\<lambda>challenge.
     sq (write_db E (\<lambda>d. d\<lparr>nodes := upsert_node cid challenge (nodes d)\<rparr>)) (
     bnd (query E (\<lambda>d. find (\<lambda>c. completion_key c = (u, cid)) (completions d))) (\<lambda>existing.
     sq (run_db_at E (upsert_completion u cid))
     (settle_solve E ev challenge (existing = None))))))"

definition on_challenge_solved :: "'r env \<Rightarrow> solve_event \<Rightarrow> ('r world, unit) act" where
  "on_challenge_solved E ev =
     (if is_guest (ev_userId ev) then
        catch (bnd now (\<lambda>t. write_db E (end_active (submissionId ev) COMPLETED t))) (\<lambda>_. ret ())
      else catch (record_solve E ev) (\<lambda>_. ret ()))"

definition on_challenge_failed :: "'r env \<Rightarrow> solve_event \<Rightarrow> ('r world, unit) act" where
  "on_challenge_failed E ev =
     (if is_guest (ev_userId ev) then ret ()
      else catch
        (sq (run_db_at E (create_submission SubFailed (ev_userId ev) (ev_challengeId ev) (ev_result ev)))
         (save_checks E (ev_userId ev) (ev_challengeId ev) (ev_checks ev)))
        (\<lambda>_. ret ()))"

definition on_session_failed :: "'r env \<Rightarrow> string \<Rightarrow> ('r world, unit) act" where
  "on_session_failed E sessionId =
     catch (bnd now (\<lambda>t. write_db E (end_active sessionId TERMINATED t))) (\<lambda>_. ret ())"

section \<open>The constraints are kept\<close>

lemma constraints_nodes [simp]:
  "constraints d \<Longrightarrow> constraints (d\<lparr>nodes := upsert_node cid c (nodes d)\<rparr>)"
  by (simp add: constraint_defs upsert_node_def row_updates)

lemma constraints_end_active [simp]: "constraints (end_active sid st t d) = constraints d"
  by (auto simp: constraint_defs end_active_def row_updates)

lemma constraints_completion:
  "moves (on_db (keeping constraints)) (run_db_at E (upsert_completion u cid))"
  unfolding upsert_completion_def Let_def
  by (rule keeping_guarded_at) (auto simp: constraint_defs completion_key_def)

lemma constraints_check:
  "moves (on_db (keeping constraints)) (run_db E (upsert_check u cid c t))"
  unfolding upsert_check_def Let_def
  by (rule keeping_guarded)
     (auto simp: constraint_defs check_key_def row_updates)

lemma constraints_submission:
  "moves (on_db (keeping constraints)) (run_db_at E (create_submission st u cid res))"
  unfolding create_submission_def
  by (rule keeping_guarded_at) (auto simp: constraint_defs)

lemma store_streak_keys [simp]:
  "user_id (store_streak s r) = user_id r" "user_email (store_streak s r) = user_email r"
  by (simp_all add: store_streak_def split: option.split)

lemma constraints_xp: "moves (on_db (keeping constraints)) (run_db E (add_xp u xp s))"
  unfolding add_xp_def
  by (rule keeping_guarded) (simp add: constraint_defs row_updates)

lemma constraints_badges:
  "moves (on_db (keeping constraints)) (evaluateMilestoneBadges E u n cid)"
  by (rule db_post_moves, rule db_post_conseq [OF evaluate_badge_step])
     (auto simp: keeping_def intro: badge_step_constraints)

lemma constraints_checks: "moves (on_db (keeping constraints)) (save_checks E u cid cs)"
  unfolding save_checks_def by (intro keeping_steps constraints_check)

lemma constraints_solve: "moves (on_db (keeping constraints)) (record_solve E ev)"
  unfolding record_solve_def settle_solve_def
  by (intro keeping_steps constraints_completion constraints_checks constraints_xp
      constraints_submission constraints_badges) simp_all

text \<open>A delivery, in the order in which the broker hands the events over.\<close>

datatype progress_event = Solved solve_event | AttemptFailed solve_event | SessionFailed string

fun deliver :: "'r env \<Rightarrow> progress_event \<Rightarrow> ('r world, unit) act" where
  "deliver E (Solved ev) = on_challenge_solved E ev"
| "deliver E (AttemptFailed ev) = on_challenge_failed E ev"
| "deliver E (SessionFailed sid) = on_session_failed E sid"

fun deliver_all :: "('r env \<times> progress_event) list \<Rightarrow> 'r world \<Rightarrow> 'r world" where
  "deliver_all [] w = w"
| "deliver_all ((E, e) # es) w = deliver_all es (snd (deliver E e w))"

lemmas handlers = on_challenge_solved_def on_challenge_failed_def on_session_failed_def

lemma constraints_deliver: "moves (on_db (keeping constraints)) (deliver E e)"
  by (cases e; simp only: deliver.simps handlers;
      intro keeping_steps constraints_solve constraints_submission constraints_checks; simp)

lemma deliver_all_induct:
  assumes "\<And>E e w. (E, e) \<in> set es \<Longrightarrow> I w \<Longrightarrow> I (snd (deliver E e w))" and "I w"
  shows "I (deliver_all es w)"
  using assms by (induction es w rule: deliver_all.induct) auto

text \<open>Any run of deliveries, with any failing calls in each of them, keeps the keys and the
  references of the schema.\<close>

lemma deliveries_keep_constraints:
  assumes "constraints (db w)"
  shows "constraints (db (deliver_all es w))"
  using constraints_deliver
  by (intro deliver_all_induct [where I = "\<lambda>w. constraints (db w)"] assms)
     (auto simp: moves_def on_db_def keeping_def)

lemma deliveries_keep_constraints_witness:
  "constraints (db (deliver_all [(faulty_env [(3, Unacked)], SessionFailed ''s1'')] (example_world example_db)))"
  by (rule deliveries_keep_constraints) simp

section \<open>What one delivery of a solve does to XP\<close>

text \<open>What the rules about XP read and write.\<close>

definition xp_view :: "db \<Rightarrow> user list \<times> completion list \<times> challenge list" where
  "xp_view d = (users d, completions d, challenges d)"

definition solve_xp :: "db \<Rightarrow> string \<Rightarrow> int" where
  "solve_xp d cid = (case find_challenge cid d of None \<Rightarrow> 100 | Some c \<Rightarrow> ch_xp c)"

definition solved :: "db \<Rightarrow> string \<Rightarrow> string \<Rightarrow> bool" where
  "solved d u cid \<longleftrightarrow> has_key completion_key (u, cid) (completions d)"

text \<open>
  The possible outcomes of one delivery: nothing, the completion alone, or the completion together
  with the XP and the streak, the last two for a registered user's first solve only.
\<close>

inductive solve_outcome :: "solve_event \<Rightarrow> db \<Rightarrow> db \<Rightarrow> bool" for ev d d' where
  untouched: "xp_view d' = xp_view d \<Longrightarrow> solve_outcome ev d d'"
| marked: "\<not> is_guest (ev_userId ev) \<Longrightarrow> \<not> solved d (ev_userId ev) (ev_challengeId ev) \<Longrightarrow>
    xp_view d' = (users d, completions d @ [\<lparr>co_userId = ev_userId ev,
      co_nodeId = ev_challengeId ev, co_createdAt = t\<rparr>], challenges d) \<Longrightarrow> solve_outcome ev d d'"
| paid: "\<not> is_guest (ev_userId ev) \<Longrightarrow> \<not> solved d (ev_userId ev) (ev_challengeId ev) \<Longrightarrow>
    has_user d (ev_userId ev) \<Longrightarrow>
    xp_view d' = (update_rows (\<lambda>r. user_id r = ev_userId ev)
        (\<lambda>r. store_streak (map_option (\<lambda>r. calculateStreak (user_streak r) t') (find_user (ev_userId ev) d))
          (r\<lparr>user_xp := user_xp r + solve_xp d (ev_challengeId ev)\<rparr>)) (users d),
      completions d @ [\<lparr>co_userId = ev_userId ev, co_nodeId = ev_challengeId ev, co_createdAt = t\<rparr>],
      challenges d) \<Longrightarrow> solve_outcome ev d d'"

lemma xp_view_frame:
  "moves (on_db (fixing xp_view)) (write_db E (\<lambda>d. d\<lparr>nodes := f d\<rparr>))"
  "moves (on_db (fixing xp_view)) (write_db E (end_active sid st t))"
  "moves (on_db (fixing xp_view)) (save_checks E u cid cs)"
  "moves (on_db (fixing xp_view)) (run_db_at E (create_submission sst u cid res))"
  "moves (on_db (fixing xp_view)) (evaluateMilestoneBadges E u n bcid)"
  unfolding save_checks_def upsert_check_def create_submission_def end_active_def Let_def
  by (intro fixing_steps, simp add: xp_view_def)+
     (rule db_post_moves, rule db_post_conseq [OF evaluate_badge_step],
      auto simp: fixing_def xp_view_def dest: badge_step_frame)

lemmas xp_frame_steps = fixing_steps xp_view_frame

lemma solve_outcome_view:
  "solve_outcome ev d d' \<Longrightarrow> xp_view d'' = xp_view d' \<Longrightarrow> solve_outcome ev d d''"
  by (auto elim!: solve_outcome.cases intro: solve_outcome.intros)

lemma outcome_tail:
  assumes "moves (on_db (fixing xp_view)) m" and "solve_outcome ev d d'"
  shows "db_post m d' (\<lambda>r. solve_outcome ev d)"
  by (rule frame_post [OF assms(1)]) (rule solve_outcome_view [OF assms(2)])

lemma outcome_step:
  assumes "moves (on_db (fixing xp_view)) m" and "solve_outcome ev d d'"
    and "\<And>a d''. xp_view d'' = xp_view d' \<Longrightarrow> db_post (f a) d'' (\<lambda>r. solve_outcome ev d)"
  shows "db_post (bnd m f) d' (\<lambda>r. solve_outcome ev d)"
  by (rule frame_bnd [OF assms(1)]) (auto intro: assms solve_outcome_view [OF assms(2)])

lemma settle_again:
  "moves (on_db (fixing xp_view)) (settle_solve E ev challenge False)"
  unfolding settle_solve_def when_act_def by (intro xp_frame_steps) simp_all

lemma settle_first:
  fixes E :: "'r env"
  assumes member: "\<not> is_guest (ev_userId ev)" "\<not> solved d (ev_userId ev) (ev_challengeId ev)"
    and marks: "xp_view d' = (users d, completions d @ [\<lparr>co_userId = ev_userId ev,
      co_nodeId = ev_challengeId ev, co_createdAt = t0\<rparr>], challenges d)"
  shows "db_post (settle_solve E ev (find_challenge (ev_challengeId ev) d) True) d' (\<lambda>r. solve_outcome ev d)"
proof -
  have marked: "solve_outcome ev d d''" if "xp_view d'' = xp_view d'" for d''
    using member that [unfolded marks] by (rule solve_outcome.marked)
  have pay: "db_post (bnd (run_db E (add_xp (ev_userId ev)
      (case find_challenge (ev_challengeId ev) d of None \<Rightarrow> 100 | Some c \<Rightarrow> ch_xp c)
      (map_option (\<lambda>r. calculateStreak (user_streak r) t) (find_user (ev_userId ev) d2)))) f) d2
      (\<lambda>r. solve_outcome ev d)"
    if "xp_view d2 = xp_view d'" and "\<And>a. moves (on_db (fixing xp_view)) (f a)"
    for t d2 and f :: "unit \<Rightarrow> ('r world, unit) act"
  proof -
    have same: "users d2 = users d" using that marks by (simp add: xp_view_def)
    define d3 where "d3 = snd (add_xp (ev_userId ev) (solve_xp d (ev_challengeId ev))
      (map_option (\<lambda>r. calculateStreak (user_streak r) t) (find_user (ev_userId ev) d2)) d2)"
    have "solve_outcome ev d d3"
    proof (cases "has_user d (ev_userId ev)")
      case True
      from member True show ?thesis
        by (rule solve_outcome.paid [where t' = t and t = t0])
           (use marks that True in \<open>simp add: xp_view_def d3_def add_xp_def\<close>)
    next
      case False
      then show ?thesis by (simp add: d3_def add_xp_def same marked that(1))
    qed
    then show ?thesis
      by (intro post_bnd post_run_db)
         (auto simp: passing_def marked that d3_def solve_xp_def intro: outcome_tail split: sum.split)
  qed
  show ?thesis
    unfolding settle_solve_def when_act_def if_True Let_def sq_def
    apply (rule outcome_step, rule xp_frame_steps, rule marked, rule refl)
    apply (intro post_bnd post_query passing_simps marked, assumption)
    apply (rule post_now, rule passing_simps)
    apply (rule pay, assumption)
    apply (intro xp_frame_steps, simp add: xp_view_def end_active_def)
    done
qed

lemma record_solve_outcomes:
  assumes member: "\<not> is_guest (ev_userId ev)"
  shows "db_post (record_solve E ev) d (\<lambda>r. solve_outcome ev d)"
proof -
  let ?u = "ev_userId ev" and ?c = "ev_challengeId ev"
  have settle: "db_post (bnd (run_db_at E (upsert_completion ?u ?c)) (\<lambda>_. settle_solve E ev
      (find_challenge ?c d) (find (\<lambda>c. completion_key c = (?u, ?c)) (completions d') = None))) d'
      (\<lambda>r. solve_outcome ev d)" if same: "xp_view d' = xp_view d" for d'
  proof -
    have start: "solve_outcome ev d d'" using same by (rule untouched)
    have eqs: "users d' = users d" "completions d' = completions d" "challenges d' = challenges d"
      using same by (simp_all add: xp_view_def)
    show ?thesis
    proof (cases "solved d ?u ?c")
      case True
      then have "moves (on_db (fixing xp_view)) (settle_solve E ev (find_challenge ?c d)
          (find (\<lambda>c. completion_key c = (?u, ?c)) (completions d') = None))"
        using settle_again by (simp add: eqs solved_def find_key_None)
      then show ?thesis
        unfolding upsert_completion_def Let_def
        using True start
        by (intro post_bnd post_guarded_at passing_simps outcome_tail) (simp_all add: eqs solved_def)
    next
      case False
      have marks: "xp_view (d'\<lparr>completions := completions d' @ [\<lparr>co_userId = ?u, co_nodeId = ?c,
          co_createdAt = t\<rparr>]\<rparr>) = (users d, completions d @ [\<lparr>co_userId = ?u, co_nodeId = ?c,
          co_createdAt = t\<rparr>], challenges d)" for t
        by (simp add: xp_view_def eqs)
      from False have first: "find (\<lambda>c. completion_key c = (?u, ?c)) (completions d') = None"
        by (simp add: eqs solved_def find_key_None)
      show ?thesis
        unfolding upsert_completion_def Let_def
        using False start
        by (intro post_bnd post_guarded_at passing_simps)
           (simp_all add: eqs solved_def first [unfolded eqs] settle_first [OF member False marks [unfolded eqs]]
              solve_outcome.marked [OF member False marks [unfolded eqs]])
    qed
  qed
  show ?thesis
    unfolding record_solve_def Let_def sq_def
    apply (rule post_bnd, rule post_query, rule passing_simps, rule untouched, rule refl, rule passing_simps)
    apply (rule frame_bnd, rule xp_view_frame(1), rule untouched, assumption)
    apply (rule post_bnd, rule post_query, rule passing_simps, rule untouched, assumption, rule passing_simps)
    apply (rule settle, assumption)
    done
qed

lemma solve_outcome_run:
  "solve_outcome ev (db w) (db (snd (on_challenge_solved E ev w)))"
proof (cases "is_guest (ev_userId ev)")
  case True
  then have "moves (on_db (fixing xp_view)) (on_challenge_solved E ev)"
    unfolding on_challenge_solved_def if_P [OF True] by (intro xp_frame_steps, simp add: xp_view_def end_active_def)
  then show ?thesis by (simp add: moves_def on_db_def fixing_def untouched)
next
  case False
  have "db_post (on_challenge_solved E ev) (db w) (\<lambda>r. solve_outcome ev (db w))"
    unfolding on_challenge_solved_def if_not_P [OF False]
    by (rule post_catch, rule db_post_conseq [OF record_solve_outcomes [OF False]])
       (auto simp: recovering_def intro: post_ret split: sum.split)
  then show ?thesis by (simp add: db_post_def)
qed

text \<open>One delivery of a solve either leaves XP, streaks and completions alone, or records the
  completion alone, or records it and pays the XP of the challenge with the streak of the day,
  whatever fails in it; the last two only for a registered user's first solve.\<close>

lemma solve_outcomes:
  "solve_outcome ev (db w) (db (snd (on_challenge_solved E ev w)))"
  by (rule solve_outcome_run)

section \<open>XP is paid at most once, and exactly once when nothing fails\<close>

definition total_xp :: "db \<Rightarrow> string \<Rightarrow> int" where
  "total_xp d u = (case find_user u d of None \<Rightarrow> 0 | Some r \<Rightarrow> user_xp r)"

text \<open>The XP that the user can still earn from the challenges \<open>S\<close>.\<close>

definition open_xp :: "db \<Rightarrow> string \<Rightarrow> string list \<Rightarrow> int" where
  "open_xp d u S = sum_list (map (solve_xp d) (filter (\<lambda>c. \<not> solved d u c) S))"

definition xp_nonneg :: "db \<Rightarrow> bool" where
  "xp_nonneg d \<longleftrightarrow> (\<forall>c \<in> set (challenges d). 0 \<le> ch_xp c)"

lemma solve_xp_nonneg: "xp_nonneg d \<Longrightarrow> 0 \<le> solve_xp d c"
  by (auto simp: xp_nonneg_def solve_xp_def split: option.split dest: find_in)

lemma find_update_rows:
  "(\<And>r. key (f r) = key r) \<Longrightarrow> find (\<lambda>r. key r = k) (update_rows (\<lambda>r. key r = k') f rs) =
     (if k = k' then map_option f (find (\<lambda>r. key r = k) rs) else find (\<lambda>r. key r = k) rs)"
  by (induction rs) auto

lemma store_streak_xp [simp]: "user_xp (store_streak s r) = user_xp r"
  by (simp add: store_streak_def split: option.split)

lemma open_xp_mark:
  assumes "distinct S" and "c \<in> set S" and "\<not> solved d u c"
    and "\<And>c'. solved d' u c' \<longleftrightarrow> c' = c \<or> solved d u c'" and "challenges d' = challenges d"
  shows "open_xp d u S = solve_xp d c + open_xp d' u S"
proof -
  have xp: "solve_xp d' = solve_xp d" using assms(5) by (simp add: solve_xp_def fun_eq_iff)
  from assms(1,2) show ?thesis
  proof (induction S)
    case (Cons a S)
    show ?case
    proof (cases "a = c")
      case True
      with Cons.prems have "filter (\<lambda>c'. \<not> (c' = c \<or> solved d u c')) S = filter (\<lambda>c. \<not> solved d u c) S"
        by (intro filter_cong) auto
      with True assms(3,4) show ?thesis by (simp add: open_xp_def xp)
    next
      case False
      with Cons assms(4) show ?thesis by (simp add: open_xp_def xp)
    qed
  qed simp
qed

lemma open_xp_view: "xp_view d' = xp_view d \<Longrightarrow> open_xp d' u S = open_xp d u S"
  unfolding xp_view_def open_xp_def solve_xp_def solved_def by simp

lemma open_xp_other: "completions d' = completions d @ [c] \<Longrightarrow> co_userId c \<noteq> u \<Longrightarrow>
    challenges d' = challenges d \<Longrightarrow> open_xp d' u S = open_xp d u S"
  by (simp add: open_xp_def solve_xp_def solved_def completion_key_def cong: map_cong)

lemma outcome_accounts:
  assumes out: "solve_outcome ev d d'" and S: "distinct S" "ev_challengeId ev \<in> set S" and "xp_nonneg d"
  shows "xp_nonneg d'" and "solve_xp d' = solve_xp d"
    and "total_xp d' u + open_xp d' u S \<le> total_xp d u + open_xp d u S"
proof -
  let ?c = "ev_challengeId ev"
  have ch: "challenges d' = challenges d" using out by cases (simp_all add: xp_view_def)
  then show "xp_nonneg d'" and "solve_xp d' = solve_xp d"
    using \<open>xp_nonneg d\<close> by (simp_all add: xp_nonneg_def solve_xp_def fun_eq_iff)
  have pos: "0 \<le> solve_xp d ?c" using \<open>xp_nonneg d\<close> by (rule solve_xp_nonneg)
  have mark: "open_xp d u S = solve_xp d ?c + open_xp d' u S"
    if "completions d' = completions d @ [r]" "completion_key r = (u, ?c)" "\<not> solved d u ?c" for r
    by (rule open_xp_mark [OF S that(3) _ ch]) (use that in \<open>auto simp: solved_def\<close>)
  show "total_xp d' u + open_xp d' u S \<le> total_xp d u + open_xp d u S"
    using out
  proof cases
    case untouched
    from untouched have "open_xp d' u S = open_xp d u S" by (rule open_xp_view)
    with untouched show ?thesis by (simp add: total_xp_def xp_view_def)
  next
    case (marked t)
    then have us: "users d' = users d" and cs: "completions d' = completions d @
        [\<lparr>co_userId = ev_userId ev, co_nodeId = ?c, co_createdAt = t\<rparr>]"
      by (simp_all add: xp_view_def)
    have "open_xp d' u S \<le> open_xp d u S"
    proof (cases "ev_userId ev = u")
      case True
      with marked(2) mark [OF cs] pos show ?thesis by (simp add: completion_key_def)
    next
      case False
      then show ?thesis by (simp add: open_xp_other [OF cs _ ch])
    qed
    with us show ?thesis by (simp add: total_xp_def)
  next
    case (paid t t')
    define f where "f = (\<lambda>r. store_streak (map_option (\<lambda>r. calculateStreak (user_streak r) t)
      (find_user (ev_userId ev) d)) (r\<lparr>user_xp := user_xp r + solve_xp d ?c\<rparr>))"
    from paid(4) have us: "users d' = update_rows (\<lambda>r. user_id r = ev_userId ev) f (users d)"
      and cs: "completions d' = completions d @
        [\<lparr>co_userId = ev_userId ev, co_nodeId = ?c, co_createdAt = t'\<rparr>]"
      by (simp_all add: xp_view_def f_def)
    have f: "user_id (f r) = user_id r" "user_xp (f r) = user_xp r + solve_xp d ?c" for r
      by (simp_all add: f_def)
    show ?thesis
    proof (cases "ev_userId ev = u")
      case True
      with paid(2) mark [OF cs] have "open_xp d u S = solve_xp d ?c + open_xp d' u S"
        by (simp add: completion_key_def)
      moreover have "total_xp d' u \<le> total_xp d u + solve_xp d ?c"
        using True pos by (simp add: total_xp_def us find_update_rows f split: option.split)
      ultimately show ?thesis by simp
    next
      case False
      then show ?thesis
        by (simp add: open_xp_other [OF cs _ ch] total_xp_def us find_update_rows f)
    qed
  qed
qed

text \<open>The other two consumers have no part in it.\<close>

lemma other_consumers_frame:
  "moves (on_db (fixing xp_view)) (on_challenge_failed E ev)"
  "moves (on_db (fixing xp_view)) (on_session_failed E sid)"
  unfolding handlers by (intro xp_frame_steps; simp add: xp_view_def end_active_def)+

definition solve_events :: "('r env \<times> progress_event) list \<Rightarrow> solve_event list" where
  "solve_events es = concat (map (\<lambda>(E, e). case e of Solved ev \<Rightarrow> [ev] | _ \<Rightarrow> []) es)"

lemma deliver_accounts:
  fixes E :: "'r env" and w :: "'r world"
  assumes S: "distinct S" "\<And>ev. e = Solved ev \<Longrightarrow> ev_challengeId ev \<in> set S" and pos: "xp_nonneg (db w)"
  defines "d' \<equiv> db (snd (deliver E e w))"
  shows "xp_nonneg d' \<and> total_xp d' u + open_xp d' u S \<le> total_xp (db w) u + open_xp (db w) u S"
proof (cases e)
  case (Solved ev)
  then show ?thesis
    using outcome_accounts [OF solve_outcome_run S(1) S(2) pos, of ev] by (simp add: d'_def)
next
  case (AttemptFailed ev)
  then have "xp_view d' = xp_view (db w)"
    using other_consumers_frame(1) [of E ev] by (simp add: d'_def moves_def on_db_def fixing_def)
  with pos open_xp_view [OF this] show ?thesis by (simp add: total_xp_def xp_view_def xp_nonneg_def)
next
  case (SessionFailed sid)
  then have "xp_view d' = xp_view (db w)"
    using other_consumers_frame(2) [of E sid] by (simp add: d'_def moves_def on_db_def fixing_def)
  with pos open_xp_view [OF this] show ?thesis by (simp add: total_xp_def xp_view_def xp_nonneg_def)
qed

lemma xp_at_most_once_from:
  assumes "distinct S" and "\<forall>ev \<in> set (solve_events es). ev_challengeId ev \<in> set S" and "xp_nonneg (db w)"
  shows "xp_nonneg (db (deliver_all es w)) \<and>
    total_xp (db (deliver_all es w)) u + open_xp (db (deliver_all es w)) u S
    \<le> total_xp (db w) u + open_xp (db w) u S"
  using assms(2,3)
proof (induction es w rule: deliver_all.induct)
  case (2 E e es w)
  have "xp_nonneg (db (snd (deliver E e w))) \<and>
    total_xp (db (snd (deliver E e w))) u + open_xp (db (snd (deliver E e w))) u S
    \<le> total_xp (db w) u + open_xp (db w) u S"
    by (rule deliver_accounts [OF assms(1)]) (use 2 in \<open>auto simp: solve_events_def\<close>)
  with 2 show ?case by (auto simp: solve_events_def)
qed simp

text \<open>C2. However often the broker redelivers and whatever fails in the deliveries, a user's XP
  grows by at most the XP of each distinct challenge that the events name and the user had not
  completed: no solve is paid twice. The XP of the challenges is not negative.\<close>

theorem xp_at_most_once:
  assumes "xp_nonneg (db w)"
  shows "total_xp (db (deliver_all es w)) u \<le> total_xp (db w) u +
    open_xp (db w) u (remdups (map ev_challengeId (solve_events es)))"
proof -
  let ?S = "remdups (map ev_challengeId (solve_events es))"
  let ?d = "db (deliver_all es w)"
  have "xp_nonneg ?d \<and> total_xp ?d u + open_xp ?d u ?S \<le> total_xp (db w) u + open_xp (db w) u ?S"
    by (rule xp_at_most_once_from) (use assms in auto)
  moreover from this have "0 \<le> open_xp ?d u ?S"
    unfolding open_xp_def by (intro sum_list_nonneg) (auto intro: solve_xp_nonneg)
  ultimately show ?thesis by linarith
qed

text \<open>What a solve writes when nothing fails.\<close>

definition solve_view where
  "solve_view d = (users d, completions d, challenges d, labSessions d, submissions d, nodes d)"

lemma calm_sq:
  assumes "db_post m d (\<lambda>r d'. r = Inr () \<and> F d' = F d)" and "\<And>d'. F d' = F d \<Longrightarrow> db_post k d' Q"
  shows "db_post (sq m k) d Q"
  by (rule post_sq_conseq [OF assms(1)]) (auto intro: assms(2))

lemma calm_check:
  assumes "calm E" and "has_user d u"
  shows "db_post (bnd now (\<lambda>t. run_db E (upsert_check u cid c t))) d
    (\<lambda>r d'. r = Inr () \<and> solve_view d' = solve_view d)"
  unfolding upsert_check_def Let_def
  by (intro calm_rules assms(1)) (simp_all add: assms(2) solve_view_def)

lemma calm_checks:
  assumes "calm E" and "has_user d u"
  shows "db_post (save_checks E u cid cs) d (\<lambda>r d'. r = Inr () \<and> solve_view d' = solve_view d)"
proof -
  have "db_post (for_each xs (\<lambda>c. bnd now (\<lambda>t. run_db E (upsert_check u cid c t)))) d
      (\<lambda>r d'. r = Inr () \<and> solve_view d' = solve_view d)" for xs
    using assms(2)
  proof (induction xs arbitrary: d)
    case (Cons x xs)
    show ?case
      unfolding for_each.simps
      by (rule calm_sq [OF calm_check [OF assms(1) Cons.prems]], rule db_post_conseq, rule Cons.IH)
         (use Cons.prems in \<open>auto simp: solve_view_def\<close>)
  qed (simp add: post_ret)
  then show ?thesis by (cases cs) (simp_all add: save_checks_def post_ret)
qed

definition paid_users :: "solve_event \<Rightarrow> int \<Rightarrow> db \<Rightarrow> user list" where
  "paid_users ev t d = update_rows (\<lambda>r. user_id r = ev_userId ev)
     (\<lambda>r. store_streak (map_option (\<lambda>r. calculateStreak (user_streak r) t) (find_user (ev_userId ev) d))
       (r\<lparr>user_xp := user_xp r + solve_xp d (ev_challengeId ev)\<rparr>)) (users d)"

definition ended :: "solve_event \<Rightarrow> int \<Rightarrow> db \<Rightarrow> lab_session list" where
  "ended ev t d = labSessions (end_active (submissionId ev) COMPLETED t d)"

definition submitted :: "solve_event \<Rightarrow> int \<Rightarrow> submission" where
  "submitted ev t = \<lparr>sub_status = SubCompleted, sub_userId = ev_userId ev,
     sub_challengeId = ev_challengeId ev, sub_result = ev_result ev, sub_createdAt = t\<rparr>"

text \<open>The tables after a solve without a fault.\<close>

definition solve_effect :: "solve_event \<Rightarrow> bool \<Rightarrow> db \<Rightarrow> db \<Rightarrow> bool" where
  "solve_effect ev first d d' \<longleftrightarrow> (\<exists>t t' t''.
     users d' = (if first then paid_users ev t d else users d) \<and>
     labSessions d' = ended ev t' d \<and>
     submissions d' = submissions d @ [submitted ev t''])"

lemma settle_tail_frame:
  "moves (on_db (fixing solve_view)) (evaluateMilestoneBadges E u n bcid)"
  by (rule db_post_moves, rule db_post_conseq [OF evaluate_badge_step])
     (auto simp: fixing_def solve_view_def dest: badge_step_frame)

lemma calm_settle:
  assumes "calm E" and "has_user d (ev_userId ev)" and "has_challenge d (ev_challengeId ev)"
  shows "db_post (settle_solve E ev (find_challenge (ev_challengeId ev) d) first) d
    (\<lambda>r d'. solve_effect ev first d d' \<and> completions d' = completions d \<and> challenges d' = challenges d)"
proof -
  have pass: "passing (\<lambda>_. ret ()) (\<lambda>r. Q) r d'" if "Q d'" for Q d' and r :: "exn + string list"
    using that by (auto simp: passing_def intro: post_ret split: sum.split)
  show ?thesis
    unfolding settle_solve_def Let_def add_xp_def create_submission_def
    apply (rule calm_sq, rule calm_checks [OF assms(1,2)])
    apply (intro calm_rules assms(1) frame_post [OF settle_tail_frame] pass)
    apply (use assms(2,3) in \<open>simp_all add: solve_view_def solve_effect_def end_active_def paid_users_def
      ended_def submitted_def solve_xp_def row_updates cong: option.case_cong\<close>)
    apply blast+
    done
qed

text \<open>A solve that nothing disturbs: what each table holds afterwards.\<close>

definition solve_complete :: "solve_event \<Rightarrow> db \<Rightarrow> db \<Rightarrow> bool" where
  "solve_complete ev d d' \<longleftrightarrow> (let first = (\<not> solved d (ev_userId ev) (ev_challengeId ev)) in
     solve_effect ev first d d' \<and> challenges d' = challenges d \<and>
     (\<exists>t. completions d' = completions d @ (if first then [\<lparr>co_userId = ev_userId ev,
        co_nodeId = ev_challengeId ev, co_createdAt = t\<rparr>] else [])))"

lemma solve_effect_cong:
  assumes "solve_effect ev first d d'" and "users d = users d0" "labSessions d = labSessions d0"
    "submissions d = submissions d0" "challenges d = challenges d0"
  shows "solve_effect ev first d0 d'"
proof -
  have "paid_users ev t d = paid_users ev t d0" "ended ev t d = ended ev t d0" for t
    using assms(2-) by (simp_all add: paid_users_def ended_def end_active_def solve_xp_def)
  with assms show ?thesis by (auto simp: solve_effect_def)
qed

lemma calm_solve:
  assumes "calm E" and "\<not> is_guest (ev_userId ev)" and "has_user d (ev_userId ev)"
    and "has_challenge d (ev_challengeId ev)"
  shows "db_post (on_challenge_solved E ev) d (\<lambda>r. solve_complete ev d)"
proof -
  let ?u = "ev_userId ev" and ?c = "ev_challengeId ev"
  have settle: "db_post (settle_solve E ev (find_challenge ?c d) first) d'
      (\<lambda>r. solve_complete ev d)"
    if view: "users d' = users d" "labSessions d' = labSessions d" "submissions d' = submissions d"
        "challenges d' = challenges d"
      and f: "first \<longleftrightarrow> \<not> solved d ?u ?c" and c: "\<exists>t. completions d' = completions d @ (if first then
        [\<lparr>co_userId = ?u, co_nodeId = ?c, co_createdAt = t\<rparr>] else [])" for d' first
  proof -
    have "db_post (settle_solve E ev (find_challenge ?c d') first) d' (\<lambda>r d''.
        solve_effect ev first d' d'' \<and> completions d'' = completions d' \<and> challenges d'' = challenges d')"
      using assms view by (intro calm_settle) simp_all
    then have "db_post (settle_solve E ev (find_challenge ?c d') first) d' (\<lambda>r. solve_complete ev d)"
      by (rule db_post_conseq)
         (use view f c in \<open>auto simp: solve_complete_def Let_def intro: solve_effect_cong\<close>)
    then show ?thesis using view(4) by simp
  qed
  have "db_post (record_solve E ev) d (\<lambda>r. solve_complete ev d)"
    unfolding record_solve_def Let_def upsert_completion_def
    apply (rule calm_rules, rule calm_query [OF assms(1)], rule passing_simps)
    apply (rule calm_rules, rule calm_write_db [OF assms(1)], rule passing_simps)
    apply (rule calm_rules, rule calm_query [OF assms(1)], rule passing_simps)
    apply (rule calm_rules, rule calm_guarded_at [OF assms(1)])
     apply (use assms in \<open>simp add: upsert_node_def has_key_update\<close>)
    apply (rule passing_simps, rule settle)
         apply (simp_all add: solved_def find_key_None)
    done
  then show ?thesis
    unfolding on_challenge_solved_def if_not_P [OF assms(2)]
    by (intro post_catch, elim db_post_conseq)
       (auto simp: recovering_def intro: post_ret split: sum.split)
qed

text \<open>C9. When no call fails, a registered user's first solve of a challenge records the completion,
  adds the challenge's XP, advances the streak as calculateStreak says, completes the session if it
  is active and files the submission; a repeated solve does the last two only.\<close>

theorem solve_effects:
  assumes "calm E" and "\<not> is_guest (ev_userId ev)" and "has_user (db w) (ev_userId ev)"
    and "has_challenge (db w) (ev_challengeId ev)"
  shows "solve_complete ev (db w) (db (snd (on_challenge_solved E ev w)))"
  using calm_solve [OF assms] by (simp add: db_post_def)

definition example_event :: solve_event where
  "example_event = \<lparr>submissionId = ''s1'', ev_challengeId = ''c1'', ev_userId = ''ann'',
     ev_result = \<lparr>rr_stdout = [], rr_stderr = [], rr_exitCode = 0, rr_durationMs = 7\<rparr>,
     ev_checks = Some [\<lparr>checkId = ''k'', check_passed = True, check_message = []\<rparr>]\<rparr>"

lemma solve_effects_witness:
  "solve_complete example_event example_db
     (db (snd (on_challenge_solved calm_env example_event (example_world example_db))))"
proof -
  have "\<not> is_guest (ev_userId example_event)" "has_user example_db (ev_userId example_event)"
    "has_challenge example_db (ev_challengeId example_event)"
    by code_simp+
  then show ?thesis
    using solve_effects [of calm_env example_event "example_world example_db"] by simp
qed

text \<open>Where a run of deliveries keeps the books exactly.\<close>

definition books ::
  "string \<Rightarrow> string list \<Rightarrow> db \<Rightarrow> db \<Rightarrow> bool" where
  "books u S d d' \<longleftrightarrow> total_xp d' u + open_xp d' u S = total_xp d u + open_xp d u S \<and>
     challenges d' = challenges d \<and> has_user d' u = has_user d u \<and>
     (\<forall>c. solved d u c \<longrightarrow> solved d' u c)"

lemma books_view: "xp_view d' = xp_view d \<Longrightarrow> books u S d d'"
  using open_xp_view [of d' d u S] by (simp add: books_def total_xp_def xp_view_def solved_def)

lemma store_streak_update:
  "has_key user_id u (update_rows P (\<lambda>r. store_streak s (r\<lparr>user_xp := f r\<rparr>)) us) = has_key user_id u us"
  by (rule has_key_update) simp

lemma books_other:
  assumes "solve_outcome ev d d'" and "ev_userId ev \<noteq> u"
  shows "books u S d d'"
  using assms(1)
proof cases
  case untouched
  then show ?thesis by (rule books_view)
next
  case (marked t)
  with assms(2) show ?thesis
    using open_xp_other [of d' d _ u S]
    by (simp add: books_def total_xp_def xp_view_def solved_def completion_key_def)
next
  case (paid t t')
  with assms(2) show ?thesis
    using open_xp_other [of d' d _ u S]
    by (simp add: books_def total_xp_def xp_view_def solved_def completion_key_def find_update_rows
        store_streak_update)
qed

lemma books_solve:
  assumes "solve_complete ev d d'" and "ev_userId ev = u" and "has_user d u"
    and "distinct S" and "ev_challengeId ev \<in> set S"
  shows "books u S d d' \<and> solved d' u (ev_challengeId ev)"
proof (cases "solved d u (ev_challengeId ev)")
  case True
  with assms(1,2) have "xp_view d' = xp_view d"
    by (auto simp: solve_complete_def solve_effect_def xp_view_def)
  then have b: "books u S d d'" by (rule books_view)
  moreover from b True have "solved d' u (ev_challengeId ev)" unfolding books_def by blast
  ultimately show ?thesis ..
next
  case False
  with assms(1,2) obtain t t' where us: "users d' = paid_users ev t' d" and ch: "challenges d' = challenges d"
    and cs: "completions d' = completions d @ [\<lparr>co_userId = u, co_nodeId = ev_challengeId ev, co_createdAt = t\<rparr>]"
    by (auto simp: solve_complete_def solve_effect_def)
  have "open_xp d u S = solve_xp d (ev_challengeId ev) + open_xp d' u S"
    by (rule open_xp_mark [OF assms(4,5) False _ ch]) (auto simp: solved_def cs completion_key_def)
  moreover have "total_xp d' u = total_xp d u + solve_xp d (ev_challengeId ev)"
    using assms(2,3) find_key_None [of user_id u "users d"]
    by (cases "find_user u d") (simp_all add: total_xp_def us paid_users_def find_update_rows)
  moreover have "solved d' u c \<longleftrightarrow> c = ev_challengeId ev \<or> solved d u c" for c
    by (auto simp: solved_def cs completion_key_def)
  moreover have "has_user d' u = has_user d u"
    by (simp add: us paid_users_def store_streak_update)
  ultimately show ?thesis by (simp add: books_def ch)
qed

definition solved_by :: "string \<Rightarrow> ('r env \<times> progress_event) list \<Rightarrow> string list" where
  "solved_by u es = map ev_challengeId (filter (\<lambda>ev. ev_userId ev = u) (solve_events es))"

lemma solved_by_Cons [simp]: "solved_by u ((E, e) # es) =
    (case e of Solved ev \<Rightarrow> if ev_userId ev = u then [ev_challengeId ev] else [] | _ \<Rightarrow> []) @ solved_by u es"
  by (simp add: solved_by_def solve_events_def split: progress_event.split)

lemma books_trans: "books u S a b \<Longrightarrow> books u S b c \<Longrightarrow> books u S a c"
  unfolding books_def by simp

lemma books_deliver:
  fixes E :: "'r env" and w :: "'r world"
  assumes S: "distinct S" "\<And>ev. e = Solved ev \<Longrightarrow> ev_userId ev = u \<Longrightarrow> ev_challengeId ev \<in> set S"
    and "\<not> is_guest u" and "calm E" and "has_user (db w) u" and "\<forall>c \<in> set S. has_challenge (db w) c"
  shows "books u S (db w) (db (snd (deliver E e w))) \<and> (\<forall>ev. e = Solved ev \<and> ev_userId ev = u \<longrightarrow>
      solved (db (snd (deliver E e w))) u (ev_challengeId ev))"
proof (cases e)
  case (Solved ev)
  show ?thesis
  proof (cases "ev_userId ev = u")
    case True
    with Solved S(2) have c: "ev_challengeId ev \<in> set S" by simp
    have "solve_complete ev (db w) (db (snd (on_challenge_solved E ev w)))"
      using calm_solve [of E ev "db w"] assms(3-) True c by (simp add: db_post_def)
    from books_solve [OF this True assms(5) S(1) c] Solved show ?thesis by simp
  next
    case False
    with Solved show ?thesis using books_other [OF solve_outcome_run False] by simp
  qed
next
  case (AttemptFailed ev)
  have "xp_view (db (snd (on_challenge_failed E ev w))) = xp_view (db w)"
    using other_consumers_frame(1) [of E ev] by (simp add: moves_def on_db_def fixing_def)
  with AttemptFailed show ?thesis using books_view by simp
next
  case (SessionFailed sid)
  have "xp_view (db (snd (on_session_failed E sid w))) = xp_view (db w)"
    using other_consumers_frame(2) [of E sid] by (simp add: moves_def on_db_def fixing_def)
  with SessionFailed show ?thesis using books_view by simp
qed

lemma books_run:
  assumes "distinct S" and "\<not> is_guest u" and "set (solved_by u es) \<subseteq> set S"
    and "\<forall>(E, e) \<in> set es. calm E" and "has_user (db w) u" and "\<forall>c \<in> set S. has_challenge (db w) c"
  shows "books u S (db w) (db (deliver_all es w)) \<and>
    (\<forall>c \<in> set (solved_by u es). solved (db (deliver_all es w)) u c)"
  using assms(3-)
proof (induction es w rule: deliver_all.induct)
  case (1 w)
  then show ?case by (simp add: books_def solved_by_def solve_events_def)
next
  case (2 E e es w)
  let ?w = "snd (deliver E e w)"
  have one: "books u S (db w) (db ?w) \<and> (\<forall>ev. e = Solved ev \<and> ev_userId ev = u \<longrightarrow>
      solved (db ?w) u (ev_challengeId ev))"
    by (rule books_deliver) (use "2.prems" assms(1,2) in auto)
  then have b: "books u S (db w) (db ?w)" ..
  have rest: "books u S (db ?w) (db (deliver_all es ?w)) \<and>
      (\<forall>c \<in> set (solved_by u es). solved (db (deliver_all es ?w)) u c)"
    by (rule "2.IH") (use "2.prems" b in \<open>auto simp: books_def\<close>)
  then have b': "books u S (db ?w) (db (deliver_all es ?w))" ..
  have "solved (db (deliver_all es ?w)) u c" if c: "c \<in> set (solved_by u ((E, e) # es))" for c
  proof (cases "c \<in> set (solved_by u es)")
    case False
    with c obtain ev where "e = Solved ev" "ev_userId ev = u" "c = ev_challengeId ev"
      by (auto split: progress_event.splits if_splits)
    with one have "solved (db ?w) u c" by simp
    with b' show ?thesis unfolding books_def by blast
  qed (use rest in simp)
  with books_trans [OF b b'] show ?case by simp
qed

text \<open>C18. When no call fails, the XP of a known user who is not a guest grows by exactly the XP of the
  distinct challenges that the delivered solves of the user name and the user had not completed, in whatever
  order and however often the broker delivers them, provided that each of these challenges exists. Guests,
  whose identifiers begin with guest_, are users of the table as well; their solves pay nothing.\<close>

theorem xp_exactly_once:
  assumes "\<forall>(E, e) \<in> set es. calm E" and "\<not> is_guest u" and "has_user (db w) u"
    and "\<forall>c \<in> set (solved_by u es). has_challenge (db w) c"
  shows "total_xp (db (deliver_all es w)) u =
    total_xp (db w) u + open_xp (db w) u (remdups (solved_by u es))"
proof -
  let ?S = "remdups (solved_by u es)" and ?d = "db (deliver_all es w)"
  have "books u ?S (db w) ?d \<and> (\<forall>c \<in> set (solved_by u es). solved ?d u c)"
    by (rule books_run) (use assms in auto)
  moreover from this have "open_xp ?d u ?S = 0"
    by (simp add: open_xp_def filter_empty_conv [THEN iffD2])
  ultimately show ?thesis by (simp add: books_def)
qed

text \<open>A delivery whose payment fails, followed by a redelivery that nothing disturbs.\<close>

definition example_redelivery :: "(alist_redis env \<times> progress_event) list" where
  "example_redelivery =
     [(faulty_env [(6, Failed)], Solved example_event), (calm_env, Solved example_event)]"

lemma xp_at_most_once_witness:
  "total_xp (db (deliver_all example_redelivery (example_world example_db))) ''ann'' \<le> 50"
proof -
  have "xp_nonneg (db (example_world example_db))" by code_simp
  moreover have "total_xp example_db ''ann'' + open_xp example_db ''ann''
      (remdups (map ev_challengeId (solve_events example_redelivery))) = 50" by code_simp
  ultimately show ?thesis
    using xp_at_most_once [of "example_world example_db" example_redelivery "''ann''"] by simp
qed

lemma xp_exactly_once_witness:
  "total_xp (db (deliver_all (replicate 2 (calm_env, Solved example_event)) (example_world example_db)))
     ''ann'' = 50"
proof -
  have "\<not> is_guest ''ann''" "has_user example_db ''ann''" by code_simp+
  moreover have "\<forall>c \<in> set (solved_by ''ann'' (replicate 2 (calm_env, Solved example_event))).
      has_challenge example_db c"
    by (simp add: numeral_2_eq_2 example_event_def) code_simp
  moreover have "total_xp example_db ''ann'' + open_xp example_db ''ann''
      (remdups (solved_by ''ann'' (replicate 2 (calm_env, Solved example_event)))) = 50" by code_simp
  ultimately show ?thesis
    using xp_exactly_once [of "replicate 2 (calm_env, Solved example_event)" "''ann''" "example_world example_db"]
    by (simp add: numeral_2_eq_2)
qed


text \<open>The handler swallows its errors, so the broker counts the delivery as done, and the
  completion that it had already recorded makes a redelivery no first solve: a fault between the two
  writes loses the XP for good.\<close>

lemma payment_lost:
  "let d = db (deliver_all example_redelivery (example_world example_db))
   in solved d ''ann'' ''c1'' \<and> total_xp d ''ann'' = 0"
proof -
  let ?w = "snd (on_challenge_solved (faulty_env [(6, Failed)]) example_event (example_world example_db))"
  have first: "solved (db ?w) ''ann'' ''c1''" "total_xp (db ?w) ''ann'' = 0"
    by code_simp+
  have "solve_outcome example_event (db ?w) (db (snd (on_challenge_solved calm_env example_event ?w)))"
    by (rule solve_outcome_run)
  then have "xp_view (db (snd (on_challenge_solved calm_env example_event ?w))) = xp_view (db ?w)"
    by cases (use first in \<open>simp_all add: example_event_def\<close>)
  with first show ?thesis
    by (simp add: example_redelivery_def Let_def xp_view_def solved_def total_xp_def)
qed

text \<open>A challenge that the user has completed is never paid again, whatever happens in a
  delivery.\<close>

lemma no_second_payment:
  assumes "solved (db w) (ev_userId ev) (ev_challengeId ev)"
  shows "users (db (snd (on_challenge_solved E ev w))) = users (db w)"
  using solve_outcome_run [of ev w E] assms by cases (simp_all add: xp_view_def)

lemma no_second_payment_witness:
  "let d = example_db\<lparr>completions := [\<lparr>co_userId = ''ann'', co_nodeId = ''c1'', co_createdAt = 5\<rparr>]\<rparr>
   in users (db (snd (on_challenge_solved (faulty_env [(2, Unacked)]) example_event (example_world d)))) = users d"
  unfolding Let_def
  by (subst no_second_payment) (simp_all add: solved_def completion_key_def example_event_def)

end
