(* ===== verification/Sessions.thy ===== *)
theory Sessions
  imports Redis_Calls Brokers Streak
begin

text \<open>
  The sandbox sessions of services/core/src/modules/challenge/challenge.routes.ts: who sees a
  challenge and its editorial, how a session is started for a user or a guest, probed, ended and
  reported. A handler takes the \<open>sub\<close> of the verified token, where the route requires one.
\<close>

section \<open>Replies\<close>

datatype core_error =
    ChallengeNotFound
  | ForbiddenOrg
  | EditorialLocked
  | NoEditorialAvailable
  | TrialNotEligible
  | TrialAlreadyUsed
  | RateLimitExceeded
  | ConcurrencyLimitReached plan_tier int
  | CreateFailed
  | SessionNotFound

datatype 'b reply = Reply nat 'b | Reject nat core_error

record gateway_urls =
  terminalUrl :: string
  validateUrl :: string

record session_reply =
  re_sessionId :: string
  re_challengeId :: string
  re_challengeTitle :: string
  re_urls :: gateway_urls
  re_ttlMins :: int
  re_isGuestTrial :: bool
  re_token :: "string option"

section \<open>Gateway addresses\<close>

definition ends_with :: "string \<Rightarrow> string \<Rightarrow> bool" where
  "ends_with p s \<longleftrightarrow> starts_with (rev p) (rev s)"

definition strip_protocol :: "string \<Rightarrow> string" where
  "strip_protocol s = (if starts_with ''https://'' s then drop 8 s
     else if starts_with ''http://'' s then drop 7 s else s)"

definition gateway_urls_of :: "string \<Rightarrow> string \<Rightarrow> gateway_urls" where
  "gateway_urls_of gatewayUrl sessionId =
     (let cleanUrl = (if ends_with ''/'' gatewayUrl then butlast gatewayUrl else gatewayUrl);
          wsProto = (if starts_with ''https://'' cleanUrl then ''wss://'' else ''ws://'')
      in \<lparr>terminalUrl = wsProto @ strip_protocol cleanUrl @ ''/sessions/'' @ sessionId @ ''/terminal'',
          validateUrl = cleanUrl @ ''/validate/'' @ sessionId\<rparr>)"

definition getGatewayUrls :: "'r env \<Rightarrow> string \<Rightarrow> ('r world, gateway_urls) act" where
  "getGatewayUrls E sessionId =
     (if publicGatewayUrl E = [] then throw ErrorThrown
      else ret (gateway_urls_of (publicGatewayUrl E) sessionId))"

definition session_answer ::
  "'r env \<Rightarrow> nat \<Rightarrow> string \<Rightarrow> challenge \<Rightarrow> int \<Rightarrow> bool \<Rightarrow> string option \<Rightarrow>
   ('r world, session_reply reply) act" where
  "session_answer E code sid c ttl guest token =
     bnd (getGatewayUrls E sid) (\<lambda>urls.
     ret (Reply code \<lparr>re_sessionId = sid, re_challengeId = ch_id c, re_challengeTitle = ch_title c,
       re_urls = urls, re_ttlMins = ttl, re_isGuestTrial = guest, re_token = token\<rparr>))"

section \<open>Who sees a challenge\<close>

text \<open>The try block that verifies an optional token and looks up the viewer's organization.\<close>

definition viewer_org :: "'r env \<Rightarrow> string option \<Rightarrow> ('r world, string option) act" where
  "viewer_org E sub =
     (if truthy sub then
        catch (bnd (query E (find_user (the sub))) (\<lambda>u. ret (Option.bind u user_orgId)))
          (\<lambda>_. ret None)
      else ret None)"

definition list_challenges :: "'r env \<Rightarrow> string option \<Rightarrow> ('r world, challenge list reply) act" where
  "list_challenges E sub =
     bnd (viewer_org E sub) (\<lambda>userOrgId.
     bnd (query E (\<lambda>d. filter (\<lambda>c. ch_contributedByOrgId c = None \<or>
         (truthy userOrgId \<and> ch_contributedByOrgId c = userOrgId)) (challenges d))) (\<lambda>cs.
     ret (Reply 200 cs)))"

definition get_challenge ::
  "'r env \<Rightarrow> string option \<Rightarrow> string \<Rightarrow> ('r world, challenge reply) act" where
  "get_challenge E sub cid =
     bnd (viewer_org E sub) (\<lambda>userOrgId.
     bnd (query E (find_challenge cid)) (\<lambda>challenge.
     case challenge of
       None \<Rightarrow> ret (Reject 404 ChallengeNotFound)
     | Some c \<Rightarrow>
         if truthy (ch_contributedByOrgId c) \<and> ch_contributedByOrgId c \<noteq> userOrgId
         then ret (Reject 403 ForbiddenOrg)
         else ret (Reply 200 c)))"

definition get_editorial ::
  "'r env \<Rightarrow> string \<Rightarrow> string \<Rightarrow> ('r world, (string \<times> string \<times> string option) reply) act" where
  "get_editorial E userId cid =
     bnd (query E (find_challenge cid)) (\<lambda>challenge.
     case challenge of
       None \<Rightarrow> ret (Reject 404 ChallengeNotFound)
     | Some c \<Rightarrow>
         bnd (query E (find_user userId)) (\<lambda>user.
         let isPrivileged = (case user of None \<Rightarrow> False
               | Some u \<Rightarrow> user_role u = ADMIN \<or> user_role u = CONTRIBUTOR);
             send = (if truthy (ch_editorial c)
               then ret (Reply 200 (ch_id c, the (ch_editorial c), js_or_null (ch_authorNotes c)))
               else ret (Reject 404 NoEditorialAvailable))
         in
         if isPrivileged then send
         else
           bnd (query E (\<lambda>d. find (\<lambda>s. ls_userId s = userId \<and> ls_challengeId s = cid \<and>
               ls_status s = COMPLETED) (labSessions d))) (\<lambda>completedSession.
           bnd (if completedSession = None
                then query E (\<lambda>d. find (\<lambda>r. completion_key r = (userId, cid)) (completions d))
                else ret None) (\<lambda>completionRecord.
           if completedSession = None \<and> completionRecord = None
           then ret (Reject 403 EditorialLocked)
           else send))))"

section \<open>The health probe and its circuit breaker\<close>

definition PROBE_FAILURE_THRESHOLD :: nat where "PROBE_FAILURE_THRESHOLD = 3"
definition CIRCUIT_COOLDOWN_MS :: int where "CIRCUIT_COOLDOWN_MS = 15000"

definition fetch_health :: "'r env \<Rightarrow> string \<Rightarrow> ('r world, probe_answer) act" where
  "fetch_health E sid = (\<lambda>w. (Inr (probe_health E (calls w) sid), tick E w))"

definition probe_result :: "nat \<Rightarrow> probe_answer \<Rightarrow> bool \<times> nat" where
  "probe_result failures a =
     (case a of
        ProbeThrows \<Rightarrow> (False, failures + 1)
      | ProbeStatus st alive \<Rightarrow>
          if st = 200 then (alive = Some True, 0) else (False, failures + 1))"

definition probe_session :: "'r env \<Rightarrow> string \<Rightarrow> ('r world, bool) act" where
  "probe_session E sid =
     bnd now (\<lambda>t.
     bnd (look probeState) (\<lambda>p.
     if t < probeCircuitOpenUntil p then ret False
     else
       bnd (fetch_health E sid) (\<lambda>a.
       let (isAlive, failures) = probe_result (consecutiveProbeFailures p) a in
       sq (change (\<lambda>w. w\<lparr>probeState := (probeState w)\<lparr>consecutiveProbeFailures := failures\<rparr>\<rparr>)) (
       if failures \<ge> PROBE_FAILURE_THRESHOLD then
         bnd now (\<lambda>t'. sq (change (\<lambda>w. w\<lparr>probeState := (probeState w)
             \<lparr>probeCircuitOpenUntil := t' + CIRCUIT_COOLDOWN_MS\<rparr>\<rparr>)) (ret isAlive))
       else ret isAlive))))"

section \<open>Writing a session and its event\<close>

text \<open>\<open>updateMany\<close> on the outbox rows of an event that was published inline.\<close>

definition mark_processed :: "string \<Rightarrow> payload \<Rightarrow> db \<Rightarrow> db" where
  "mark_processed ty p d = d\<lparr>coreOutbox := update_rows
     (\<lambda>e. ob_eventType e = ty \<and> ob_payload e = p \<and> \<not> ob_processed e)
     (\<lambda>e. e\<lparr>ob_processed := True\<rparr>) (coreOutbox d)\<rparr>"

text \<open>The try block after a commit: both brokers, then the mark; its errors are only logged.\<close>

definition emit_inline :: "'r env \<Rightarrow> string \<Rightarrow> string \<Rightarrow> payload \<Rightarrow> ('r world, unit) act" where
  "emit_inline E ty queue p = catch
     (sq (kafka_emit E p) (sq (rabbit_publish E queue p) (write_db E (mark_processed ty p))))
     (\<lambda>_. ret ())"

text \<open>A session row and an outbox row, and the transaction that writes both.\<close>

definition insert_session :: "string \<Rightarrow> string \<Rightarrow> string \<Rightarrow> int \<Rightarrow> db \<Rightarrow> (exn + unit) \<times> db" where
  "insert_session sid u cid t d = guarded
     [(UniqueViolation, has_key ls_id sid (labSessions d)),
      (ForeignKeyViolation, \<not> has_user d u),
      (ForeignKeyViolation, \<not> has_challenge d cid)]
     (d\<lparr>labSessions := labSessions d @ [\<lparr>ls_id = sid, ls_userId = u, ls_challengeId = cid,
          ls_status = ACTIVE, ls_startedAt = t, ls_endedAt = None\<rparr>]\<rparr>) d"

definition next_event_id :: "'r env \<Rightarrow> db \<Rightarrow> string" where
  "next_event_id E d = cuid E (map ob_id (coreOutbox d))"

definition file_event :: "'r env \<Rightarrow> string \<Rightarrow> payload \<Rightarrow> int \<Rightarrow> db \<Rightarrow> (exn + string) \<times> db" where
  "file_event E ty p t d = (Inr (next_event_id E d),
     d\<lparr>coreOutbox := coreOutbox d @ [new_outbox_event (next_event_id E d) ty p t]\<rparr>)"

definition create_session_tx ::
  "'r env \<Rightarrow> string \<Rightarrow> string \<Rightarrow> string \<Rightarrow> payload \<Rightarrow> ('r world, string) act" where
  "create_session_tx E sid u cid p =
     batch E (insert_session sid u cid) (file_event E ''SessionStartedEvent'' p)"

definition provider_queue :: "string \<Rightarrow> string" where
  "provider_queue p = PROVISION_SANDBOX @ ''.'' @ p"

section \<open>Starting a session\<close>

definition plan_limit :: "plan_tier \<Rightarrow> nat" where
  "plan_limit t = (if t = PRO then 3 else if t = TEAM then 5 else 1)"

definition tier_of_user :: "db \<Rightarrow> user option \<Rightarrow> plan_tier" where
  "tier_of_user d u =
     (case Option.bind u user_orgId of
        None \<Rightarrow> FREE
      | Some oid \<Rightarrow> (case find (\<lambda>g. org_id g = oid) (orgs d) of None \<Rightarrow> FREE | Some g \<Rightarrow> org_planTier g))"

definition active_of :: "db \<Rightarrow> string \<Rightarrow> lab_session list" where
  "active_of d u = filter (\<lambda>s. ls_userId s = u \<and> ls_status s = ACTIVE) (labSessions d)"

definition terminate_session :: "string \<Rightarrow> int \<Rightarrow> db \<Rightarrow> (exn + unit) \<times> db" where
  "terminate_session sid t d = guarded [(RecordNotFound, \<not> has_key ls_id sid (labSessions d))]
     (d\<lparr>labSessions := update_rows (\<lambda>s. ls_id s = sid)
        (\<lambda>s. s\<lparr>ls_status := TERMINATED, ls_endedAt := Some t\<rparr>) (labSessions d)\<rparr>) d"

definition session_lock :: "string \<Rightarrow> string \<Rightarrow> string" where
  "session_lock u cid = ''core:session:'' @ u @ '':'' @ cid"

definition nx_lock_10s :: "'r env \<Rightarrow> string \<Rightarrow> string \<Rightarrow> ('r world, bool) act" where
  "nx_lock_10s E key v = redis_run E (\<lambda>t r. redis_set_nx (redis_api E) t key v 10 r)"

text \<open>From the outbox transaction to the reply of \<open>POST /challenges/:id/start\<close>.\<close>

definition create_and_emit ::
  "'r env \<Rightarrow> string \<Rightarrow> string \<Rightarrow> string \<Rightarrow> challenge \<Rightarrow> ('r world, session_reply reply) act" where
  "create_and_emit E lockKey sessionId u c =
     (let provider = js_or (Some (ch_requiredProvider c)) ''docker'';
          outboxPayload = SessionStarted sessionId u (ch_id c) (ch_dockerImage c) (sessionTTLMins E) (Some provider)
      in bnd (catch (bnd (create_session_tx E sessionId u (ch_id c) outboxPayload) (\<lambda>_. ret True))
                (\<lambda>_. sq (redis_delete E lockKey) (ret False))) (\<lambda>created.
         if \<not> created then ret (Reject 500 CreateFailed)
         else
           sq (emit_inline E ''SessionStartedEvent'' (provider_queue (ch_requiredProvider c)) outboxPayload)
           (session_answer E 201 sessionId c (sessionTTLMins E) False None)))"

text \<open>The lock: a collision answers with the session that holds it.\<close>

definition lock_and_create ::
  "'r env \<Rightarrow> string \<Rightarrow> challenge \<Rightarrow> ('r world, session_reply reply) act" where
  "lock_and_create E u c =
     (let lockKey = session_lock u (ch_id c) in
      bnd (new_id E) (\<lambda>sessionId.
      bnd (nx_lock_10s E lockKey sessionId) (\<lambda>acquired.
      bnd (if acquired then ret None else redis_lookup E lockKey) (\<lambda>cached.
      if truthy cached then session_answer E 200 (the cached) c (sessionTTLMins E) False None
      else create_and_emit E lockKey sessionId u c))))"

text \<open>The concurrency limit of the plan.\<close>

definition check_limit ::
  "'r env \<Rightarrow> string \<Rightarrow> plan_tier \<Rightarrow> ('r world, session_reply reply) act \<Rightarrow>
   ('r world, session_reply reply) act" where
  "check_limit E u planTier k =
     bnd (query E (\<lambda>d. length (active_of d u))) (\<lambda>activeSessions.
     if activeSessions \<ge> plan_limit planTier
     then ret (Reject 403 (ConcurrencyLimitReached planTier (int (plan_limit planTier))))
     else k)"

definition start_session ::
  "'r env \<Rightarrow> string \<Rightarrow> string \<Rightarrow> ('r world, session_reply reply) act" where
  "start_session E u cid =
     bnd (query E (find_challenge cid)) (\<lambda>challenge.
     case challenge of
       None \<Rightarrow> ret (Reject 404 ChallengeNotFound)
     | Some c \<Rightarrow>
       bnd (query E (\<lambda>d. (find_user u d, tier_of_user d (find_user u d)))) (\<lambda>(userDb, planTier).
       if truthy (ch_contributedByOrgId c) \<and> ch_contributedByOrgId c \<noteq> Option.bind userDb user_orgId
       then ret (Reject 403 ForbiddenOrg)
       else
         bnd (query E (\<lambda>d. find (\<lambda>s. ls_userId s = u \<and> ls_challengeId s = ch_id c \<and>
             ls_status s = ACTIVE) (labSessions d))) (\<lambda>existingSession.
         case existingSession of
           None \<Rightarrow> check_limit E u planTier (lock_and_create E u c)
         | Some s \<Rightarrow>
             bnd (probe_session E (ls_id s)) (\<lambda>isAlive.
             if isAlive then session_answer E 200 (ls_id s) c (sessionTTLMins E) False None
             else
               bnd now (\<lambda>t.
               sq (run_db E (terminate_session (ls_id s) t))
               (check_limit E u planTier (lock_and_create E u c)))))))"

section \<open>A guest's trial\<close>

definition trial_ttl :: "'r env \<Rightarrow> int" where
  "trial_ttl E = (if guestTrialTTLMins E = 0 then 10 else guestTrialTTLMins E)"

definition trial_used_key :: "string \<Rightarrow> string" where
  "trial_used_key guestId = ''guest:trial:used:'' @ guestId"

definition trial_ip_key :: "string \<Rightarrow> string" where
  "trial_ip_key ip = ''ratelimit:guest_trial:ip:'' @ ip"

definition guest_user :: "string \<Rightarrow> user" where
  "guest_user i = \<lparr>user_id = i, user_name = Some ''Guest Explorer'', user_username = None,
     user_email = i @ ''@trial.devopslab.internal'', user_password = None, user_role = GUEST,
     user_xp = 0, user_isPublic = False, user_orgId = None, user_onboardingState = ObNew,
     user_emailVerified = None, user_githubId = None, user_googleId = None, user_ssoId = None,
     user_mfaEnabled = False, user_mfaSecret = None, user_avatarUrl = None, user_jobTitle = None,
     user_lastLoginAt = None, user_firstLoginAt = None, user_currentStreak = 0,
     user_longestStreak = 0, user_lastActivityDate = None\<rparr>"

definition upsert_guest :: "string \<Rightarrow> db \<Rightarrow> (exn + unit) \<times> db" where
  "upsert_guest i d = (let exists = has_user d i in
     guarded [(UniqueViolation, \<not> exists \<and> has_key user_email (user_email (guest_user i)) (users d))]
       (if exists then d else d\<lparr>users := users d @ [guest_user i]\<rparr>) d)"

text \<open>Steps 7 to 10: the token of the auth service, the transaction, the used mark, the events.\<close>

definition launch_trial ::
  "'r env \<Rightarrow> string \<Rightarrow> string \<Rightarrow> string \<Rightarrow> challenge \<Rightarrow> ('r world, session_reply reply) act" where
  "launch_trial E guestId lockKey sessionId c =
     (let guestUserId = ''guest_'' @ guestId;
          provider = js_or (Some (ch_requiredProvider c)) ''docker'';
          outboxPayload = SessionStarted sessionId guestUserId (ch_id c) (ch_dockerImage c) (trial_ttl E) (Some provider)
      in bnd (\<lambda>w. (Inr (fetch_guest_token E (calls w) guestId), tick E w)) (\<lambda>token.
         bnd (catch (bnd (create_session_tx E sessionId guestUserId (ch_id c) outboxPayload) (\<lambda>_. ret True))
                (\<lambda>_. sq (redis_delete E lockKey) (ret False))) (\<lambda>created.
         if \<not> created then ret (Reject 500 CreateFailed)
         else
           sq (redis_write E (\<lambda>t. redis_set_ex (redis_api E) t (trial_used_key guestId) sessionId (30 * 24 * 60 * 60))) (
           sq (emit_inline E ''SessionStartedEvent'' (provider_queue provider) outboxPayload)
           (session_answer E 201 sessionId c (trial_ttl E) True (Some (js_or token [])))))))"

text \<open>Steps 3 to 6: one trial per guest, two per address and hour, one provisioning at a time.\<close>

definition admit_trial ::
  "'r env \<Rightarrow> string \<Rightarrow> string \<Rightarrow> challenge \<Rightarrow> ('r world, session_reply reply) act" where
  "admit_trial E guestId ip c =
     bnd (redis_lookup E (trial_used_key guestId)) (\<lambda>alreadyUsed.
     if truthy alreadyUsed then ret (Reject 403 TrialAlreadyUsed)
     else
       let ipKey = trial_ip_key ip in
       bnd (redis_run E (\<lambda>t. redis_incr (redis_api E) t ipKey)) (\<lambda>ipAttempts.
       sq (when_act (ipAttempts = 1) (redis_write E (\<lambda>t. redis_expire (redis_api E) t ipKey 3600))) (
       if ipAttempts > 2 then ret (Reject 429 RateLimitExceeded)
       else
         bnd (new_id E) (\<lambda>sessionId.
         let guestUserId = ''guest_'' @ guestId; lockKey = session_lock guestUserId (ch_id c) in
         sq (run_db E (upsert_guest guestUserId)) (
         bnd (nx_lock_10s E lockKey sessionId) (\<lambda>acquired.
         bnd (if acquired then ret None else redis_lookup E lockKey) (\<lambda>cached.
         if truthy cached then session_answer E 200 (the cached) c (trial_ttl E) True None
         else launch_trial E guestId lockKey sessionId c)))))))"

definition start_trial ::
  "'r env \<Rightarrow> string option \<Rightarrow> string option \<Rightarrow> string \<Rightarrow>
   ('r world, string option \<times> session_reply reply) act" where
  "start_trial E guestCookie ip cid =
     bnd (query E (find_challenge cid)) (\<lambda>challenge.
     case challenge of
       None \<Rightarrow> ret (None, Reject 404 ChallengeNotFound)
     | Some c \<Rightarrow>
       if \<not> ch_guestTrialEligible c then ret (None, Reject 403 TrialNotEligible)
       else
         bnd (if truthy guestCookie then ret (the guestCookie) else new_id E) (\<lambda>guestId.
         bnd (admit_trial E guestId (js_or ip ''unknown'') c) (\<lambda>answer.
         ret (if truthy guestCookie then None else Some guestId, answer))))"

definition trial_status :: "'r env \<Rightarrow> string option \<Rightarrow> string \<Rightarrow> ('r world, (bool \<times> bool) reply) act" where
  "trial_status E guestCookie cid =
     bnd (query E (find_challenge cid)) (\<lambda>challenge.
     case challenge of
       None \<Rightarrow> ret (Reject 404 ChallengeNotFound)
     | Some c \<Rightarrow>
       bnd (if truthy guestCookie then redis_lookup E (trial_used_key (the guestCookie)) else ret None) (\<lambda>used.
       ret (Reply 200 (ch_guestTrialEligible c, truthy used))))"

section \<open>Ending a session\<close>

definition end_session_row :: "string \<Rightarrow> int \<Rightarrow> int \<Rightarrow> db \<Rightarrow> (exn + unit) \<times> db" where
  "end_session_row sid t t' d = guarded []
     (d\<lparr>labSessions := update_rows (\<lambda>s. ls_id s = sid \<and> ls_status s = ACTIVE)
          (\<lambda>s. s\<lparr>ls_status := TERMINATED, ls_endedAt := Some t\<rparr>) (labSessions d)\<rparr>) d"

definition end_session_tx :: "'r env \<Rightarrow> string \<Rightarrow> payload \<Rightarrow> ('r world, string) act" where
  "end_session_tx E sid p =
     bnd now (\<lambda>t. batch E (end_session_row sid t) (file_event E ''SessionEndedEvent'' p))"

definition end_session :: "'r env \<Rightarrow> string \<Rightarrow> ('r world, unit) act" where
  "end_session E sid =
     (let p = SessionEnded sid EndTerminated in
      bnd (end_session_tx E sid p) (\<lambda>_. emit_inline E ''SessionEndedEvent'' TERMINATE_SANDBOX p))"

definition delete_active :: "'r env \<Rightarrow> string \<Rightarrow> ('r world, nat reply) act" where
  "delete_active E u =
     bnd (query E (\<lambda>d. active_of d u)) (\<lambda>activeSessions.
     sq (for_each activeSessions (\<lambda>s. end_session E (ls_id s)))
     (ret (Reply 200 (length activeSessions))))"

definition delete_session :: "'r env \<Rightarrow> string \<Rightarrow> string \<Rightarrow> ('r world, unit reply) act" where
  "delete_session E u sid = sq (end_session E sid) (ret (Reply 200 ()))"

section \<open>Reading a session\<close>

definition get_session ::
  "'r env \<Rightarrow> string \<Rightarrow> ('r world, (lab_session \<times> string \<times> gateway_urls) reply) act" where
  "get_session E sid =
     bnd (query E (\<lambda>d. map_option (\<lambda>s. (s, case find_challenge (ls_challengeId s) d of
         None \<Rightarrow> [] | Some c \<Rightarrow> ch_title c)) (find_session sid d))) (\<lambda>session.
     case session of
       None \<Rightarrow> ret (Reject 404 SessionNotFound)
     | Some (s, title) \<Rightarrow>
         bnd (getGatewayUrls E (ls_id s)) (\<lambda>urls. ret (Reply 200 (s, title, urls))))"

definition session_health :: "'r env \<Rightarrow> string \<Rightarrow> ('r world, bool reply) act" where
  "session_health E sid =
     bnd (query E (find_session sid)) (\<lambda>session.
     ret (Reply 200 (case session of None \<Rightarrow> False | Some s \<Rightarrow> ls_status s = ACTIVE)))"

definition session_check_results :: "'r env \<Rightarrow> string \<Rightarrow> ('r world, check_result list reply) act" where
  "session_check_results E sid =
     bnd (query E (find_session sid)) (\<lambda>session.
     case session of
       None \<Rightarrow> ret (Reject 404 SessionNotFound)
     | Some s \<Rightarrow>
         bnd (query E (\<lambda>d. filter (\<lambda>r. cr_userId r = ls_userId s \<and>
             cr_challengeId r = ls_challengeId s) (checkResults d))) (\<lambda>rs. ret (Reply 200 rs)))"

section \<open>The onboarding tour\<close>

definition onboarding_status :: "'r env \<Rightarrow> string \<Rightarrow> ('r world, onboarding_state) act" where
  "onboarding_status E u =
     bnd (query E (find_user u)) (\<lambda>user.
     ret (case user of None \<Rightarrow> ObNew | Some r \<Rightarrow> user_onboardingState r))"

definition onboarding_complete :: "'r env \<Rightarrow> string \<Rightarrow> ('r world, onboarding_state) act" where
  "onboarding_complete E u =
     sq (run_db E (\<lambda>d. guarded [(RecordNotFound, \<not> has_user d u)]
       (d\<lparr>users := update_rows (\<lambda>r. user_id r = u)
          (\<lambda>r. r\<lparr>user_onboardingState := TourCompleted\<rparr>) (users d)\<rparr>) d))
     (ret TourCompleted)"

section \<open>How the shared steps act on the database\<close>

lemma post_emit_inline [post_rules]:
  "Q (Inr ()) d \<Longrightarrow> Q (Inr ()) (mark_processed ty p d) \<Longrightarrow> db_post (emit_inline E ty q p) d Q"
  unfolding emit_inline_def by (intro post_rules)

lemma post_session_answer [post_rules]:
  "(\<And>e. Q (Inl e) d) \<Longrightarrow> (\<And>a. re_sessionId a = sid \<Longrightarrow> Q (Inr (Reply code a)) d) \<Longrightarrow>
   db_post (session_answer E code sid c ttl guest token) d Q"
  unfolding session_answer_def getGatewayUrls_def by (intro post_rules) simp_all

lemma post_probe [post_rules]:
  "(\<And>b. Q (Inr b) d) \<Longrightarrow> db_post (probe_session E sid) d Q"
  unfolding probe_session_def fetch_health_def
  by (auto simp: db_post_def act_simps now_def Let_def split: prod.splits)

lemma post_nx_lock [post_rules]:
  "(\<And>e. Q (Inl e) d) \<Longrightarrow> (\<And>a. Q (Inr a) d) \<Longrightarrow> db_post (nx_lock_10s E key v) d Q"
  unfolding nx_lock_10s_def by (intro post_rules; assumption)

lemma mark_processed_sel [simp]:
  "labSessions (mark_processed ty p d) = labSessions d" "users (mark_processed ty p d) = users d"
  "challenges (mark_processed ty p d) = challenges d" "orgs (mark_processed ty p d) = orgs d"
  by (simp_all add: mark_processed_def)

lemma active_of_mark [simp]: "active_of (mark_processed ty p d) u = active_of d u"
  by (simp add: active_of_def)

text \<open>
  Each handler is a few writes at most. What they do is named here once, as a step relation on the
  database: a new session with its event, an ended session with its event, a dead session marked, a
  guest's row, an event marked as processed.
\<close>

text \<open>
  If the client's transactions are not transactions of the database, the two rows of a session and
  of its event are written one by one.
\<close>

abbreviation new_session :: "string \<Rightarrow> string \<Rightarrow> string \<Rightarrow> int \<Rightarrow> lab_session" where
  "new_session sid u cid t \<equiv> \<lparr>ls_id = sid, ls_userId = u, ls_challengeId = cid, ls_status = ACTIVE,
     ls_startedAt = t, ls_endedAt = None\<rparr>"

inductive session_step :: "bool \<Rightarrow> db \<Rightarrow> db \<Rightarrow> bool" for one where
  created: "\<not> has_key ls_id sid (labSessions d) \<Longrightarrow> has_user d u \<Longrightarrow> has_challenge d cid \<Longrightarrow>
    session_step one d (d\<lparr>labSessions := labSessions d @ [new_session sid u cid t],
      coreOutbox := coreOutbox d @ [new_outbox_event obid ''SessionStartedEvent''
        (SessionStarted sid u cid img ttl (Some prov)) t]\<rparr>)"
| row_alone: "\<not> one \<Longrightarrow> \<not> has_key ls_id sid (labSessions d) \<Longrightarrow> has_user d u \<Longrightarrow> has_challenge d cid \<Longrightarrow>
    session_step one d (d\<lparr>labSessions := labSessions d @ [new_session sid u cid t]\<rparr>)"
| filed: "session_step one d (d\<lparr>coreOutbox := coreOutbox d @ [new_outbox_event obid ty p t]\<rparr>)"
| ended: "session_step one d (d\<lparr>labSessions := update_rows (\<lambda>s. ls_id s = sid \<and> ls_status s = ACTIVE)
      (\<lambda>s. s\<lparr>ls_status := TERMINATED, ls_endedAt := Some t\<rparr>) (labSessions d)\<rparr>)"
| dead: "session_step one d (d\<lparr>labSessions := update_rows (\<lambda>s. ls_id s = sid)
      (\<lambda>s. s\<lparr>ls_status := TERMINATED, ls_endedAt := Some t\<rparr>) (labSessions d)\<rparr>)"
| guest: "\<not> has_user d i \<Longrightarrow> \<not> has_key user_email (user_email (guest_user i)) (users d) \<Longrightarrow>
    session_step one d (d\<lparr>users := users d @ [guest_user i]\<rparr>)"
| marks: "session_step one d (mark_processed ty p d)"

definition session_steps :: "bool \<Rightarrow> db \<Rightarrow> db \<Rightarrow> bool" where
  "session_steps one = (session_step one)\<^sup>*\<^sup>*"

interpretation session_order: db_order "session_steps one" for one
  by unfold_locales (auto simp: session_steps_def)

lemma one_step: "session_step one d d' \<Longrightarrow> session_steps one d d'"
  by (simp add: session_steps_def)

lemma steps_invariant:
  assumes "session_steps one d d'" and "I d" and "\<And>d d'. session_step one d d' \<Longrightarrow> I d \<Longrightarrow> I d'"
  shows "I d'"
  using assms(1) unfolding session_steps_def
  by (induction rule: rtranclp_induct) (use assms in auto)

lemma guarded_steps:
  "(\<And>d. list_all (\<lambda>g. \<not> snd g) (gs d) \<Longrightarrow> session_steps one d (f d)) \<Longrightarrow>
   moves (on_db (session_steps one)) (run_db E (\<lambda>d. guarded (gs d) (f d) d))"
  by (rule db_post_moves) (auto intro!: post_guarded simp: session_order.db_refl)

lemma guarded_steps_at:
  "(\<And>t d. list_all (\<lambda>g. \<not> snd g) (gs t d) \<Longrightarrow> session_steps one d (f t d)) \<Longrightarrow>
   moves (on_db (session_steps one)) (run_db_at E (\<lambda>t d. guarded (gs t d) (f t d) d))"
  by (rule db_post_moves) (auto intro!: post_guarded_at simp: session_order.db_refl)

lemma emit_moves: "moves (on_db (session_steps one)) (emit_inline E ty q p)"
  unfolding emit_inline_def
  by (intro session_order.db_moves session_order.moves_mail session_order.moves_write
      one_step session_step.marks)

lemma answer_moves: "moves (on_db (session_steps one)) (session_answer E code sid c ttl g token)"
  unfolding session_answer_def getGatewayUrls_def by (intro session_order.db_moves moves_rules)

lemma probe_moves: "moves (on_db (session_steps one)) (probe_session E sid)"
  by (rule db_post_moves, rule post_probe) (simp add: session_order.db_refl)

lemma file_event_step: "session_steps one d (snd (file_event E ty p t d))"
  by (simp add: file_event_def one_step session_step.filed)

lemma create_tx_moves:
  "moves (on_db (session_steps (oneTransaction E)))
     (create_session_tx E sid u cid (SessionStarted sid u cid img ttl (Some prov)))"
proof (cases "oneTransaction E")
  case True
  have "session_steps True d (snd (both (insert_session sid u cid)
      (file_event E ''SessionStartedEvent'' (SessionStarted sid u cid img ttl (Some prov))) t d))" for t d
    using guarded_outcomes by (auto simp: both_def insert_session_def file_event_def session_order.db_refl
        intro!: one_step session_step.created split: prod.split)
  with True show ?thesis
    unfolding create_session_tx_def by (auto intro: session_order.moves_batch_one)
next
  case False
  have "session_steps False d (snd (insert_session sid u cid t d))" for t d
    unfolding insert_session_def
    by (auto simp: session_order.db_refl intro!: one_step session_step.row_alone)
  with False show ?thesis
    unfolding create_session_tx_def by (auto intro!: session_order.moves_batch file_event_step)
qed

lemma terminate_moves: "moves (on_db (session_steps one)) (run_db E (terminate_session sid t))"
  unfolding terminate_session_def by (rule guarded_steps) (auto intro: one_step session_step.dead)

lemma upsert_guest_moves: "moves (on_db (session_steps one)) (run_db E (upsert_guest i))"
  unfolding upsert_guest_def Let_def
  by (rule guarded_steps) (auto intro: one_step session_step.guest session_order.db_refl)

lemma end_session_moves: "moves (on_db (session_steps one)) (end_session E sid)"
  unfolding end_session_def Let_def end_session_tx_def
  by (intro session_order.db_moves emit_moves session_order.moves_batch file_event_step)
     (simp add: end_session_row_def one_step session_step.ended)

lemmas session_moves = session_order.db_moves moves_rules session_order.moves_redis_calls session_order.moves_mail emit_moves
  answer_moves probe_moves create_tx_moves terminate_moves upsert_guest_moves end_session_moves

lemma create_and_emit_moves: "moves (on_db (session_steps (oneTransaction E))) (create_and_emit E k sid u c)"
  unfolding create_and_emit_def Let_def by (intro session_moves)

lemma lock_and_create_moves: "moves (on_db (session_steps (oneTransaction E))) (lock_and_create E u c)"
  unfolding lock_and_create_def Let_def nx_lock_10s_def
  by (intro session_moves create_and_emit_moves)

lemma start_moves: "moves (on_db (session_steps (oneTransaction E))) (start_session E u cid)"
  unfolding start_session_def check_limit_def by (intro session_moves lock_and_create_moves)

lemma trial_moves: "moves (on_db (session_steps (oneTransaction E))) (start_trial E guestCookie ip cid)"
  unfolding start_trial_def admit_trial_def launch_trial_def Let_def nx_lock_10s_def
  apply (intro session_moves)
  apply (auto simp: session_order.db_refl tick_def on_db_def moves_def)
  done

lemma delete_moves:
  "moves (on_db (session_steps (oneTransaction E))) (delete_active E u)"
  "moves (on_db (session_steps (oneTransaction E))) (delete_session E u sid)"
  unfolding delete_active_def delete_session_def by (intro session_moves)+

text \<open>Every request that changes sessions.\<close>

datatype session_request =
    Start string string
  | Trial "string option" "string option" string
  | DeleteActive string
  | DeleteSession string string

fun serve :: "'r env \<Rightarrow> session_request \<Rightarrow> 'r world \<Rightarrow> 'r world" where
  "serve E (Start u cid) w = snd (start_session E u cid w)"
| "serve E (Trial g ip cid) w = snd (start_trial E g ip cid w)"
| "serve E (DeleteActive u) w = snd (delete_active E u w)"
| "serve E (DeleteSession u sid) w = snd (delete_session E u sid w)"

lemma serve_steps: "session_steps (oneTransaction E) (db w) (db (serve E rq w))"
  by (cases rq) (simp_all add: moves_db_run [OF start_moves] moves_db_run [OF trial_moves]
      moves_db_run [OF delete_moves(1)] moves_db_run [OF delete_moves(2)])

section \<open>Every session has its event\<close>

definition starts_session :: "lab_session \<Rightarrow> outbox_event \<Rightarrow> bool" where
  "starts_session s e \<longleftrightarrow> ob_eventType e = ''SessionStartedEvent'' \<and>
     (case ob_payload e of
        SessionStarted sid u cid _ _ _ \<Rightarrow> sid = ls_id s \<and> u = ls_userId s \<and> cid = ls_challengeId s
      | _ \<Rightarrow> False)"

definition sessions_announced :: "db \<Rightarrow> bool" where
  "sessions_announced d \<longleftrightarrow> (\<forall>s \<in> set (labSessions d). \<exists>e \<in> set (coreOutbox d). starts_session s e)"

lemma starts_session_fields [simp]:
  "starts_session (s\<lparr>ls_status := x\<rparr>) e = starts_session s e"
  "starts_session (s\<lparr>ls_endedAt := y\<rparr>) e = starts_session s e"
  "starts_session s (e\<lparr>ob_processed := b\<rparr>) = starts_session s e"
  by (simp_all add: starts_session_def split: payload.split)

lemma starts_session_new:
  "starts_session \<lparr>ls_id = sid, ls_userId = u, ls_challengeId = cid, ls_status = st, ls_startedAt = t, ls_endedAt = x\<rparr>
     (new_outbox_event i ''SessionStartedEvent'' (SessionStarted sid u cid img ttl prov) t')"
  by (simp add: starts_session_def new_outbox_event_def)

lemma bex_update_rows:
  "(\<exists>r \<in> set (update_rows P f rs). Q r) \<longleftrightarrow> (\<exists>r \<in> set rs. if P r then Q (f r) else Q r)"
  by (induction rs) auto

lemma announced_step: "session_step True d d' \<Longrightarrow> sessions_announced d \<Longrightarrow> sessions_announced d'"
  by (induction rule: session_step.induct)
     (auto simp: sessions_announced_def ball_update_rows bex_update_rows mark_processed_def starts_session_new)

lemma constraints_step: "session_step one d d' \<Longrightarrow> constraints d \<Longrightarrow> constraints d'"
  by (induction rule: session_step.induct)
     (auto simp: constraint_defs row_updates mark_processed_def guest_user_def)

fun serve_all :: "('r env \<times> session_request) list \<Rightarrow> 'r world \<Rightarrow> 'r world" where
  "serve_all [] w = w"
| "serve_all ((E, rq) # rqs) w = serve_all rqs (serve E rq w)"

text \<open>Whatever requests are served, whatever calls fail in them and whether or not the client's
  transactions are transactions of the database, the keys and references of the schema are kept.\<close>

lemma requests_keep_constraints:
  assumes "constraints (db w)"
  shows "constraints (db (serve_all rqs w))"
  using assms
proof (induction rqs w rule: serve_all.induct)
  case (2 E rq rqs w)
  then show ?case using steps_invariant [OF serve_steps, of constraints w E rq, OF _ constraints_step]
    by simp
qed simp

lemma requests_keep_constraints_witness:
  "constraints (db (serve_all [(faulty_env [(6, Unacked)], Start ''bob'' ''c1''), (calm_env, DeleteActive ''ann'')]
     (example_world example_db)))"
  by (rule requests_keep_constraints) simp

text \<open>If the client's transactions are transactions of the database, each session row keeps the event
  that announces it, whatever requests are served and whatever calls fail in them.\<close>

lemma sessions_announced_if_atomic:
  assumes "sessions_announced (db w)" and "\<forall>(E, rq) \<in> set rqs. oneTransaction E"
  shows "sessions_announced (db (serve_all rqs w))"
  using assms
proof (induction rqs w rule: serve_all.induct)
  case (2 E rq rqs w)
  then show ?case
    using steps_invariant [OF serve_steps, of sessions_announced w E rq] announced_step by simp
qed simp

text \<open>Whether they are or not, a session that was answered has its row and its event.\<close>

definition session_key :: "lab_session \<Rightarrow> string \<times> string \<times> string" where
  "session_key s = (ls_id s, ls_userId s, ls_challengeId s)"

definition event_key :: "outbox_event \<Rightarrow> string \<times> payload" where
  "event_key e = (ob_eventType e, ob_payload e)"

definition filed_start :: "string \<Rightarrow> string \<Rightarrow> string \<Rightarrow> db \<Rightarrow> bool" where
  "filed_start sid u cid d \<longleftrightarrow> (sid, u, cid) \<in> session_key ` set (labSessions d) \<and>
     (\<exists>img ttl prov. (''SessionStartedEvent'', SessionStarted sid u cid img ttl prov) \<in> event_key ` set (coreOutbox d))"

lemma image_update_rows:
  assumes "\<And>r. g (f r) = g r"
  shows "g ` set (update_rows P f rs) = g ` set rs"
proof -
  have "map g (update_rows P f rs) = map g rs" by (simp add: update_rows_def assms)
  then show ?thesis by (metis list.set_map)
qed

lemma filed_start_step: "session_step one d d' \<Longrightarrow> filed_start sid u cid d \<Longrightarrow> filed_start sid u cid d'"
  by (induction rule: session_step.induct)
     (auto simp: filed_start_def image_update_rows session_key_def event_key_def mark_processed_def)

lemma filed_start_mark: "filed_start sid u cid d \<Longrightarrow> filed_start sid u cid (mark_processed ty p d)"
  by (rule filed_start_step [OF session_step.marks])

lemma filed_start_created:
  "filed_start sid u cid (d\<lparr>labSessions := ss @ [new_session sid u cid t],
     coreOutbox := es @ [new_outbox_event i ''SessionStartedEvent'' (SessionStarted sid u cid img ttl prov) t']\<rparr>)"
  by (auto simp: filed_start_def new_outbox_event_def session_key_def event_key_def)

text \<open>An answer with 201 names a session of this user and challenge that is filed.\<close>

definition created_filed :: "string \<Rightarrow> string \<Rightarrow> exn + session_reply reply \<Rightarrow> db \<Rightarrow> bool" where
  "created_filed u cid r d \<longleftrightarrow> (\<forall>rep. r = Inr (Reply 201 rep) \<longrightarrow> filed_start (re_sessionId rep) u cid d)"

lemma created_filed_simps [simp]:
  "created_filed u cid (Inl e) d" "created_filed u cid (Inr (Reject c x)) d"
  "created_filed u cid (Inr (Reply c rep)) d \<longleftrightarrow> (c = 201 \<longrightarrow> filed_start (re_sessionId rep) u cid d)"
  by (auto simp: created_filed_def)

lemma created_is_filed:
  "db_post (create_and_emit E k sid u c) d (created_filed u (ch_id c))"
  "db_post (lock_and_create E u c) d (created_filed u (ch_id c))"
proof -
  show one: "db_post (create_and_emit E k sid u c) d (created_filed u (ch_id c))" for k sid d
    unfolding create_and_emit_def create_session_tx_def insert_session_def file_event_def Let_def
    by (intro post_rules) (auto intro!: filed_start_created filed_start_mark)
  show "db_post (lock_and_create E u c) d (created_filed u (ch_id c))"
    unfolding lock_and_create_def Let_def by (intro post_rules one) simp_all
qed

lemma start_is_filed: "db_post (start_session E u cid) d (created_filed u cid)"
proof -
  have limit: "db_post (check_limit E u tier (lock_and_create E u c)) d' (created_filed u cid)"
    if "ch_id c = cid" for tier c d'
    unfolding check_limit_def by (intro post_rules created_is_filed(2) [of E u c, unfolded that]) simp_all
  show ?thesis
    unfolding start_session_def terminate_session_def
    by (intro post_rules limit) (auto dest: find_in)
qed

text \<open>C5. A start of a session that is answered with 201 has filed the session and the event that announces it,
  and both stay, the event in the outbox from which it is delivered, whatever requests for sessions follow and whatever
  fails in them: in whichever way the client treats its transactions, and whatever failed before the answer.\<close>

theorem started_stays_announced:
  assumes "start_session E u cid w = (Inr (Reply 201 rep), w')" and "d = db (serve_all rqs w')"
  shows "(\<exists>s \<in> set (labSessions d). ls_id s = re_sessionId rep \<and> ls_userId s = u \<and> ls_challengeId s = cid) \<and>
    (\<exists>e \<in> set (coreOutbox d). ob_eventType e = ''SessionStartedEvent'' \<and>
       (\<exists>img ttl prov. ob_payload e = SessionStarted (re_sessionId rep) u cid img ttl prov))"
proof -
  have "filed_start (re_sessionId rep) u cid (db w')"
    using db_postD [OF start_is_filed assms(1) refl] by simp
  then have "filed_start (re_sessionId rep) u cid (db (serve_all rqs w'))"
  proof (induction rqs w' rule: serve_all.induct)
    case (2 E rq rqs w)
    then show ?case
      using steps_invariant [OF serve_steps, of "filed_start (re_sessionId rep) u cid" w E rq] filed_start_step by simp
  qed simp
  then show ?thesis unfolding assms(2) filed_start_def session_key_def event_key_def image_iff prod.inject
    by (intro conjI; elim conjE exE bexE; metis)
qed

lemma started_stays_announced_witness:
  "\<exists>rep w'. start_session ((faulty_env [(7, Failed)])\<lparr>oneTransaction := False, publicGatewayUrl := ''https://gw''\<rparr>) ''bob'' ''c1''
       (example_world example_db) = (Inr (Reply 201 rep), w') \<and>
     (let d = db (serve_all [(faulty_env [(1, Unacked)], DeleteActive ''bob'')] w') in
       (\<exists>e \<in> set (coreOutbox d). \<exists>img ttl prov. ob_payload e = SessionStarted (re_sessionId rep) ''bob'' ''c1'' img ttl prov))"
proof -
  let ?E = "(faulty_env [(7, Failed)])\<lparr>oneTransaction := False, publicGatewayUrl := ''https://gw''\<rparr>"
  obtain r w' where run: "start_session ?E ''bob'' ''c1'' (example_world example_db) = (r, w')" by fastforce
  have "(case fst (start_session ?E ''bob'' ''c1'' (example_world example_db)) of Inr (Reply n x) \<Rightarrow> n = 201 | _ \<Rightarrow> False)"
    by code_simp
  with run obtain rep where "r = Inr (Reply 201 rep)" by (auto split: sum.splits reply.splits)
  with run have run': "start_session ?E ''bob'' ''c1'' (example_world example_db) = (Inr (Reply 201 rep), w')" by simp
  show ?thesis
    using run' started_stays_announced [OF run' refl, of "[(faulty_env [(1, Unacked)], DeleteActive ''bob'')]"]
    by (auto simp: Let_def)
qed

text \<open>If they are not, one failed call breaks the outbox: the request is refused with 500, but the
  session stays active and no event was filed, so nobody provisions it or hears of it.\<close>

lemma unannounced_session:
  "let (r, w) = start_session ((faulty_env [(6, Failed)])\<lparr>oneTransaction := False\<rparr>) ''bob'' ''c2''
       (example_world (example_db\<lparr>labSessions := []\<rparr>))
   in r = Inr (Reject 500 CreateFailed) \<and> map ls_status (labSessions (db w)) = [ACTIVE] \<and> coreOutbox (db w) = []"
  by code_simp

section \<open>The concurrency limit\<close>

lemma active_of_terminate:
  "length (filter (\<lambda>s. ls_userId s = u \<and> ls_status s = ACTIVE)
     (update_rows P (\<lambda>s. s\<lparr>ls_status := TERMINATED, ls_endedAt := x\<rparr>) rs))
   \<le> length (filter (\<lambda>s. ls_userId s = u \<and> ls_status s = ACTIVE) rs)"
  by (induction rs) auto

lemma create_within:
  assumes "length (active_of d u) < n"
  shows "db_post (lock_and_create E u c) d (\<lambda>r d'. length (active_of d' u) \<le> n)"
proof -
  define Q where "Q = (\<lambda>(r :: exn + session_reply reply) d'. length (active_of d' u) \<le> n)"
  have "db_post (lock_and_create E u c) d Q"
    unfolding lock_and_create_def create_and_emit_def create_session_tx_def insert_session_def file_event_def Let_def
    by (intro post_rules) (use assms in \<open>simp_all add: Q_def active_of_def\<close>)
  then show ?thesis by (simp add: Q_def)
qed

lemma check_limit_within:
  assumes "length (active_of d u) \<le> m" and "\<And>r d'. length (active_of d' u) \<le> max m (plan_limit tier) \<Longrightarrow> Q r d'"
  shows "db_post (check_limit E u tier (lock_and_create E u c)) d Q"
  unfolding check_limit_def
  by (intro post_rules db_post_conseq [OF create_within [where n = "plan_limit tier"]])
     (use assms in auto)

text \<open>C24. Starting a session, whatever fails in it, never takes a user above the number of active
  sessions that the plan allows: one, three on PRO, five on TEAM.\<close>

theorem concurrency_limit:
  "length (active_of (db (snd (start_session E u cid w))) u) \<le>
     max (length (active_of (db w) u)) (plan_limit (tier_of_user (db w) (find_user u (db w))))"
proof -
  define m where "m = length (active_of (db w) u)"
  define Q where "Q = (\<lambda>(r :: exn + session_reply reply) d'. length (active_of d' u) \<le>
     max m (plan_limit (tier_of_user (db w) (find_user u (db w)))))"
  have less: "length (active_of (d\<lparr>labSessions := update_rows P
      (\<lambda>s. s\<lparr>ls_status := TERMINATED, ls_endedAt := x\<rparr>) (labSessions d)\<rparr>) u) \<le> length (active_of d u)"
    for d P x
    by (simp add: active_of_def active_of_terminate)
  have "db_post (start_session E u cid) (db w) Q"
    unfolding start_session_def terminate_session_def
    by (intro post_rules check_limit_within [where m = m])
       (auto simp: Q_def m_def intro: max.coboundedI1 less)
  from db_post_run [OF this refl] show ?thesis by (simp add: Q_def m_def)
qed

section \<open>Who may read\<close>

definition has_solved :: "db \<Rightarrow> string \<Rightarrow> string \<Rightarrow> bool" where
  "has_solved d u cid \<longleftrightarrow>
     (\<exists>s \<in> set (labSessions d). ls_userId s = u \<and> ls_challengeId s = cid \<and> ls_status s = COMPLETED) \<or>
     has_key completion_key (u, cid) (completions d)"

definition is_privileged :: "db \<Rightarrow> string \<Rightarrow> bool" where
  "is_privileged d u \<longleftrightarrow> (\<exists>r \<in> set (users d). user_id r = u \<and> user_role r \<in> {ADMIN, CONTRIBUTOR})"

text \<open>An editorial is sent only to an administrator or contributor, or to a user with a completed
  session or a completion of the challenge, and it is the one of that challenge.\<close>

lemma editorial_locked:
  assumes "fst (get_editorial E u cid w) = Inr (Reply code (i, text, notes))"
  shows "(is_privileged (db w) u \<or> has_solved (db w) u cid) \<and>
    (\<exists>c \<in> set (challenges (db w)). ch_id c = cid \<and> i = cid \<and> ch_editorial c = Some text)"
proof -
  define Q where "Q = (\<lambda>(r :: exn + (string \<times> string \<times> string option) reply) (d' :: db).
    \<forall>code i text notes. r = Inr (Reply code (i, text, notes)) \<longrightarrow>
      (is_privileged (db w) u \<or> has_solved (db w) u cid) \<and>
      (\<exists>c \<in> set (challenges (db w)). ch_id c = cid \<and> i = cid \<and> ch_editorial c = Some text))"
  have err: "Q (Inl e) d" "Q (Inr (Reject n x)) d" for e n x d by (simp_all add: Q_def)
  have "db_post (get_editorial E u cid) (db w) Q"
    unfolding get_editorial_def Let_def
    apply (intro post_rules err)
    by (auto simp: Q_def is_privileged_def has_solved_def has_key_def truthy.simps
        find_None_iff split: option.splits dest!: find_in elim!: truthy.elims)
  from db_post_run [OF this refl] assms show ?thesis by (auto simp: Q_def)
qed

text \<open>A challenge that an organization contributed is shown only to a user of that organization;
  when the lookup of the viewer fails, it is not shown.\<close>

lemma private_challenges:
  assumes "fst (get_challenge E sub cid w) = Inr (Reply code c)"
  shows "c \<in> set (challenges (db w)) \<and> ch_id c = cid \<and> (truthy (ch_contributedByOrgId c) \<longrightarrow>
    (\<exists>r \<in> set (users (db w)). sub = Some (user_id r) \<and> user_orgId r = ch_contributedByOrgId c))"
proof -
  define Q where "Q = (\<lambda>(r :: exn + challenge reply) (d' :: db). \<forall>code c. r = Inr (Reply code c) \<longrightarrow>
    c \<in> set (challenges (db w)) \<and> ch_id c = cid \<and> (truthy (ch_contributedByOrgId c) \<longrightarrow>
    (\<exists>r \<in> set (users (db w)). sub = Some (user_id r) \<and> user_orgId r = ch_contributedByOrgId c)))"
  have err: "Q (Inl e) d" "Q (Inr (Reject n x)) d" for e n x d by (simp_all add: Q_def)
  have "db_post (get_challenge E sub cid) (db w) Q"
    unfolding get_challenge_def viewer_org_def Let_def
    apply (intro post_rules err)
    by (auto simp: Q_def dest!: find_in elim!: truthy.elims split: Option.bind_splits)
  from db_post_run [OF this refl] assms show ?thesis by (auto simp: Q_def)
qed

lemma editorial_locked_witness:
  "is_privileged example_db ''root'' \<or> has_solved example_db ''root'' ''c1''"
proof -
  have "fst (get_editorial calm_env ''root'' ''c1'' (example_world example_db)) =
      Inr (Reply 200 (''c1'', ''ed'', None))"
    by code_simp
  from editorial_locked [OF this] show ?thesis by simp
qed

lemma private_challenges_witness:
  "let d = example_db\<lparr>challenges := [(example_challenge ''c1'' 50 True)\<lparr>ch_contributedByOrgId := Some ''o''\<rparr>],
         users := [(example_user ''ann'' LEARNER)\<lparr>user_orgId := Some ''o''\<rparr>]\<rparr>
   in \<exists>r \<in> set (users d). Some ''ann'' = Some (user_id r) \<and> user_orgId r = Some ''o''"
proof -
  let ?c = "(example_challenge ''c1'' 50 True)\<lparr>ch_contributedByOrgId := Some ''o''\<rparr>"
  let ?d = "example_db\<lparr>challenges := [?c], users := [(example_user ''ann'' LEARNER)\<lparr>user_orgId := Some ''o''\<rparr>]\<rparr>"
  have "fst (get_challenge calm_env (Some ''ann'') ''c1'' (example_world ?d)) = Inr (Reply 200 ?c)"
    by code_simp
  from private_challenges [OF this] show ?thesis by (simp add: Let_def)
qed

section \<open>The circuit breaker of the probe\<close>

text \<open>The probe's circuit breaker: while it is open no probe is sent and the session counts as dead;
  otherwise a probe that answers 200 resets the failure count, any other adds one, and at three in a
  row the circuit opens for fifteen seconds from then.\<close>

lemma probe_breaker:
  "probe_session E sid w =
     (let p = probeState w; (isAlive, failures) = probe_result (consecutiveProbeFailures p)
            (probe_health E (calls w) sid); v = tick E w
      in if clock w < probeCircuitOpenUntil p then (Inr False, w)
         else (Inr isAlive, v\<lparr>probeState := \<lparr>
           probeCircuitOpenUntil = (if 3 \<le> failures then clock v + 15000 else probeCircuitOpenUntil p),
           consecutiveProbeFailures = failures\<rparr>\<rparr>))"
  by (cases "probeState w")
     (simp add: probe_session_def act_simps now_def fetch_health_def PROBE_FAILURE_THRESHOLD_def
        CIRCUIT_COOLDOWN_MS_def tick_def Let_def split: prod.split)

section \<open>The provisioning lock\<close>

text \<open>While another request holds the lock of a user and challenge, a start creates no session: it
  answers with the session that holds the lock.\<close>

lemma start_under_lock:
  assumes "redis_store (redis_api E) view" and "calm E" and "publicGatewayUrl E \<noteq> []"
    and "\<forall>t \<le> clock w + int (latency E (calls w)) + int (latency E (Suc (calls w))).
      live t (view (redis w) (session_lock u (ch_id c))) = Some sid" and "sid \<noteq> []"
  shows "\<exists>a w'. lock_and_create E u c w = (Inr (Reply 200 a), w') \<and> re_sessionId a = sid \<and> db w' = db w"
proof -
  let ?k = "session_lock u (ch_id c)" and ?t = "clock w + int (latency E (calls w))"
  obtain b r where nx: "redis_set_nx (redis_api E) ?t ?k (uuid E (fresh w)) 10 (redis w) = (b, r)"
    by fastforce
  with assms(4) redis_store.nx_law [OF assms(1), of ?t ?k "uuid E (fresh w)" 10 "redis w"]
    redis_store.nx_view_law [OF assms(1), of ?t ?k "uuid E (fresh w)" 10 "redis w"]
  have "\<not> b" and "view r = view (redis w)" by auto
  with nx assms show ?thesis
    by (auto simp: lock_and_create_def act_simps new_id_def Let_def nx_lock_10s_def redis_run_def await_def
        calm_def redis_lookup_def redis_read_def session_answer_def getGatewayUrls_def tick_def
        redis_store.get_law [OF assms(1)])
qed

lemma start_under_lock_witness:
  "\<exists>a w'. lock_and_create calm_env ''bob'' (example_challenge ''c1'' 50 True)
     ((example_world example_db)\<lparr>redis := [(''core:session:bob:c1'', (''s9'', Some 9000))]\<rparr>) = (Inr (Reply 200 a), w')
     \<and> re_sessionId a = ''s9'' \<and> db w' = example_db"
proof -
  let ?w = "(example_world example_db)\<lparr>redis := [(''core:session:bob:c1'', (''s9'', Some 9000))]\<rparr>"
  have "redis_store (redis_api calm_env) map_of" by (simp add: alist_redis.redis_store_axioms)
  moreover have "publicGatewayUrl calm_env \<noteq> []" by (simp add: calm_env_def)
  ultimately show ?thesis
    using start_under_lock [of calm_env map_of ?w "''bob''" "example_challenge ''c1'' 50 True" "''s9''"]
    by (simp add: session_lock_def example_challenge_def)
qed

section \<open>The quota of guest trials\<close>

definition quota_left :: "('r \<Rightarrow> string \<Rightarrow> entry option) \<Rightarrow> int \<Rightarrow> string \<Rightarrow> string \<Rightarrow> 'r \<Rightarrow> bool" where
  "quota_left view t guestId ip r \<longleftrightarrow>
     \<not> truthy (live t (view r (trial_used_key guestId))) \<and>
     (\<exists>t' \<ge> t. counter_of t' (view r (trial_ip_key ip)) < 2)"

lemma clock_after: "w' = tick E w \<Longrightarrow> clock w \<le> clock w'"
  by simp

text \<open>A guest trial is answered with a session only if, when the request came to it, the guest had
  no used mark in Redis and the address had made fewer than two attempts in its window.\<close>

lemma trial_quota:
  assumes "redis_store (redis_api E) view"
    and "admit_trial E guestId ip c w = (Inr (Reply code a), w')"
  shows "\<exists>t \<ge> clock w. quota_left view t guestId ip (redis w)"
proof -
  from assms(2) obtain used v where used: "redis_lookup E (trial_used_key guestId) w = (Inr used, v)"
    and rest: "(if truthy used then ret (Reject 403 TrialAlreadyUsed) else
       let ipKey = trial_ip_key ip in
       bnd (redis_run E (\<lambda>t. redis_incr (redis_api E) t ipKey)) (\<lambda>ipAttempts.
       sq (when_act (ipAttempts = 1) (redis_write E (\<lambda>t. redis_expire (redis_api E) t ipKey 3600))) (
       if ipAttempts > 2 then ret (Reject 429 RateLimitExceeded)
       else
         bnd (new_id E) (\<lambda>sessionId.
         let guestUserId = ''guest_'' @ guestId; lockKey = session_lock guestUserId (ch_id c) in
         sq (run_db E (upsert_guest guestUserId)) (
         bnd (nx_lock_10s E lockKey sessionId) (\<lambda>acquired.
         bnd (if acquired then ret None else redis_lookup E lockKey) (\<lambda>cached.
         if truthy cached then session_answer E 200 (the cached) c (trial_ttl E) True None
         else launch_trial E guestId lockKey sessionId c))))))) v = (Inr (Reply code a), w')"
    unfolding admit_trial_def by (rule bnd_InrE) blast
  from redis_lookup_Inr [OF used] have v: "v = tick E w"
    "used = live (clock v) (view (redis w) (trial_used_key guestId))"
    by (simp_all add: redis_store.get_law [OF assms(1)])
  have not_used: "\<not> truthy used" using rest by (auto simp: ret_def split: if_splits)
  with rest obtain n u where incr: "redis_run E (\<lambda>t. redis_incr (redis_api E) t (trial_ip_key ip)) v = (Inr n, u)"
    and small: "\<not> 2 < n"
    by (auto simp: Let_def ret_def elim!: bnd_InrE sq_InrE split: if_splits)
  from redis_run_Inr [OF incr] v
  have "n = counter_of (clock (tick E v)) (view (redis w) (trial_ip_key ip)) + 1"
    by (simp add: redis_store.incr_law [OF assms(1)])
  with not_used v small have "quota_left view (clock v) guestId ip (redis w)"
    unfolding quota_left_def by (intro conjI exI [of _ "clock (tick E v)"]) auto
  moreover have "clock w \<le> clock v" using v by simp
  ultimately show ?thesis by blast
qed

lemma trial_quota_witness:
  "\<exists>t \<ge> 1000. quota_left map_of t ''g'' ''1.2.3.4'' ([] :: alist_redis)"
proof -
  let ?m = "admit_trial calm_env ''g'' ''1.2.3.4'' (example_challenge ''c1'' 50 True)"
  have "case fst (?m (example_world example_db)) of Inr (Reply n a) \<Rightarrow> True | _ \<Rightarrow> False"
    by code_simp
  then obtain code a w' where "?m (example_world example_db) = (Inr (Reply code a), w')"
    by (cases "?m (example_world example_db)") (auto split: sum.splits reply.splits)
  moreover have "redis_store (redis_api calm_env) map_of" by (simp add: alist_redis.redis_store_axioms)
  ultimately show ?thesis using trial_quota [of calm_env map_of "''g''"] by fastforce
qed

section \<open>Ending sessions\<close>

definition terminated_row :: "int \<Rightarrow> lab_session \<Rightarrow> lab_session" where
  "terminated_row t s = s\<lparr>ls_status := TERMINATED, ls_endedAt := Some t\<rparr>"

definition event_filed :: "payload \<Rightarrow> db \<Rightarrow> bool" where
  "event_filed p d \<longleftrightarrow> (\<exists>e \<in> set (coreOutbox d). ob_payload e = p)"

lemma event_filed_simps [simp]:
  "event_filed p (mark_processed ty q d) = event_filed p d"
  "event_filed p (d\<lparr>labSessions := ls, coreOutbox := es @ [new_outbox_event i ty p t]\<rparr>)"
  by (auto simp: event_filed_def mark_processed_def bex_update_rows new_outbox_event_def)

text \<open>When the database answers, \<open>DELETE /session/:id\<close> ends the session with that id if it is
  active, whoever asks for it, files its event in the same transaction and leaves every other session
  alone, even if the brokers are down.\<close>

lemma delete_session_ends:
  assumes "calm E"
  shows "\<exists>t. labSessions (db (snd (delete_session E u sid w))) =
      update_rows (\<lambda>s. ls_id s = sid \<and> ls_status s = ACTIVE) (terminated_row t) (labSessions (db w)) \<and>
    event_filed (SessionEnded sid EndTerminated) (db (snd (delete_session E u sid w)))"
proof -
  define Q where "Q = (\<lambda>(r :: exn + unit reply) d'. \<exists>t. labSessions d' =
      update_rows (\<lambda>s. ls_id s = sid \<and> ls_status s = ACTIVE) (terminated_row t) (labSessions (db w)) \<and>
    event_filed (SessionEnded sid EndTerminated) d')"
  have "db_post (delete_session E u sid) (db w) Q"
    unfolding delete_session_def end_session_def end_session_tx_def end_session_row_def file_event_def Let_def
    by (intro calm_rules assms post_emit_inline)
       (auto simp: Q_def terminated_row_def [abs_def])
  from db_post_run [OF this refl] show ?thesis by (simp add: Q_def)
qed

text \<open>A user ends the session of another one.\<close>

lemma delete_session_ends_witness:
  "\<exists>t. labSessions (db (snd (delete_session calm_env ''bob'' ''s1'' (example_world example_db)))) =
     [terminated_row t (example_session ''s1'' ''ann'' ''c1'' ACTIVE)]"
  using delete_session_ends [of calm_env "''bob''" "''s1''" "example_world example_db"]
  by (simp add: example_db_def example_session_def)

lemma end_session_calm:
  assumes "calm E"
  shows "db_post (end_session E sid) d (\<lambda>r d'. r = Inr () \<and> (\<exists>t. labSessions d' =
      update_rows (\<lambda>s. ls_id s = sid \<and> ls_status s = ACTIVE) (terminated_row t) (labSessions d)) \<and>
    event_filed (SessionEnded sid EndTerminated) d' \<and> (\<forall>p. event_filed p d \<longrightarrow> event_filed p d'))"
proof -
  have more: "event_filed p (d\<lparr>labSessions := ls, coreOutbox := coreOutbox d @ es\<rparr>)"
    if "event_filed p d" for p d ls es
    using that by (auto simp: event_filed_def)
  show ?thesis
    unfolding end_session_def end_session_tx_def end_session_row_def file_event_def Let_def
    by (intro calm_rules assms post_emit_inline)
       (auto simp: terminated_row_def [abs_def] intro: more)
qed

lemma update_none:
  "(\<And>r. r \<in> set rs \<Longrightarrow> \<not> P r) \<Longrightarrow> update_rows P f rs = rs"
  by (induction rs) auto

lemma end_all_calm:
  assumes "calm E"
  shows "db_post (for_each ss (\<lambda>s. end_session E (ls_id s))) d (\<lambda>r d'. r = Inr () \<and>
    (\<forall>s' \<in> set (labSessions d'). ls_status s' = ACTIVE \<longrightarrow> s' \<in> set (labSessions d) \<and> ls_id s' \<notin> ls_id ` set ss) \<and>
    (\<forall>s \<in> set ss. event_filed (SessionEnded (ls_id s) EndTerminated) d') \<and>
    (\<forall>p. event_filed p d \<longrightarrow> event_filed p d'))"
proof (induction ss arbitrary: d)
  case (Cons s ss)
  show ?case
    unfolding for_each.simps
  proof (rule post_sq_conseq [OF end_session_calm [OF assms]])
    fix a d1
    assume "Inr a = Inr () \<and> (\<exists>t. labSessions d1 =
        update_rows (\<lambda>x. ls_id x = ls_id s \<and> ls_status x = ACTIVE) (terminated_row t) (labSessions d)) \<and>
      event_filed (SessionEnded (ls_id s) EndTerminated) d1 \<and> (\<forall>p. event_filed p d \<longrightarrow> event_filed p d1)"
    then have one: "\<forall>x \<in> set (labSessions d1). ls_status x = ACTIVE \<longrightarrow> x \<in> set (labSessions d) \<and> ls_id x \<noteq> ls_id s"
      and filed: "event_filed (SessionEnded (ls_id s) EndTerminated) d1" "\<forall>p. event_filed p d \<longrightarrow> event_filed p d1"
      by (auto simp: set_update_rows terminated_row_def split: if_splits)
    show "db_post (for_each ss (\<lambda>s. end_session E (ls_id s))) d1 (\<lambda>r d'. r = Inr () \<and>
      (\<forall>s' \<in> set (labSessions d'). ls_status s' = ACTIVE \<longrightarrow> s' \<in> set (labSessions d) \<and> ls_id s' \<notin> ls_id ` set (s # ss)) \<and>
      (\<forall>s \<in> set (s # ss). event_filed (SessionEnded (ls_id s) EndTerminated) d') \<and>
      (\<forall>p. event_filed p d \<longrightarrow> event_filed p d'))"
      by (rule db_post_conseq [OF Cons.IH]) (use one filed in auto)
  qed auto
qed (simp add: post_ret)

text \<open>When the database answers, ending all of a user's sessions leaves the user no active session,
  files an event for each that was active, and reports their number.\<close>

lemma delete_active_ends_all:
  assumes "calm E"
  shows "let (r, w') = delete_active E u w in
    r = Inr (Reply 200 (length (active_of (db w) u))) \<and> active_of (db w') u = [] \<and>
    (\<forall>s \<in> set (active_of (db w) u). event_filed (SessionEnded (ls_id s) EndTerminated) (db w'))"
proof -
  define Q where "Q = (\<lambda>(r :: exn + nat reply) d'. r = Inr (Reply 200 (length (active_of (db w) u))) \<and>
    active_of d' u = [] \<and>
    (\<forall>s \<in> set (active_of (db w) u). event_filed (SessionEnded (ls_id s) EndTerminated) d'))"
  have "db_post (delete_active E u) (db w) Q"
    unfolding delete_active_def
    by (intro post_bnd calm_query [OF assms] passing_simps, rule post_sq_conseq [OF end_all_calm [OF assms]])
       (auto simp: Q_def active_of_def filter_empty_conv intro!: post_ret)
  from db_post_run [OF this refl] show ?thesis by (auto simp: Q_def Let_def split: prod.split)
qed

lemma delete_active_ends_all_witness:
  "active_of (db (snd (delete_active calm_env ''ann'' (example_world example_db)))) ''ann'' = []"
  using delete_active_ends_all [of calm_env "''ann''" "example_world example_db"] by (simp add: Let_def split: prod.splits)

end
