(* ===== verification/Outbox.thy ===== *)
theory Outbox
  imports Sessions Progress
begin

text \<open>
  The transactional outboxes: services/core/src/plugins/outbox-poller.ts and
  services/auth/src/plugins/outbox.ts, which deliver what a request could not, and the session
  reaper of services/core/src/plugins/session-reaper.ts, which ends expired sessions.
\<close>

section \<open>The poller of the core service\<close>

definition BATCH_SIZE :: nat where "BATCH_SIZE = 10"
definition MAX_BACKOFF_MS :: int where "MAX_BACKOFF_MS = 60000"

definition pending :: "outbox_event list \<Rightarrow> outbox_event list" where
  "pending es = sort_key ob_createdAt (filter (\<lambda>e. \<not> ob_processed e \<and> \<not> ob_failed e) es)"

definition is_started :: "outbox_event \<Rightarrow> bool" where
  "is_started e \<longleftrightarrow> ob_eventType e = ''SessionStartedEvent'' \<or> ob_eventType e = ''session.started''"

definition is_ended :: "outbox_event \<Rightarrow> bool" where
  "is_ended e \<longleftrightarrow> ob_eventType e = ''SessionEndedEvent'' \<or> ob_eventType e = ''session.ended''"

definition provider_of :: "payload \<Rightarrow> string" where
  "provider_of p = (case p of SessionStarted _ _ _ _ _ prov \<Rightarrow> js_or prov ''docker'' | _ \<Rightarrow> ''docker'')"

definition deliver_event :: "'r env \<Rightarrow> outbox_event \<Rightarrow> ('r world, unit) act" where
  "deliver_event E e =
     (if is_started e then
        sq (kafka_emit_within E 5000 ''sandbox.session.started'' (ob_payload e))
          (rabbit_publish_within E 5000 (provider_queue (provider_of (ob_payload e))) (ob_payload e))
      else if is_ended e then
        sq (kafka_emit_within E 5000 ''sandbox.session.ended'' (ob_payload e))
          (rabbit_publish_within E 5000 TERMINATE_SANDBOX (ob_payload e))
      else ret ())"

definition update_event ::
  "string \<Rightarrow> (outbox_event \<Rightarrow> outbox_event) \<Rightarrow> db \<Rightarrow> (exn + unit) \<times> db" where
  "update_event i f d = guarded [(RecordNotFound, \<not> has_key ob_id i (coreOutbox d))]
     (d\<lparr>coreOutbox := update_rows (\<lambda>e. ob_id e = i) f (coreOutbox d)\<rparr>) d"

definition reset_breaker :: "breaker \<Rightarrow> breaker" where
  "reset_breaker b = b\<lparr>consecutiveFailures := 0, backoffMs := 5000\<rparr>"

definition trip_breaker :: "int \<Rightarrow> breaker \<Rightarrow> breaker" where
  "trip_breaker t b = b\<lparr>circuitOpenUntil := t + backoffMs b,
     backoffMs := min (backoffMs b * 2) MAX_BACKOFF_MS\<rparr>"

definition set_retry :: "nat \<Rightarrow> outbox_event \<Rightarrow> outbox_event" where
  "set_retry n e = e\<lparr>ob_retryCount := n, ob_failed := (n \<ge> 5)\<rparr>"

text \<open>One event; the answer is whether the loop stops.\<close>

definition poll_event :: "'r env \<Rightarrow> outbox_event \<Rightarrow> ('r world, bool) act" where
  "poll_event E e =
     bnd (catch
           (sq (deliver_event E e)
            (sq (run_db E (update_event (ob_id e) (\<lambda>e. e\<lparr>ob_processed := True\<rparr>)))
             (sq (change (\<lambda>w. w\<lparr>coreBreaker := reset_breaker (coreBreaker w)\<rparr>)) (ret True))))
           (\<lambda>_. ret False)) (\<lambda>delivered.
     if delivered then ret False
     else
       sq (change (\<lambda>w. w\<lparr>coreBreaker := (coreBreaker w)
             \<lparr>consecutiveFailures := consecutiveFailures (coreBreaker w) + 1\<rparr>\<rparr>)) (
       sq (run_db E (update_event (ob_id e) (set_retry (ob_retryCount e + 1)))) (
       bnd (look coreBreaker) (\<lambda>b.
       if consecutiveFailures b \<ge> 3 then
         bnd now (\<lambda>t. sq (change (\<lambda>w. w\<lparr>coreBreaker := trip_breaker t (coreBreaker w)\<rparr>)) (ret True))
       else ret False))))"

primrec poll_events :: "'r env \<Rightarrow> outbox_event list \<Rightarrow> ('r world, unit) act" where
  "poll_events E [] = ret ()"
| "poll_events E (e # es) =
     bnd (poll_event E e) (\<lambda>stop. if stop then ret () else poll_events E es)"

definition poll :: "'r env \<Rightarrow> ('r world, unit) act" where
  "poll E =
     bnd now (\<lambda>t.
     bnd (look coreBreaker) (\<lambda>b.
     if t < circuitOpenUntil b then ret ()
     else
       bnd (look producerReady) (\<lambda>ready.
       if \<not> ready then ret ()
       else
         bnd (query E (\<lambda>d. take BATCH_SIZE (pending (coreOutbox d)))) (\<lambda>events.
         poll_events E events))))"

section \<open>The outbox of the auth service\<close>

definition known_auth_event :: "outbox_event \<Rightarrow> bool" where
  "known_auth_event e \<longleftrightarrow> ob_eventType e \<in> {''UserRegisteredEvent'', ''EmailVerificationRequestedEvent'',
     ''PasswordResetRequestedEvent'', ''UserDeletedEvent''}"

definition auth_topic :: "string \<Rightarrow> string" where
  "auth_topic ty =
     (if ty = ''UserRegisteredEvent'' then ''identity.user.registered''
      else if ty = ''EmailVerificationRequestedEvent'' then ''identity.email.verification''
      else if ty = ''PasswordResetRequestedEvent'' then ''identity.password.reset''
      else ''identity.user.deleted'')"

definition update_auth_event ::
  "string \<Rightarrow> (outbox_event \<Rightarrow> outbox_event) \<Rightarrow> db \<Rightarrow> (exn + unit) \<times> db" where
  "update_auth_event i f d = guarded [(RecordNotFound, \<not> has_key ob_id i (authOutbox d))]
     (d\<lparr>authOutbox := update_rows (\<lambda>e. ob_id e = i) f (authOutbox d)\<rparr>) d"

text \<open>The loop of \<open>processOutbox\<close>: an unknown type is skipped, a failure ends the cycle.\<close>

primrec process_events :: "'r env \<Rightarrow> outbox_event list \<Rightarrow> ('r world, unit) act" where
  "process_events E [] = ret ()"
| "process_events E (e # es) =
     (if \<not> known_auth_event e then process_events E es
      else
        bnd (catch
              (sq (kafka_emit_within E 5000 (auth_topic (ob_eventType e)) (ob_payload e))
               (sq (run_db E (update_auth_event (ob_id e) (\<lambda>e. e\<lparr>ob_processed := True\<rparr>)))
                (sq (change (\<lambda>w. w\<lparr>authBreaker := reset_breaker (authBreaker w)\<rparr>)) (ret True))))
              (\<lambda>_. ret False)) (\<lambda>delivered.
        if delivered then process_events E es
        else
          sq (change (\<lambda>w. w\<lparr>authBreaker := (authBreaker w)
                \<lparr>consecutiveFailures := consecutiveFailures (authBreaker w) + 1\<rparr>\<rparr>)) (
          sq (run_db E (update_auth_event (ob_id e) (set_retry (ob_retryCount e + 1)))) (
          bnd (look authBreaker) (\<lambda>b.
          when_act (consecutiveFailures b \<ge> 3)
            (bnd now (\<lambda>t. change (\<lambda>w. w\<lparr>authBreaker := trip_breaker t (authBreaker w)\<rparr>))))))))"

definition processOutbox :: "'r env \<Rightarrow> ('r world, unit) act" where
  "processOutbox E =
     bnd now (\<lambda>t.
     bnd (look authBreaker) (\<lambda>b.
     if t < circuitOpenUntil b then ret ()
     else
       bnd (look producerReady) (\<lambda>ready.
       if \<not> ready then ret ()
       else
         catch
           (bnd (query E (\<lambda>d. take BATCH_SIZE (pending (authOutbox d)))) (\<lambda>events. process_events E events))
           (\<lambda>_. ret ()))))"

section \<open>The session reaper\<close>

definition LEADER_LOCK_KEY :: string where "LEADER_LOCK_KEY = ''core:reaper:leader''"
definition LEADER_LOCK_TTL_SECONDS :: int where "LEADER_LOCK_TTL_SECONDS = 90"

definition is_expired :: "'r env \<Rightarrow> int \<Rightarrow> lab_session \<Rightarrow> bool" where
  "is_expired E t s \<longleftrightarrow> ls_status s = ACTIVE \<and>
     (if is_guest (ls_userId s) then ls_startedAt s < t - trial_ttl E * 60000
      else ls_startedAt s < t - sessionTTLMins E * 60000)"

definition reap_tx :: "'r env \<Rightarrow> string \<Rightarrow> payload \<Rightarrow> ('r world, string) act" where
  "reap_tx E sid p = bnd now (\<lambda>t.
     batch E (\<lambda>t' d. terminate_session sid t d) (file_event E ''SessionEndedEvent'' p))"

definition reap_session :: "'r env \<Rightarrow> lab_session \<Rightarrow> ('r world, unit) act" where
  "reap_session E s =
     (let p = SessionEnded (ls_id s) EndExpired in
      catch
        (bnd (reap_tx E (ls_id s) p) (\<lambda>createdId.
         sq (kafka_emit E p) (
         sq (rabbit_publish E TERMINATE_SANDBOX p)
         (when_act (createdId \<noteq> [])
           (run_db E (update_event createdId (\<lambda>e. e\<lparr>ob_processed := True\<rparr>)))))))
        (\<lambda>_. ret ()))"

definition reap :: "'r env \<Rightarrow> string \<Rightarrow> ('r world, unit) act" where
  "reap E INSTANCE_ID =
     bnd (redis_run E (\<lambda>t r. redis_set_nx (redis_api E) t LEADER_LOCK_KEY INSTANCE_ID
        LEADER_LOCK_TTL_SECONDS r)) (\<lambda>acquired.
     if \<not> acquired then ret ()
     else
       bnd now (\<lambda>t.
       bnd (query E (\<lambda>d. take 50 (filter (is_expired E t) (labSessions d)))) (\<lambda>expiredSessions.
       for_each expiredSessions (reap_session E))))"

section \<open>A processed event is a published one\<close>

text \<open>Invariants of the database together with what the brokers were given.\<close>

definition mail_inv ::
  "(db \<Rightarrow> (string \<times> payload) set \<Rightarrow> (string \<times> payload) set \<Rightarrow> bool) \<Rightarrow> 'r world \<Rightarrow> bool" where
  "mail_inv J w \<longleftrightarrow> J (db w) (set (kafka w)) (set (rabbit w))"

interpretation mail: world_order "keeping (mail_inv J)" for J
  by unfold_locales (auto simp: keeping_def mail_inv_def)

abbreviation keeps :: "(db \<Rightarrow> (string \<times> payload) set \<Rightarrow> (string \<times> payload) set \<Rightarrow> bool) \<Rightarrow>
    ('r world, 'a) act \<Rightarrow> bool" where
  "keeps J m \<equiv> moves (keeping (mail_inv J)) m"

lemma mail_await:
  "(\<And>w. mail_inv J w \<Longrightarrow> mail_inv J (snd (f w))) \<Longrightarrow> keeps J (await E f)"
  by (rule mail.moves_await) (simp add: keeping_def)

lemma mail_await_within:
  "(\<And>w. mail_inv J w \<Longrightarrow> mail_inv J (snd (f w))) \<Longrightarrow> keeps J (await_within E ms f)"
  by (rule mail.moves_await_within) (simp add: keeping_def)

lemma mail_run_db:
  "(\<And>d k r. J d k r \<Longrightarrow> J (snd (f d)) k r) \<Longrightarrow> keeps J (run_db E f)"
  unfolding run_db_def by (rule mail_await) (auto simp: mail_inv_def split: prod.split, metis snd_conv)

lemma mail_run_db_at:
  "(\<And>t d k r. J d k r \<Longrightarrow> J (snd (f t d)) k r) \<Longrightarrow> keeps J (run_db_at E f)"
  unfolding run_db_at_def by (rule mail_await) (auto simp: mail_inv_def split: prod.split, metis snd_conv)

lemma mail_settled: "keeps J m \<Longrightarrow> keeps J (settled m)"
  by (simp add: moves_def settled_def case_prod_beta)

lemma mail_batch:
  assumes "\<And>t d k r. J d k r \<Longrightarrow> J (snd (f t d)) k r" and "\<And>t d k r. J d k r \<Longrightarrow> J (snd (g t d)) k r"
  shows "keeps J (batch E f g)"
proof -
  have "J (snd (both f g t d)) k r" if "J d k r" for t d k r
    using assms(1) [OF that, of t] assms(2) [of "snd (f t d)" k r t] that
    by (auto simp: both_def split: prod.split sum.split)
  then show ?thesis
    unfolding batch_def using assms
    by (auto intro!: mail_run_db_at mail_settled keeping.moves_basic split: sum.split)
qed

lemma mail_query: "keeps J (query E f)"
  unfolding query_def by (rule mail_run_db) simp

lemma mail_redis:
  "keeps J (redis_read E f1)" "keeps J (redis_write E f2)" "keeps J (redis_run E f3)"
  unfolding redis_read_def redis_write_def redis_run_def
  by (rule mail_await, simp add: mail_inv_def split: prod.split)+

lemma mail_change: "(\<And>w. mail_inv J w \<Longrightarrow> mail_inv J (f w)) \<Longrightarrow> keeps J (change f)"
  by (rule keeping.moves_change) (simp add: keeping_def)

lemma mail_query_bnd:
  assumes "\<And>d k r. J d k r \<Longrightarrow> keeps J (g (f d))"
  shows "keeps J (bnd (query E f) g)"
proof (rule movesI)
  fix w :: "'a world"
  show "keeping (mail_inv J) w (snd (bnd (query E f) g w))"
    using assms [of "db w" "set (kafka w)" "set (rabbit w)"]
    by (auto simp: bnd_def query_def run_db_def await_def Let_def keeping_def mail_inv_def moves_def
        split: outcome.split)
qed

lemmas mail_moves = keeping.moves_basic mail.moves_now mail.moves_new_id mail_query_bnd mail_query mail_redis
  moves_rules

text \<open>
  The types of events that the service files: sessions started and ended, and two of organizations, for which
  the poller has no destination.
\<close>

definition started_types :: "string set" where
  "started_types = {''SessionStartedEvent'', ''session.started''}"

definition ended_types :: "string set" where
  "ended_types = {''SessionEndedEvent'', ''session.ended''}"

definition org_types :: "string set" where
  "org_types = {''org.invite.sent'', ''org.member.joined''}"

lemmas event_types = started_types_def ended_types_def org_types_def

text \<open>The message an event stands for was handed over: to its topic and to its queue.\<close>

definition sent :: "string \<Rightarrow> payload \<Rightarrow> (string \<times> payload) set \<Rightarrow> (string \<times> payload) set \<Rightarrow> bool" where
  "sent ty p k r \<longleftrightarrow>
     ty \<in> started_types \<and> (''sandbox.session.started'', p) \<in> k \<and> (provider_queue (provider_of p), p) \<in> r \<or>
     ty \<in> ended_types \<and> (''sandbox.session.ended'', p) \<in> k \<and> (TERMINATE_SANDBOX, p) \<in> r"

text \<open>Every processed event was sent, unless it is one of an organization; events have known types.\<close>

definition published ::
  "db \<Rightarrow> (string \<times> payload) set \<Rightarrow> (string \<times> payload) set \<Rightarrow> bool" where
  "published d k r \<longleftrightarrow> unique_by ob_id (coreOutbox d) \<and>
     (\<forall>e \<in> set (coreOutbox d). ob_eventType e \<in> started_types \<union> ended_types \<union> org_types \<and>
       (ob_processed e \<longrightarrow> sent (ob_eventType e) (ob_payload e) k r \<or> ob_eventType e \<in> org_types))"

definition providers_named :: "db \<Rightarrow> bool" where
  "providers_named d \<longleftrightarrow> (\<forall>c \<in> set (challenges d). ch_requiredProvider c \<noteq> [])"

definition outbox_ok ::
  "db \<Rightarrow> (string \<times> payload) set \<Rightarrow> (string \<times> payload) set \<Rightarrow> bool" where
  "outbox_ok d k r \<longleftrightarrow> providers_named d \<and> published d k r"

lemmas outbox_ok_defs = outbox_ok_def providers_named_def published_def

lemma started_or_ended: "is_started e \<longleftrightarrow> ob_eventType e \<in> started_types" "is_ended e \<longleftrightarrow> ob_eventType e \<in> ended_types"
  by (simp_all add: is_started_def is_ended_def event_types)

lemma sent_mono:
  assumes "sent ty p k r" and "k \<subseteq> k'" and "r \<subseteq> r'"
  shows "sent ty p k' r'"
proof -
  have "x \<in> k \<Longrightarrow> x \<in> k'" "x \<in> r \<Longrightarrow> x \<in> r'" for x using assms(2,3) by blast+
  with assms(1) show ?thesis unfolding sent_def by blast
qed

lemma outbox_ok_mono: "outbox_ok d k r \<Longrightarrow> k \<subseteq> k' \<Longrightarrow> r \<subseteq> r' \<Longrightarrow> outbox_ok d k' r'"
  unfolding outbox_ok_defs by (meson sent_mono)

lemma outbox_ok_quiet:
  "challenges d' = challenges d \<Longrightarrow> coreOutbox d' = coreOutbox d \<Longrightarrow> outbox_ok d' k r = outbox_ok d k r"
  by (simp add: outbox_ok_defs)

lemma outbox_ok_sessions [simp]: "outbox_ok (d\<lparr>labSessions := ls\<rparr>) k r = outbox_ok d k r"
  by (simp add: outbox_ok_defs)

lemma outbox_ok_mark:
  "outbox_ok d k r \<Longrightarrow> sent ty p k r \<Longrightarrow> outbox_ok (mark_processed ty p d) k r"
  by (auto simp: outbox_ok_defs mark_processed_def ball_update_rows unique_by_update)

lemma outbox_ok_new:
  assumes "outbox_ok d k r" and "cuid E (map ob_id (coreOutbox d)) \<notin> set (map ob_id (coreOutbox d))"
    and "ty \<in> started_types \<union> ended_types" and "challenges d' = challenges d"
    and "coreOutbox d' = coreOutbox d @ [new_outbox_event (cuid E (map ob_id (coreOutbox d))) ty p t]"
  shows "outbox_ok d' k r"
proof -
  have "\<not> has_key ob_id (cuid E (map ob_id (coreOutbox d))) (coreOutbox d)"
    using assms(2) by (auto simp: has_key_def image_iff)
  with assms show ?thesis by (auto simp: outbox_ok_defs new_outbox_event_def)
qed

lemma emit_inline_ok:
  assumes "topic_of p = t" and "\<And>k r. (t, p) \<in> k \<Longrightarrow> (q, p) \<in> r \<Longrightarrow> sent ty p k r"
  shows "keeps outbox_ok (emit_inline E ty q p)"
proof (rule movesI)
  fix w :: "'a world"
  have "outbox_ok (db w) (set (kafka w)) (set (rabbit w)) \<Longrightarrow> mail_inv outbox_ok (snd (emit_inline E ty q p w))"
    using assms
    by (auto simp: emit_inline_def act_simps kafka_emit_def rabbit_publish_def kafka_send_def
        rabbit_send_def await_def Let_def write_db_def run_db_def mail_inv_def
        split: outcome.split intro!: outbox_ok_mark intro: outbox_ok_mono)
  then show "keeping (mail_inv outbox_ok) w (snd (emit_inline E ty q p w))"
    by (simp add: keeping_def mail_inv_def)
qed

lemma fresh_cuid: "cuid_fresh E \<Longrightarrow> cuid E ks \<notin> set ks"
  by (simp add: cuid_fresh_def)

lemma answer_keeps: "keeps J (session_answer E code sid c ttl g token)"
  unfolding session_answer_def getGatewayUrls_def by (intro mail_moves)

lemma probe_keeps: "keeps J (probe_session E sid)"
  unfolding probe_session_def fetch_health_def
  by (intro mail_moves mail_change) (auto simp: mail_inv_def moves_def keeping_def split: prod.split)

lemma quiet_run_db:
  "(\<And>d. challenges (snd (f d)) = challenges d \<and> coreOutbox (snd (f d)) = coreOutbox d) \<Longrightarrow>
   keeps outbox_ok (run_db E f)"
  by (rule mail_run_db) (metis outbox_ok_quiet)

lemma file_event_keeps:
  "cuid_fresh E \<Longrightarrow> ty \<in> started_types \<union> ended_types \<Longrightarrow> outbox_ok d k r \<Longrightarrow>
   outbox_ok (snd (file_event E ty p t d)) k r"
  by (rule outbox_ok_new [OF _ fresh_cuid]) (simp_all add: file_event_def next_event_id_def)

lemma create_tx_keeps: "cuid_fresh E \<Longrightarrow> keeps outbox_ok (create_session_tx E sid u cid p)"
  unfolding create_session_tx_def insert_session_def
  by (rule mail_batch) (auto intro: file_event_keeps simp: event_types)

lemma end_tx_keeps: "cuid_fresh E \<Longrightarrow> keeps outbox_ok (end_session_tx E sid p)"
  unfolding end_session_tx_def end_session_row_def
  by (intro mail_moves mail_batch) (auto intro: file_event_keeps simp: event_types)

lemma started_sent:
  assumes "prov \<noteq> []"
  shows "keeps outbox_ok (emit_inline E ''SessionStartedEvent'' (provider_queue prov)
     (SessionStarted sid u cid img ttl (Some (js_or (Some prov) ''docker''))))"
  by (rule emit_inline_ok) (use assms in \<open>auto simp: sent_def event_types provider_of_def\<close>)

lemma ended_sent:
  "keeps outbox_ok (emit_inline E ''SessionEndedEvent'' TERMINATE_SANDBOX (SessionEnded sid why))"
  by (rule emit_inline_ok) (auto simp: sent_def event_types)

lemma start_keeps:
  assumes "cuid_fresh E"
  shows "keeps outbox_ok (start_session E u cid)"
proof -
  have create: "keeps outbox_ok (check_limit E u tier (lock_and_create E u c))"
    if "ch_requiredProvider c \<noteq> []" for c tier
    unfolding check_limit_def lock_and_create_def create_and_emit_def Let_def nx_lock_10s_def
      redis_call_defs
    by (intro mail_moves answer_keeps create_tx_keeps assms started_sent that)
  show ?thesis
    unfolding start_session_def terminate_session_def
    by (intro mail_moves answer_keeps probe_keeps create quiet_run_db)
       (auto simp: outbox_ok_defs dest: find_in)
qed

lemma js_or_idem: "js_or (Some (js_or x ''docker'')) ''docker'' = js_or x ''docker''"
  by (cases x) auto

lemma launch_keeps:
  assumes "cuid_fresh E"
  shows "keeps outbox_ok (launch_trial E g k sid c)"
proof -
  have sent: "keeps outbox_ok (emit_inline E ''SessionStartedEvent''
      (provider_queue (js_or (Some (ch_requiredProvider c)) ''docker''))
      (SessionStarted sid u cid img ttl (Some (js_or (Some (ch_requiredProvider c)) ''docker''))))"
    for u cid img ttl
    using started_sent [where E = E and prov = "js_or (Some (ch_requiredProvider c)) ''docker''" and sid = sid
      and u = u and cid = cid and img = img and ttl = ttl]
    by (cases "ch_requiredProvider c = []") simp_all
  show ?thesis
    unfolding launch_trial_def Let_def redis_call_defs
    by (intro mail_moves answer_keeps create_tx_keeps assms sent)
       (auto simp: moves_def keeping_def mail_inv_def)
qed

lemma trial_keeps: "cuid_fresh E \<Longrightarrow> keeps outbox_ok (start_trial E g ip cid)"
  unfolding start_trial_def admit_trial_def Let_def nx_lock_10s_def redis_call_defs upsert_guest_def
  by (intro mail_moves answer_keeps launch_keeps quiet_run_db; simp)

lemma end_keeps: "cuid_fresh E \<Longrightarrow> keeps outbox_ok (end_session E sid)"
  unfolding end_session_def Let_def by (intro mail_moves end_tx_keeps ended_sent)

lemma serve_keeps:
  assumes "cuid_fresh E"
  shows "keeping (mail_inv outbox_ok) w (serve E rq w)"
proof -
  note parts = start_keeps [OF assms] trial_keeps [OF assms] end_keeps [OF assms]
  have "keeps outbox_ok (delete_active E u)" "keeps outbox_ok (delete_session E u sid)" for u sid
    unfolding delete_active_def delete_session_def by (intro mail_moves parts)+
  with parts show ?thesis by (cases rq) (simp_all add: moves_def)
qed

text \<open>The poller marks an event only after its own message went out.\<close>

definition same_events :: "outbox_event list \<Rightarrow> db \<Rightarrow> bool" where
  "same_events es d \<longleftrightarrow> (\<forall>e \<in> set es. \<forall>x \<in> set (coreOutbox d). ob_id x = ob_id e \<longrightarrow>
     ob_eventType x = ob_eventType e \<and> ob_payload x = ob_payload e)"

definition polling ::
  "outbox_event list \<Rightarrow> db \<Rightarrow> (string \<times> payload) set \<Rightarrow> (string \<times> payload) set \<Rightarrow> bool" where
  "polling es d k r \<longleftrightarrow> outbox_ok d k r \<and> same_events es d"

lemma same_events_update:
  "same_events es d \<Longrightarrow> (\<And>e. ob_id (f e) = ob_id e \<and> ob_eventType (f e) = ob_eventType e \<and>
     ob_payload (f e) = ob_payload e) \<Longrightarrow>
   same_events es (d\<lparr>coreOutbox := update_rows P f (coreOutbox d)\<rparr>)"
  by (auto simp: same_events_def set_update_rows)

lemma polling_processed:
  assumes "polling es d k r" and "e \<in> set es"
    and "sent (ob_eventType e) (ob_payload e) k r \<or> ob_eventType e \<notin> started_types \<union> ended_types"
  shows "polling es (snd (update_event (ob_id e) (\<lambda>e. e\<lparr>ob_processed := True\<rparr>) d)) k r"
  using assms
  by (auto simp: polling_def update_event_def outbox_ok_defs ball_update_rows unique_by_update
      same_events_def set_update_rows)

lemma polling_retry:
  assumes "polling es d k r"
  shows "polling es (snd (update_event i (set_retry n) d)) k r"
  using assms
  by (auto simp: polling_def update_event_def outbox_ok_defs ball_update_rows unique_by_update
      same_events_def set_update_rows set_retry_def)

lemma keeps_then:
  assumes "keeps J m" and "\<And>w v. m w = (Inr (), v) \<Longrightarrow> K (set (kafka v)) (set (rabbit v))"
    and "keeps (\<lambda>d k r. J d k r \<and> K k r) m'"
  shows "keeps J (sq m m')"
proof (rule movesI)
  fix w :: "'a world"
  obtain x v where run: "m w = (x, v)" by fastforce
  with assms(1) have one: "keeping (mail_inv J) w v" by (rule movesD)
  show "keeping (mail_inv J) w (snd (sq m m' w))"
  proof (cases x)
    case (Inr u)
    with run assms(2) have "K (set (kafka v)) (set (rabbit v))" by simp
    moreover have "keeping (mail_inv (\<lambda>d k r. J d k r \<and> K k r)) v (snd (m' v))"
      using assms(3) by (simp add: moves_def)
    ultimately have "keeping (mail_inv J) v (snd (m' v))" by (simp add: keeping_def mail_inv_def)
    with one run Inr show ?thesis by (simp add: sq_run keeping_def)
  qed (use run one in \<open>simp add: sq_run\<close>)
qed

lemma poll_event_polling:
  assumes "e \<in> set es"
  shows "keeps (polling es) (poll_event E e)"
proof -
  have mono: "polling es d k' r'" if "polling es d k r" "k \<subseteq> k'" "r \<subseteq> r'" for d k r k' r'
    using that by (auto simp: polling_def intro: outbox_ok_mono)
  have deliver: "keeps (polling es) (deliver_event E e)"
    unfolding deliver_event_def kafka_emit_within_def rabbit_publish_within_def
    by (intro mail_moves mail_await_within)
       (auto simp: mail_inv_def kafka_send_def rabbit_send_def intro: mono)
  let ?went = "\<lambda>k r. sent (ob_eventType e) (ob_payload e) k r \<or> ob_eventType e \<notin> started_types \<union> ended_types"
  have went: "?went (set (kafka v)) (set (rabbit v))"
    if "deliver_event E e w = (Inr (), v)" for w v
    using that
    by (auto simp: deliver_event_def sent_def started_or_ended kafka_emit_within_def
        rabbit_publish_within_def await_within_def act_simps kafka_send_def rabbit_send_def await_def Let_def
        split: if_splits prod.splits sum.splits outcome.splits)
  have change: "keeps J (change (\<lambda>w. w\<lparr>coreBreaker := f w\<rparr>))" for J f
    by (rule mail_change) (simp add: mail_inv_def)
  show ?thesis
    unfolding poll_event_def
    apply (rule keeping.moves_bnd, rule keeping.moves_catch)
    apply (rule keeps_then [where K = ?went])
    apply (rule deliver, erule went)
    apply (intro mail_moves change mail_run_db)
    apply (use assms polling_processed in \<open>auto simp: update_event_def\<close>)[1]
    apply (rule keeping.moves_ret)
    apply (intro mail_moves change mail_run_db polling_retry, assumption)
    done
qed

lemma poll_events_polling: "set es' \<subseteq> set es \<Longrightarrow> keeps (polling es) (poll_events E es')"
  by (induction es') (auto intro!: mail_moves poll_event_polling)

lemma mail_query_strengthen:
  assumes "\<And>d k r. J d k r \<Longrightarrow> J' d d k r" and "\<And>d d' k r. J' d d' k r \<Longrightarrow> J d' k r"
    and "\<And>d. keeps (J' d) (g (f d))"
  shows "keeps J (bnd (query E f) g)"
proof (rule movesI)
  fix w :: "'a world"
  let ?v = "tick E w" and ?w' = "snd (g (f (db w)) (tick E w))"
  have "keeping (mail_inv (J' (db w))) ?v ?w'" using assms(3) by (simp add: moves_def)
  then have "mail_inv J w \<Longrightarrow> mail_inv (J' (db w)) ?w'"
    using assms(1) [of "db w"] by (simp add: keeping_def mail_inv_def)
  then have "mail_inv J w \<Longrightarrow> mail_inv J ?w'"
    using assms(2) by (simp add: mail_inv_def)
  then show "keeping (mail_inv J) w (snd (bnd (query E f) g w))"
    by (auto simp: bnd_def query_def run_db_def await_def Let_def keeping_def mail_inv_def
        split: outcome.split)
qed

lemma batch_in: "e \<in> set (take n (pending es)) \<Longrightarrow> e \<in> set es"
  using set_take_subset [of n "pending es"] by (auto simp: pending_def)

lemma outbox_ok_batch:
  "outbox_ok d k r \<Longrightarrow> polling (take n (pending (coreOutbox d))) d k r"
  unfolding polling_def same_events_def outbox_ok_defs
  by (auto dest!: batch_in intro: unique_by_inj arg_cong [where f = ob_eventType] arg_cong [where f = ob_payload])

lemma poll_keeps: "keeps outbox_ok (poll E)"
  unfolding poll_def
  by (intro mail_moves
      mail_query_strengthen [where J' = "\<lambda>d. polling (take BATCH_SIZE (pending (coreOutbox d)))"]
      poll_events_polling outbox_ok_batch)
     (auto simp: polling_def)

lemma fresh_row: "cuid_fresh E \<Longrightarrow> x \<in> set es \<Longrightarrow> ob_id x \<noteq> cuid E (map ob_id es)"
  using fresh_cuid [of E "map ob_id es"] by force

text \<open>The reaper emits the event of a session before it marks the row it has just written.\<close>

lemma keeps_bnd_known:
  assumes "keeps J m" and "\<And>w a v. m w = (Inr a, v) \<Longrightarrow> mail_inv J w \<Longrightarrow> mail_inv (J' a) v"
    and "\<And>a d k r. J' a d k r \<Longrightarrow> J d k r" and "\<And>a. keeps (J' a) (f a)"
  shows "keeps J (bnd m f)"
proof (rule movesI)
  fix w :: "'a world"
  obtain x v where run: "m w = (x, v)" by fastforce
  with assms(1) have one: "keeping (mail_inv J) w v" by (rule movesD)
  show "keeping (mail_inv J) w (snd (bnd m f w))"
  proof (cases x)
    case (Inr a)
    have "keeping (mail_inv (J' a)) v (snd (f a v))" using assms(4) by (simp add: moves_def)
    then have "mail_inv J w \<Longrightarrow> mail_inv J (snd (f a v))"
      using assms(2) [of w a v] assms(3) run Inr by (simp add: keeping_def mail_inv_def)
    with run Inr show ?thesis by (simp add: bnd_run keeping_def)
  qed (use run one in \<open>simp add: bnd_run\<close>)
qed

lemma emit_keeps:
  assumes "\<And>d k r x. J d k r \<Longrightarrow> J d (insert x k) r"
  shows "keeps J (kafka_emit E p)"
  unfolding kafka_emit_def
  by (intro mail_moves mail_await) (auto simp: kafka_send_def mail_inv_def intro: assms)

lemma publish_keeps:
  assumes "\<And>d k r x. J d k r \<Longrightarrow> J d k (insert x r)"
  shows "keeps J (rabbit_publish E q p)"
  unfolding rabbit_publish_def by (intro mail_await) (auto simp: rabbit_send_def mail_inv_def intro: assms)

lemma emit_done: "kafka_emit E p w = (Inr (), v) \<Longrightarrow> (topic_of p, p) \<in> set (kafka v)"
  by (auto simp: kafka_emit_def act_simps kafka_send_def await_def Let_def split: if_splits outcome.splits)

lemma publish_done: "rabbit_publish E q p w = (Inr (), v) \<Longrightarrow> (q, p) \<in> set (rabbit v)"
  by (auto simp: rabbit_publish_def rabbit_send_def await_def Let_def split: outcome.splits)

definition end_event :: "string \<Rightarrow> string \<Rightarrow> int \<Rightarrow> outbox_event" where
  "end_event sid i t = new_outbox_event i ''SessionEndedEvent'' (SessionEnded sid EndExpired) t"

lemma reap_tx_known:
  assumes "cuid_fresh E" and "reap_tx E sid (SessionEnded sid EndExpired) w = (Inr i, v)"
    and "mail_inv outbox_ok w"
  shows "mail_inv (polling [end_event sid i 0]) v"
proof -
  from assms(2) obtain t t' d where d: "terminate_session sid t (db w) = (Inr (), d)"
    and e: "file_event E ''SessionEndedEvent'' (SessionEnded sid EndExpired) t' d = (Inr i, db v)"
    and mail: "kafka v = kafka w" "rabbit v = rabbit w"
    unfolding reap_tx_def now_def look_def bnd_def by (auto elim: batch_Inr)
  from d have "outbox_ok d (set (kafka w)) (set (rabbit w))"
    using assms(3) by (auto simp: terminate_session_def mail_inv_def outbox_ok_defs split: if_splits)
  from file_event_keeps [OF assms(1) _ this, where ty = "''SessionEndedEvent''" and p = "SessionEnded sid EndExpired" and t = t']
    e mail
  have "outbox_ok (db v) (set (kafka v)) (set (rabbit v))" by (simp add: event_types)
  moreover have "same_events [end_event sid i 0] (db v)"
    using fresh_row [OF assms(1), of _ "coreOutbox d"] e [symmetric]
    by (auto simp: same_events_def file_event_def next_event_id_def end_event_def new_outbox_event_def)
  ultimately show ?thesis by (simp add: mail_inv_def polling_def)
qed

lemma polling_grow:
  "polling es d k r \<Longrightarrow> polling es d (insert x k) r" "polling es d k r \<Longrightarrow> polling es d k (insert x r)"
  by (auto simp: polling_def intro: outbox_ok_mono)

lemma reap_tail_keeps:
  fixes E :: "'r env" and sid :: string
  defines "p \<equiv> SessionEnded sid EndExpired"
  shows "keeps (polling [end_event sid i 0]) (sq (kafka_emit E p) (sq (rabbit_publish E TERMINATE_SANDBOX p)
    (when_act (i \<noteq> []) (run_db E (update_event i (\<lambda>e. e\<lparr>ob_processed := True\<rparr>))))))"
proof -
  have mark: "keeps (\<lambda>d k r. (polling [end_event sid i 0] d k r \<and> (topic_of p, p) \<in> k) \<and>
      (TERMINATE_SANDBOX, p) \<in> r) (run_db E (update_event i (\<lambda>e. e\<lparr>ob_processed := True\<rparr>)))"
    by (rule mail_run_db)
       (use polling_processed [of "[end_event sid i 0]" _ _ _ "end_event sid i 0"] in
         \<open>auto simp: sent_def event_types end_event_def new_outbox_event_def p_def\<close>)
  show ?thesis
    by (rule keeps_then [where K = "\<lambda>k r. (topic_of p, p) \<in> k", OF emit_keeps emit_done
          keeps_then [where K = "\<lambda>k r. (TERMINATE_SANDBOX, p) \<in> r", OF publish_keeps publish_done
            keeping.moves_when [OF mark]]])
       (auto intro: polling_grow)
qed

lemma reap_session_keeps:
  assumes "cuid_fresh E"
  shows "keeps outbox_ok (reap_session E s)"
proof -
  have tx: "keeps outbox_ok (reap_tx E sid p)" for sid p
    unfolding reap_tx_def
    by (intro mail_moves mail_batch)
       (auto simp: terminate_session_def event_types intro: file_event_keeps [OF assms])
  show ?thesis
    unfolding reap_session_def Let_def
    apply (rule keeping.moves_catch)
     apply (rule keeps_bnd_known [OF tx _ _ reap_tail_keeps])
      apply (erule reap_tx_known [OF assms], assumption)
     apply (simp add: polling_def)
    apply (rule keeping.moves_ret)
    done
qed

lemma reap_keeps: "cuid_fresh E \<Longrightarrow> keeps outbox_ok (reap E i)"
  unfolding reap_def by (intro mail_moves keeping.moves_for_each reap_session_keeps)

text \<open>The core service at work: requests, cycles of the poller and of the reaper, in any order.\<close>

datatype core_event = Request session_request | PollCycle | ReapCycle string

fun core_step :: "'r env \<Rightarrow> core_event \<Rightarrow> 'r world \<Rightarrow> 'r world" where
  "core_step E (Request rq) w = serve E rq w"
| "core_step E PollCycle w = snd (poll E w)"
| "core_step E (ReapCycle i) w = snd (reap E i w)"

fun core_run :: "('r env \<times> core_event) list \<Rightarrow> 'r world \<Rightarrow> 'r world" where
  "core_run [] w = w"
| "core_run ((E, st) # sts) w = core_run sts (core_step E st w)"

lemma core_run_induct:
  assumes "\<And>E st w. (E, st) \<in> set sts \<Longrightarrow> I w \<Longrightarrow> I (core_step E st w)" and "I w"
  shows "I (core_run sts w)"
  using assms by (induction sts w rule: core_run.induct) auto

text \<open>C1. While every challenge names a provider: an event of a session is marked as processed in the core
  outbox only if its own message was handed to its Kafka topic and to its queue (for a start the one of its
  provider), whatever fails, and in whatever order requests for sessions, poll cycles and reaper cycles run.
  The only other events that are marked are the two of organizations, for which the poller has no destination.
  The run begins where this holds, and generated identifiers are new.\<close>

theorem processed_means_published:
  assumes "\<forall>(E, st) \<in> set sts. cuid_fresh E" and "\<forall>c \<in> set (challenges (db w)). ch_requiredProvider c \<noteq> []"
    and "published (db w) (set (kafka w)) (set (rabbit w))"
  shows "published (db (core_run sts w)) (set (kafka (core_run sts w))) (set (rabbit (core_run sts w)))"
proof -
  have "mail_inv outbox_ok (core_run sts w)"
  proof (rule core_run_induct [where I = "mail_inv outbox_ok"])
    fix E :: "'a env" and st and w :: "'a world"
    assume "(E, st) \<in> set sts" and inv: "mail_inv outbox_ok w"
    with assms(1) have "cuid_fresh E" by auto
    with inv show "mail_inv outbox_ok (core_step E st w)"
      using serve_keeps [of E w] poll_keeps [of E] reap_keeps [of E]
      by (cases st) (auto simp: moves_def keeping_def)
  qed (use assms(2,3) in \<open>simp add: mail_inv_def outbox_ok_def providers_named_def\<close>)
  then show ?thesis by (simp add: mail_inv_def outbox_ok_def)
qed

lemma processed_means_published_witness:
  "let w = core_run [(faulty_env [(7, Failed)], Request (Start ''bob'' ''c1'')), (calm_env, PollCycle),
       (calm_env, ReapCycle ''i'')] (example_world example_db)
   in published (db w) (set (kafka w)) (set (rabbit w))"
  unfolding Let_def
  by (rule processed_means_published)
     (simp_all add: published_def example_db_def example_challenge_def del: core_run.simps)

section \<open>Poison pills\<close>









section \<open>The poller drains the outbox\<close>

text \<open>Calls that answer within the five seconds the poller allows.\<close>

definition prompt_env :: "'r env \<Rightarrow> bool" where
  "prompt_env E \<longleftrightarrow> calm E \<and> (\<forall>n. latency E n \<le> 5000)"

text \<open>What such a cycle does not undo: messages stay sent, the producer ready and the circuit as it was.\<close>

definition goes_on :: "'r world \<Rightarrow> 'r world \<Rightarrow> bool" where
  "goes_on w v \<longleftrightarrow> (producerReady w \<longrightarrow> producerReady v) \<and>
     circuitOpenUntil (coreBreaker v) = circuitOpenUntil (coreBreaker w) \<and> clock w \<le> clock v \<and>
     set (kafka w) \<subseteq> set (kafka v) \<and> set (rabbit w) \<subseteq> set (rabbit v)"

lemma goes_on_refl [simp]: "goes_on w w"
  by (simp add: goes_on_def)

lemma goes_on_trans: "goes_on w v \<Longrightarrow> goes_on v u \<Longrightarrow> goes_on w u"
  by (auto simp: goes_on_def)

lemma goes_on_tick [simp]: "goes_on w (tick E w)"
  by (simp add: goes_on_def)

text \<open>The event was handed over, unless the poller has no destination for its type.\<close>

definition routed :: "'r world \<Rightarrow> outbox_event \<Rightarrow> bool" where
  "routed w e \<longleftrightarrow> sent (ob_eventType e) (ob_payload e) (set (kafka w)) (set (rabbit w)) \<or>
     ob_eventType e \<notin> started_types \<union> ended_types"

lemma routed_goes_on: "routed w e \<Longrightarrow> goes_on w v \<Longrightarrow> routed v e"
  unfolding routed_def goes_on_def by (blast intro: sent_mono)

lemma deliver_prompt:
  assumes "prompt_env E" and "producerReady w"
  shows "\<exists>v. deliver_event E e w = (Inr (), v) \<and> db v = db w \<and> goes_on w v \<and> routed v e"
  using assms
  by (auto simp: deliver_event_def sent_def routed_def goes_on_def started_or_ended act_simps kafka_emit_within_def
      rabbit_publish_within_def await_within_def await_def Let_def kafka_send_def rabbit_send_def prompt_env_def calm_def)

definition mark_id :: "string \<Rightarrow> outbox_event \<Rightarrow> outbox_event" where
  "mark_id i x = (if ob_id x = i then x\<lparr>ob_processed := True\<rparr> else x)"

lemma poll_event_prompt:
  assumes "prompt_env E" and "producerReady w" and "has_key ob_id (ob_id e) (coreOutbox (db w))"
  obtains v where "poll_event E e w = (Inr False, v)"
    "coreOutbox (db v) = map (mark_id (ob_id e)) (coreOutbox (db w))" "goes_on w v" "routed v e"
proof -
  obtain v where v: "deliver_event E e w = (Inr (), v)" "db v = db w" "goes_on w v" "routed v e"
    using deliver_prompt [OF assms(1,2)] by blast
  let ?u = "(tick E v)\<lparr>db := (db w)\<lparr>coreOutbox := map (mark_id (ob_id e)) (coreOutbox (db w))\<rparr>,
      coreBreaker := reset_breaker (coreBreaker v)\<rparr>"
  have "poll_event E e w = (Inr False, ?u)"
    using v assms by (simp add: poll_event_def act_simps run_db_def await_def Let_def update_event_def prompt_env_def calm_def
        update_rows_def mark_id_def)
  moreover have on: "goes_on v ?u" by (simp add: goes_on_def reset_breaker_def)
  ultimately show ?thesis
    using that v(3) goes_on_trans [OF v(3) on] routed_goes_on [OF v(4) on] by simp
qed

lemma mark_ids_keep: "ob_id (mark_id i x) = ob_id x"
  by (simp add: mark_id_def)

lemma poll_events_prompt:
  assumes "prompt_env E" and "producerReady w"
    and "\<forall>e \<in> set es. has_key ob_id (ob_id e) (coreOutbox (db w))"
  shows "coreOutbox (db (snd (poll_events E es w))) =
      map (\<lambda>x. if ob_id x \<in> ob_id ` set es then x\<lparr>ob_processed := True\<rparr> else x) (coreOutbox (db w)) \<and>
    goes_on w (snd (poll_events E es w)) \<and> (\<forall>e \<in> set es. routed (snd (poll_events E es w)) e)"
  using assms(2,3)
proof (induction es arbitrary: w)
  case (Cons e es)
  have has: "has_key ob_id (ob_id e) (coreOutbox (db w))" using Cons.prems(2) by simp
  obtain v where v: "poll_event E e w = (Inr False, v)"
    "coreOutbox (db v) = map (mark_id (ob_id e)) (coreOutbox (db w))" "goes_on w v" "routed v e"
    using poll_event_prompt [OF assms(1) Cons.prems(1) has] .
  have "\<forall>x \<in> set es. has_key ob_id (ob_id x) (coreOutbox (db v))"
    using Cons.prems(2) by (auto simp: v(2) has_key_def mark_ids_keep)
  moreover have "producerReady v" using Cons.prems(1) v(3) by (simp add: goes_on_def)
  ultimately have rest: "coreOutbox (db (snd (poll_events E es v))) =
      map (\<lambda>x. if ob_id x \<in> ob_id ` set es then x\<lparr>ob_processed := True\<rparr> else x) (coreOutbox (db v))"
    "goes_on v (snd (poll_events E es v))" "\<forall>e \<in> set es. routed (snd (poll_events E es v)) e"
    using Cons.IH by blast+
  have "snd (poll_events E (e # es) w) = snd (poll_events E es v)" by (simp add: v(1) bnd_run)
  then show ?case
    using rest goes_on_trans [OF v(3) rest(2)] routed_goes_on [OF v(4) rest(2)]
    by (auto simp: v(2) mark_id_def)
qed (simp add: ret_def)

lemma pending_without:
  "pending (map (\<lambda>x. if ob_id x \<in> S then x\<lparr>ob_processed := True\<rparr> else x) es) =
   filter (\<lambda>x. ob_id x \<notin> S) (pending es)"
proof -
  let ?open = "\<lambda>e :: outbox_event. \<not> ob_processed e \<and> \<not> ob_failed e"
  have "filter ?open (map (\<lambda>x. if ob_id x \<in> S then x\<lparr>ob_processed := True\<rparr> else x) es) =
      filter (\<lambda>x. ob_id x \<notin> S) (filter ?open es)"
    by (induction es) auto
  then show ?thesis by (simp add: pending_def filter_sort)
qed

lemma pending_marked:
  assumes "unique_by ob_id es"
  shows "pending (map (\<lambda>x. if ob_id x \<in> ob_id ` set (take n (pending es)) then x\<lparr>ob_processed := True\<rparr> else x) es)
    = drop n (pending es)"
proof -
  let ?S = "ob_id ` set (take n (pending es))"
  let ?open = "\<lambda>e. \<not> ob_processed e \<and> \<not> ob_failed e"
  have ids: "distinct (map ob_id (pending es))"
    using unique_by_filter [OF assms, of ?open] by (simp add: pending_def unique_by_def distinct_map)
  have "pending (map (\<lambda>x. if ob_id x \<in> ?S then x\<lparr>ob_processed := True\<rparr> else x) es) =
      filter (\<lambda>x. ob_id x \<notin> ?S) (pending es)"
    by (rule pending_without)
  also have "\<dots> = filter (\<lambda>x. ob_id x \<notin> ?S) (take n (pending es)) @ filter (\<lambda>x. ob_id x \<notin> ?S) (drop n (pending es))"
    by (subst (1) append_take_drop_id [of n "pending es", symmetric]) (simp only: filter_append)
  also have "filter (\<lambda>x. ob_id x \<notin> ?S) (take n (pending es)) = []"
    by (auto simp: filter_empty_conv)
  also have "filter (\<lambda>x. ob_id x \<notin> ?S) (drop n (pending es)) = drop n (pending es)"
  proof -
    have "distinct (map ob_id (take n (pending es)) @ map ob_id (drop n (pending es)))"
      using ids by (simp add: map_append [symmetric] del: map_append)
    then show ?thesis by (auto simp: filter_id_conv)
  qed
  finally show ?thesis by simp
qed

text \<open>The state in which cycles drain the outbox; each cycle leads to such a state again.\<close>

definition draining :: "'r world \<Rightarrow> bool" where
  "draining w \<longleftrightarrow> producerReady w \<and> circuitOpenUntil (coreBreaker w) \<le> clock w \<and> unique_by ob_id (coreOutbox (db w))"

lemma poll_once:
  assumes "prompt_env E" and "draining w"
  shows "pending (coreOutbox (db (snd (poll E w)))) = drop BATCH_SIZE (pending (coreOutbox (db w)))"
    and "goes_on w (snd (poll E w))" and "draining (snd (poll E w))"
    and "\<forall>e \<in> set (take BATCH_SIZE (pending (coreOutbox (db w)))). routed (snd (poll E w)) e"
proof -
  let ?es = "take BATCH_SIZE (pending (coreOutbox (db w)))"
  have run: "snd (poll E w) = snd (poll_events E ?es (tick E w))"
    using assms
    by (simp add: poll_def act_simps now_def query_def run_db_def await_def Let_def prompt_env_def calm_def draining_def)
  have "\<forall>e \<in> set ?es. has_key ob_id (ob_id e) (coreOutbox (db (tick E w)))"
    by (auto simp: has_key_def dest!: batch_in)
  moreover have "producerReady (tick E w)" using assms(2) by (simp add: draining_def)
  ultimately have all: "coreOutbox (db (snd (poll E w))) =
      map (\<lambda>x. if ob_id x \<in> ob_id ` set ?es then x\<lparr>ob_processed := True\<rparr> else x) (coreOutbox (db w))"
    "goes_on (tick E w) (snd (poll E w))" "\<forall>e \<in> set ?es. routed (snd (poll E w)) e"
    using poll_events_prompt [OF assms(1), of "tick E w" ?es] unfolding run by simp_all
  have unique: "unique_by ob_id (coreOutbox (db w))" using assms(2) by (simp add: draining_def)
  show "pending (coreOutbox (db (snd (poll E w)))) = drop BATCH_SIZE (pending (coreOutbox (db w)))"
    by (simp only: all(1) pending_marked [OF unique])
  show on: "goes_on w (snd (poll E w))" by (rule goes_on_trans [OF goes_on_tick all(2)])
  have "map ob_id (coreOutbox (db (snd (poll E w)))) = map ob_id (coreOutbox (db w))" by (simp add: all(1))
  then have "unique_by ob_id (coreOutbox (db (snd (poll E w))))" using unique by (simp only: unique_by_def)
  with on assms(2) show "draining (snd (poll E w))" by (auto simp: draining_def goes_on_def)
  show "\<forall>e \<in> set ?es. routed (snd (poll E w)) e" by (rule all(3))
qed

text \<open>C19. While the brokers and the database answer in time, the producer is ready and the circuit closed, n
  cycles of the poller, over events with distinct identifiers, process the 10 n oldest pending events and leave exactly the others pending, and each of
  those events that is one of a session was handed to its topic and to its queue. Producer and circuit stay
  as they are, so the next cycles go on.\<close>

theorem poll_drains:
  assumes "prompt_env E" and "producerReady w" and "circuitOpenUntil (coreBreaker w) \<le> clock w"
    and "unique_by ob_id (coreOutbox (db w))" and "v = ((\<lambda>w. snd (poll E w)) ^^ n) w"
  shows "pending (coreOutbox (db v)) = drop (10 * n) (pending (coreOutbox (db w))) \<and>
    (\<forall>e \<in> set (take (10 * n) (pending (coreOutbox (db w)))). ob_eventType e \<in> started_types \<union> ended_types \<longrightarrow>
       sent (ob_eventType e) (ob_payload e) (set (kafka v)) (set (rabbit v))) \<and>
    producerReady v \<and> circuitOpenUntil (coreBreaker v) \<le> clock v"
proof -
  let ?p = "\<lambda>w. pending (coreOutbox (db w))"
  have "?p v = drop (10 * n) (?p w) \<and> draining v \<and> (\<forall>e \<in> set (take (10 * n) (?p w)). routed v e)"
    unfolding assms(5)
  proof (induction n)
    case 0
    show ?case using assms(2-4) by (simp add: draining_def)
  next
    case (Suc n)
    let ?u = "((\<lambda>w. snd (poll E w)) ^^ n) w"
    have u: "draining ?u" "?p ?u = drop (10 * n) (?p w)" "\<forall>e \<in> set (take (10 * n) (?p w)). routed ?u e"
      using Suc.IH by simp_all
    note once = poll_once [OF assms(1) u(1), unfolded u(2) BATCH_SIZE_def]
    have old: "\<forall>e \<in> set (take (10 * n) (?p w)). routed (snd (poll E ?u)) e"
      using u(3) routed_goes_on [OF _ once(2)] by blast
    have "take (10 * Suc n) (?p w) = take (10 * n) (?p w) @ take 10 (drop (10 * n) (?p w))"
      by (simp add: take_add [symmetric] add.commute)
    then show ?case using once old by (auto simp: add.commute)
  qed
  then show ?thesis by (auto simp: draining_def routed_def)
qed

lemma poll_drains_witness:
  "let v = ((\<lambda>w. snd (poll calm_env w)) ^^ 1) (example_world (example_db\<lparr>coreOutbox := [end_event ''s1'' ''e1'' 5]\<rparr>))
   in pending (coreOutbox (db v)) = [] \<and>
     sent ''SessionEndedEvent'' (SessionEnded ''s1'' EndExpired) (set (kafka v)) (set (rabbit v))"
proof -
  have "prompt_env calm_env" by (simp add: prompt_env_def)
  from poll_drains [OF this _ _ _ refl, of "example_world (example_db\<lparr>coreOutbox := [end_event ''s1'' ''e1'' 5]\<rparr>)" 1]
  show ?thesis
    unfolding Let_def
    by (simp add: example_world_def end_event_def pending_def new_outbox_event_def event_types del: funpow.simps One_nat_def)
qed

section \<open>Unknown events in the outbox of the auth service\<close>

text \<open>An event of unknown type is skipped without being marked, so ten of them at the head of the
  auth outbox stop its delivery for good: a cycle reads them again, sends nothing and changes
  nothing.\<close>

lemma unknown_events_block:
  assumes "\<forall>e \<in> set (take BATCH_SIZE (pending (authOutbox (db w)))). \<not> known_auth_event e"
  shows "db (snd (processOutbox E w)) = db w \<and> kafka (snd (processOutbox E w)) = kafka w"
proof -
  have skip: "process_events E es = ret ()" if "\<forall>e \<in> set es. \<not> known_auth_event e" for es
    using that by (induction es) simp_all
  show ?thesis
    using skip [OF assms]
    by (auto simp: processOutbox_def act_simps now_def query_def run_db_def await_def Let_def split: outcome.split)
qed

definition stuck_outbox :: "outbox_event list" where
  "stuck_outbox = map (\<lambda>i. new_outbox_event [i] ''ProfileUpdatedEvent'' (UserDeleted ''u'') 0) ''0123456789'' @
     [new_outbox_event ''x'' ''UserDeletedEvent'' (UserDeleted ''u'') 1]"

lemma unknown_events_block_witness:
  "kafka (snd (processOutbox calm_env (example_world (example_db\<lparr>authOutbox := stuck_outbox\<rparr>)))) = []"
proof -
  have "\<forall>e \<in> set (take BATCH_SIZE (pending stuck_outbox)). \<not> known_auth_event e" by code_simp
  then show ?thesis
    using unknown_events_block [of "example_world (example_db\<lparr>authOutbox := stuck_outbox\<rparr>)" calm_env] by simp
qed

section \<open>What the reaper ends\<close>

text \<open>
  The leader lock: as long as it is held, a cycle of any replica ends before it reads a session. The
  lock is taken for 90 seconds, a cycle starts every 60.
\<close>

text \<open>While the leader lock of the reaper is held, a cycle of another replica changes no table and
  sends nothing; the lock of a cycle at time t is held until t plus 90 seconds.\<close>

lemma reaper_single_leader:
  assumes "redis_store (redis_api E) view"
    and "live (clock w + int (latency E (calls w))) (view (redis w) LEADER_LOCK_KEY) \<noteq> None"
  shows "db (snd (reap E i w)) = db w \<and> kafka (snd (reap E i w)) = kafka w \<and> rabbit (snd (reap E i w)) = rabbit w"
proof -
  let ?t = "clock w + int (latency E (calls w))"
  obtain b r where nx: "redis_set_nx (redis_api E) ?t LEADER_LOCK_KEY i LEADER_LOCK_TTL_SECONDS (redis w) = (b, r)"
    by fastforce
  with assms redis_store.nx_law [OF assms(1), of ?t LEADER_LOCK_KEY i LEADER_LOCK_TTL_SECONDS "redis w"]
  have "\<not> b" by auto
  with nx show ?thesis
    by (auto simp: reap_def act_simps redis_run_def await_def Let_def split: outcome.split)
qed

lemma reaper_single_leader_witness:
  "db (snd (reap calm_env ''r2'' ((example_world example_db)
     \<lparr>redis := [(''core:reaper:leader'', (''r1'', Some 91000))]\<rparr>))) = example_db"
proof -
  have "redis_store (redis_api calm_env) map_of" by (simp add: alist_redis.redis_store_axioms)
  then show ?thesis
    using reaper_single_leader [of calm_env map_of "(example_world example_db)
      \<lparr>redis := [(''core:reaper:leader'', (''r1'', Some 91000))]\<rparr>" "''r2''"]
    by (simp add: LEADER_LOCK_KEY_def)
qed

definition ends_only :: "string set \<Rightarrow> db \<Rightarrow> db \<Rightarrow> bool" where
  "ends_only ids d d' \<longleftrightarrow> (\<exists>g. labSessions d' = map g (labSessions d) \<and>
     (\<forall>s. ls_id s \<notin> ids \<longrightarrow> g s = s) \<and> (\<forall>s. ls_id (g s) = ls_id s))"

interpretation ends_only: db_order "ends_only ids" for ids
proof
  show "ends_only ids d d" for d by (auto simp: ends_only_def intro: exI [of _ id])
next
  fix a b c assume ab: "ends_only ids a b" and bc: "ends_only ids b c"
  from ab obtain g where g: "labSessions b = map g (labSessions a)" "\<forall>s. ls_id s \<notin> ids \<longrightarrow> g s = s"
    "\<forall>s. ls_id (g s) = ls_id s" unfolding ends_only_def by blast
  from bc obtain h where h: "labSessions c = map h (labSessions b)" "\<forall>s. ls_id s \<notin> ids \<longrightarrow> h s = s"
    "\<forall>s. ls_id (h s) = ls_id s" unfolding ends_only_def by blast
  from g h show "ends_only ids a c" unfolding ends_only_def by (intro exI [of _ "h \<circ> g"]) simp
qed

lemma ends_only_same: "labSessions d' = labSessions d \<Longrightarrow> ends_only ids d d'"
  unfolding ends_only_def by (intro exI [of _ id]) simp

lemma ends_only_update:
  assumes "sid \<in> ids" and "\<And>s. ls_id (f s) = ls_id s"
    and "labSessions d' = update_rows (\<lambda>s. ls_id s = sid) f (labSessions d)"
  shows "ends_only ids d d'"
  unfolding ends_only_def using assms
  by (intro exI [of _ "\<lambda>x. if ls_id x = sid then f x else x"]) (auto simp: update_rows_def)

lemma reap_session_ends:
  assumes "ls_id s \<in> ids"
  shows "moves (on_db (ends_only ids)) (reap_session E s)"
proof -
  have row: "ends_only ids d (snd (terminate_session (ls_id s) t d))" for t d
    unfolding terminate_session_def
    by (auto intro: ends_only_same
        ends_only_update [OF assms, where f = "\<lambda>s. s\<lparr>ls_status := TERMINATED, ls_endedAt := Some t\<rparr>"])
  have event: "ends_only ids d (snd (file_event E ty p t d))" for ty p t d
    by (rule ends_only_same) (simp add: file_event_def)
  have mark: "ends_only ids d (snd (update_event i f d))" for i f d
    by (auto simp: update_event_def intro: ends_only_same)
  show ?thesis
    unfolding reap_session_def reap_tx_def Let_def
    by (intro ends_only.db_moves moves_rules ends_only.moves_mail ends_only.moves_run_db
        ends_only.moves_batch row event mark)
qed

lemma for_each_moves:
  assumes "\<And>x. x \<in> set xs \<Longrightarrow> moves (on_db (ends_only ids)) (f x)"
  shows "moves (on_db (ends_only ids)) (for_each xs f)"
  using assms by (induction xs) (auto intro!: ends_only.db_moves)

text \<open>A cycle of the reaper leaves every session alone that is not expired at its start: not active,
  or younger than the time to live of its kind, guests' trials having their own.\<close>

lemma reaper_spares_live:
  assumes "unique_by ls_id (labSessions (db w))" and "s \<in> set (labSessions (db w))"
    and "\<not> is_expired E (clock w + int (latency E (calls w))) s"
  shows "s \<in> set (labSessions (db (snd (reap E i w))))"
proof -
  let ?t = "clock w + int (latency E (calls w))"
  let ?es = "take 50 (filter (is_expired E ?t) (labSessions (db w)))"
  obtain x v where lock: "redis_run E (\<lambda>t r. redis_set_nx (redis_api E) t LEADER_LOCK_KEY i
      LEADER_LOCK_TTL_SECONDS r) w = (x, v)" by fastforce
  then have v: "db v = db w" "clock v = ?t"
    by (auto simp: redis_run_def await_def Let_def split: outcome.splits prod.splits)
  have ids: "ls_id s \<notin> ls_id ` set ?es"
    using assms(3) unique_by_inj [OF assms(1,2)] by (auto dest!: in_set_takeD)
  have "ends_only (ls_id ` set ?es) (db w) (db (snd (reap E i w)))"
  proof (cases x)
    case (Inl e)
    with lock v show ?thesis by (simp add: reap_def bnd_run ends_only.db_refl)
  next
    case (Inr b)
    have rest: "moves (on_db (ends_only (ls_id ` set ?es))) (for_each ?es (reap_session E))"
      by (intro for_each_moves reap_session_ends) simp
    from Inr lock v show ?thesis
      using moves_db_run [OF rest, of "tick E v"]
      by (cases "outcome_of E (calls v)")
         (auto simp: reap_def act_simps now_def query_def run_db_def await_def Let_def ends_only.db_refl
           intro: ends_only.db_refl)
  qed
  then obtain g where "labSessions (db (snd (reap E i w))) = map g (labSessions (db w))" "g s = s"
    using ids by (auto simp: ends_only_def)
  with assms(2) show ?thesis by (metis imageI image_set)
qed

lemma reaper_spares_live_witness:
  "example_session ''s1'' ''ann'' ''c1'' ACTIVE \<in>
     set (labSessions (db (snd (reap (faulty_env [(2, Unacked)]) ''r1'' (example_world example_db)))))"
  by (rule reaper_spares_live) (simp_all add: example_db_def example_session_def is_expired_def is_guest_def
      starts_with_def faulty_env_def)

end
