(* ===== verification/Cascades.thy ===== *)
theory Cascades
  imports Schema
begin

text \<open>
  What the database deletes together with a row: the \<open>onDelete: Cascade\<close> and \<open>SetNull\<close> rules of
  \<open>packages/db/prisma/schema.prisma\<close> for users, comments and lists.
\<close>

section \<open>Comments\<close>

text \<open>
  A comment goes with its parent. After the deletion of some comments the replies that have lost
  theirs are removed until none is left without.
\<close>

definition has_parent :: "comment list \<Rightarrow> comment \<Rightarrow> bool" where
  "has_parent cs c \<longleftrightarrow> cm_parentId c = None \<or> cm_parentId c \<in> (\<lambda>p. Some (cm_id p)) ` set cs"

function drop_orphans :: "comment list \<Rightarrow> comment list" where
  "drop_orphans cs =
     (if list_all (has_parent cs) cs then cs else drop_orphans (filter (has_parent cs) cs))"
  by pat_completeness auto

termination
proof (relation "measure length")
  fix cs assume "\<not> list_all (has_parent cs) cs"
  then obtain c where "c \<in> set cs" "\<not> has_parent cs c" by (auto simp: list_all_iff)
  then show "(filter (has_parent cs) cs, cs) \<in> measure length"
    by (simp add: length_filter_less)
qed simp

declare drop_orphans.simps [simp del]

lemma drop_orphans_closed: "list_all (has_parent (drop_orphans cs)) (drop_orphans cs)"
proof (induction cs rule: drop_orphans.induct)
  case (1 cs)
  show ?case
  proof (cases "list_all (has_parent cs) cs")
    case True
    then show ?thesis by (simp add: drop_orphans.simps [of cs])
  next
    case False
    then show ?thesis using 1 by (simp add: drop_orphans.simps [of cs])
  qed
qed

lemma drop_orphans_filter: "\<exists>P. drop_orphans cs = filter P cs"
proof (induction cs rule: drop_orphans.induct)
  case (1 cs)
  show ?case
  proof (cases "list_all (has_parent cs) cs")
    case True
    then show ?thesis by (auto simp: drop_orphans.simps [of cs] intro: exI [of _ "\<lambda>_. True"])
  next
    case False
    with 1 obtain P where "drop_orphans (filter (has_parent cs) cs) = filter P (filter (has_parent cs) cs)"
      by blast
    with False show ?thesis
      by (auto simp: drop_orphans.simps [of cs] intro!: exI [of _ "\<lambda>c. has_parent cs c \<and> P c"])
  qed
qed

lemma drop_orphans_subset: "set (drop_orphans cs) \<subseteq> set cs"
  using drop_orphans_filter [of cs] by auto

lemma unique_drop_orphans: "unique_by f cs \<Longrightarrow> unique_by f (drop_orphans cs)"
  using drop_orphans_filter [of cs] by (auto simp: unique_by_def distinct_map_filter)

text \<open>Any family of the remaining comments that is closed under parents survives.\<close>

lemma drop_orphans_keeps:
  assumes "C \<subseteq> set cs"
    and "\<And>c. c \<in> C \<Longrightarrow> cm_parentId c = None \<or> cm_parentId c \<in> (\<lambda>p. Some (cm_id p)) ` C"
  shows "C \<subseteq> set (drop_orphans cs)"
  using assms(1)
proof (induction cs rule: drop_orphans.induct)
  case (1 cs)
  have parent: "has_parent cs c" if "c \<in> C" for c
    using assms(2) [OF that] 1(2) by (auto simp: has_parent_def)
  show ?case
  proof (cases "list_all (has_parent cs) cs")
    case True
    then show ?thesis using 1(2) by (simp add: drop_orphans.simps [of cs])
  next
    case False
    then show ?thesis using 1 parent by (auto simp: drop_orphans.simps [of cs])
  qed
qed

definition without_comments :: "(comment \<Rightarrow> bool) \<Rightarrow> db \<Rightarrow> db" where
  "without_comments P d = (let cs = drop_orphans (filter (\<lambda>c. \<not> P c) (comments d)) in
     d\<lparr>comments := cs,
       commentVotes := filter (\<lambda>v. has_key cm_id (cv_commentId v) cs) (commentVotes d)\<rparr>)"

section \<open>Lists\<close>

definition without_lists :: "(challenge_list \<Rightarrow> bool) \<Rightarrow> db \<Rightarrow> db" where
  "without_lists P d = (let ls = filter (\<lambda>l. \<not> P l) (challengeLists d) in
     d\<lparr>challengeLists := ls,
       listItems := filter (\<lambda>i. has_key cl_id (li_listId i) ls) (listItems d)\<rparr>)"

section \<open>Users\<close>

text \<open>
  \<open>OrgScenario.createdBy\<close> has no rule for deletions, so a user who created one cannot be deleted.
\<close>

definition without_user :: "string \<Rightarrow> db \<Rightarrow> db" where
  "without_user u d = without_comments (\<lambda>c. cm_userId c = u) (without_lists (\<lambda>l. cl_userId l = u)
     (d\<lparr>users := filter (\<lambda>r. user_id r \<noteq> u) (users d),
        labSessions := filter (\<lambda>s. ls_userId s \<noteq> u) (labSessions d),
        completions := filter (\<lambda>c. co_userId c \<noteq> u) (completions d),
        quizAttempts := filter (\<lambda>q. qa_userId q \<noteq> u) (quizAttempts d),
        submissions := filter (\<lambda>s. sub_userId s \<noteq> u) (submissions d),
        checkResults := filter (\<lambda>c. cr_userId c \<noteq> u) (checkResults d),
        userSessions := filter (\<lambda>s. us_userId s \<noteq> u) (userSessions d),
        userBadges := filter (\<lambda>b. ub_userId b \<noteq> u) (userBadges d),
        orgMembers := filter (\<lambda>m. mem_userId m \<noteq> u) (orgMembers d),
        challengeLikes := filter (\<lambda>r. pr_userId r \<noteq> u) (challengeLikes d),
        challengeBookmarks := filter (\<lambda>r. pr_userId r \<noteq> u) (challengeBookmarks d),
        userFollows := filter (\<lambda>r. pr_userId r \<noteq> u \<and> pr_targetId r \<noteq> u) (userFollows d),
        commentVotes := filter (\<lambda>v. cv_userId v \<noteq> u) (commentVotes d),
        shareTokens := filter (\<lambda>s. sh_userId s \<noteq> u) (shareTokens d),
        articleLikes := filter (\<lambda>r. pr_userId r \<noteq> u) (articleLikes d),
        articleBookmarks := filter (\<lambda>r. pr_userId r \<noteq> u) (articleBookmarks d),
        articleReports := filter (\<lambda>r. rep_userId r \<noteq> u) (articleReports d)\<rparr>))"

definition delete_user :: "string \<Rightarrow> db \<Rightarrow> (exn + unit) \<times> db" where
  "delete_user u d = guarded
     [(RecordNotFound, \<not> has_user d u),
      (ForeignKeyViolation, has_key os_createdByUserId u (orgScenarios d))]
     (without_user u d) d"

lemma has_key_filter:
  "has_key f k (filter P rs) \<longleftrightarrow> (\<exists>r \<in> set rs. f r = k \<and> P r)"
  by (auto simp: has_key_def)

lemma unique_filter [simp]: "unique_by f rs \<Longrightarrow> unique_by f (filter P rs)"
  by (simp add: unique_by_def distinct_map_filter)

lemma without_comments_keys: "keys_ok d \<Longrightarrow> keys_ok (without_comments P d)"
  by (auto simp: keys_ok_def without_comments_def Let_def unique_drop_orphans)

lemma without_comments_refs: "refs_ok d \<Longrightarrow> refs_ok (without_comments P d)"
  using drop_orphans_closed [of "filter (\<lambda>c. \<not> P c) (comments d)"]
    drop_orphans_subset [of "filter (\<lambda>c. \<not> P c) (comments d)"]
  by (auto simp: refs_ok_def without_comments_def Let_def list_all_iff has_parent_def)

lemma without_lists_constraints: "constraints d \<Longrightarrow> constraints (without_lists P d)"
  by (auto simp: constraint_defs without_lists_def Let_def)

lemma without_comments_constraints: "constraints d \<Longrightarrow> constraints (without_comments P d)"
  using without_comments_keys without_comments_refs by (auto simp: constraints_def)

text \<open>The deletion as its comments and lists first, then the rows of the other tables.\<close>

definition strip_user :: "string \<Rightarrow> db \<Rightarrow> db" where
  "strip_user u d = d\<lparr>users := filter (\<lambda>r. user_id r \<noteq> u) (users d),
        labSessions := filter (\<lambda>s. ls_userId s \<noteq> u) (labSessions d),
        completions := filter (\<lambda>c. co_userId c \<noteq> u) (completions d),
        quizAttempts := filter (\<lambda>q. qa_userId q \<noteq> u) (quizAttempts d),
        submissions := filter (\<lambda>s. sub_userId s \<noteq> u) (submissions d),
        checkResults := filter (\<lambda>c. cr_userId c \<noteq> u) (checkResults d),
        userSessions := filter (\<lambda>s. us_userId s \<noteq> u) (userSessions d),
        userBadges := filter (\<lambda>b. ub_userId b \<noteq> u) (userBadges d),
        orgMembers := filter (\<lambda>m. mem_userId m \<noteq> u) (orgMembers d),
        challengeLikes := filter (\<lambda>r. pr_userId r \<noteq> u) (challengeLikes d),
        challengeBookmarks := filter (\<lambda>r. pr_userId r \<noteq> u) (challengeBookmarks d),
        userFollows := filter (\<lambda>r. pr_userId r \<noteq> u \<and> pr_targetId r \<noteq> u) (userFollows d),
        commentVotes := filter (\<lambda>v. cv_userId v \<noteq> u) (commentVotes d),
        shareTokens := filter (\<lambda>s. sh_userId s \<noteq> u) (shareTokens d),
        articleLikes := filter (\<lambda>r. pr_userId r \<noteq> u) (articleLikes d),
        articleBookmarks := filter (\<lambda>r. pr_userId r \<noteq> u) (articleBookmarks d),
        articleReports := filter (\<lambda>r. rep_userId r \<noteq> u) (articleReports d)\<rparr>"

lemma without_user_strip:
  "without_user u d = strip_user u (without_comments (\<lambda>c. cm_userId c = u) (without_lists (\<lambda>l. cl_userId l = u) d))"
  by (simp add: without_user_def strip_user_def without_comments_def without_lists_def Let_def conj_commute)

lemma has_user_filter: "has_key user_id k (filter (\<lambda>r. user_id r \<noteq> u) us) \<longleftrightarrow> has_key user_id k us \<and> k \<noteq> u"
  by (auto simp: has_key_def)

lemma strip_user_constraints:
  assumes "constraints d" and "\<forall>c \<in> set (comments d). cm_userId c \<noteq> u"
    and "\<forall>l \<in> set (challengeLists d). cl_userId l \<noteq> u" and "\<forall>s \<in> set (orgScenarios d). os_createdByUserId s \<noteq> u"
  shows "constraints (strip_user u d)"
proof -
  have "keys_ok (strip_user u d)" using assms(1) by (simp add: constraint_defs strip_user_def)
  moreover have "refs_ok (strip_user u d)"
    using assms by (simp add: constraint_defs strip_user_def has_user_filter) 
  ultimately show ?thesis by (simp add: constraints_def)
qed

lemma without_user_constraints:
  assumes "constraints d" and "\<not> has_key os_createdByUserId u (orgScenarios d)"
  shows "constraints (without_user u d)"
  unfolding without_user_strip
proof (rule strip_user_constraints)
  let ?d = "without_comments (\<lambda>c. cm_userId c = u) (without_lists (\<lambda>l. cl_userId l = u) d)"
  show "constraints ?d" using assms(1) without_comments_constraints without_lists_constraints by blast
  show "\<forall>c \<in> set (comments ?d). cm_userId c \<noteq> u"
    using drop_orphans_subset [of "filter (\<lambda>c. cm_userId c \<noteq> u) (comments d)"]
    by (auto simp: without_comments_def without_lists_def Let_def)
  show "\<forall>l \<in> set (challengeLists ?d). cl_userId l \<noteq> u"
    by (simp add: without_comments_def without_lists_def Let_def)
  show "\<forall>s \<in> set (orgScenarios ?d). os_createdByUserId s \<noteq> u"
    using assms(2) by (auto simp: without_comments_def without_lists_def Let_def has_key_def)
qed


end
