(* ===== verification/Json.thy ===== *)
theory Json
  imports Redis_Store
begin

text \<open>
  \<open>JSON.parse\<close> and \<open>JSON.stringify\<close>, which the services use for what they keep as text. A number is read
  as the greatest integer that is not above it: all that is done with numbers here is to compare them with
  integers. A text is read back from its print.
\<close>

section \<open>Values\<close>

datatype json =
    JNull
  | JBool bool
  | JNum int
  | JStr string
  | JArr "json list"
  | JObj "(string \<times> json) list"

text \<open>A property of an object; of two with the same name the later counts.\<close>

definition json_field :: "string \<Rightarrow> (string \<times> json) list \<Rightarrow> json option" where
  "json_field k ps = map_of (rev ps) k"

section \<open>Strings\<close>

definition quotation :: char where "quotation = CHR 0x22"
definition backslash :: char where "backslash = CHR 0x5C"

definition hex_value :: "char \<Rightarrow> nat option" where
  "hex_value c = (let n = of_char c :: nat in
     if 48 \<le> n \<and> n \<le> 57 then Some (n - 48)
     else if 97 \<le> n \<and> n \<le> 102 then Some (n - 87)
     else if 65 \<le> n \<and> n \<le> 70 then Some (n - 55)
     else None)"

definition hex_digit :: "nat \<Rightarrow> char" where
  "hex_digit n = char_of (if n < 10 then n + 48 else n + 87)"

text \<open>Escaped characters outside the alphabet of the model count as the substitute character.\<close>

definition code_char :: "nat \<Rightarrow> char" where
  "code_char n = char_of (if n < 128 then n else 26)"

fun escaped :: "char \<Rightarrow> char option" where
  "escaped c =
     (if c = quotation \<or> c = backslash \<or> c = CHR ''/'' then Some c
      else map_of [(CHR ''b'', CHR 0x08), (CHR ''f'', CHR 0x0C), (CHR ''n'', CHR 0x0A), (CHR ''r'', CHR 0x0D),
        (CHR ''t'', CHR 0x09)] c)"

definition prepend :: "char \<Rightarrow> (string \<times> string) option \<Rightarrow> (string \<times> string) option" where
  "prepend c r = map_option (apfst (Cons c)) r"

text \<open>What follows the opening quotation mark: the string and the rest of the text.\<close>

function read_string :: "string \<Rightarrow> (string \<times> string) option" where
  "read_string [] = None"
| "read_string (c # s) =
     (if c = quotation then Some ([], s)
      else if c = backslash then
        (case s of
           [] \<Rightarrow> None
         | e # t \<Rightarrow>
           if e = CHR ''u'' then
             (case t of
                x1 # x2 # x3 # x4 # r \<Rightarrow>
                  (case (hex_value x1, hex_value x2, hex_value x3, hex_value x4) of
                     (Some a, Some b, Some c, Some d) \<Rightarrow>
                       prepend (code_char (a * 4096 + b * 256 + c * 16 + d)) (read_string r)
                   | _ \<Rightarrow> None)
              | _ \<Rightarrow> None)
           else (case escaped e of Some x \<Rightarrow> prepend x (read_string t) | None \<Rightarrow> None))
      else if of_char c < (32 :: nat) then None
      else prepend c (read_string s))"
  by pat_completeness auto
termination by (relation "measure length") auto

definition print_char :: "char \<Rightarrow> string" where
  "print_char c = (let n = of_char c :: nat in
     if c = quotation \<or> c = backslash then [backslash, c]
     else if n = 8 then [backslash, CHR ''b''] else if n = 9 then [backslash, CHR ''t'']
     else if n = 10 then [backslash, CHR ''n''] else if n = 12 then [backslash, CHR ''f'']
     else if n = 13 then [backslash, CHR ''r'']
     else if n < 32 then [backslash, CHR ''u'', CHR ''0'', CHR ''0'', hex_digit (n div 16), hex_digit (n mod 16)]
     else [c])"

definition print_string :: "string \<Rightarrow> string" where
  "print_string s = quotation # concat (map print_char s) @ [quotation]"

section \<open>Numbers\<close>

definition digit_run :: "string \<Rightarrow> (string \<times> string) option" where
  "digit_run s = (let ds = takeWhile is_digit s in if ds = [] then None else Some (ds, dropWhile is_digit s))"

definition read_fraction :: "string \<Rightarrow> (string \<times> string) option" where
  "read_fraction s = (case s of c # t \<Rightarrow> if c = CHR ''.'' then digit_run t else Some ([], s) | [] \<Rightarrow> Some ([], s))"

definition read_exponent :: "string \<Rightarrow> (int \<times> string) option" where
  "read_exponent s = (case s of
       c # t \<Rightarrow>
         if c = CHR ''e'' \<or> c = CHR ''E'' then
           (case t of
              [] \<Rightarrow> None
            | d # u \<Rightarrow>
              if d = CHR ''-'' then map_option (apfst (\<lambda>ds. - digits_value ds)) (digit_run u)
              else map_option (apfst digits_value) (digit_run (if d = CHR ''+'' then u else t)))
         else Some (0, s)
     | [] \<Rightarrow> Some (0, s))"

definition scaled :: "int \<Rightarrow> int \<Rightarrow> int" where
  "scaled m e = (if 0 \<le> e then m * 10 ^ nat e else m div 10 ^ nat (- e))"

definition read_unsigned :: "int \<Rightarrow> string \<Rightarrow> (int \<times> string) option" where
  "read_unsigned sign s =
     Option.bind (digit_run s) (\<lambda>(ds, s1).
     if hd ds = CHR ''0'' \<and> length ds > 1 then None
     else Option.bind (read_fraction s1) (\<lambda>(fs, s2).
       Option.bind (read_exponent s2) (\<lambda>(e, s3).
       Some (scaled (sign * digits_value (ds @ fs)) (e - int (length fs)), s3))))"

definition read_number :: "string \<Rightarrow> (int \<times> string) option" where
  "read_number s = (case s of c # t \<Rightarrow> if c = CHR ''-'' then read_unsigned (- 1) t else read_unsigned 1 s | [] \<Rightarrow> None)"

section \<open>Values\<close>

definition blank :: "char \<Rightarrow> bool" where
  "blank c \<longleftrightarrow> (of_char c :: nat) \<in> {9, 10, 13, 32}"

definition skip :: "string \<Rightarrow> string" where
  "skip = dropWhile blank"

definition keyword :: "string \<Rightarrow> 'a \<Rightarrow> string \<Rightarrow> ('a \<times> string) option" where
  "keyword k x s = (if starts_with k s then Some (x, drop (length k) s) else None)"

text \<open>
  The first argument bounds the nesting and the number of parts: a list or an object and its first part use
  two, and every further part comes after a character, so twice the length of the text is enough.
\<close>

fun read_value :: "nat \<Rightarrow> string \<Rightarrow> (json \<times> string) option"
  and read_items :: "nat \<Rightarrow> string \<Rightarrow> (json list \<times> string) option"
  and read_members :: "nat \<Rightarrow> string \<Rightarrow> ((string \<times> json) list \<times> string) option" where
  "read_value 0 s = None"
| "read_value (Suc n) s =
     (case skip s of
        [] \<Rightarrow> None
      | c # t \<Rightarrow>
        if c = quotation then map_option (apfst JStr) (read_string t)
        else if c = CHR ''['' then
          (case skip t of
             [] \<Rightarrow> None
           | d # u \<Rightarrow> if d = CHR '']'' then Some (JArr [], u) else map_option (apfst JArr) (read_items n t))
        else if c = CHR ''{'' then
          (case skip t of
             [] \<Rightarrow> None
           | d # u \<Rightarrow> if d = CHR ''}'' then Some (JObj [], u) else map_option (apfst JObj) (read_members n t))
        else if c = CHR ''n'' then keyword ''null'' JNull (c # t)
        else if c = CHR ''t'' then keyword ''true'' (JBool True) (c # t)
        else if c = CHR ''f'' then keyword ''false'' (JBool False) (c # t)
        else map_option (apfst JNum) (read_number (c # t)))"
| "read_items 0 s = None"
| "read_items (Suc n) s =
     (case read_value n s of
        None \<Rightarrow> None
      | Some (x, t) \<Rightarrow>
        (case skip t of
           [] \<Rightarrow> None
         | c # u \<Rightarrow>
           if c = CHR '']'' then Some ([x], u)
           else if c = CHR '','' then map_option (apfst (Cons x)) (read_items n u)
           else None))"
| "read_members 0 s = None"
| "read_members (Suc n) s =
     (case skip s of
        [] \<Rightarrow> None
      | q # s' \<Rightarrow>
        if q \<noteq> quotation then None
        else (case read_string s' of
          None \<Rightarrow> None
        | Some (k, t) \<Rightarrow>
          (case skip t of
             [] \<Rightarrow> None
           | c # u \<Rightarrow>
             if c \<noteq> CHR '':'' then None
             else (case read_value n u of
               None \<Rightarrow> None
             | Some (x, t') \<Rightarrow>
               (case skip t' of
                  [] \<Rightarrow> None
                | d # u' \<Rightarrow>
                  if d = CHR ''}'' then Some ([(k, x)], u')
                  else if d = CHR '','' then map_option (apfst (Cons (k, x))) (read_members n u')
                  else None)))))"

definition json_parse :: "string \<Rightarrow> json option" where
  "json_parse s = (case read_value (Suc (2 * length s)) s of
       None \<Rightarrow> None
     | Some (x, rest) \<Rightarrow> if skip rest = [] then Some x else None)"

fun json_stringify :: "json \<Rightarrow> string" and print_items :: "json list \<Rightarrow> string"
  and print_members :: "(string \<times> json) list \<Rightarrow> string" where
  "json_stringify JNull = ''null''"
| "json_stringify (JBool b) = (if b then ''true'' else ''false'')"
| "json_stringify (JNum i) = show_int i"
| "json_stringify (JStr s) = print_string s"
| "json_stringify (JArr xs) = CHR ''['' # print_items xs @ '']''"
| "json_stringify (JObj ps) = CHR ''{'' # print_members ps @ ''}''"
| "print_items [] = []"
| "print_items [x] = json_stringify x"
| "print_items (x # xs) = json_stringify x @ CHR '','' # print_items xs"
| "print_members [] = []"
| "print_members [(k, x)] = print_string k @ CHR '':'' # json_stringify x"
| "print_members ((k, x) # ps) = print_string k @ CHR '':'' # json_stringify x @ CHR '','' # print_members ps"

section \<open>Reading what was printed\<close>

lemma hex_digits: "n < 16 \<Longrightarrow> hex_value (hex_digit n) = Some n"
  by (auto simp: hex_value_def hex_digit_def Let_def of_char_of)

lemma code_char_of: "of_char c < (128 :: nat) \<Longrightarrow> code_char (of_char c) = c"
  by (simp add: code_char_def)

lemma read_hex:
  assumes "of_char c < (32 :: nat)"
  shows "read_string (backslash # CHR ''u'' # CHR ''0'' # CHR ''0'' # hex_digit (of_char c div 16) # hex_digit (of_char c mod 16) # u) =
    prepend c (read_string u)"
proof -
  have "hex_value (hex_digit (of_char c div 16)) = Some (of_char c div 16)"
    "hex_value (hex_digit (of_char c mod 16)) = Some (of_char c mod 16)" "hex_value (CHR ''0'') = Some 0"
    using assms by (simp_all add: hex_digits less_mult_imp_div_less) (simp add: hex_value_def Let_def)
  moreover have "code_char (of_char c div 16 * 16 + of_char c mod 16) = c"
    using assms code_char_of [of c] by simp
  ultimately show ?thesis by (simp add: quotation_def backslash_def)
qed

lemma char_by_code: "of_char c = (of_char d :: nat) \<Longrightarrow> c = d"
  by (metis char_of_char)

lemma read_print_char: "read_string (print_char c @ u) = prepend c (read_string u)"
proof -
  let ?n = "of_char c :: nat"
  consider "c = quotation \<or> c = backslash" | "?n \<in> {8, 9, 10, 12, 13}" | "?n < 32" "?n \<notin> {8, 9, 10, 12, 13}"
    | "c \<noteq> quotation" "c \<noteq> backslash" "32 \<le> ?n"
    by linarith
  then show ?thesis
  proof cases
    case 1
    then show ?thesis by (auto simp: print_char_def Let_def quotation_def backslash_def)
  next
    case 2
    then have "c = CHR 0x08 \<or> c = CHR 0x09 \<or> c = CHR 0x0A \<or> c = CHR 0x0C \<or> c = CHR 0x0D"
      using char_by_code [of c "CHR 0x08"] char_by_code [of c "CHR 0x09"] char_by_code [of c "CHR 0x0A"]
        char_by_code [of c "CHR 0x0C"] char_by_code [of c "CHR 0x0D"] by auto
    then show ?thesis
      by (elim disjE) (simp_all add: print_char_def Let_def quotation_def backslash_def)
  next
    case 3
    then have "c \<noteq> quotation" "c \<noteq> backslash" by (auto simp: quotation_def backslash_def)
    with 3 show ?thesis using read_hex [of c u] by (simp add: print_char_def Let_def)
  next
    case 4
    then show ?thesis by (auto simp: print_char_def Let_def)
  qed
qed

lemma read_print_string: "read_string (concat (map print_char s) @ quotation # r) = Some (s, r)"
  by (induction s) (simp_all add: read_print_char prepend_def)

text \<open>A number ends where no further character of one comes.\<close>

definition number_end :: "string \<Rightarrow> bool" where
  "number_end s = (case s of [] \<Rightarrow> True | c # _ \<Rightarrow> \<not> is_digit c \<and> c \<noteq> CHR ''.'' \<and> c \<noteq> CHR ''e'' \<and> c \<noteq> CHR ''E'')"

lemma number_ends [simp]: "number_end []" "number_end (CHR '','' # s)" "number_end (CHR '']'' # s)" "number_end (CHR ''}'' # s)"
  by (simp_all add: number_end_def is_digit_def)

lemma digit_run_print:
  assumes "number_end r"
  shows "digit_run (show_nat n @ r) = Some (show_nat n, r)"
proof -
  have r: "takeWhile is_digit r = []" "dropWhile is_digit r = r"
    using assms by (cases r; simp add: number_end_def)+
  show ?thesis using show_nat_digits [of n] r by (simp add: digit_run_def takeWhile_append dropWhile_append)
qed

lemma no_leading_zero: "hd (show_nat n) = CHR ''0'' \<Longrightarrow> length (show_nat n) = 1"
proof (induction n rule: show_nat.induct)
  case (1 n)
  show ?case
  proof (cases "n < 10")
    case False
    have nonempty: "show_nat (n div 10) \<noteq> []" using show_nat_digits by blast
    have split: "show_nat n = show_nat (n div 10) @ [digit_char (n mod 10)]" using False by (subst show_nat.simps) simp
    with 1 False nonempty have "length (show_nat (n div 10)) = 1" "hd (show_nat (n div 10)) = CHR ''0''" by simp_all
    then have "show_nat (n div 10) = ''0''" by (cases "show_nat (n div 10)") auto
    then have "int (n div 10) = 0" using digits_value_show [of "n div 10"] by (simp add: digits_value_def digit_value_def)
    with False show ?thesis by simp
  qed (subst show_nat.simps, simp)
qed

lemma read_unsigned_print:
  assumes "number_end r"
  shows "read_unsigned sign (show_nat n @ r) = Some (sign * int n, r)"
proof -
  have "\<not> (hd (show_nat n) = CHR ''0'' \<and> length (show_nat n) > 1)" using no_leading_zero [of n] by linarith
  moreover have "read_fraction r = Some ([], r)" "read_exponent r = Some (0, r)"
    using assms by (auto simp: read_fraction_def read_exponent_def number_end_def split: list.split)
  ultimately show ?thesis
    by (auto simp: read_unsigned_def digit_run_print [OF assms] digits_value_show scaled_def)
qed

lemma show_nat_first: "\<exists>c u. show_nat n = c # u \<and> is_digit c"
  using show_nat_digits [of n] by (cases "show_nat n") auto

lemma read_number_print:
  assumes "number_end r"
  shows "read_number (show_int i @ r) = Some (i, r)"
proof (cases "i < 0")
  case True
  then show ?thesis by (simp add: show_int_def read_number_def read_unsigned_print [OF assms])
next
  case False
  from show_nat_first [of "nat i"] obtain c u where "show_nat (nat i) = c # u" "is_digit c" by blast
  moreover have "\<not> is_digit (CHR ''-'')" by (simp add: is_digit_def)
  ultimately have "show_nat (nat i) = c # u" "c \<noteq> CHR ''-''" by auto
  with False read_unsigned_print [OF assms, of 1 "nat i"] show ?thesis by (simp add: show_int_def read_number_def)
qed

text \<open>The first character of a print tells what is printed, and none is blank.\<close>

lemma number_first:
  "\<exists>c u. show_int i = c # u \<and> \<not> blank c \<and> c \<noteq> quotation \<and> c \<notin> set ''[]{}ntf,:''"
proof (cases "i < 0")
  case False
  from show_nat_first [of "nat i"] obtain c u where "show_nat (nat i) = c # u" "is_digit c" by blast
  with False show ?thesis by (auto simp: show_int_def is_digit_def blank_def quotation_def)
qed (auto simp: show_int_def blank_def quotation_def)

lemma skip_simps [simp]: "skip [] = []" "\<not> blank c \<Longrightarrow> skip (c # s) = c # s"
  by (simp_all add: skip_def)

lemma marks_not_blank [simp]: "\<not> blank quotation" "\<not> blank (CHR 0x22)" "\<not> blank (CHR ''['')" "\<not> blank (CHR '']'')" "\<not> blank (CHR ''{'')"
  "\<not> blank (CHR ''}'')" "\<not> blank (CHR '','')" "\<not> blank (CHR '':'')" "\<not> blank (CHR ''n'')" "\<not> blank (CHR ''t'')"
  "\<not> blank (CHR ''f'')"
  by (simp_all add: blank_def quotation_def)

lemma print_first:
  "\<exists>c u. json_stringify j = c # u \<and> \<not> blank c \<and> c \<noteq> CHR '']'' \<and> c \<noteq> CHR ''}''"
proof (cases j)
  case (JNum i)
  then show ?thesis using number_first [of i] by auto
qed (auto simp: print_string_def quotation_def blank_def)

lemma keyword_simps [simp]:
  "keyword ''null'' x (''null'' @ r) = Some (x, r)" "keyword ''true'' x (''true'' @ r) = Some (x, r)"
  "keyword ''false'' x (''false'' @ r) = Some (x, r)"
  by (simp_all add: keyword_def starts_with_def)

lemma read_scalar:
  assumes "number_end r"
  shows "read_value (Suc n) (''null'' @ r) = Some (JNull, r)" "read_value (Suc n) (''true'' @ r) = Some (JBool True, r)"
    "read_value (Suc n) (''false'' @ r) = Some (JBool False, r)" "read_value (Suc n) (show_int i @ r) = Some (JNum i, r)"
    "read_value (Suc n) (print_string s @ r) = Some (JStr s, r)"
proof -
  show "read_value (Suc n) (''null'' @ r) = Some (JNull, r)" "read_value (Suc n) (''true'' @ r) = Some (JBool True, r)"
    "read_value (Suc n) (''false'' @ r) = Some (JBool False, r)"
    using keyword_simps [of JNull r] keyword_simps [of "JBool True" r] keyword_simps [of "JBool False" r]
    by (simp_all add: quotation_def)
  obtain c u where "show_int i = c # u" "\<not> blank c" "c \<noteq> quotation" "c \<notin> set ''[]{}ntf,:''"
    using number_first [of i] by blast
  with read_number_print [OF assms, of i] show "read_value (Suc n) (show_int i @ r) = Some (JNum i, r)" by simp
  show "read_value (Suc n) (print_string s @ r) = Some (JStr s, r)"
    by (simp add: print_string_def read_print_string)
qed

lemma print_nonempty: "0 < length (json_stringify j)"
  using print_first [of j] by auto

text \<open>The prints of a value, of the rest of a list and of the rest of an object are read back.\<close>

lemma read_printed:
  shows "2 * length (json_stringify j) < n \<Longrightarrow> number_end r \<Longrightarrow> read_value n (json_stringify j @ r) = Some (j, r)"
    and "xs \<noteq> [] \<Longrightarrow> Suc (2 * length (print_items xs)) < n \<Longrightarrow> read_items n (print_items xs @ CHR '']'' # r) = Some (xs, r)"
    and "ps \<noteq> [] \<Longrightarrow> Suc (2 * length (print_members ps)) < n \<Longrightarrow>
      read_members n (print_members ps @ CHR ''}'' # r) = Some (ps, r)"
proof (induction j and xs and ps arbitrary: n r and n r and n r
    rule: json_stringify_print_items_print_members.induct)
  case (5 xs)
  then obtain m where n: "n = Suc m" by (cases n) auto
  show ?case
  proof (cases xs)
    case Nil
    then show ?thesis by (simp add: n quotation_def)
  next
    case (Cons x ys)
    obtain c u where c: "print_items xs = c # u" "\<not> blank c" "c \<noteq> CHR '']''"
      using print_first [of x] Cons by (cases ys) auto
    have "read_items m (print_items xs @ CHR '']'' # r) = Some (xs, r)"
      using 5 Cons by (simp add: n)
    with c show ?thesis by (simp add: n quotation_def)
  qed
next
  case (6 ps)
  then obtain m where n: "n = Suc m" by (cases n) auto
  show ?case
  proof (cases ps)
    case Nil
    then show ?thesis by (simp add: n quotation_def)
  next
    case (Cons p qs)
    obtain u where u: "print_members ps = quotation # u"
      using Cons by (cases p; cases qs) (auto simp: print_string_def)
    have "read_members m (print_members ps @ CHR ''}'' # r) = Some (ps, r)"
      using 6 Cons by (simp add: n)
    with u show ?thesis by (simp add: n quotation_def)
  qed
next
  case (8 x)
  then obtain m where "n = Suc m" by (cases n) auto
  with 8 show ?case by simp
next
  case (9 x y ys)
  then obtain m where "n = Suc m" by (cases n) auto
  with 9 print_nonempty [of x] show ?case by simp
next
  case (11 k x)
  then obtain m where "n = Suc m" by (cases n) auto
  with 11 show ?case by (simp add: print_string_def read_print_string)
next
  case (12 k x p ps)
  then obtain m where "n = Suc m" by (cases n) auto
  with 12 show ?case by (simp add: print_string_def read_print_string)
next
  case 1
  then show ?case using read_scalar(1) [of r "n - 1"] by simp
next
  case (2 b)
  then show ?case using read_scalar(2,3) [of r "n - 1"] by simp
next
  case (3 i)
  then show ?case using read_scalar(4) [of r "n - 1" i] by simp
next
  case (4 s)
  then show ?case using read_scalar(5) [of r "n - 1" s] by simp
qed simp_all

lemma json_roundtrip: "json_parse (json_stringify j) = Some j"
  using read_printed(1) [of j "Suc (2 * length (json_stringify j))" "[]"] by (simp add: json_parse_def)

end
