(* ===== verification/Auth_Tokens.thy ===== *)
theory Auth_Tokens
  imports Redis_Calls Example
begin

text \<open>
  Sessions and tokens of the auth service, \<open>services/auth/src/utils/session.ts\<close>: access tokens and
  their denylist, refresh tokens in Redis, the record of logins, revocation of all of a user's
  sessions, the security log. A signed token is represented by its claims: a handler that verified
  one gets the claims that were signed.
\<close>

section \<open>What the service takes from its libraries and its configuration\<close>

text \<open>
  Hashing, random bytes and one-time codes are parameters: \<open>randomHex\<close>, \<open>argonHash\<close> and
  \<open>totpSecret\<close> take the number of the draw, \<open>totpVerify\<close> the time. The rest is the configuration
  read from the environment.
\<close>

record auth_env =
  sha256 :: "string \<Rightarrow> string"
  randomHex :: "nat \<Rightarrow> string"
  argonHash :: "nat \<Rightarrow> string \<Rightarrow> string"
  argonVerify :: "string \<Rightarrow> string \<Rightarrow> bool"
  totpSecret :: "nat \<Rightarrow> string"
  totpVerify :: "int \<Rightarrow> string \<Rightarrow> string \<Rightarrow> bool"
  jwtIssuer :: string
  refreshTokenSecs :: int
  mfaTokenSecs :: int
  defaultRole :: role

definition lockoutSecs :: int where "lockoutSecs = 15 * 60"
definition passwordResetSecs :: int where "passwordResetSecs = 60 * 60"
definition emailVerificationSecs :: int where "emailVerificationSecs = 24 * 60 * 60"
definition maxFailedAttempts :: int where "maxFailedAttempts = 5"

record claims =
  cl_sub :: string
  cl_id :: "string option"
  cl_email :: "string option"
  cl_role :: "role option"
  cl_orgId :: "string option"
  cl_iss :: "string option"
  cl_jti :: "string option"
  cl_pendingMfa :: bool
  cl_iat :: int
  cl_exp :: int

record session_grant =
  gr_access :: claims
  gr_refreshToken :: string
  gr_tokenHash :: string

datatype auth_error =
    UserExists | AccountLocked | InvalidCredentials | InvalidVerificationToken | InvalidResetToken
  | RefreshTokenMissing | SessionExpired | SessionCompromised | UserNotFound | ExchangeTokenInvalid
  | OauthNoPassword | IncorrectPassword | ActiveSessionNotFound | TokenRevoked
  | MfaAlreadyEnabled | MfaNotInitialized | InvalidMfaCode | InvalidMfaToken | MfaSetupIncomplete
  | SsoInputMissing | SsoNotConfigured | SsoOrgNotFound | NoVerifiedEmail

datatype 'b answer = Answer nat 'b | Refuse nat auth_error

section \<open>Keys in Redis\<close>

definition denylist_key :: "string \<Rightarrow> string" where
  "denylist_key jti = ''auth:denylist:jti:'' @ jti"

definition revoked_key :: "string \<Rightarrow> string" where
  "revoked_key u = ''auth:revoked:user:'' @ u"

definition refresh_prefix :: "string \<Rightarrow> string" where
  "refresh_prefix u = ''auth:refresh:'' @ u @ '':''"

definition refresh_key :: "string \<Rightarrow> string \<Rightarrow> string" where
  "refresh_key u h = refresh_prefix u @ h"

section \<open>Access tokens\<close>

definition signAccessToken :: "'r env \<Rightarrow> auth_env \<Rightarrow> user \<Rightarrow> ('r world, claims) act" where
  "signAccessToken E A user =
     bnd (new_id E) (\<lambda>jti.
     bnd now (\<lambda>t.
     ret \<lparr>cl_sub = user_id user, cl_id = None, cl_email = Some (user_email user),
       cl_role = Some (user_role user), cl_orgId = js_or_null (user_orgId user),
       cl_iss = Some (jwtIssuer A), cl_jti = Some jti,
       cl_pendingMfa = False, cl_iat = t div 1000, cl_exp = t div 1000 + 15 * 60\<rparr>))"

definition denylistAccessToken :: "'r env \<Rightarrow> string option \<Rightarrow> ('r world, unit) act" where
  "denylistAccessToken E jti =
     (if \<not> truthy jti then ret () else redis_put E (denylist_key (the jti)) ''revoked'' 900)"

definition isTokenDenylisted ::
  "'r env \<Rightarrow> string option \<Rightarrow> string option \<Rightarrow> int option \<Rightarrow> ('r world, bool) act" where
  "isTokenDenylisted E jti userId iat =
     bnd (if truthy jti then redisSafeGet E (denylist_key (the jti)) 250 else ret None) (\<lambda>status.
     if status = Some ''revoked'' then ret True
     else
       bnd (if truthy userId then redisSafeGet E (revoked_key (the userId)) 250 else ret None) (\<lambda>revokedAt.
       ret (truthy revokedAt \<and>
         (case iat of
            None \<Rightarrow> True
          | Some i \<Rightarrow> i = 0 \<or>
              (case parse_int (the revokedAt) of None \<Rightarrow> False | Some r \<Rightarrow> i * 1000 \<le> r)))))"

text \<open>The hook that runs before the account routes, for a request whose token was verified.\<close>

definition account_hook :: "'r env \<Rightarrow> claims \<Rightarrow> ('r world, 'b answer) act \<Rightarrow> ('r world, 'b answer) act" where
  "account_hook E c handler =
     bnd (isTokenDenylisted E (cl_jti c) (Some (cl_sub c)) (Some (cl_iat c))) (\<lambda>denied.
     if denied then ret (Refuse 401 TokenRevoked) else handler)"

section \<open>Sessions\<close>

definition setSessionCookies :: "'r env \<Rightarrow> auth_env \<Rightarrow> user \<Rightarrow> ('r world, session_grant) act" where
  "setSessionCookies E A user =
     bnd (signAccessToken E A user) (\<lambda>accessToken.
     bnd (draw (randomHex A)) (\<lambda>secret.
     let tokenHash = sha256 A secret; refreshToken = user_id user @ ''.'' @ secret in
     sq (redis_put E (refresh_key (user_id user) tokenHash) ''1'' (refreshTokenSecs A))
     (ret \<lparr>gr_access = accessToken, gr_refreshToken = refreshToken, gr_tokenHash = tokenHash\<rparr>)))"

definition createSession ::
  "'r env \<Rightarrow> auth_env \<Rightarrow> nat \<Rightarrow> user \<Rightarrow> ('r world, session_grant answer) act" where
  "createSession E A code user = bnd (setSessionCookies E A user) (\<lambda>g. ret (Answer code g))"

definition touch_login :: "string \<Rightarrow> bool \<Rightarrow> int \<Rightarrow> int \<Rightarrow> db \<Rightarrow> (exn + unit) \<times> db" where
  "touch_login u first t t' d = guarded [(RecordNotFound, \<not> has_user d u)]
     (d\<lparr>users := update_rows (\<lambda>r. user_id r = u)
        (\<lambda>r. if first then r\<lparr>user_lastLoginAt := Some t, user_firstLoginAt := Some t'\<rparr>
             else r\<lparr>user_lastLoginAt := Some t\<rparr>) (users d)\<rparr>) d"

definition create_userSession ::
  "string \<Rightarrow> string \<Rightarrow> string option \<Rightarrow> int \<Rightarrow> db \<Rightarrow> (exn + unit) \<times> db" where
  "create_userSession i u tokenHash t d = guarded
     [(UniqueViolation, has_key us_id i (userSessions d)),
      (UniqueViolation, tokenHash \<noteq> None \<and> has_key us_tokenHash tokenHash (userSessions d)),
      (ForeignKeyViolation, \<not> has_user d u)]
     (d\<lparr>userSessions := userSessions d @ [\<lparr>us_id = i, us_userId = u, us_tokenHash = tokenHash,
        us_lastSeenAt = t, us_revokedAt = None\<rparr>]\<rparr>) d"

definition trackLogin :: "'r env \<Rightarrow> string \<Rightarrow> string option \<Rightarrow> ('r world, unit) act" where
  "trackLogin E u tokenHash =
     bnd (query E (find_user u)) (\<lambda>user.
     bnd now (\<lambda>t.
     let first = (case user of None \<Rightarrow> True | Some r \<Rightarrow> user_firstLoginAt r = None) in
     bnd now (\<lambda>t'.
     sq (run_db E (touch_login u first t t'))
     (with_id E (\<lambda>i. run_db_at E (create_userSession i u tokenHash))))))"

text \<open>One round of the scan: the call that returns the batch, and its deletion.\<close>

definition delete_batch :: "'r env \<Rightarrow> string list \<Rightarrow> ('r world, unit) act" where
  "delete_batch E keys =
     sq (redis_read E (\<lambda>_ _. ()))
     (when_act (keys \<noteq> []) (redis_write E (\<lambda>t. redis_del (redis_api E) t keys)))"

definition revoke_rows :: "string \<Rightarrow> int \<Rightarrow> db \<Rightarrow> db" where
  "revoke_rows u t d = d\<lparr>userSessions := update_rows (\<lambda>s. us_userId s = u \<and> us_revokedAt s = None)
     (\<lambda>s. s\<lparr>us_revokedAt := Some t\<rparr>) (userSessions d)\<rparr>"

definition invalidateAllSessions :: "'r env \<Rightarrow> string \<Rightarrow> ('r world, unit) act" where
  "invalidateAllSessions E u =
     bnd now (\<lambda>t.
     sq (redis_put E (revoked_key u) (show_int t) 900) (
     bnd (look (\<lambda>w. redis_scan (redis_api E) (clock w) (refresh_prefix u) (redis w))) (\<lambda>batches.
     sq (for_each batches (delete_batch E)) (
     bnd now (\<lambda>t'. write_db E (revoke_rows u t'))))))"

definition parseRefreshToken :: "auth_env \<Rightarrow> string option \<Rightarrow> (string \<times> string) option" where
  "parseRefreshToken A raw =
     (if \<not> truthy raw then None
      else case split_on CHR ''.'' (the raw) of
        [userId, secret] \<Rightarrow> Some (userId, refresh_key userId (sha256 A secret))
      | _ \<Rightarrow> None)"

section \<open>The security log\<close>

definition log_row :: "string option \<Rightarrow> string \<Rightarrow> int \<Rightarrow> db \<Rightarrow> db" where
  "log_row u action t d = d\<lparr>securityLogs := securityLogs d @
     [\<lparr>sl_userId = u, sl_action = action, sl_createdAt = t\<rparr>]\<rparr>"

definition logSecurityEvent :: "'r env \<Rightarrow> string option \<Rightarrow> string \<Rightarrow> ('r world, unit) act" where
  "logSecurityEvent E u action = run_db_at E (\<lambda>t d. (Inr (), log_row u action t d))"

section \<open>What revocation does\<close>

lemma clock_tick: "clock w \<le> clock (tick E w)"
  by simp

context redis_store
begin

lemma delete_batches:
  assumes "calm E" and "redis_api E = R"
  shows "\<exists>w'. for_each bs (delete_batch E) w = (Inr (), w') \<and> db w' = db w \<and> fresh w' = fresh w \<and> clock w \<le> clock w' \<and>
    view (redis w') = (\<lambda>k. if \<exists>b \<in> set bs. k \<in> set b then None else view (redis w) k)"
proof (induction bs arbitrary: w)
  case Nil
  then show ?case by (simp add: ret_def)
next
  case (Cons b bs)
  obtain v where v: "delete_batch E b w = (Inr (), v)" "db v = db w" "fresh v = fresh w" "clock w \<le> clock v"
      "view (redis v) = (\<lambda>k. if k \<in> set b then None else view (redis w) k)"
    using assms
    by (cases "b = []") (auto simp: delete_batch_def act_simps calm_runs del_law)
  from Cons.IH [of v] obtain w' where "for_each bs (delete_batch E) v = (Inr (), w')" "db w' = db v" "fresh w' = fresh v"
      "clock v \<le> clock w'"
      "view (redis w') = (\<lambda>k. if \<exists>b \<in> set bs. k \<in> set b then None else view (redis v) k)"
    by blast
  with v show ?case by (auto simp: sq_run)
qed

text \<open>
  After the revocation of all of a user's sessions none of the user's refresh tokens is live, the
  time of the revocation stands in Redis for 15 minutes and the session rows are revoked.
\<close>

lemma invalidate_run:
  assumes "calm E" and "redis_api E = R"
  shows "\<exists>t t' w'. invalidateAllSessions E u w = (Inr (), w') \<and> clock w \<le> t \<and> t \<le> clock w' \<and>
    db w' = revoke_rows u t' (db w) \<and> clock w \<le> t' \<and> fresh w' = fresh w \<and>
    (\<forall>h T. clock w' \<le> T \<longrightarrow> redis_get R T (refresh_key u h) (redis w') = None) \<and>
    (\<exists>x. view (redis w') (revoked_key u) = Some (show_int (clock w), Some x) \<and> clock w + 900000 \<le> x) \<and>
    (\<forall>k. \<not> starts_with (refresh_prefix u) k \<and> k \<noteq> revoked_key u \<longrightarrow> view (redis w') k = view (redis w) k)"
proof -
  define v where "v = (tick E w)\<lparr>redis := redis_set_ex R (clock (tick E w)) (revoked_key u) (show_int (clock w)) 900 (redis w)\<rparr>"
  let ?bs = "redis_scan R (clock v) (refresh_prefix u) (redis v)"
  from delete_batches [OF assms, of ?bs v] obtain v' where
    v': "for_each ?bs (delete_batch E) v = (Inr (), v')" "db v' = db v" "fresh v' = fresh v" "clock v \<le> clock v'"
      "view (redis v') = (\<lambda>k. if \<exists>b \<in> set ?bs. k \<in> set b then None else view (redis v) k)"
    by blast
  let ?w' = "(tick E v')\<lparr>db := revoke_rows u (clock v') (db v')\<rparr>"
  have run: "invalidateAllSessions E u w = (Inr (), ?w')"
    using v'(1) assms(2)
    by (simp add: invalidateAllSessions_def act_simps now_def calm_runs [OF assms(1)]
        calm_redis_runs [OF assms(1)] v_def del: tick_simps(11))
  have other: "\<not> starts_with (refresh_prefix u) (revoked_key u)"
    by (simp add: starts_with_def refresh_prefix_def revoked_key_def)
  have gone: "redis_get R T (refresh_key u h) (redis v') = None" if "clock ?w' \<le> T" for h T
    by (rule scan_del_all [where p = "refresh_prefix u" and r = "redis v" and t = "clock v"])
       (use v' that in \<open>auto simp: refresh_key_def\<close>)
  have keep: "view (redis v') k = view (redis v) k" if "\<not> starts_with (refresh_prefix u) k" for k
    using v'(5) that by (auto dest: scan_match_law)
  have v: "db v = db w" "fresh v = fresh w" "clock w \<le> clock v"
    "view (redis v) = (view (redis w))(revoked_key u \<mapsto> (show_int (clock w), Some (clock v + 900000)))"
    by (simp_all add: v_def set_law)
  show ?thesis
    using run gone keep [OF other] keep v v'(2-4)
    by (intro exI [of _ "clock w"] exI [of _ "clock v'"] exI [of _ ?w']) auto
qed

end

text \<open>Cookies: what the client sends back is what was stored.\<close>

lemma parse_refresh_roundtrip:
  assumes "CHR ''.'' \<notin> set u" and "CHR ''.'' \<notin> set secret"
  shows "parseRefreshToken A (Some (u @ ''.'' @ secret)) = Some (u, refresh_key u (sha256 A secret))"
proof -
  have "split_on CHR ''.'' (u @ CHR ''.'' # secret) = [u, secret]"
    using assms by (simp add: split_on_sep split_on_no_sep)
  then show ?thesis by (simp add: parseRefreshToken_def)
qed

end
