(* ===== verification/Accounts.thy ===== *)
theory Accounts
  imports Auth_Tokens Cascades Json
begin

text \<open>
  The account routes of the auth service, \<open>services/auth/src/routes/account.ts\<close>: registration,
  login with its lockout, the rotation of refresh tokens, password resets, log-outs and the deletion
  of an account. Handlers behind \<open>jwtVerify\<close> take the verified claims as an argument.
\<close>

section \<open>Keys\<close>

definition fails_key :: "string \<Rightarrow> string" where
  "fails_key email = ''auth:fails:'' @ email"

definition lockout_key :: "string \<Rightarrow> string" where
  "lockout_key email = ''auth:lockout:'' @ email"

definition verify_key :: "string \<Rightarrow> string" where
  "verify_key token = ''auth:verify-email:'' @ token"

definition reset_key :: "string \<Rightarrow> string" where
  "reset_key token = ''auth:reset-password:'' @ token"

definition exchange_key :: "string \<Rightarrow> string" where
  "exchange_key token = ''auth:exchange:'' @ token"

section \<open>Rows\<close>

definition new_user :: "string \<Rightarrow> string \<Rightarrow> string option \<Rightarrow> string option \<Rightarrow> role \<Rightarrow> user" where
  "new_user i email pw name r = \<lparr>user_id = i, user_name = name, user_username = None,
     user_email = email, user_password = pw, user_role = r, user_xp = 0,
     user_isPublic = True, user_orgId = None, user_onboardingState = ObNew,
     user_emailVerified = None, user_githubId = None, user_googleId = None, user_ssoId = None,
     user_mfaEnabled = False, user_mfaSecret = None, user_avatarUrl = None, user_jobTitle = None,
     user_lastLoginAt = None, user_firstLoginAt = None, user_currentStreak = 0,
     user_longestStreak = 0, user_lastActivityDate = None\<rparr>"

text \<open>The unique columns besides the email address are those of the identity providers.\<close>

definition taken :: "(user \<Rightarrow> string option) \<Rightarrow> user \<Rightarrow> db \<Rightarrow> bool" where
  "taken col u d \<longleftrightarrow> col u \<noteq> None \<and> (\<exists>r \<in> set (users d). user_id r \<noteq> user_id u \<and> col r = col u)"

definition insert_user :: "user \<Rightarrow> db \<Rightarrow> (exn + unit) \<times> db" where
  "insert_user u d = guarded
     [(UniqueViolation, has_user d (user_id u)),
      (UniqueViolation, has_key user_email (user_email u) (users d)),
      (UniqueViolation, taken user_githubId u d \<or> taken user_googleId u d \<or> taken user_ssoId u d)]
     (d\<lparr>users := users d @ [u]\<rparr>) d"

definition update_user :: "string \<Rightarrow> (user \<Rightarrow> user) \<Rightarrow> db \<Rightarrow> (exn + unit) \<times> db" where
  "update_user u f d = guarded [(RecordNotFound, \<not> has_user d u)]
     (d\<lparr>users := update_rows (\<lambda>r. user_id r = u) f (users d)\<rparr>) d"

definition file_auth_event ::
  "'r env \<Rightarrow> string \<Rightarrow> payload \<Rightarrow> int \<Rightarrow> db \<Rightarrow> (exn + unit) \<times> db" where
  "file_auth_event E ty p t d = (Inr (), d\<lparr>authOutbox := authOutbox d @
     [new_outbox_event (cuid E (map ob_id (authOutbox d))) ty p t]\<rparr>)"

abbreviation find_email :: "string \<Rightarrow> db \<Rightarrow> user option" where
  "find_email e d \<equiv> find (\<lambda>r. user_email r = e) (users d)"

section \<open>Guests and registration\<close>

definition guest_token :: "'r env \<Rightarrow> auth_env \<Rightarrow> string \<Rightarrow> ('r world, claims \<times> string) act" where
  "guest_token E A guestId =
     (let guestUserId = ''guest_'' @ guestId in
     bnd (new_id E) (\<lambda>jti.
     bnd now (\<lambda>t.
     ret (\<lparr>cl_sub = guestUserId, cl_id = None,
       cl_email = Some (guestUserId @ ''@trial.devopslab.internal''), cl_role = Some GUEST,
       cl_orgId = None, cl_iss = Some (jwtIssuer A), cl_jti = Some jti, cl_pendingMfa = False,
       cl_iat = t div 1000, cl_exp = t div 1000 + 15 * 60\<rparr>, guestUserId))))"

definition register_tx ::
  "'r env \<Rightarrow> auth_env \<Rightarrow> string \<Rightarrow> string \<Rightarrow> string option \<Rightarrow> string \<Rightarrow> ('r world, user) act" where
  "register_tx E A email hashedPassword name verificationToken = interactive E (
     with_id E (\<lambda>i.
     let u = new_user i email (Some hashedPassword) name (defaultRole A) in
     sq (run_db E (insert_user u)) (
     sq (run_db_at E (file_auth_event E ''UserRegisteredEvent'' (UserRegistered i email name))) (
     sq (run_db_at E (file_auth_event E ''EmailVerificationRequestedEvent''
          (EmailVerificationRequested i email verificationToken))) (
     sq (run_db_at E (\<lambda>t d. (Inr (), log_row (Some i) ''REGISTER'' t d))) (
     ret u))))))"

definition register ::
  "'r env \<Rightarrow> auth_env \<Rightarrow> string \<Rightarrow> string \<Rightarrow> string option \<Rightarrow> ('r world, session_grant answer) act" where
  "register E A email password name =
     bnd (query E (find_email email)) (\<lambda>existing.
     if existing \<noteq> None then ret (Refuse 400 UserExists)
     else
       bnd (draw (\<lambda>n. argonHash A n password)) (\<lambda>hashedPassword.
       bnd (new_id E) (\<lambda>verificationToken.
       bnd (register_tx E A email hashedPassword name verificationToken) (\<lambda>user.
       sq (redis_put E (verify_key verificationToken) (user_id user) emailVerificationSecs)
       (createSession E A 201 user)))))"

section \<open>Login\<close>

datatype login_result = LoggedIn session_grant | MfaRequired claims

definition count_failure :: "'r env \<Rightarrow> string \<Rightarrow> ('r world, unit) act" where
  "count_failure E email =
     bnd (redis_count E (fails_key email)) (\<lambda>fails.
     sq (when_act (fails = 1) (redis_expires E (fails_key email) lockoutSecs))
     (when_act (fails \<ge> maxFailedAttempts) (redis_put E (lockout_key email) ''1'' lockoutSecs)))"

definition handleLoginFail :: "'r env \<Rightarrow> string \<Rightarrow> string option \<Rightarrow> ('r world, unit) act" where
  "handleLoginFail E email userId =
     bnd (redisSafeExecute (count_failure E email) 300) (\<lambda>_.
     logSecurityEvent E userId ''LOGIN_FAILED'')"

definition mfa_claims :: "auth_env \<Rightarrow> string \<Rightarrow> int \<Rightarrow> claims" where
  "mfa_claims A u t = \<lparr>cl_sub = u, cl_id = None, cl_email = None, cl_role = None, cl_orgId = None,
     cl_iss = None, cl_jti = None, cl_pendingMfa = True, cl_iat = t div 1000,
     cl_exp = t div 1000 + mfaTokenSecs A\<rparr>"

definition login ::
  "'r env \<Rightarrow> auth_env \<Rightarrow> string \<Rightarrow> string \<Rightarrow> ('r world, login_result answer) act" where
  "login E A email password =
     bnd (redisSafeGet E (lockout_key email) 250) (\<lambda>locked.
     if truthy locked then
       sq (logSecurityEvent E None ''LOCKOUT'') (ret (Refuse 429 AccountLocked))
     else
       bnd (query E (find_email email)) (\<lambda>found.
       case found of
         None \<Rightarrow> sq (handleLoginFail E email None) (ret (Refuse 401 InvalidCredentials))
       | Some user \<Rightarrow>
           if \<not> truthy (user_password user) \<or>
              \<not> argonVerify A (the (user_password user)) password then
             sq (handleLoginFail E email (Some (user_id user))) (ret (Refuse 401 InvalidCredentials))
           else
             bnd (redisSafeExecute (redis_delete E (fails_key email)) 250) (\<lambda>_.
             sq (logSecurityEvent E (Some (user_id user)) ''LOGIN_SUCCESS'') (
             if user_mfaEnabled user then
               bnd now (\<lambda>t. ret (Answer 200 (MfaRequired (mfa_claims A (user_id user) t))))
             else
               bnd (setSessionCookies E A user) (\<lambda>g.
               sq (trackLogin E (user_id user) (Some (gr_tokenHash g)))
               (ret (Answer 200 (LoggedIn g))))))))"

section \<open>Email addresses and passwords\<close>

definition verify_email :: "'r env \<Rightarrow> string \<Rightarrow> ('r world, unit answer) act" where
  "verify_email E token =
     bnd (redis_lookup E (verify_key token)) (\<lambda>userId.
     if \<not> truthy userId then ret (Refuse 400 InvalidVerificationToken)
     else
       bnd now (\<lambda>t.
       sq (run_db E (update_user (the userId) (\<lambda>r. r\<lparr>user_emailVerified := Some t\<rparr>))) (
       sq (redis_delete E (verify_key token))
       (ret (Answer 200 ())))))"

definition forgot_password :: "'r env \<Rightarrow> auth_env \<Rightarrow> string \<Rightarrow> ('r world, unit answer) act" where
  "forgot_password E A email =
     bnd (query E (find_email email)) (\<lambda>found.
     case found of
       None \<Rightarrow> ret (Answer 200 ())
     | Some user \<Rightarrow>
         bnd (draw (randomHex A)) (\<lambda>resetToken.
         sq (interactive E (run_db_at E (file_auth_event E ''PasswordResetRequestedEvent''
              (PasswordResetRequested (user_id user) (user_email user) resetToken)))) (
         sq (redis_put E (reset_key resetToken) (user_id user) passwordResetSecs)
         (ret (Answer 200 ())))))"

definition reset_password ::
  "'r env \<Rightarrow> auth_env \<Rightarrow> string \<Rightarrow> string \<Rightarrow> ('r world, unit answer) act" where
  "reset_password E A token newPassword =
     bnd (redis_lookup E (reset_key token)) (\<lambda>userId.
     if \<not> truthy userId then ret (Refuse 400 InvalidResetToken)
     else
       bnd (draw (\<lambda>n. argonHash A n newPassword)) (\<lambda>hashedPassword.
       sq (interactive E (
         sq (run_db E (update_user (the userId) (\<lambda>r. r\<lparr>user_password := Some hashedPassword\<rparr>)))
         (run_db_at E (\<lambda>t d. (Inr (), log_row userId ''PASSWORD_RESET'' t d))))) (
       sq (redis_delete E (reset_key token)) (
       sq (invalidateAllSessions E (the userId))
       (ret (Answer 200 ()))))))"

definition change_password ::
  "'r env \<Rightarrow> auth_env \<Rightarrow> claims \<Rightarrow> string \<Rightarrow> string \<Rightarrow> ('r world, unit answer) act" where
  "change_password E A c currentPassword newPassword =
     bnd (query E (find_user (cl_sub c))) (\<lambda>found.
     case found of
       None \<Rightarrow> ret (Refuse 404 UserNotFound)
     | Some user \<Rightarrow>
         if \<not> truthy (user_password user) then ret (Refuse 400 OauthNoPassword)
         else if \<not> argonVerify A (the (user_password user)) currentPassword then
           ret (Refuse 401 IncorrectPassword)
         else
           bnd (draw (\<lambda>n. argonHash A n newPassword)) (\<lambda>hashed.
           sq (run_db E (update_user (cl_sub c) (\<lambda>r. r\<lparr>user_password := Some hashed\<rparr>)))
           (ret (Answer 200 ()))))"

section \<open>Refresh tokens\<close>

text \<open>
  The value of a refresh key is \<open>1\<close>, or the JSON text that tells when the token was rotated. What other
  texts there might be: \<open>null\<close> has no status and throws like a text that is not JSON; any other value without the
  status counts for nothing. The service writes the time as a number; of other values \<open>null\<close> and the truth values
  count as numbers and a missing one compares with nothing, while the conversion of texts and arrays is left out.
\<close>

datatype refresh_state = StateUnparseable | StateOther | StateRotated "int option"

definition rotated_state :: "int \<Rightarrow> string" where
  "rotated_state t = json_stringify (JObj [(''status'', JStr ''ROTATED''), (''rotatedAt'', JNum t)])"

definition as_number :: "json option \<Rightarrow> int option" where
  "as_number v = (case v of
       Some (JNum i) \<Rightarrow> Some i
     | Some JNull \<Rightarrow> Some 0
     | Some (JBool b) \<Rightarrow> Some (if b then 1 else 0)
     | _ \<Rightarrow> None)"

definition parse_state :: "string \<Rightarrow> refresh_state" where
  "parse_state s = (case json_parse s of
       None \<Rightarrow> StateUnparseable
     | Some JNull \<Rightarrow> StateUnparseable
     | Some (JObj ps) \<Rightarrow>
         if json_field ''status'' ps = Some (JStr ''ROTATED'') then StateRotated (as_number (json_field ''rotatedAt'' ps))
         else StateOther
     | Some _ \<Rightarrow> StateOther)"

definition in_grace :: "int \<Rightarrow> int option \<Rightarrow> bool" where
  "in_grace t rotatedAt = (case rotatedAt of Some a \<Rightarrow> t - a \<le> 10000 | None \<Rightarrow> False)"

text \<open>What the state of a token means for the refresh: the error it is refused with, or none.\<close>

definition rotation ::
  "'r env \<Rightarrow> auth_env \<Rightarrow> string \<Rightarrow> string \<Rightarrow> string \<Rightarrow> ('r world, auth_error option) act" where
  "rotation E A userId redisKey tokenState =
     (if tokenState \<noteq> ''1'' then
        catch (case parse_state tokenState of
            StateUnparseable \<Rightarrow> ret (Some SessionExpired)
          | StateOther \<Rightarrow> ret None
          | StateRotated rotatedAt \<Rightarrow>
              bnd now (\<lambda>t.
              if in_grace t rotatedAt then ret None
              else
                sq (invalidateAllSessions E userId) (
                sq (logSecurityEvent E (Some userId) ''REVOCATION_BREACH'')
                (ret (Some SessionCompromised)))))
          (\<lambda>_. ret (Some SessionExpired))
      else
        bnd now (\<lambda>t.
        sq (redis_put E redisKey (rotated_state t) (refreshTokenSecs A)) (ret None)))"

definition refresh ::
  "'r env \<Rightarrow> auth_env \<Rightarrow> string option \<Rightarrow> ('r world, session_grant answer) act" where
  "refresh E A cookie =
     (case parseRefreshToken A cookie of
        None \<Rightarrow> ret (Refuse 401 RefreshTokenMissing)
      | Some (userId, redisKey) \<Rightarrow>
          bnd (redis_lookup E redisKey) (\<lambda>tokenState.
          if \<not> truthy tokenState then ret (Refuse 401 SessionExpired)
          else
            bnd (rotation E A userId redisKey (the tokenState)) (\<lambda>refusal.
            case refusal of
              Some e \<Rightarrow> ret (Refuse 401 e)
            | None \<Rightarrow>
                bnd (query E (find_user userId)) (\<lambda>user.
                case user of
                  None \<Rightarrow> ret (Refuse 401 UserNotFound)
                | Some u \<Rightarrow> createSession E A 200 u))))"

definition exchange ::
  "'r env \<Rightarrow> auth_env \<Rightarrow> string \<Rightarrow> ('r world, session_grant answer) act" where
  "exchange E A exchange_token =
     bnd (redis_take E (exchange_key exchange_token)) (\<lambda>userId.
     if \<not> truthy userId then ret (Refuse 401 ExchangeTokenInvalid)
     else
       bnd (query E (find_user (the userId))) (\<lambda>user.
       case user of
         None \<Rightarrow> ret (Refuse 401 UserNotFound)
       | Some u \<Rightarrow> bnd (setSessionCookies E A u) (\<lambda>g. ret (Answer 200 g))))"

section \<open>The profile and the account\<close>

definition me :: "'r env \<Rightarrow> claims \<Rightarrow> ('r world, (user \<times> bool) answer) act" where
  "me E c =
     bnd (query E (find_user (cl_sub c))) (\<lambda>user.
     case user of
       None \<Rightarrow> ret (Refuse 404 UserNotFound)
     | Some u \<Rightarrow>
         bnd (query E (find_user (cl_sub c))) (\<lambda>passwordCheck.
         ret (Answer 200 (u, (case passwordCheck of None \<Rightarrow> False | Some r \<Rightarrow> truthy (user_password r))))))"

definition update_me ::
  "'r env \<Rightarrow> claims \<Rightarrow> string option \<Rightarrow> string option \<Rightarrow> ('r world, unit answer) act" where
  "update_me E c name jobTitle =
     sq (run_db E (update_user (cl_sub c) (\<lambda>r. r\<lparr>
          user_name := (if name = None then user_name r else name),
          user_jobTitle := (if jobTitle = None then user_jobTitle r else jobTitle)\<rparr>)))
     (ret (Answer 200 ()))"

definition delete_account :: "'r env \<Rightarrow> claims \<Rightarrow> ('r world, unit answer) act" where
  "delete_account E c =
     (let sub = cl_sub c in
     sq (interactive E (
       sq (run_db_at E (file_auth_event E ''UserDeletedEvent'' (UserDeleted sub))) (
       sq (write_db E (\<lambda>d. d\<lparr>securityLogs := filter (\<lambda>l. sl_userId l \<noteq> Some sub) (securityLogs d)\<rparr>)) (
       sq (write_db E (\<lambda>d. d\<lparr>submissions := filter (\<lambda>s. sub_userId s \<noteq> sub) (submissions d)\<rparr>)) (
       sq (write_db E (\<lambda>d. d\<lparr>completions := filter (\<lambda>r. co_userId r \<noteq> sub) (completions d)\<rparr>)) (
       sq (write_db E (\<lambda>d. d\<lparr>labSessions := filter (\<lambda>s. ls_userId s \<noteq> sub) (labSessions d)\<rparr>))
       (run_db E (delete_user sub)))))))) (
     sq (invalidateAllSessions E sub) (
     sq (denylistAccessToken E (cl_jti c))
     (ret (Answer 200 ())))))"

section \<open>Log-outs\<close>

text \<open>\<open>who\<close> are the claims of the access token when it verifies.\<close>

definition logout ::
  "'r env \<Rightarrow> auth_env \<Rightarrow> claims option \<Rightarrow> string option \<Rightarrow> ('r world, unit answer) act" where
  "logout E A who cookie =
     sq (case parseRefreshToken A cookie of
           None \<Rightarrow> ret ()
         | Some (userId, redisKey) \<Rightarrow>
             sq (redis_delete E redisKey) (logSecurityEvent E (Some userId) ''LOGOUT'')) (
     sq (case who of None \<Rightarrow> ret () | Some c \<Rightarrow> denylistAccessToken E (cl_jti c))
     (ret (Answer 200 ())))"

definition logout_all :: "'r env \<Rightarrow> claims \<Rightarrow> ('r world, unit answer) act" where
  "logout_all E c =
     sq (invalidateAllSessions E (cl_sub c)) (
     sq (denylistAccessToken E (cl_jti c)) (
     sq (logSecurityEvent E (Some (cl_sub c)) ''LOGOUT_ALL'')
     (ret (Answer 200 ()))))"

definition page_of :: "string option \<Rightarrow> int" where
  "page_of page = (case parse_int (js_or page ''1'') of None \<Rightarrow> 1 | Some p \<Rightarrow> if p < 1 then 1 else p)"

definition limit_of :: "string option \<Rightarrow> int" where
  "limit_of limit = (case parse_int (js_or limit ''20'') of
     None \<Rightarrow> 20 | Some l \<Rightarrow> if l < 1 then 20 else min l 100)"

definition security_log ::
  "'r env \<Rightarrow> claims \<Rightarrow> string option \<Rightarrow> string option \<Rightarrow>
   ('r world, security_log list \<times> nat \<times> int \<times> int) act" where
  "security_log E c qpage qlimit =
     (let page = page_of qpage; limit = limit_of qlimit in
     bnd (query E (\<lambda>d. take (nat limit) (drop (nat ((page - 1) * limit))
       (sort_key (\<lambda>l. - sl_createdAt l) (filter (\<lambda>l. sl_userId l = Some (cl_sub c)) (securityLogs d)))))) (\<lambda>logs.
     bnd (query E (\<lambda>d. count_rows (\<lambda>l. sl_userId l = Some (cl_sub c)) (securityLogs d))) (\<lambda>total.
     ret (logs, total, page, limit))))"

definition active_sessions :: "'r env \<Rightarrow> claims \<Rightarrow> ('r world, user_session list) act" where
  "active_sessions E c = query E (\<lambda>d. sort_key (\<lambda>s. - us_lastSeenAt s)
     (filter (\<lambda>s. us_userId s = cl_sub c \<and> us_revokedAt s = None) (userSessions d)))"

definition revoke_session :: "'r env \<Rightarrow> claims \<Rightarrow> string \<Rightarrow> ('r world, unit answer) act" where
  "revoke_session E c sessionId =
     bnd (query E (\<lambda>d. find (\<lambda>s. us_id s = sessionId \<and> us_userId s = cl_sub c \<and> us_revokedAt s = None)
       (userSessions d))) (\<lambda>found.
     case found of
       None \<Rightarrow> ret (Refuse 404 ActiveSessionNotFound)
     | Some session \<Rightarrow>
         bnd now (\<lambda>t.
         sq (run_db E (\<lambda>d. guarded [(RecordNotFound, \<not> has_key us_id (us_id session) (userSessions d))]
              (d\<lparr>userSessions := update_rows (\<lambda>s. us_id s = us_id session)
                 (\<lambda>s. s\<lparr>us_revokedAt := Some t\<rparr>) (userSessions d)\<rparr>) d)) (
         sq (when_act (truthy (us_tokenHash session))
              (redis_delete E (refresh_key (cl_sub c) (the (us_tokenHash session)))))
         (ret (Answer 200 ())))))"

end
