(* ===== verification/Federated_Login.thy ===== *)
theory Federated_Login
  imports Accounts
begin

text \<open>
  The second factor (\<open>services/auth/src/routes/mfa.ts\<close>) and the logins through GitHub, Google and an
  organization's identity provider (\<open>services/auth/src/routes/oauth.ts\<close>). What the providers
  answer is an argument of the handlers.
\<close>

section \<open>One-time codes\<close>

definition mfa_setup :: "'r env \<Rightarrow> auth_env \<Rightarrow> claims \<Rightarrow> ('r world, string answer) act" where
  "mfa_setup E A c =
     bnd (query E (find_user (cl_sub c))) (\<lambda>user.
     if (case user of None \<Rightarrow> False | Some u \<Rightarrow> user_mfaEnabled u) then
       ret (Refuse 400 MfaAlreadyEnabled)
     else
       bnd (draw (totpSecret A)) (\<lambda>secret.
       sq (run_db E (update_user (cl_sub c) (\<lambda>r. r\<lparr>user_mfaSecret := Some secret\<rparr>)))
       (ret (Answer 200 secret))))"

definition mfa_verify :: "'r env \<Rightarrow> auth_env \<Rightarrow> claims \<Rightarrow> string \<Rightarrow> ('r world, unit answer) act" where
  "mfa_verify E A c code =
     bnd (query E (find_user (cl_sub c))) (\<lambda>found.
     case found of
       None \<Rightarrow> ret (Refuse 400 MfaNotInitialized)
     | Some user \<Rightarrow>
         if \<not> truthy (user_mfaSecret user) then ret (Refuse 400 MfaNotInitialized)
         else if user_mfaEnabled user then ret (Refuse 400 MfaAlreadyEnabled)
         else
           bnd now (\<lambda>t.
           if \<not> totpVerify A t code (the (user_mfaSecret user)) then ret (Refuse 401 InvalidMfaCode)
           else
             sq (run_db E (update_user (cl_sub c) (\<lambda>r. r\<lparr>user_mfaEnabled := True\<rparr>)))
             (ret (Answer 200 ()))))"

text \<open>\<open>decoded\<close> are the claims of the token, when it verifies.\<close>

definition login_mfa ::
  "'r env \<Rightarrow> auth_env \<Rightarrow> claims option \<Rightarrow> string \<Rightarrow> ('r world, session_grant answer) act" where
  "login_mfa E A decoded code =
     catch (case decoded of
         None \<Rightarrow> throw ErrorThrown
       | Some c \<Rightarrow>
           if \<not> cl_pendingMfa c then ret (Refuse 401 InvalidMfaToken)
           else
             bnd (query E (find_user (cl_sub c))) (\<lambda>found.
             case found of
               None \<Rightarrow> ret (Refuse 401 MfaSetupIncomplete)
             | Some user \<Rightarrow>
                 if \<not> truthy (user_mfaSecret user) then ret (Refuse 401 MfaSetupIncomplete)
                 else
                   bnd now (\<lambda>t.
                   if \<not> totpVerify A t code (the (user_mfaSecret user)) then
                     ret (Refuse 401 InvalidMfaCode)
                   else createSession E A 200 user)))
       (\<lambda>_. ret (Refuse 401 InvalidMfaToken))"

section \<open>Identity providers\<close>

datatype provider = Github | Google | Sso

record oauth_profile =
  op_provider :: provider
  op_providerId :: string
  op_email :: string
  op_name :: "string option"
  op_avatarUrl :: "string option"
  op_emailVerified :: bool
  op_orgId :: "string option"

record github_email =
  gh_email :: string
  gh_primary :: bool
  gh_verified :: bool

record github_user =
  ghu_id :: int
  ghu_email :: "string option"
  ghu_name :: "string option"
  ghu_avatar_url :: "string option"

record google_user =
  ggu_id :: string
  ggu_email :: string
  ggu_name :: string
  ggu_verified_email :: bool
  ggu_picture :: "string option"

fun provider_id :: "provider \<Rightarrow> user \<Rightarrow> string option" where
  "provider_id Github u = user_githubId u"
| "provider_id Google u = user_googleId u"
| "provider_id Sso u = user_ssoId u"

fun set_provider_id :: "provider \<Rightarrow> string \<Rightarrow> user \<Rightarrow> user" where
  "set_provider_id Github i u = u\<lparr>user_githubId := Some i\<rparr>"
| "set_provider_id Google i u = u\<lparr>user_googleId := Some i\<rparr>"
| "set_provider_id Sso i u = u\<lparr>user_ssoId := Some i\<rparr>"

definition createExchangeToken :: "'r env \<Rightarrow> string \<Rightarrow> ('r world, string) act" where
  "createExchangeToken E userId =
     bnd (new_id E) (\<lambda>exchangeToken.
     sq (redis_put E (exchange_key exchangeToken) userId 60)
     (ret exchangeToken))"

text \<open>\<open>emails\<close> is what GitHub lists for the user, asked for only without a public address.\<close>

definition resolveGithubEmail :: "string option \<Rightarrow> github_email list \<Rightarrow> string option" where
  "resolveGithubEmail profileEmail emails =
     (if truthy profileEmail then profileEmail
      else map_option gh_email (find (\<lambda>e. gh_primary e \<and> gh_verified e) emails))"

text \<open>Links a provider to an account; \<open>unverified\<close> tells whether its address was when it was read.\<close>

definition link_account :: "oauth_profile \<Rightarrow> bool \<Rightarrow> int \<Rightarrow> user \<Rightarrow> user" where
  "link_account p unverified t u =
     (let v = (set_provider_id (op_provider p) (op_providerId p) u)\<lparr>user_avatarUrl := op_avatarUrl p\<rparr>;
          v = (if truthy (op_orgId p) then v\<lparr>user_orgId := op_orgId p\<rparr> else v)
      in if op_emailVerified p \<and> unverified then v\<lparr>user_emailVerified := Some t\<rparr> else v)"

definition store_link :: "oauth_profile \<Rightarrow> bool \<Rightarrow> int \<Rightarrow> db \<Rightarrow> (exn + unit) \<times> db" where
  "store_link p unverified t d = guarded
     [(RecordNotFound, \<not> has_key user_email (op_email p) (users d)),
      (UniqueViolation, \<exists>r \<in> set (users d). user_email r \<noteq> op_email p \<and>
         provider_id (op_provider p) r = Some (op_providerId p))]
     (d\<lparr>users := update_rows (\<lambda>r. user_email r = op_email p) (link_account p unverified t) (users d)\<rparr>) d"

definition oauth_user :: "oauth_profile \<Rightarrow> string \<Rightarrow> int \<Rightarrow> user" where
  "oauth_user p i t = (set_provider_id (op_provider p) (op_providerId p)
     (new_user i (op_email p) None (op_name p) LEARNER))
       \<lparr>user_avatarUrl := op_avatarUrl p, user_orgId := op_orgId p,
        user_emailVerified := (if op_emailVerified p then Some t else None)\<rparr>"

definition findOrCreateOAuthUser :: "'r env \<Rightarrow> oauth_profile \<Rightarrow> ('r world, user) act" where
  "findOrCreateOAuthUser E p = interactive E (
     bnd (query E (\<lambda>d. find (\<lambda>r. provider_id (op_provider p) r = Some (op_providerId p)) (users d))) (\<lambda>known.
     case known of
       Some user \<Rightarrow>
         if op_emailVerified p \<and> user_emailVerified user = None then
           bnd now (\<lambda>t.
           sq (run_db E (update_user (user_id user) (\<lambda>r. r\<lparr>user_emailVerified := Some t\<rparr>)))
           (ret (user\<lparr>user_emailVerified := Some t\<rparr>)))
         else ret user
     | None \<Rightarrow>
         bnd (query E (find_email (op_email p))) (\<lambda>existingByEmail.
         bnd now (\<lambda>t.
         case existingByEmail of
           Some u \<Rightarrow>
             let unverified = user_emailVerified u = None in
             sq (run_db E (store_link p unverified t)) (ret (link_account p unverified t u))
         | None \<Rightarrow>
             with_id E (\<lambda>i.
             let v = oauth_user p i t in
             sq (run_db E (insert_user v)) (
             sq (run_db_at E (file_auth_event E ''UserRegisteredEvent''
                  (UserRegistered i (user_email v) (user_name v))))
             (ret v)))))))"

text \<open>The end of every provider's callback: the login is recorded, an exchange token is issued.\<close>

definition finish_login :: "'r env \<Rightarrow> oauth_profile \<Rightarrow> ('r world, string) act" where
  "finish_login E p =
     bnd (findOrCreateOAuthUser E p) (\<lambda>user.
     sq (trackLogin E (user_id user) None)
     (createExchangeToken E (user_id user)))"

definition github_callback ::
  "'r env \<Rightarrow> github_user \<Rightarrow> github_email list \<Rightarrow> ('r world, string answer) act" where
  "github_callback E gh emails =
     (let email = resolveGithubEmail (ghu_email gh) emails in
      if \<not> truthy email then ret (Refuse 400 NoVerifiedEmail)
      else
        bnd (finish_login E \<lparr>op_provider = Github, op_providerId = show_int (ghu_id gh),
               op_email = the email, op_name = ghu_name gh, op_avatarUrl = ghu_avatar_url gh,
               op_emailVerified = True, op_orgId = None\<rparr>) (\<lambda>token.
        ret (Answer 302 token)))"

definition google_callback :: "'r env \<Rightarrow> google_user \<Rightarrow> ('r world, string answer) act" where
  "google_callback E g =
     bnd (finish_login E \<lparr>op_provider = Google, op_providerId = ggu_id g,
            op_email = ggu_email g, op_name = Some (ggu_name g), op_avatarUrl = ggu_picture g,
            op_emailVerified = ggu_verified_email g, op_orgId = None\<rparr>) (\<lambda>token.
     ret (Answer 302 token))"

section \<open>The identity provider of an organization\<close>

definition sso_match :: "string option \<Rightarrow> string option \<Rightarrow> org \<Rightarrow> bool" where
  "sso_match orgSlug domain r \<longleftrightarrow>
     truthy orgSlug \<and> Some (org_slug r) = orgSlug \<or> truthy domain \<and> org_ssoDomain r = domain"

definition sso_discovery ::
  "'r env \<Rightarrow> string option \<Rightarrow> string option \<Rightarrow> ('r world, (org \<times> string) answer) act" where
  "sso_discovery E domain orgSlug =
     (if \<not> truthy domain \<and> \<not> truthy orgSlug then ret (Refuse 400 SsoInputMissing)
      else
        bnd (query E (\<lambda>d. find (sso_match orgSlug domain) (orgs d))) (\<lambda>found.
        case found of
          None \<Rightarrow> ret (Refuse 404 SsoNotConfigured)
        | Some r \<Rightarrow>
            if \<not> truthy (org_ssoDomain r) \<and> \<not> truthy (org_ssoProvider r) then
              ret (Refuse 404 SsoNotConfigured)
            else ret (Answer 200 (r, js_or (org_ssoProvider r) ''SAML''))))"

definition domain_of :: "string option \<Rightarrow> string option" where
  "domain_of email =
     (if truthy email \<and> CHR ''@'' \<in> set (the email) then Some (split_on CHR ''@'' (the email) ! 1)
      else None)"

definition login_sso ::
  "'r env \<Rightarrow> string option \<Rightarrow> string option \<Rightarrow> string option \<Rightarrow> string option \<Rightarrow> string option \<Rightarrow>
   ('r world, (string \<times> org \<times> string) answer) act" where
  "login_sso E email orgSlug ssoId name avatarUrl =
     (if \<not> truthy email \<and> \<not> truthy orgSlug \<and> \<not> truthy ssoId then ret (Refuse 400 SsoInputMissing)
      else
        bnd (query E (\<lambda>d. find (sso_match orgSlug (domain_of email)) (orgs d))) (\<lambda>found.
        case found of
          None \<Rightarrow> ret (Refuse 404 SsoOrgNotFound)
        | Some r \<Rightarrow>
            let resolvedEmail = js_or email (''user@'' @ js_or (org_ssoDomain r) (org_slug r @ ''.internal''));
                providerId = js_or ssoId (''sso_'' @ org_id r @ ''_'' @ resolvedEmail)
            in bnd (finish_login E \<lparr>op_provider = Sso, op_providerId = providerId,
                 op_email = resolvedEmail,
                 op_name = Some (js_or name (js_or (Some (hd (split_on CHR ''@'' resolvedEmail))) ''Enterprise User'')),
                 op_avatarUrl = js_or_null avatarUrl, op_emailVerified = True,
                 op_orgId = Some (org_id r)\<rparr>) (\<lambda>token.
               ret (Answer 200 (token, r, js_or (org_ssoProvider r) ''SAML'')))))"

text \<open>The metadata document of the service provider.\<close>

definition metadata_xml :: "string \<Rightarrow> string \<Rightarrow> string" where
  \<open>metadata_xml entityId acsUrl =
     ''<?xml version="1.0" encoding="UTF-8"?>'' @ [CHR 0x0A] @
     ''<md:EntityDescriptor xmlns:md="urn:oasis:names:tc:SAML:2.0:metadata" entityID="'' @ entityId @ ''">'' @ [CHR 0x0A] @
     ''  <md:SPSSODescriptor AuthnRequestsSigned="false" WantAssertionsSigned="true" protocolSupportEnumeration="urn:oasis:names:tc:SAML:2.0:protocol">'' @ [CHR 0x0A] @
     ''    <md:NameIDFormat>urn:oasis:names:tc:SAML:1.1:nameid-format:emailAddress</md:NameIDFormat>'' @ [CHR 0x0A] @
     ''    <md:AssertionConsumerService Binding="urn:oasis:names:tc:SAML:2.0:bindings:HTTP-POST" Location="'' @ acsUrl @ ''" index="1"/>'' @ [CHR 0x0A] @
     ''  </md:SPSSODescriptor>'' @ [CHR 0x0A] @
     ''</md:EntityDescriptor>''\<close>

definition saml_metadata :: "'r env \<Rightarrow> string \<Rightarrow> string \<Rightarrow> ('r world, string answer) act" where
  "saml_metadata E gateway orgSlug =
     bnd (query E (\<lambda>d. find (\<lambda>r. org_slug r = orgSlug) (orgs d))) (\<lambda>found.
     case found of
       None \<Rightarrow> ret (Refuse 404 SsoOrgNotFound)
     | Some r \<Rightarrow> ret (Answer 200 (metadata_xml (gateway @ ''/api/auth/sso/saml/'' @ org_slug r)
         (gateway @ ''/api/auth/login/sso/saml/acs''))))"

end
