(* ===== verification/Token_Life.thy ===== *)
theory Token_Life
  imports Accounts
begin

text \<open>
  What a refresh token goes through, from the cookie that carries it to the state in Redis: the
  specification of its life and the proof that the refresh route implements it; then what the
  revocations of the account routes achieve.
\<close>

section \<open>The life of a refresh token\<close>

lemma parse_rotated: "parse_state (rotated_state t) = StateRotated (Some t)"
  unfolding rotated_state_def parse_state_def json_roundtrip by (simp add: json_field_def as_number_def)

lemma rotated_not_fresh: "rotated_state t \<noteq> ''1''"
  by (simp add: rotated_state_def)

text \<open>
  The specification: a token is fresh, spent since a time, gone, or in a state that says neither. Spending a fresh
  token marks it, a spent one is honoured for ten seconds and taken for stolen afterwards, as is one whose
  time is not known.
\<close>

datatype token = Fresh | Spent "int option" | Unmarked | Gone
datatype verdict = Granted | Expired_token | Compromised

fun spend :: "token \<Rightarrow> int \<Rightarrow> verdict \<times> token" where
  "spend Fresh t = (Granted, Spent (Some t))"
| "spend (Spent (Some a)) t = (if t - a \<le> 10000 then (Granted, Spent (Some a)) else (Compromised, Gone))"
| "spend (Spent None) t = (Compromised, Gone)"
| "spend Unmarked t = (Granted, Unmarked)"
| "spend Gone t = (Expired_token, Gone)"

lemma spend_spent: "spend (Spent a) t = (if in_grace t a then (Granted, Spent a) else (Compromised, Gone))"
  by (cases a) (simp_all add: in_grace_def)

definition token_of :: "string option \<Rightarrow> token" where
  "token_of v = (case v of
     None \<Rightarrow> Gone
   | Some s \<Rightarrow> if s = ''1'' then Fresh
     else (case parse_state s of StateRotated a \<Rightarrow> Spent a | StateOther \<Rightarrow> Unmarked | StateUnparseable \<Rightarrow> Gone))"

fun refusal_of :: "verdict \<Rightarrow> auth_error option" where
  "refusal_of Granted = None"
| "refusal_of Expired_token = Some SessionExpired"
| "refusal_of Compromised = Some SessionCompromised"

fun answers :: "verdict \<Rightarrow> session_grant answer \<Rightarrow> bool" where
  "answers v (Answer c g) = (c = 200 \<and> refusal_of v = None)"
| "answers v (Refuse c e) = (c = 401 \<and> refusal_of v = Some e)"

lemma token_of_falsy: "\<not> truthy v \<Longrightarrow> token_of v = Gone"
  by (cases v) (auto simp: token_of_def parse_state_def json_parse_def)

lemma token_of_simps [simp]: "token_of None = Gone" "token_of (Some ''1'') = Fresh"
  "token_of (Some (rotated_state t)) = Spent (Some t)"
  by (simp_all add: token_of_def parse_rotated rotated_not_fresh)

lemma session_run:
  assumes "calm E"
  shows "\<exists>g w'. createSession E A c u w = (Inr (Answer c g), w') \<and> clock w \<le> clock w' \<and>
    redis w' = redis_set_ex (redis_api E) (clock w') (refresh_key (user_id u) (sha256 A (randomHex A (Suc (fresh w))))) ''1''
      (refreshTokenSecs A) (redis w)"
  by (simp add: createSession_def setSessionCookies_def signAccessToken_def draw_def new_id_def now_def
      act_simps Let_def calm_redis_runs [OF assms])

lemma live_between: "live t e = live t' e \<Longrightarrow> t \<le> s \<Longrightarrow> s \<le> t' \<Longrightarrow> live s e = live t e"
  by (auto simp: live_def split: option.splits if_splits)

context redis_store
begin

text \<open>\<open>rotation\<close> decides by the state it is given, and leaves the token in the specified one.\<close>

lemma rotation_run:
  assumes "calm E" and "redis_api E = R" and k: "k = refresh_key u h"
  shows "\<exists>v. rotation E A u k s w = (Inr (refusal_of (fst (spend (token_of (Some s)) (clock w)))), v) \<and>
    clock w \<le> clock v \<and> fresh w \<le> fresh v \<and> find_user u (db v) = find_user u (db w) \<and>
    (\<forall>T. clock v \<le> T \<longrightarrow> T < clock w + 1000 * refreshTokenSecs A \<longrightarrow> live T (view (redis w) k) = Some s \<longrightarrow>
      token_of (live T (view (redis v) k)) = snd (spend (token_of (Some s)) (clock w)))"
proof (cases "token_of (Some s)")
  case Fresh
  then have "s = ''1''" by (auto simp: token_of_def split: if_splits refresh_state.splits)
  then show ?thesis
    by (auto simp: rotation_def now_def act_simps calm_redis_runs [OF assms(1)] assms(2) set_law)
next
  case Gone
  then have "s \<noteq> ''1''" "parse_state s = StateUnparseable"
    by (auto simp: token_of_def split: if_splits refresh_state.splits)
  then show ?thesis by (auto simp: rotation_def act_simps token_of_def)
next
  case Unmarked
  then have "s \<noteq> ''1''" "parse_state s = StateOther"
    by (auto simp: token_of_def split: if_splits refresh_state.splits)
  then show ?thesis by (auto simp: rotation_def act_simps token_of_def)
next
  case (Spent a)
  then have s: "s \<noteq> ''1''" "parse_state s = StateRotated a"
    by (auto simp: token_of_def split: if_splits refresh_state.splits)
  show ?thesis
  proof (cases "in_grace (clock w) a")
    case True
    then show ?thesis using s by (auto simp: rotation_def now_def act_simps token_of_def spend_spent)
  next
    case False
    from invalidate_run [OF assms(1,2), of u w] obtain t t' v where
      v: "invalidateAllSessions E u w = (Inr (), v)" "clock w \<le> t" "t \<le> clock v" "db v = revoke_rows u t' (db w)"
        "\<forall>h T. clock v \<le> T \<longrightarrow> redis_get R T (refresh_key u h) (redis v) = None" "fresh v = fresh w"
      by blast
    let ?w' = "(tick E v)\<lparr>db := log_row (Some u) ''REVOCATION_BREACH'' (clock (tick E v)) (db v)\<rparr>"
    have "rotation E A u k s w = (Inr (Some SessionCompromised), ?w')"
      using s False v(1)
      by (simp add: rotation_def now_def act_simps logSecurityEvent_def calm_runs [OF assms(1)] del: tick_simps(11))
    with False s v Spent k show ?thesis by (simp add: revoke_rows_def log_row_def get_law spend_spent)
  qed
qed

lemma grant_run:
  assumes "calm E" and "redis_api E = R" and "find_user u (db v) = Some user"
    and "\<And>n. fresh v \<le> n \<Longrightarrow> refresh_key u (sha256 A (randomHex A n)) \<noteq> k"
  shows "\<exists>g w'. bnd (query E (find_user u)) (\<lambda>user. case user of
        None \<Rightarrow> ret (Refuse 401 UserNotFound) | Some u \<Rightarrow> createSession E A 200 u) v = (Inr (Answer 200 g), w') \<and>
      clock v \<le> clock w' \<and> view (redis w') k = view (redis v) k"
proof -
  have u: "user_id user = u" using assms(3) by (blast dest: find_in)
  obtain g w' where g: "createSession E A 200 user (tick E v) = (Inr (Answer 200 g), w')"
      "clock (tick E v) \<le> clock w'"
      "redis w' = redis_set_ex R (clock w') (refresh_key u (sha256 A (randomHex A (Suc (fresh v))))) ''1''
         (refreshTokenSecs A) (redis v)"
    using session_run [OF assms(1), of A 200 user "tick E v"] u assms(2) by auto
  have "refresh_key u (sha256 A (randomHex A (Suc (fresh v)))) \<noteq> k" by (rule assms(4)) simp
  with g have "view (redis w') k = view (redis v) k" by (simp add: set_law)
  moreover have "clock v \<le> clock w'" using clock_tick g(2) by (rule order_trans)
  ultimately show ?thesis using g(1) assms(3) by (simp add: act_simps calm_runs [OF assms(1)])
qed

end

text \<open>
  C4. A refresh refines the life of a token. In a calm run for a token of a user who exists, that ends within the
  life time of refresh tokens, during which the presented token does not expire and whose new secrets are not
  the old one, the handler's answer and the state it leaves the token in are those of \<open>spend\<close> at a time
  during the run, whatever text Redis holds for the token.
\<close>

theorem refresh_refines:
  fixes E :: "'r env"
  assumes "redis_store (redis_api E) view" and "calm E"
    and "parseRefreshToken A cookie = Some (u, k)" and "find_user u (db w) \<noteq> None"
    and "refresh E A cookie w = (r, w')"
    and "live (clock w) (view (redis w) k) = live (clock w') (view (redis w) k)"
    and "clock w' < clock w + 1000 * refreshTokenSecs A"
    and "\<And>n. fresh w \<le> n \<Longrightarrow> refresh_key u (sha256 A (randomHex A n)) \<noteq> k"
  shows "\<exists>a t. r = Inr a \<and> clock w \<le> t \<and> t \<le> clock w' \<and>
    answers (fst (spend (token_of (redis_get (redis_api E) (clock w) k (redis w))) t)) a \<and>
    token_of (redis_get (redis_api E) (clock w') k (redis w')) =
      snd (spend (token_of (redis_get (redis_api E) (clock w) k (redis w))) t)"
proof -
  let ?e = "view (redis w) k" and ?w = "tick E w"
  note get = redis_store.get_law [OF assms(1)]
  obtain h where k: "k = refresh_key u h"
    using assms(3) by (auto simp: parseRefreshToken_def split: if_splits list.splits)
  define grant where "grant = bnd (query E (find_user u)) (\<lambda>user. case user of
      None \<Rightarrow> ret (Refuse 401 UserNotFound) | Some u \<Rightarrow> createSession E A 200 u)"
  have run: "refresh E A cookie w =
      (if \<not> truthy (live (clock ?w) ?e) then (Inr (Refuse 401 SessionExpired), ?w)
       else bnd (rotation E A u k (the (live (clock ?w) ?e)))
         (\<lambda>refusal. case refusal of Some e \<Rightarrow> ret (Refuse 401 e) | None \<Rightarrow> grant) ?w)"
    unfolding grant_def
    by (simp add: refresh_def assms(3) act_simps calm_redis_runs [OF assms(2)] get del: tick_simps(11))
  have same: "live (clock ?w) ?e = live (clock w) ?e" if "clock ?w \<le> clock w'"
    using live_between [OF assms(6) clock_tick that] .
  show ?thesis
  proof (cases "truthy (live (clock ?w) ?e)")
    case False
    with run assms(5) have w': "w' = ?w" "r = Inr (Refuse 401 SessionExpired)" by simp_all
    with False same show ?thesis
      by (auto simp: get token_of_falsy intro!: exI [of _ "clock w"])
  next
    case True
    then obtain s where s: "live (clock ?w) ?e = Some s" by (cases "live (clock ?w) ?e") auto
    define tok where "tok = spend (token_of (Some s)) (clock ?w)"
    from redis_store.rotation_run [OF assms(1,2) refl k, of A s ?w] obtain v where
      v: "rotation E A u k s ?w = (Inr (refusal_of (fst tok)), v)" "clock ?w \<le> clock v" "fresh w \<le> fresh v"
        "find_user u (db v) = find_user u (db w)"
      and after: "\<And>T. clock v \<le> T \<Longrightarrow> T < clock ?w + 1000 * refreshTokenSecs A \<Longrightarrow> live T ?e = Some s \<Longrightarrow>
        token_of (live T (view (redis v) k)) = snd tok"
      unfolding tok_def by (simp del: tick_simps(11)) blast
    have "\<exists>a. r = Inr a \<and> answers (fst tok) a \<and> clock v \<le> clock w' \<and> view (redis w') k = view (redis v) k"
    proof (cases "refusal_of (fst tok)")
      case None
      obtain user where "find_user u (db v) = Some user" using assms(4) v(4) by auto
      from redis_store.grant_run [OF assms(1,2) refl this, of A k] assms(8) v(3) None
      show ?thesis using run True s v(1) assms(5) by (auto simp: grant_def bnd_run)
    next
      case (Some e)
      then show ?thesis using run True s v(1) assms(5) by (auto simp: bnd_run ret_def)
    qed
    then obtain a where a: "r = Inr a" "answers (fst tok) a" "clock v \<le> clock w'"
      "view (redis w') k = view (redis v) k" by blast
    moreover from a(3) v(2) have t: "clock w \<le> clock ?w" "clock ?w \<le> clock w'" using clock_tick by auto
    moreover have "token_of (live (clock w') (view (redis v) k)) = snd tok"
      by (rule after) (use a(3) t assms(6,7) same s in auto)
    ultimately show ?thesis using same s
      by (intro exI [of _ a] exI [of _ "clock ?w"]) (simp add: get tok_def del: tick_simps(11))
  qed
qed

section \<open>Examples\<close>

definition example_auth :: auth_env where
  "example_auth = \<lparr>sha256 = (\<lambda>s. CHR ''h'' # s), randomHex = (\<lambda>n. ''r'' @ show_nat n),
     argonHash = (\<lambda>n p. p), argonVerify = (\<lambda>h p. h = p), totpSecret = (\<lambda>n. ''totp''),
     totpVerify = (\<lambda>t c s. c = s), jwtIssuer = ''iss'', refreshTokenSecs = 604800,
     mfaTokenSecs = 300, defaultRole = LEARNER\<rparr>"

text \<open>Ann holds the refresh token of the secret \<open>s\<close>, in the given state.\<close>

definition holding :: "string \<Rightarrow> db \<Rightarrow> alist_redis world" where
  "holding state d = (example_world d)\<lparr>redis := [(refresh_key ''ann'' ''hs'', (state, Some 500000))]\<rparr>"


lemma parse_example: "parseRefreshToken example_auth (Some ''ann.s'') = Some (''ann'', refresh_key ''ann'' ''hs'')"
  by code_simp

lemma fresh_secrets: "refresh_key u (sha256 example_auth (randomHex example_auth n)) \<noteq> refresh_key u ''hs''"
  by (simp add: example_auth_def refresh_key_def)

lemma refresh_refines_witness:
  "\<exists>a t. fst (refresh calm_env example_auth (Some ''ann.s'') (holding ''1'' example_db)) = Inr a \<and>
    answers (fst (spend Fresh t)) a"
proof -
  let ?w = "holding ''1'' example_db"
  have f: "find_user ''ann'' (db ?w) \<noteq> None" by code_simp
  have c: "clock ?w = 1000" by code_simp
  have c': "clock (snd (refresh calm_env example_auth (Some ''ann.s'') ?w)) = 1000" by code_simp
  have l: "live 1000 (map_of (redis ?w) (refresh_key ''ann'' ''hs'')) = Some ''1''" by code_simp
  have t: "token_of (redis_get (redis_api calm_env) (clock ?w) (refresh_key ''ann'' ''hs'') (redis ?w)) = Fresh"
    by code_simp
  show ?thesis
    using refresh_refines [of calm_env map_of example_auth "Some ''ann.s''" "''ann''" "refresh_key ''ann'' ''hs''" ?w,
        OF _ calm_calm_env parse_example f surjective_pairing]
      alist_redis.redis_store_axioms fresh_secrets [of "''ann''"] t c c' l
    by (auto simp: example_auth_def)
qed

section \<open>Cookies\<close>

lemma setSessionCookies_Inr:
  assumes "setSessionCookies E A u w = (Inr g, w')"
  shows "\<exists>n. gr_refreshToken g = user_id u @ ''.'' @ randomHex A n \<and> gr_tokenHash g = sha256 A (randomHex A n) \<and>
    cl_sub (gr_access g) = user_id u \<and> db w' = db w \<and> clock w \<le> clock w' \<and>
    redis w' = redis_set_ex (redis_api E) (clock w') (refresh_key (user_id u) (gr_tokenHash g)) ''1''
      (refreshTokenSecs A) (redis w)"
  using assms
  by (auto simp: setSessionCookies_def signAccessToken_def draw_def new_id_def now_def act_simps Let_def
      dest!: redis_put_Inr split: prod.splits sum.splits)

text \<open>
  The refresh token that a session puts into its cookie leads back to the key under which its
  state was stored, and that key reads \<open>1\<close> until its expiry.
\<close>

lemma cookie_roundtrip:
  assumes "redis_store (redis_api E) view"
    and "setSessionCookies E A u w = (Inr g, w')"
    and "CHR ''.'' \<notin> set (user_id u)" and "\<And>n. CHR ''.'' \<notin> set (randomHex A n)"
    and "clock w' \<le> t" and "t < clock w' + 1000 * refreshTokenSecs A"
  shows "\<exists>k. parseRefreshToken A (Some (gr_refreshToken g)) = Some (user_id u, k) \<and>
    redis_get (redis_api E) t k (redis w') = Some ''1''"
proof -
  from setSessionCookies_Inr [OF assms(2)] obtain n where
    "gr_refreshToken g = user_id u @ ''.'' @ randomHex A n" "gr_tokenHash g = sha256 A (randomHex A n)"
    "redis w' = redis_set_ex (redis_api E) (clock w') (refresh_key (user_id u) (gr_tokenHash g)) ''1''
      (refreshTokenSecs A) (redis w)" by blast
  then show ?thesis
    using assms(6) parse_refresh_roundtrip [OF assms(3,4)]
    by (auto simp: redis_store.get_law [OF assms(1)] redis_store.set_law [OF assms(1)])
qed

lemma cookie_roundtrip_witness:
  "\<exists>k g. fst (setSessionCookies calm_env example_auth (example_user ''ann'' LEARNER) (example_world example_db)) = Inr g \<and>
    parseRefreshToken example_auth (Some (gr_refreshToken g)) = Some (''ann'', k)"
proof -
  have "\<exists>g w'. setSessionCookies calm_env example_auth (example_user ''ann'' LEARNER) (example_world example_db) = (Inr g, w')
      \<and> clock w' = 1000"
    by (simp add: setSessionCookies_def signAccessToken_def draw_def new_id_def now_def act_simps Let_def
        calm_redis_runs)
  then obtain g w' where run: "setSessionCookies calm_env example_auth (example_user ''ann'' LEARNER)
      (example_world example_db) = (Inr g, w')" "clock w' = 1000" by blast
  have "CHR ''.'' \<notin> set (show_nat n)" for n
    using show_nat_digits [of n] by (auto simp: is_digit_def)
  then show ?thesis
    using cookie_roundtrip [of calm_env map_of, OF _ run(1), of 1000] alist_redis.redis_store_axioms run
    by (auto simp: example_user_def example_auth_def)
qed

section \<open>Exchange tokens\<close>

text \<open>
  C22. An exchange token is good for one session: after a first exchange has been answered, any
  further one that is answered is refused, whatever the answers were and whatever failed.
\<close>

theorem exchange_once:
  assumes "redis_store (redis_api E) view"
    and "exchange E A token w = (Inr a, w')" and "exchange E A token w' = (Inr b, w'')"
  shows "b = Refuse 401 ExchangeTokenInvalid"
proof -
  have other: "refresh_key u h \<noteq> exchange_key token" for u h
    by (simp add: refresh_key_def refresh_prefix_def exchange_key_def)
  have "view (redis w') (exchange_key token) = None"
  proof -
    from assms(2) obtain x v where v: "redis_take E (exchange_key token) w = (Inr x, v)"
      and rest: "(if \<not> truthy x then ret (Refuse 401 ExchangeTokenInvalid)
         else bnd (query E (find_user (the x))) (\<lambda>user. case user of
           None \<Rightarrow> ret (Refuse 401 UserNotFound)
         | Some u \<Rightarrow> bnd (setSessionCookies E A u) (\<lambda>g. ret (Answer 200 g)))) v = (Inr a, w')"
      unfolding exchange_def by (elim bnd_InrE)
    from v have gone: "view (redis v) (exchange_key token) = None"
      unfolding redis_take_def by (auto dest!: redis_run_Inr simp: redis_store.getdel_view_law [OF assms(1)])
    have "redis w' = redis v \<or> (\<exists>t u h. redis w' = redis_set_ex (redis_api E) t (refresh_key u h) ''1'' (refreshTokenSecs A) (redis v))"
      using rest
      by (auto simp: ret_def query_def run_db_def split: if_splits option.splits
          elim!: bnd_InrE dest!: await_Inr setSessionCookies_Inr) blast?
    with gone other [symmetric] show ?thesis by (auto simp: redis_store.set_law [OF assms(1)])
  qed
  then have "redis_take E (exchange_key token) w' = (Inr x, v) \<Longrightarrow> x = None" for x v
    unfolding redis_take_def by (auto dest!: redis_run_Inr simp: redis_store.getdel_law [OF assms(1)])
  with assms(3) show ?thesis
    unfolding exchange_def by (elim bnd_InrE) (auto simp: ret_def)
qed


text \<open>An exchange token of Ann's in Redis.\<close>

definition exchanging :: "alist_redis world" where
  "exchanging = (example_world example_db)\<lparr>redis := [(exchange_key ''x'', (''ann'', Some 60000))]\<rparr>"

lemma exchange_once_witness:
  "(\<exists>g. fst (exchange calm_env example_auth ''x'' exchanging) = Inr (Answer 200 g)) \<and>
   fst (exchange calm_env example_auth ''x'' (snd (exchange calm_env example_auth ''x'' exchanging))) =
     Inr (Refuse 401 ExchangeTokenInvalid)"
proof -
  let ?once = "exchange calm_env example_auth ''x'' exchanging"
  let ?twice = "exchange calm_env example_auth ''x'' (snd ?once)"
  have one: "case fst ?once of Inr (Answer c g) \<Rightarrow> c = 200 | _ \<Rightarrow> False" by code_simp
  have two: "case fst ?twice of Inr _ \<Rightarrow> True | _ \<Rightarrow> False" by code_simp
  from one obtain g where g: "fst ?once = Inr (Answer 200 g)" by (auto split: sum.splits answer.splits)
  from two obtain b where b: "fst ?twice = Inr b" by (auto split: sum.splits)
  have "b = Refuse 401 ExchangeTokenInvalid"
    by (rule exchange_once [of calm_env map_of example_auth "''x''" exchanging "Answer 200 g" "snd ?once" b "snd ?twice"])
       (use alist_redis.redis_store_axioms g b in \<open>auto simp: prod_eq_iff\<close>)
  with g b show ?thesis by blast
qed

section \<open>Log-out everywhere\<close>

lemma redisSafeGet_calm:
  assumes "calm E" and "latency E (calls w) \<le> ms"
  shows "redisSafeGet E k ms w = (Inr (redis_get (redis_api E) (clock (tick E w)) k (redis w)), tick E w)"
  using assms(2)
  by (simp add: redisSafeGet_def act_within_def catch_run calm_redis_runs [OF assms(1)])

lemma redisSafeExecute_calm:
  assumes "m w = (Inr a, w')" and "clock w' - clock w \<le> int ms"
  shows "redisSafeExecute m ms w = (Inr (Some a), w')"
  using assms by (simp add: redisSafeExecute_def act_within_def act_simps)

text \<open>
  C23. After a log-out everywhere no access token that was issued before it is accepted any more: as
  long as the mark of the revocation is not removed, the hook of the account routes refuses the
  token at any later time before the token's own end, if Redis answers within the limit.
\<close>

theorem logout_all_final:
  assumes "redis_store (redis_api E) view" and "calm E" and "\<And>n. latency E n \<le> 250"
    and "logout_all E c w = (r, w')" and "cl_sub c \<noteq> []"
    and "clock w' \<le> clock v" and "view (redis v) (revoked_key (cl_sub c)) = view (redis w') (revoked_key (cl_sub c))"
    and "cl_sub c' = cl_sub c" and "1000 * cl_iat c' \<le> clock w" and "cl_exp c' \<le> cl_iat c' + 15 * 60"
    and "clock v + 500 < 1000 * cl_exp c'"
  shows "fst (account_hook E c' handler v) = Inr (Refuse 401 TokenRevoked)"
proof -
  let ?k = "revoked_key (cl_sub c)"
  from redis_store.invalidate_run [OF assms(1,2) refl, of "cl_sub c" w] obtain u x where
    u: "invalidateAllSessions E (cl_sub c) w = (Inr (), u)"
      "view (redis u) ?k = Some (show_int (clock w), Some x)" "clock w + 900000 \<le> x" by blast
  have "?k \<noteq> denylist_key j" for j by (simp add: denylist_key_def revoked_key_def)
  then have "view (redis w') ?k = view (redis u) ?k"
    using assms(4) u(1)
    by (auto simp: logout_all_def denylistAccessToken_def logSecurityEvent_def act_simps
        calm_runs [OF assms(2)] calm_redis_runs [OF assms(2)] redis_store.set_law [OF assms(1)] split: if_splits)
  with u assms(7) have mark: "view (redis v) ?k = Some (show_int (clock w), Some x)" by simp
  have live: "redis_get (redis_api E) t ?k (redis v) = Some (show_int (clock w))"
    if "t \<le> clock v + 500" for t
    using that mark u(3) assms(9-11) by (simp add: redis_store.get_law [OF assms(1)])
  have num: "show_int (clock w) \<noteq> []" using parse_show [of "clock w"] by (auto simp: parse_int_def)
  have later: "clock (tick E v) \<le> clock v + 250" "clock (tick E (tick E v)) \<le> clock v + 500"
    using assms(3) [of "calls v"] assms(3) [of "Suc (calls v)"] by simp_all
  have "fst (isTokenDenylisted E (cl_jti c') (Some (cl_sub c')) (Some (cl_iat c')) v) = Inr True"
    using later assms(5,8,9)
    by (auto simp: isTokenDenylisted_def act_simps redisSafeGet_calm [OF assms(2,3)] live num parse_show
        simp del: tick_simps(11))
  then show ?thesis
    unfolding account_hook_def bnd_run by (auto split: prod.split sum.split simp: ret_def)
qed


definition ann_claims :: claims where
  "ann_claims = \<lparr>cl_sub = ''ann'', cl_id = None, cl_email = None, cl_role = Some LEARNER, cl_orgId = None,
     cl_iss = None, cl_jti = Some ''j'', cl_pendingMfa = False, cl_iat = 1, cl_exp = 901\<rparr>"

lemma logout_all_final_witness:
  "fst (account_hook calm_env ann_claims (me calm_env ann_claims)
     (snd (logout_all calm_env ann_claims (example_world example_db)))) = Inr (Refuse 401 TokenRevoked)"
proof -
  let ?w = "example_world example_db"
  have "clock (snd (logout_all calm_env ann_claims ?w)) = 1000" by code_simp
  then show ?thesis
    by (intro logout_all_final [of calm_env map_of ann_claims ?w])
       (simp_all add: alist_redis.redis_store_axioms prod_eq_iff ann_claims_def)
qed

section \<open>Password resets\<close>

lemma update_user_Inr:
  "run_db E (update_user u f) w = (Inr a, w') \<Longrightarrow>
   users (db w') = update_rows (\<lambda>r. user_id r = u) f (users (db w))"
  by (auto simp: update_user_def simp del: guarded.simps dest!: run_db_Inr guarded_Inr)

lemma stored_hash:
  assumes "interactive E (sq (run_db E (update_user u (\<lambda>r. r\<lparr>user_password := Some h\<rparr>)))
      (run_db_at E (\<lambda>t d. (Inr (), log_row (Some u) ty t d)))) w = (Inr (), w')"
  shows "\<forall>r \<in> set (users (db w')). user_id r = u \<longrightarrow> user_password r = Some h"
proof -
  from interactive_Inr [OF assms] obtain y where y: "sq (run_db E (update_user u (\<lambda>r. r\<lparr>user_password := Some h\<rparr>)))
      (run_db_at E (\<lambda>t d. (Inr (), log_row (Some u) ty t d))) w = (Inr (), y)"
      "db w' = db y" by blast
  from y(1) obtain z where
    z: "run_db E (update_user u (\<lambda>r. r\<lparr>user_password := Some h\<rparr>)) w = (Inr (), z)"
    and log: "run_db_at E (\<lambda>t d. (Inr (), log_row (Some u) ty t d)) z = (Inr (), y)"
    by (rule sq_InrE)
  have "users (db w') = users (db z)" using run_db_at_Inr [OF log] y(2) by (auto simp: log_row_def)
  with update_user_Inr [OF z] show ?thesis by (simp add: ball_update_rows)
qed

text \<open>
  C3. A password reset that is answered with success in a calm run has stored a hash of the new
  password for the user that the reset token stood for, has consumed the token, and has ended every
  session of that user: no refresh token of theirs is live and no session row is unrevoked.
\<close>

theorem reset_password_revokes:
  assumes "redis_store (redis_api E) view" and "calm E"
    and "reset_password E A token pw w = (Inr (Answer c x), w')"
  shows "\<exists>u n. redis_get (redis_api E) (clock (tick E w)) (reset_key token) (redis w) = Some u \<and>
    (\<forall>r \<in> set (users (db w')). user_id r = u \<longrightarrow> user_password r = Some (argonHash A n pw)) \<and>
    view (redis w') (reset_key token) = None \<and>
    (\<forall>h t. clock w' \<le> t \<longrightarrow> redis_get (redis_api E) t (refresh_key u h) (redis w') = None) \<and>
    (\<forall>s \<in> set (userSessions (db w')). us_userId s = u \<longrightarrow> us_revokedAt s \<noteq> None)"
proof -
  let ?u = "redis_get (redis_api E) (clock (tick E w)) (reset_key token) (redis w)"
  from assms(3) obtain ua v where look: "redis_lookup E (reset_key token) w = (Inr ua, v)"
    and body: "(if \<not> truthy ua then ret (Refuse 400 InvalidResetToken)
       else bnd (draw (\<lambda>n. argonHash A n pw)) (\<lambda>hashedPassword.
         sq (interactive E (
           sq (run_db E (update_user (the ua) (\<lambda>r. r\<lparr>user_password := Some hashedPassword\<rparr>)))
           (run_db_at E (\<lambda>t d. (Inr (), log_row ua ''PASSWORD_RESET'' t d))))) (
         sq (redis_delete E (reset_key token)) (
         sq (invalidateAllSessions E (the ua)) (ret (Answer 200 ())))))) v = (Inr (Answer c x), w')"
    unfolding reset_password_def by (elim bnd_InrE)
  from body have "truthy ua" by (auto simp: ret_def split: if_splits)
  then obtain u where "ua = Some u" "u \<noteq> []" by (cases ua) auto
  with redis_lookup_Inr [OF look] have u: "?u = Some u" "ua = Some u" "u \<noteq> []" by auto
  let ?hash = "argonHash A (fresh v) pw"
  from body u obtain v2 v3 where
    tx: "interactive E (sq (run_db E (update_user u (\<lambda>r. r\<lparr>user_password := Some ?hash\<rparr>)))
           (run_db_at E (\<lambda>t d. (Inr (), log_row (Some u) ''PASSWORD_RESET'' t d)))) (v\<lparr>fresh := Suc (fresh v)\<rparr>) = (Inr (), v2)"
    and del: "redis_delete E (reset_key token) v2 = (Inr (), v3)"
    and inv: "invalidateAllSessions E u v3 = (Inr (), w')"
    by (auto simp: draw_def act_simps split: prod.splits sum.splits elim!: sq_InrE)
  note pw = stored_hash [OF tx]
  have v3: "db v3 = db v2" "view (redis v3) (reset_key token) = None"
    using redis_delete_Inr [OF del] by (simp_all add: redis_store.del_law [OF assms(1)])
  from redis_store.invalidate_run [OF assms(1,2) refl, of u v3] inv obtain t' where
    "db w' = revoke_rows u t' (db v3)"
    and gone: "\<forall>h T. clock w' \<le> T \<longrightarrow> redis_get (redis_api E) T (refresh_key u h) (redis w') = None"
    and other: "\<forall>k. \<not> starts_with (refresh_prefix u) k \<and> k \<noteq> revoked_key u \<longrightarrow> view (redis w') k = view (redis v3) k"
    by auto
  have "\<not> starts_with (refresh_prefix u) (reset_key token)" "reset_key token \<noteq> revoked_key u"
    by (simp_all add: starts_with_def refresh_prefix_def reset_key_def revoked_key_def)
  with other v3 have "view (redis w') (reset_key token) = None" by simp
  moreover have "users (db w') = users (db v2)" using \<open>db w' = _\<close> v3 by (simp add: revoke_rows_def)
  moreover have "\<forall>s \<in> set (userSessions (db w')). us_userId s = u \<longrightarrow> us_revokedAt s \<noteq> None"
    using \<open>db w' = _\<close> by (simp add: revoke_rows_def ball_update_rows)
  ultimately show ?thesis using u(1) pw gone
    by (intro exI [of _ u] exI [of _ "fresh v"] conjI) simp_all
qed

text \<open>A password reset that Ann has asked for.\<close>

definition resetting :: "alist_redis world" where
  "resetting = (example_world example_db)\<lparr>redis := [(reset_key ''x'', (''ann'', Some 60000)),
     (refresh_key ''ann'' ''hs'', (''1'', Some 500000))]\<rparr>"

lemma reset_password_revokes_witness:
  "\<exists>w'. reset_password calm_env example_auth ''x'' ''new'' resetting = (Inr (Answer 200 ()), w') \<and>
    redis_get alist_redis_ops (clock w') (refresh_key ''ann'' ''hs'') (redis w') = None"
proof -
  let ?run = "reset_password calm_env example_auth ''x'' ''new'' resetting"
  have "fst ?run = Inr (Answer 200 ())" by code_simp
  then obtain w' where run: "?run = (Inr (Answer 200 ()), w')" by (cases ?run) auto
  have "redis_get alist_redis_ops (clock (tick calm_env resetting)) (reset_key ''x'') (redis resetting) = Some ''ann''"
    by code_simp
  with reset_password_revokes [of calm_env map_of, OF _ _ run] alist_redis.redis_store_axioms run
  show ?thesis by auto
qed


end
