(* ===== verification/Login_Laws.thy ===== *)
theory Login_Laws
  imports Federated_Login Token_Life
begin

text \<open>
  What the logins guarantee, and what they do not: a session needs a verified password and the
  second factor when it is on, five failures lock the address, a registration is all or nothing;
  revoking one session misses its rotated token, and an organization's login trusts its caller.
\<close>

section \<open>Passwords\<close>

lemma login_grants:
  assumes "login E A email pw w = (Inr (Answer c x), w')"
  shows "\<exists>user h. find_email email (db w) = Some user \<and> user_password user = Some h \<and> argonVerify A h pw \<and>
    (case x of
       LoggedIn g \<Rightarrow> \<not> user_mfaEnabled user \<and> cl_sub (gr_access g) = user_id user
     | MfaRequired m \<Rightarrow> user_mfaEnabled user \<and> (\<exists>t. m = mfa_claims A (user_id user) t))"
proof -
  from assms obtain locked v where "redisSafeGet E (lockout_key email) 250 w = (Inr locked, v)"
    and rest: "\<not> truthy locked" "bnd (query E (find_email email)) (\<lambda>found.
       case found of
         None \<Rightarrow> sq (handleLoginFail E email None) (ret (Refuse 401 InvalidCredentials))
       | Some user \<Rightarrow>
           if \<not> truthy (user_password user) \<or> \<not> argonVerify A (the (user_password user)) pw then
             sq (handleLoginFail E email (Some (user_id user))) (ret (Refuse 401 InvalidCredentials))
           else
             bnd (redisSafeExecute (redis_delete E (fails_key email)) 250) (\<lambda>_.
             sq (logSecurityEvent E (Some (user_id user)) ''LOGIN_SUCCESS'') (
             if user_mfaEnabled user then
               bnd now (\<lambda>t. ret (Answer 200 (MfaRequired (mfa_claims A (user_id user) t))))
             else
               bnd (setSessionCookies E A user) (\<lambda>g.
               sq (trackLogin E (user_id user) (Some (gr_tokenHash g)))
               (ret (Answer 200 (LoggedIn g))))))) v = (Inr (Answer c x), w')"
    unfolding login_def
    by (elim bnd_InrE) (auto split: if_splits simp: ret_def elim!: sq_InrE)
  then have "db v = db w" by (auto dest: redisSafeGet_run)
  with rest(2) show ?thesis
    by (elim bnd_InrE)
       (auto dest!: query_Inr setSessionCookies_Inr truthyD split: option.splits if_splits
         simp: ret_def now_def look_def mfa_claims_def elim!: sq_InrE bnd_InrE)
qed

text \<open>
  C6. Whatever fails on the way, a login is answered with a session or with a token for the second
  factor only if the password verifies against the hash stored for the address; the session is the
  user's own, and it is given only if the second factor is off.
\<close>

theorem login_needs_password:
  assumes "login E A email pw w = (Inr (Answer c x), w')"
  shows "\<exists>user h. find_email email (db w) = Some user \<and> user_password user = Some h \<and> argonVerify A h pw \<and>
    (case x of
       LoggedIn g \<Rightarrow> \<not> user_mfaEnabled user \<and> cl_sub (gr_access g) = user_id user
     | MfaRequired m \<Rightarrow> user_mfaEnabled user \<and> cl_pendingMfa m \<and> cl_sub m = user_id user)"
  using login_grants [OF assms] by (cases x) (auto simp: mfa_claims_def)

lemma track_run:
  assumes "calm E" and "find_user u (db w) = Some r"
    and "\<And>i. \<not> has_key us_id (uuid E i) (userSessions (db w))"
    and "h = None \<or> \<not> has_key us_tokenHash h (userSessions (db w))"
  shows "\<exists>w'. trackLogin E u h w = (Inr (), w') \<and> redis w' = redis w \<and> clock w \<le> clock w' \<and>
    (\<exists>i t. userSessions (db w') = userSessions (db w) @ [\<lparr>us_id = i, us_userId = u, us_tokenHash = h,
       us_lastSeenAt = t, us_revokedAt = None\<rparr>])"
proof -
  have u: "has_user (db w) u" using assms(2) by (simp add: has_key_find)
  then have u': "has_key user_id u (update_rows P f (users (db w)))" if "\<And>r. P r \<Longrightarrow> user_id (f r) = user_id r" for P f
    using that by (simp add: has_key_update)
  show ?thesis
    using assms(2-4) u
    by (auto simp: trackLogin_def act_simps calm_runs [OF assms(1)] now_def with_id_def new_id_def
        touch_login_def create_userSession_def u')
qed


text \<open>In a calm run the right password gives a session, recorded with the hash of its refresh token.\<close>

lemma login_run:
  assumes "calm E" and "\<And>n. latency E n \<le> 250" and "\<not> truthy (redis_get (redis_api E) (clock (tick E w)) (lockout_key email) (redis w))"
    and "find_email email (db w) = Some user" and "unique_by user_id (users (db w))"
    and "user_password user = Some h" "h \<noteq> []" "argonVerify A h pw" "\<not> user_mfaEnabled user"
    and "\<And>i. \<not> has_key us_id (uuid E i) (userSessions (db w))"
    and "\<And>n. \<not> has_key us_tokenHash (Some (sha256 A (randomHex A n))) (userSessions (db w))"
  shows "\<exists>g w'. login E A email pw w = (Inr (Answer 200 (LoggedIn g)), w')"
proof -
  have user: "find_user (user_id user) (db w) = Some user"
    using assms(4,5) by (auto dest!: find_in intro: find_unique)
  note calm = act_simps calm_runs [OF assms(1)] calm_redis_runs [OF assms(1)] redisSafeGet_calm [OF assms(1,2)]
  define v where "v = (tick E (tick E (tick E w)))\<lparr>redis := redis_del (redis_api E)
     (clock (tick E (tick E (tick E w)))) [fails_key email] (redis w)\<rparr>"
  have "redis_delete E (fails_key email) (tick E (tick E w)) = (Inr (), v)"
    by (simp add: v_def calm_redis_runs [OF assms(1)])
  then have v: "redisSafeExecute (redis_delete E (fails_key email)) 250 (tick E (tick E w)) = (Inr (Some ()), v)"
      "db v = db w"
    using assms(2) [of "Suc (Suc (calls w))"] by (simp_all add: redisSafeExecute_calm v_def)
  let ?v = "(tick E v)\<lparr>db := log_row (Some (user_id user)) ''LOGIN_SUCCESS'' (clock (tick E v)) (db w)\<rparr>"
  obtain g u where run: "setSessionCookies E A user ?v = (Inr g, u)"
    by (simp add: setSessionCookies_def signAccessToken_def draw_def new_id_def now_def Let_def calm)
  from setSessionCookies_Inr [OF this] obtain n where
    g: "gr_tokenHash g = sha256 A (randomHex A n)" "db u = db ?v" by blast
  have "\<exists>w'. trackLogin E (user_id user) (Some (gr_tokenHash g)) u = (Inr (), w')"
    using track_run [OF assms(1), of "user_id user" u user "Some (gr_tokenHash g)"] user g assms(10,11)
    by (auto simp: log_row_def)
  with v run show ?thesis
    using assms(3-9)
    by (auto simp: login_def calm logSecurityEvent_def simp del: tick_simps(11))
qed

lemma login_example:
  "\<exists>g w'. login calm_env example_auth ''ann@x.io'' ''hash'' (example_world example_db) = (Inr (Answer 200 (LoggedIn g)), w')"
proof -
  have "find_email ''ann@x.io'' (db (example_world example_db)) = Some (example_user ''ann'' LEARNER)"
    by code_simp
  moreover have "unique_by user_id (users example_db)" by code_simp
  ultimately show ?thesis
    by (intro login_run) (auto simp: example_user_def example_auth_def example_db_def alist_redis.get_law)
qed

lemma login_needs_password_witness:
  "\<exists>g w'. login calm_env example_auth ''ann@x.io'' ''hash'' (example_world example_db) = (Inr (Answer 200 (LoggedIn g)), w') \<and>
    cl_sub (gr_access g) = ''ann''"
proof -
  obtain g w' where run: "login calm_env example_auth ''ann@x.io'' ''hash'' (example_world example_db) =
      (Inr (Answer 200 (LoggedIn g)), w')" using login_example by blast
  have "map_option user_id (find_email ''ann@x.io'' (db (example_world example_db))) = Some ''ann''"
    by code_simp
  with login_needs_password [OF run] have "cl_sub (gr_access g) = ''ann''" by auto
  with run show ?thesis by blast
qed

section \<open>The lockout\<close>

text \<open>\<open>counted view email n x w\<close>: the address has failed n times in a window that lasts until x.\<close>

definition counted :: "('r \<Rightarrow> string \<Rightarrow> entry option) \<Rightarrow> string \<Rightarrow> nat \<Rightarrow> int \<Rightarrow> 'r world \<Rightarrow> bool" where
  "counted view email n x w \<longleftrightarrow> view (redis w) (lockout_key email) = None \<and>
     view (redis w) (fails_key email) = (if n = 0 then None else Some (show_int (int n), Some x))"

context redis_store
begin

lemma count_failure_run:
  assumes "calm E" and "redis_api E = R" and "\<And>n. latency E n \<le> 50"
    and "counted view email n x w" and "n \<le> 4" and "n = 0 \<or> clock w + 50 < x"
  shows "\<exists>w' x'. count_failure E email w = (Inr (), w') \<and> db w' = db w \<and>
    clock w \<le> clock w' \<and> clock w' \<le> clock w + 150 \<and>
    (if n < 4 then counted view email (Suc n) x' w' \<and> (if n = 0 then clock w + 900000 \<le> x' else x' = x)
     else \<exists>y. view (redis w') (lockout_key email) = Some (''1'', Some y) \<and> clock w + 900000 \<le> y)"
proof -
  have keys: "lockout_key email \<noteq> fails_key email" by (simp add: lockout_key_def fails_key_def)
  have lat: "int (latency E m) \<le> 50" for m using assms(3) [of m] by simp
  let ?t = "clock (tick E w)"
  have before: "counter_of ?t (view (redis w) (fails_key email)) = int n"
      "expiry_of ?t (view (redis w) (fails_key email)) = (if n = 0 then None else Some x)"
    using assms(4,6) lat [of "calls w"] by (auto simp: counted_def counter_of_def expiry_of_def parse_show)
  define r where "r = snd (redis_incr R ?t (fails_key email) (redis w))"
  have r: "redis_incr R ?t (fails_key email) (redis w) = (int n + 1, r)"
      "view r = (view (redis w))(fails_key email \<mapsto> (show_int (int n + 1), if n = 0 then None else Some x))"
    using before by (simp_all add: prod_eq_iff r_def incr_law incr_view_law del: tick_simps(11))
  define v where "v = (tick E w)\<lparr>redis := r\<rparr>"
  have v: "redis_count E (fails_key email) w = (Inr (int n + 1), v)" "redis v = r" "db v = db w"
      "clock v = ?t" "calls v = Suc (calls w)"
    using r by (simp_all add: v_def calm_redis_runs [OF assms(1)] assms(2))
  note run = count_failure_def act_simps v calm_redis_runs [OF assms(1)] assms(2) maxFailedAttempts_def lockoutSecs_def
  consider "n = 0" | "0 < n" "n < 4" | "n = 4" using assms(5) by linarith
  then show ?thesis
  proof cases
    case 1
    then show ?thesis
      using r keys assms(4) lat [of "calls w"] lat [of "Suc (calls w)"]
      by (auto simp: run counted_def expire_law)
  next
    case 2
    then show ?thesis
      using r keys assms(4) lat [of "calls w"] by (auto simp: run counted_def add.commute)
  next
    case 3
    then show ?thesis
      using r keys assms(4) lat [of "calls w"] lat [of "Suc (calls w)"] by (auto simp: run set_law)
  qed
qed

text \<open>A failed login counts, and the fifth one locks the address for a quarter of an hour.\<close>

lemma failed_login_run:
  assumes "calm E" and "redis_api E = R" and "\<And>n. latency E n \<le> 50"
    and "counted view email n x w" and "n \<le> 4" and "n = 0 \<or> clock w + 200 < x"
    and "\<And>u. find_email email (db w) = Some u \<Longrightarrow> \<not> (truthy (user_password u) \<and> argonVerify A (the (user_password u)) pw)"
  shows "\<exists>w' x'. login E A email pw w = (Inr (Refuse 401 InvalidCredentials), w') \<and> users (db w') = users (db w) \<and>
    clock w \<le> clock w' \<and> clock w' \<le> clock w + 300 \<and>
    (if n < 4 then counted view email (Suc n) x' w' \<and> (if n = 0 then clock w + 900000 \<le> x' else x' = x)
     else \<exists>y. view (redis w') (lockout_key email) = Some (''1'', Some y) \<and> clock w + 900000 \<le> y)"
proof -
  have lat: "int (latency E m) \<le> 50" for m using assms(3) [of m] by simp
  have lat': "latency E m \<le> 250" for m using assms(3) [of m] by simp
  let ?w = "tick E (tick E w)"
  have "clock ?w \<le> clock w + 100" using lat [of "calls w"] lat [of "Suc (calls w)"] by simp
  moreover have "counted view email n x ?w" using assms(4) by (simp add: counted_def)
  ultimately obtain v x' where v: "count_failure E email ?w = (Inr (), v)" "db v = db w"
      "clock ?w \<le> clock v" "clock v \<le> clock ?w + 150"
      "if n < 4 then counted view email (Suc n) x' v \<and> (if n = 0 then clock ?w + 900000 \<le> x' else x' = x)
       else \<exists>y. view (redis v) (lockout_key email) = Some (''1'', Some y) \<and> clock ?w + 900000 \<le> y"
    using count_failure_run [OF assms(1-3), of email n x ?w] assms(5,6) by (auto simp del: tick_simps(11))
  have fail: "handleLoginFail E email u ?w =
      (Inr (), (tick E v)\<lparr>db := log_row u ''LOGIN_FAILED'' (clock (tick E v)) (db w)\<rparr>)" for u
    using v(2,4)
    by (simp add: handleLoginFail_def bnd_run redisSafeExecute_calm [where m = "count_failure E email", OF v(1)] logSecurityEvent_def
        calm_runs [OF assms(1)] del: tick_simps(11))
  have unlocked: "redis_get R t (lockout_key email) (redis w) = None" for t
    using assms(4) by (simp add: get_law counted_def)
  let ?w' = "\<lambda>u. (tick E v)\<lparr>db := log_row u ''LOGIN_FAILED'' (clock (tick E v)) (db w)\<rparr>"
  have "\<exists>u. login E A email pw w = (Inr (Refuse 401 InvalidCredentials), ?w' u)"
    using assms(7)
    by (auto simp: login_def act_simps redisSafeGet_calm [OF assms(1) lat'] assms(2) unlocked
        calm_runs [OF assms(1)] fail split: option.split simp del: tick_simps(11))
  then obtain u where u: "login E A email pw w = (Inr (Refuse 401 InvalidCredentials), ?w' u)" by blast
  moreover have "clock w \<le> clock ?w" "clock (?w' u) \<le> clock w + 300" "clock v \<le> clock (?w' u)"
    using v(4) lat [of "calls w"] lat [of "Suc (calls w)"] lat [of "calls v"] by simp_all
  ultimately show ?thesis
    using v(3,5) assms(5)
    by (intro exI [of _ "?w' u"] exI [of _ x'])
       (auto simp: log_row_def counted_def simp del: tick_simps(11) split: if_splits)
qed

end

text \<open>Several logins to one address in a row, with their answers.\<close>

fun logins :: "'r env \<Rightarrow> auth_env \<Rightarrow> string \<Rightarrow> string list \<Rightarrow> 'r world \<Rightarrow>
  (exn + login_result answer) list \<times> 'r world" where
  "logins E A email [] w = ([], w)"
| "logins E A email (pw # pws) w =
     (case login E A email pw w of (r, w1) \<Rightarrow> (case logins E A email pws w1 of (rs, w2) \<Rightarrow> (r # rs, w2)))"

definition wrong :: "auth_env \<Rightarrow> string \<Rightarrow> user list \<Rightarrow> string \<Rightarrow> bool" where
  "wrong A email us pw \<longleftrightarrow> list_all (\<lambda>u. user_email u = email \<longrightarrow>
     \<not> (truthy (user_password u) \<and> argonVerify A (the (user_password u)) pw)) us"

context redis_store
begin

lemma locked_after:
  assumes "calm E" and "redis_api E = R" and "\<And>n. latency E n \<le> 50"
  shows "pws \<noteq> [] \<Longrightarrow> n + length pws = 5 \<Longrightarrow> counted view email n x w \<Longrightarrow>
    n = 0 \<or> clock w + 300 * int (length pws) + 200 < x \<Longrightarrow> list_all (wrong A email (users (db w))) pws \<Longrightarrow>
    \<exists>w' y. logins E A email pws w = (replicate (length pws) (Inr (Refuse 401 InvalidCredentials)), w') \<and>
      view (redis w') (lockout_key email) = Some (''1'', Some y) \<and> clock w' + 100 \<le> y"
proof (induction pws arbitrary: n x w)
  case (Cons pw pws)
  have wrong: "\<not> (truthy (user_password u) \<and> argonVerify A (the (user_password u)) pw)"
    if "find_email email (db w) = Some u" for u
    using Cons.prems(5) find_in [OF that] by (auto simp: wrong_def list_all_iff)
  have n: "n \<le> 4" "n = 0 \<or> clock w + 200 < x" using Cons.prems(2,4) by auto
  from failed_login_run [OF assms Cons.prems(3) n wrong] obtain w1 x1 where
    one: "login E A email pw w = (Inr (Refuse 401 InvalidCredentials), w1)"
      "users (db w1) = users (db w)" "clock w \<le> clock w1" "clock w1 \<le> clock w + 300"
      "if n < 4 then counted view email (Suc n) x1 w1 \<and> (if n = 0 then clock w + 900000 \<le> x1 else x1 = x)
       else \<exists>y. view (redis w1) (lockout_key email) = Some (''1'', Some y) \<and> clock w + 900000 \<le> y"
    by blast
  show ?case
  proof (cases "pws = []")
    case True
    with one Cons.prems(2) show ?thesis by auto
  next
    case False
    with Cons.prems(2) have n: "n < 4" by (cases pws) auto
    have "\<exists>w' y. logins E A email pws w1 = (replicate (length pws) (Inr (Refuse 401 InvalidCredentials)), w') \<and>
        view (redis w') (lockout_key email) = Some (''1'', Some y) \<and> clock w' + 100 \<le> y"
      using one n False Cons.prems(2,4,5) by (intro Cons.IH [of "Suc n" x1]) (auto split: if_splits)
    with one(1) show ?thesis by auto
  qed
qed simp

end

text \<open>
  C20. Five logins in a row with wrong passwords lock the address, in a calm run in which every call takes at most
  50 milliseconds and that starts without a counter or a lock of the address: each of the five is refused as
  such, and the next one is refused with 429 whatever its password, the right one included. The conditions
  matter: the lock is looked up with a time limit and counts as open when Redis is slow or away
  (\<open>lockout_fails_open\<close>).
\<close>

theorem lockout_after_five:
  assumes "redis_store (redis_api E) view" and "calm E" and "\<And>n. latency E n \<le> 50"
    and "view (redis w) (lockout_key email) = None" and "view (redis w) (fails_key email) = None"
    and "length pws = 5" and "list_all (wrong A email (users (db w))) pws"
  shows "fst (logins E A email pws w) = replicate 5 (Inr (Refuse 401 InvalidCredentials)) \<and>
    fst (login E A email pw (snd (logins E A email pws w))) = Inr (Refuse 429 AccountLocked)"
proof -
  have "counted view email 0 0 w" using assms(4,5) by (simp add: counted_def)
  with assms(6,7) obtain w' y where
    w': "logins E A email pws w = (replicate 5 (Inr (Refuse 401 InvalidCredentials)), w')"
      "view (redis w') (lockout_key email) = Some (''1'', Some y)" "clock w' + 100 \<le> y"
    using redis_store.locked_after [OF assms(1,2) refl assms(3), of pws 0 email 0 w A] by fastforce
  have lat: "latency E m \<le> 250" "int (latency E m) \<le> 50" for m using assms(3) [of m] by simp_all
  have "redis_get (redis_api E) (clock (tick E w')) (lockout_key email) (redis w') = Some ''1''"
    using w'(2,3) lat(2) [of "calls w'"] by (simp add: redis_store.get_law [OF assms(1)])
  then have "fst (login E A email pw w') = Inr (Refuse 429 AccountLocked)"
    by (simp add: login_def act_simps redisSafeGet_calm [OF assms(2) lat(1)] logSecurityEvent_def
        calm_runs [OF assms(2)] del: tick_simps(11))
  with w'(1) show ?thesis by simp
qed

lemma lockout_after_five_witness:
  "fst (login calm_env example_auth ''ann@x.io'' ''hash''
     (snd (logins calm_env example_auth ''ann@x.io'' (replicate 5 ''guess'') (example_world example_db)))) =
     Inr (Refuse 429 AccountLocked)"
proof -
  have "list_all (wrong example_auth ''ann@x.io'' (users example_db)) (replicate 5 ''guess'')"
    by code_simp
  then show ?thesis
    using lockout_after_five [of calm_env map_of "example_world example_db" "''ann@x.io''"
        "replicate 5 ''guess''" example_auth "''hash''"]
    by (simp add: alist_redis.redis_store_axioms)
qed


text \<open>An address that is locked is open to a login during which Redis does not answer the look-up of the lock.\<close>

lemma lockout_fails_open:
  assumes "outcome_of E (calls w) = Failed \<or> 250 < latency E (calls w)"
  shows "\<exists>v. redisSafeGet E (lockout_key email) 250 w = (Inr None, v) \<and> db v = db w"
  using assms
  by (auto simp: redisSafeGet_def act_within_def redis_lookup_def redis_read_def await_def act_simps Let_def split: outcome.split)

section \<open>Registration\<close>

text \<open>An interactive transaction in both readings: undone if it fails, or what its body did.\<close>

lemma post_interactive_either:
  assumes "db_post m d (\<lambda>r d'. case r of
      Inl e \<Rightarrow> Q (Inl e) d \<and> (oneTransaction E \<or> Q (Inl e) d')
    | Inr a \<Rightarrow> Q (Inr a) d' \<and> Q (Inl ConnectionLost) d \<and> Q (Inl ConnectionLost) d')"
  shows "db_post (interactive E m) d Q"
  unfolding db_post_def
proof (intro allI impI)
  fix w :: "'a world" assume w: "db w = d"
  obtain r v where run: "m w = (r, v)" by fastforce
  from db_postD [OF assms run w] run w
  show "Q (fst (interactive E m w)) (db (snd (interactive E m w)))"
    by (auto simp: interactive_def split: sum.split outcome.split sum.splits)
qed

text \<open>
  \<open>registered n email name d d'\<close>: d' is d with the user and the first n of what a registration writes after it:
  the two events and the log entry.
\<close>

definition registered :: "nat \<Rightarrow> string \<Rightarrow> string option \<Rightarrow> db \<Rightarrow> db \<Rightarrow> bool" where
  "registered n email name d d' \<longleftrightarrow> \<not> has_key user_email email (users d) \<and>
     (\<exists>u e f l. d' = d\<lparr>users := users d @ [u], authOutbox := authOutbox d @ take n [e, f],
          securityLogs := securityLogs d @ take (n - 2) [l]\<rparr> \<and>
        user_email u = email \<and> user_name u = name \<and>
        ob_eventType e = ''UserRegisteredEvent'' \<and> ob_payload e = UserRegistered (user_id u) email name \<and>
        \<not> ob_processed e \<and> ob_eventType f = ''EmailVerificationRequestedEvent'' \<and>
        (\<exists>token. ob_payload f = EmailVerificationRequested (user_id u) email token) \<and> \<not> ob_processed f \<and>
        sl_userId l = Some (user_id u) \<and> sl_action l = ''REGISTER'')"

lemma registeredI:
  assumes "\<not> has_key user_email email (users d)"
    and "d' = d\<lparr>users := users d @ [new_user i email pw name r],
      authOutbox := authOutbox d @ take n [new_outbox_event a ''UserRegisteredEvent'' (UserRegistered i email name) t1,
        new_outbox_event b ''EmailVerificationRequestedEvent'' (EmailVerificationRequested i email tok) t2],
      securityLogs := securityLogs d @ take (n - 2) [\<lparr>sl_userId = Some i, sl_action = ''REGISTER'', sl_createdAt = t3\<rparr>]\<rparr>"
  shows "registered n email name d d'"
  unfolding registered_def using assms
  by (intro conjI exI) (rule refl assms | simp add: new_user_def new_outbox_event_def)+

lemma registered_stages:
  fixes email name i pw r a b t1 t2 t3 tok
  assumes "\<not> has_key user_email email (users d)"
  defines "u \<equiv> new_user i email pw name r"
    and "e \<equiv> new_outbox_event a ''UserRegisteredEvent'' (UserRegistered i email name) t1"
    and "f \<equiv> new_outbox_event b ''EmailVerificationRequestedEvent'' (EmailVerificationRequested i email tok) t2"
  shows "registered 0 email name d (d\<lparr>users := users d @ [u]\<rparr>)"
    and "registered 1 email name d (d\<lparr>users := users d @ [u], authOutbox := authOutbox d @ [e]\<rparr>)"
    and "registered 2 email name d (d\<lparr>users := users d @ [u], authOutbox := authOutbox d @ [e, f]\<rparr>)"
    and "registered 3 email name d (d\<lparr>users := users d @ [u], authOutbox := authOutbox d @ [e, f],
      securityLogs := securityLogs d @ [\<lparr>sl_userId = Some i, sl_action = ''REGISTER'', sl_createdAt = t3\<rparr>]\<rparr>)"
  unfolding u_def e_def f_def
  by (rule registeredI [OF assms(1), where tok = tok and ?t3.0 = t3], simp add: numeral_2_eq_2 numeral_3_eq_3)+

lemma post_file_auth [post_rules]:
  assumes "Q (Inl ConnectionLost) d"
    and "\<And>t. Q (Inr ()) (d\<lparr>authOutbox := authOutbox d @ [new_outbox_event (cuid E' (map ob_id (authOutbox d))) ty p t]\<rparr>)"
    and "\<And>t. Q (Inl ConnectionLost) (d\<lparr>authOutbox := authOutbox d @ [new_outbox_event (cuid E' (map ob_id (authOutbox d))) ty p t]\<rparr>)"
  shows "db_post (run_db_at E (file_auth_event E' ty p)) d Q"
  by (rule post_run_db_at) (simp_all add: file_auth_event_def assms)

lemma post_log [post_rules]:
  assumes "Q (Inl ConnectionLost) d" and "\<And>t. Q (Inr ()) (log_row u a t d)" and "\<And>t. Q (Inl ConnectionLost) (log_row u a t d)"
  shows "db_post (run_db_at E (\<lambda>t d. (Inr (), log_row u a t d))) d Q"
  by (rule post_run_db_at) (simp_all add: assms)

lemma fixing_session: "moves (on_db (fixing F)) (createSession E A c u)"
  unfolding createSession_def setSessionCookies_def signAccessToken_def Let_def
  by (intro fixed.db_moves fixed.moves_redis_calls)

text \<open>
  What a registration may have done when it ends: nothing, or the user and a part of the rest, the whole if it
  was answered with a session or the transaction is one.
\<close>

definition registering :: "bool \<Rightarrow> string \<Rightarrow> string option \<Rightarrow> db \<Rightarrow> bool \<Rightarrow> db \<Rightarrow> bool" where
  "registering one email name d ok d' \<longleftrightarrow> (d' = d \<or> (\<exists>n \<le> 3. registered n email name d d')) \<and>
     (ok \<longrightarrow> registered 3 email name d d') \<and> (one \<longrightarrow> d' = d \<or> registered 3 email name d d')"

lemma registeringI:
  "registering one email name d False d"
  "\<not> one \<Longrightarrow> n \<le> 3 \<Longrightarrow> registered n email name d d' \<Longrightarrow> registering one email name d False d'"
  "registered 3 email name d d' \<Longrightarrow> registering one email name d ok d'"
  by (auto simp: registering_def)

lemma register_tx_post:
  "db_post (register_tx E A email h name t) d (\<lambda>r d'. registering (oneTransaction E) email name d (\<exists>u. r = Inr u) d')"
proof -
  let ?Q = "\<lambda>(r :: exn + user) d'. registering (oneTransaction E) email name d (\<exists>u. r = Inr u) d'"
  have stages: "oneTransaction E \<or> ?Q (Inl x) (d\<lparr>users := users d @ [new_user i email (Some h) name (defaultRole A)]\<rparr>)"
    "oneTransaction E \<or> ?Q (Inl x) (d\<lparr>users := users d @ [new_user i email (Some h) name (defaultRole A)],
        authOutbox := authOutbox d @ [new_outbox_event a ''UserRegisteredEvent'' (UserRegistered i email name) t1]\<rparr>)"
    "oneTransaction E \<or> ?Q (Inl x) (d\<lparr>users := users d @ [new_user i email (Some h) name (defaultRole A)],
        authOutbox := authOutbox d @ [new_outbox_event a ''UserRegisteredEvent'' (UserRegistered i email name) t1,
          new_outbox_event b ''EmailVerificationRequestedEvent'' (EmailVerificationRequested i email t) t2]\<rparr>)"
    if "\<not> has_key user_email email (users d)" for x i a b t1 t2
    using registered_stages(1) [OF that] registered_stages(2) [OF that] registered_stages(3) [OF that]
    by (auto intro: registeringI(2) [where n = 0] registeringI(2) [where n = 1] registeringI(2) [where n = 2])
  have new_email: "user_email (new_user i email pw name r) = email" for i pw r by (simp add: new_user_def)
  show ?thesis
    unfolding register_tx_def Let_def with_id_def insert_user_def [abs_def]
    apply (rule post_interactive_either, intro post_rules)
    apply (use stages registered_stages(4) in \<open>auto simp: log_row_def registeringI(1,3) new_email\<close>)
    done
qed

lemma post_registered:
  "db_post (register E A email pw name) d
     (\<lambda>r d'. registering (oneTransaction E) email name d (\<exists>c g. r = Inr (Answer c g)) d')"
proof -
  let ?one = "oneTransaction E"
  define Q :: "exn + session_grant answer \<Rightarrow> db \<Rightarrow> bool"
    where "Q = (\<lambda>r d'. registering ?one email name d (\<exists>c g. r = Inr (Answer c g)) d')"
  have same: "Q (Inl e) d" "Q (Inr (Refuse c x)) d" for e c x by (simp_all add: Q_def registeringI)
  have tail: "db_post (sq (redis_put E k v ttl) (createSession E A 201 u)) d' Q" if "registered 3 email name d d'" for k v ttl u d'
    by (rule frame_post [where F = "\<lambda>d. d"])
       (intro fixed.db_moves fixed.moves_redis_calls fixing_session, use that in \<open>simp add: Q_def registeringI\<close>)
  have rest: "passing (\<lambda>user. sq (redis_put E (verify_key t) (user_id user) emailVerificationSecs) (createSession E A 201 user)) Q r d'"
    if "registering ?one email name d (\<exists>u. r = Inr u) d'" for t r d'
    using that tail by (cases r) (auto simp: passing_def Q_def registering_def)
  show ?thesis
    unfolding register_def Q_def [symmetric]
    by (intro post_rules db_post_conseq [OF register_tx_post] rest same)
qed

text \<open>
  C21. A registration creates a user with a new address or changes nothing, whatever fails: the database is
  unchanged, or it has exactly one new user with the address that was free, and of the event of the registration,
  the event for the verification mail and the entry in the security log, in this order, the first ones. All of
  them are there if the registration was answered with a session. If the client's transactions are transactions
  of the database, all of them are there or nothing changed, whatever was answered.
\<close>

theorem register_all_or_nothing:
  "let (r, w') = register E A email pw name w; d = db w; d' = db w' in
     (d' = d \<or> (\<exists>n \<le> 3. registered n email name d d')) \<and>
     ((\<exists>c g. r = Inr (Answer c g)) \<longrightarrow> registered 3 email name d d') \<and>
     (oneTransaction E \<longrightarrow> d' = d \<or> registered 3 email name d d')"
  using db_post_run [OF post_registered [of E A email pw name] refl [of "db w"]]
  by (simp add: Let_def case_prod_beta registering_def)

lemma register_all_or_nothing_witness:
  "(let d' = db (snd (register (faulty_env [(4, Failed)]) example_auth ''zoe@x.io'' ''pw'' None (example_world example_db)))
     in d' = example_db \<or> registered 3 ''zoe@x.io'' None example_db d') \<and>
   (let d' = db (snd (register ((faulty_env [(3, Failed)])\<lparr>oneTransaction := False\<rparr>) example_auth ''zoe@x.io'' ''pw'' None
       (example_world example_db))) in d' = example_db \<or> (\<exists>n \<le> 3. registered n ''zoe@x.io'' None example_db d'))"
proof -
  have "oneTransaction (faulty_env [(4, Failed)])" by (simp add: faulty_env_def calm_env_def)
  then show ?thesis
    using register_all_or_nothing [of "faulty_env [(4, Failed)]" example_auth "''zoe@x.io''" "''pw''" None "example_world example_db"]
      register_all_or_nothing [of "(faulty_env [(3, Failed)])\<lparr>oneTransaction := False\<rparr>" example_auth "''zoe@x.io''" "''pw''"
        None "example_world example_db"]
    by (simp add: Let_def case_prod_beta)
qed

section \<open>Where the promises end\<close>

text \<open>Ann's session as the login records it: the row and the refresh key, in one world.\<close>

definition signed_in :: "alist_redis world" where
  "signed_in = holding ''1'' (example_db\<lparr>userSessions := [\<lparr>us_id = ''s'', us_userId = ''ann'',
     us_tokenHash = Some ''hs'', us_lastSeenAt = 0, us_revokedAt = None\<rparr>]\<rparr>)"

fun answered :: "exn + 'b answer \<Rightarrow> 'b option" where
  "answered (Inr (Answer c x)) = Some x"
| "answered _ = None"

text \<open>
  Revoking a session does not end it once its token has been rotated, since the row keeps the
  hash of the first one: Ann's device refreshes, Ann revokes the session, and the device's next
  refresh is still answered with a new session.
\<close>

lemma revoked_session_lives:
  "let (r1, w1) = refresh calm_env example_auth (Some ''ann.s'') signed_in;
       g1 = the (answered r1);
       (r2, w2) = revoke_session calm_env (gr_access g1) ''s'' w1;
       (r3, w3) = refresh calm_env example_auth (Some (gr_refreshToken g1)) w2
   in answered r1 \<noteq> None \<and> answered r2 \<noteq> None \<and> answered r3 \<noteq> None \<and>
      list_all (\<lambda>s. us_revokedAt s \<noteq> None) (userSessions (db w3))"
  by code_simp

definition acme :: org where
  "acme = \<lparr>org_id = ''o1'', org_name = ''Acme'', org_slug = ''acme'', org_planTier = FREE,
     org_seatsPurchased = 1, org_ssoProvider = None, org_ssoDomain = None,
     org_ssoMetadataUrl = None\<rparr>"

text \<open>
  The login of an organization takes the caller's word: anybody who names an address and the
  slug of any organization gets an exchange token for the account with that address, here the
  administrator's, which the account then belongs to the organization as well.
\<close>

lemma sso_takes_over:
  "let (r1, w1) = login_sso calm_env (Some ''root@x.io'') (Some ''acme'') None None None
         (example_world (example_db\<lparr>orgs := [acme]\<rparr>));
       (r2, w2) = exchange calm_env example_auth (fst (the (answered r1))) w1
   in answered r1 \<noteq> None \<and> answered r2 \<noteq> None \<and>
      cl_sub (gr_access (the (answered r2))) = ''root'' \<and> cl_role (gr_access (the (answered r2))) = Some ADMIN \<and>
      cl_orgId (gr_access (the (answered r2))) = Some ''o1''"
  by code_simp


end
