(* ===== verification/Auth_Steps.thy ===== *)
theory Auth_Steps
  imports Federated_Login
begin

text \<open>
  Every request to the auth service keeps the constraints of the database, whatever fails and
  whether or not its transactions are atomic.
\<close>

section \<open>The constraints of the database\<close>

text \<open>One lemma for each kind of write of the auth routes.\<close>

lemma keep_insert_user: "moves (on_db (keeping constraints)) (run_db E (insert_user u))"
  unfolding insert_user_def [abs_def]
  by (rule keeping_guarded) (auto simp: constraint_defs)

lemma keep_update_user:
  assumes "\<And>r. user_id (f r) = user_id r" and "\<And>r. user_email (f r) = user_email r"
  shows "moves (on_db (keeping constraints)) (run_db E (update_user u f))"
  unfolding update_user_def [abs_def]
  by (rule keeping_guarded) (simp add: constraint_defs unique_by_update has_key_update assms)

lemma link_account_keys [simp]:
  "user_id (link_account p b t r) = user_id r" "user_email (link_account p b t r) = user_email r"
  by (cases "op_provider p"; simp add: link_account_def Let_def)+

lemma keep_store_link: "moves (on_db (keeping constraints)) (run_db E (store_link p b t))"
  unfolding store_link_def [abs_def]
  by (rule keeping_guarded) (simp add: constraint_defs unique_by_update has_key_update)

lemma keep_file_auth: "moves (on_db (keeping constraints)) (run_db_at E (file_auth_event E' ty p))"
  by (rule kept.moves_run_db_at) (simp add: file_auth_event_def keeping_def constraint_defs)

lemma keep_log: "moves (on_db (keeping constraints)) (run_db_at E (\<lambda>t d. (Inr (), log_row u a t d)))"
  by (rule kept.moves_run_db_at) (simp add: log_row_def keeping_def constraint_defs)

lemma keep_touch_login: "moves (on_db (keeping constraints)) (run_db E (touch_login u b t t'))"
  unfolding touch_login_def [abs_def]
  by (rule keeping_guarded) (simp add: constraint_defs unique_by_update has_key_update)

lemma keep_create_session: "moves (on_db (keeping constraints)) (run_db_at E (create_userSession i u h))"
  unfolding create_userSession_def [abs_def]
  by (rule keeping_guarded_at) (auto simp: constraint_defs)

lemma keep_revoke: "moves (on_db (keeping constraints)) (write_db E (revoke_rows u t))"
  by (rule keeping_write) (auto simp: revoke_rows_def constraint_defs unique_by_update ball_update_rows)

lemma keep_delete_user: "moves (on_db (keeping constraints)) (run_db E (delete_user u))"
  unfolding delete_user_def [abs_def]
  by (rule keeping_guarded) (simp add: without_user_constraints)

lemma keep_filter_logs: "moves (on_db (keeping constraints)) (write_db E (\<lambda>d. d\<lparr>securityLogs := f d\<rparr>))"
  by (rule keeping_write) (simp add: constraint_defs)

lemma keep_filter_rows:
  "moves (on_db (keeping constraints)) (write_db E (\<lambda>d. d\<lparr>submissions := filter P1 (submissions d)\<rparr>))"
  "moves (on_db (keeping constraints)) (write_db E (\<lambda>d. d\<lparr>completions := filter P2 (completions d)\<rparr>))"
  "moves (on_db (keeping constraints)) (write_db E (\<lambda>d. d\<lparr>labSessions := filter P3 (labSessions d)\<rparr>))"
  by (rule keeping_write, auto simp: constraint_defs)+

lemma keep_revoke_one: "moves (on_db (keeping constraints)) (run_db E (\<lambda>d. guarded (gs d)
    (d\<lparr>userSessions := update_rows P (\<lambda>s. s\<lparr>us_revokedAt := r\<rparr>) (userSessions d)\<rparr>) d))"
  by (rule keeping_guarded) (auto simp: constraint_defs unique_by_update ball_update_rows)

lemmas keep_writes = keep_insert_user keep_store_link keep_file_auth keep_log keep_touch_login
  keep_create_session keep_revoke keep_delete_user keep_filter_logs keep_filter_rows
  keep_revoke_one kept.moves_redis_calls kept.moves_safe_execute kept.moves_interactive

lemmas keep_flow = kept.lifted.moves_basic kept.lifted.moves_new_id kept.lifted.moves_draw kept.lifted.moves_now
  kept.lifted.moves_with_id kept.moves_redis kept.moves_query kept.lifted.moves_for_each moves_rules

text \<open>The functions that the routes share, then the routes.\<close>

lemma keep_parts:
  "moves (on_db (keeping constraints)) (logSecurityEvent E u a)"
  "moves (on_db (keeping constraints)) (denylistAccessToken E j)"
  "moves (on_db (keeping constraints)) (setSessionCookies E A user)"
  "moves (on_db (keeping constraints)) (trackLogin E v h)"
  "moves (on_db (keeping constraints)) (invalidateAllSessions E v)"
  "moves (on_db (keeping constraints)) (handleLoginFail E email u)"
  "moves (on_db (keeping constraints)) (createExchangeToken E v)"
  "moves (on_db (keeping constraints)) (findOrCreateOAuthUser E p)"
  unfolding logSecurityEvent_def denylistAccessToken_def setSessionCookies_def signAccessToken_def
    trackLogin_def invalidateAllSessions_def delete_batch_def handleLoginFail_def count_failure_def
    createExchangeToken_def findOrCreateOAuthUser_def Let_def
  by (intro keep_writes keep_flow keep_update_user; simp)+

lemma moves_refresh_state:
  "moves R m \<Longrightarrow> moves R m' \<Longrightarrow> (\<And>a. moves R (f a)) \<Longrightarrow>
   moves R (case s of StateUnparseable \<Rightarrow> m | StateOther \<Rightarrow> m' | StateRotated a \<Rightarrow> f a)"
  by (cases s) simp_all

lemma keep_account_routes:
  "moves (on_db (keeping constraints)) (register E A email pw name)"
  "moves (on_db (keeping constraints)) (login E A email pw)"
  "moves (on_db (keeping constraints)) (verify_email E token)"
  "moves (on_db (keeping constraints)) (forgot_password E A email)"
  "moves (on_db (keeping constraints)) (reset_password E A token pw)"
  "moves (on_db (keeping constraints)) (change_password E A c pw new)"
  "moves (on_db (keeping constraints)) (refresh E A cookie)"
  "moves (on_db (keeping constraints)) (exchange E A token)"
  "moves (on_db (keeping constraints)) (update_me E c name job)"
  "moves (on_db (keeping constraints)) (delete_account E c)"
  "moves (on_db (keeping constraints)) (logout E A who cookie)"
  "moves (on_db (keeping constraints)) (logout_all E c)"
  "moves (on_db (keeping constraints)) (revoke_session E c sid)"
  unfolding register_def register_tx_def createSession_def login_def verify_email_def forgot_password_def
    reset_password_def change_password_def refresh_def rotation_def exchange_def update_me_def
    delete_account_def logout_def logout_all_def revoke_session_def Let_def
  by (intro keep_parts keep_writes keep_flow moves_refresh_state keep_update_user; simp)+

lemma keep_other_logins:
  "moves (on_db (keeping constraints)) (mfa_setup E A c)"
  "moves (on_db (keeping constraints)) (mfa_verify E A c code)"
  "moves (on_db (keeping constraints)) (login_mfa E A decoded code)"
  "moves (on_db (keeping constraints)) (github_callback E gh emails)"
  "moves (on_db (keeping constraints)) (google_callback E g)"
  "moves (on_db (keeping constraints)) (login_sso E email slug ssoId name avatar)"
  unfolding mfa_setup_def mfa_verify_def login_mfa_def createSession_def github_callback_def
    google_callback_def login_sso_def finish_login_def Let_def
  by (intro keep_parts keep_writes keep_flow keep_update_user; simp)+

text \<open>The requests that change something; the hook in front of them only reads.\<close>

inductive auth_step :: "'r env \<Rightarrow> auth_env \<Rightarrow> 'r world \<Rightarrow> 'r world \<Rightarrow> bool" for E A where
  "auth_step E A w (snd (register E A email pw name w))"
| "auth_step E A w (snd (login E A email pw w))"
| "auth_step E A w (snd (verify_email E token w))"
| "auth_step E A w (snd (forgot_password E A email w))"
| "auth_step E A w (snd (reset_password E A token pw w))"
| "auth_step E A w (snd (change_password E A c pw new w))"
| "auth_step E A w (snd (refresh E A cookie w))"
| "auth_step E A w (snd (exchange E A token w))"
| "auth_step E A w (snd (update_me E c name job w))"
| "auth_step E A w (snd (delete_account E c w))"
| "auth_step E A w (snd (logout E A who cookie w))"
| "auth_step E A w (snd (logout_all E c w))"
| "auth_step E A w (snd (revoke_session E c sid w))"
| "auth_step E A w (snd (mfa_setup E A c w))"
| "auth_step E A w (snd (mfa_verify E A c code w))"
| "auth_step E A w (snd (login_mfa E A decoded code w))"
| "auth_step E A w (snd (github_callback E gh emails w))"
| "auth_step E A w (snd (google_callback E g w))"
| "auth_step E A w (snd (login_sso E sso_email slug ssoId sso_name avatar w))"

lemma auth_step_constraints:
  assumes "auth_step E A w w'" and "constraints (db w)"
  shows "constraints (db w')"
proof -
  note runs = keep_account_routes [THEN moves_db_run] keep_other_logins [THEN moves_db_run]
  from assms(1) have "keeping constraints (db w) (db w')"
    by cases (simp_all only: runs)
  with assms(2) show ?thesis by (simp add: keeping_def)
qed

end
