(* ===== verification/Social.thy ===== *)
theory Social
  imports Cascades
begin

text \<open>
  The social features of the core service: likes, bookmarks and follows, public profiles, the feed
  and the discovery page (services/core/src/modules/challenge/challenge.routes.ts), the threaded
  comments and their votes (\<open>modules/social/comment.routes.ts\<close>). A handler takes the user of the
  verified token; \<open>None\<close> is a request without one.
\<close>

datatype social_error =
    NoSuchChallenge | CannotFollowSelf | NoSuchUser | ProfileNotFound | Unauthenticated
  | EmptyComment | NoSuchParent | NoSuchComment | NotCommentAuthor
  | NameRequired | DuplicateName | NoSuchList | NotListOwner | PrivateList | ChallengeRequired
  | NoSuchShare | SocialFailure

type_synonym 'b social = "(social_error, 'b) response"

text \<open>The \<open>catch\<close> around the body of a handler.\<close>

definition or_fail :: "('r world, 'b social) act \<Rightarrow> ('r world, 'b social) act" where
  "or_fail m = catch m (\<lambda>_. ret (Denied 500 SocialFailure))"

section \<open>Toggles\<close>

text \<open>
  Likes, bookmarks and follows are tables of pairs, a target and a user. \<open>tab\<close> selects the table,
  \<open>upd\<close> updates it, and \<open>target\<close> tells whether the target exists.
\<close>

definition toggle_pair ::
  "'r env \<Rightarrow> (db \<Rightarrow> pair_row list) \<Rightarrow> ((pair_row list \<Rightarrow> pair_row list) \<Rightarrow> db \<Rightarrow> db) \<Rightarrow>
   (db \<Rightarrow> string \<Rightarrow> bool) \<Rightarrow> string \<Rightarrow> string \<Rightarrow> ('r world, bool) act" where
  "toggle_pair E tab upd target i u =
     bnd (query E (\<lambda>d. find (\<lambda>r. pair_key r = (i, u)) (tab d))) (\<lambda>existing.
     if existing \<noteq> None then
       sq (run_db E (\<lambda>d. guarded [(RecordNotFound, \<not> has_key pair_key (i, u) (tab d))]
            (upd (filter (\<lambda>r. pair_key r \<noteq> (i, u))) d) d))
       (ret False)
     else
       sq (run_db_at E (\<lambda>t d. guarded
            [(UniqueViolation, has_key pair_key (i, u) (tab d)),
             (ForeignKeyViolation, \<not> target d i), (ForeignKeyViolation, \<not> has_user d u)]
            (upd (\<lambda>rs. rs @ [\<lparr>pr_targetId = i, pr_userId = u, pr_createdAt = t\<rparr>]) d) d))
       (ret True))"

definition toggle_like :: "'r env \<Rightarrow> string \<Rightarrow> string \<Rightarrow> ('r world, (nat \<times> bool) social) act" where
  "toggle_like E userId i = or_fail (
     bnd (query E (find_challenge i)) (\<lambda>challenge.
     if challenge = None then ret (Denied 404 NoSuchChallenge)
     else
       bnd (toggle_pair E challengeLikes challengeLikes_update (\<lambda>d. has_challenge d) i userId) (\<lambda>liked.
       bnd (query E (\<lambda>d. count_rows (\<lambda>r. pr_targetId r = i) (challengeLikes d))) (\<lambda>likes.
       ret (Sent 200 (likes, liked))))))"

definition toggle_bookmark :: "'r env \<Rightarrow> string \<Rightarrow> string \<Rightarrow> ('r world, bool social) act" where
  "toggle_bookmark E userId i = or_fail (
     bnd (query E (find_challenge i)) (\<lambda>challenge.
     if challenge = None then ret (Denied 404 NoSuchChallenge)
     else
       bnd (toggle_pair E challengeBookmarks challengeBookmarks_update (\<lambda>d. has_challenge d) i userId) (\<lambda>saved.
       ret (Sent 200 saved))))"

definition interactions ::
  "'r env \<Rightarrow> string option \<Rightarrow> string \<Rightarrow> ('r world, (nat \<times> bool \<times> bool) social) act" where
  "interactions E viewer i =
     bnd (query E (\<lambda>d. count_rows (\<lambda>r. pr_targetId r = i) (challengeLikes d))) (\<lambda>likes.
     if truthy viewer then
       bnd (query E (\<lambda>d. has_key pair_key (i, the viewer) (challengeLikes d))) (\<lambda>liked.
       bnd (query E (\<lambda>d. has_key pair_key (i, the viewer) (challengeBookmarks d))) (\<lambda>saved.
       ret (Sent 200 (likes, liked, saved))))
     else ret (Sent 200 (likes, False, False)))"

text \<open>The answer tells whether the caller follows now, and the two counts of the followed user.\<close>

definition toggle_follow ::
  "'r env \<Rightarrow> string \<Rightarrow> string \<Rightarrow> ('r world, (bool \<times> nat \<times> nat) social) act" where
  "toggle_follow E followerId followedId =
     (if followerId = followedId then ret (Denied 400 CannotFollowSelf)
      else or_fail (
        bnd (query E (find_user followedId)) (\<lambda>target.
        if target = None then ret (Denied 404 NoSuchUser)
        else
          bnd (toggle_pair E userFollows userFollows_update (\<lambda>d. has_user d) followedId followerId) (\<lambda>following.
          bnd (query E (\<lambda>d. count_rows (\<lambda>r. pr_userId r = followedId) (userFollows d))) (\<lambda>followingCount.
          bnd (query E (\<lambda>d. count_rows (\<lambda>r. pr_targetId r = followedId) (userFollows d))) (\<lambda>followersCount.
          ret (Sent 200 (following, followingCount, followersCount))))))))"

section \<open>Profiles\<close>

text \<open>\<open>orderBy \<dots> desc\<close> on a nullable column puts the nulls first.\<close>

definition latest_first :: "('a \<Rightarrow> int option) \<Rightarrow> 'a list \<Rightarrow> 'a list" where
  "latest_first f xs = filter (\<lambda>x. f x = None) xs @
     sort_key (\<lambda>x. - the (f x)) (filter (\<lambda>x. f x \<noteq> None) xs)"

text \<open>The loop that keeps the first row of each key.\<close>

primrec first_each :: "('a \<Rightarrow> 'k) \<Rightarrow> 'a list \<Rightarrow> 'a list \<Rightarrow> 'a list" where
  "first_each key [] kept = kept"
| "first_each key (s # ss) kept = first_each key ss (if has_key key (key s) kept then kept else kept @ [s])"

record profile =
  pf_user :: user
  pf_followersCount :: nat
  pf_followingCount :: nat
  pf_likesCount :: nat
  pf_badges :: "user_badge list"
  pf_completedChallenges :: "challenge list"
  pf_isFollowing :: bool

definition recent_solves :: "string \<Rightarrow> db \<Rightarrow> lab_session list" where
  "recent_solves u d = take 20 (latest_first ls_endedAt
     (filter (\<lambda>s. ls_userId s = u \<and> ls_status s = COMPLETED) (labSessions d)))"

definition challenges_of :: "lab_session list \<Rightarrow> db \<Rightarrow> challenge list" where
  "challenges_of ss d = List.map_filter (\<lambda>s. find_challenge (ls_challengeId s) d) ss"

definition view_profile ::
  "'r env \<Rightarrow> string option \<Rightarrow> string \<Rightarrow> ('r world, profile social) act" where
  "view_profile E viewer username =
     bnd (query E (\<lambda>d. map_option (\<lambda>u. \<lparr>pf_user = u,
           pf_followersCount = count_rows (\<lambda>r. pr_targetId r = user_id u) (userFollows d),
           pf_followingCount = count_rows (\<lambda>r. pr_userId r = user_id u) (userFollows d),
           pf_likesCount = count_rows (\<lambda>r. pr_userId r = user_id u) (challengeLikes d),
           pf_badges = take 10 (sort_key (\<lambda>b. - ub_earnedAt b)
             (filter (\<lambda>b. ub_userId b = user_id u) (userBadges d))),
           pf_completedChallenges =
             challenges_of (first_each ls_challengeId (recent_solves (user_id u) d) []) d,
           pf_isFollowing = False\<rparr>)
         (find (\<lambda>u. (user_username u = Some username \<or> user_id u = username) \<and> user_isPublic u) (users d))))
       (\<lambda>found.
     case found of
       None \<Rightarrow> ret (Denied 404 ProfileNotFound)
     | Some p \<Rightarrow>
         if truthy viewer \<and> viewer \<noteq> Some (user_id (pf_user p)) then
           bnd (query E (\<lambda>d. has_key pair_key (user_id (pf_user p), the viewer) (userFollows d))) (\<lambda>follows.
           ret (Sent 200 (p\<lparr>pf_isFollowing := follows\<rparr>)))
         else ret (Sent 200 p))"

definition my_bookmarks :: "'r env \<Rightarrow> string \<Rightarrow> ('r world, challenge list) act" where
  "my_bookmarks E userId = query E (\<lambda>d. List.map_filter (\<lambda>r. find_challenge (pr_targetId r) d)
     (sort_key (\<lambda>r. - pr_createdAt r) (filter (\<lambda>r. pr_userId r = userId) (challengeBookmarks d))))"

definition my_following :: "'r env \<Rightarrow> string \<Rightarrow> ('r world, user list) act" where
  "my_following E userId = query E (\<lambda>d. List.map_filter (\<lambda>r. find_user (pr_targetId r) d)
     (sort_key (\<lambda>r. - pr_createdAt r) (filter (\<lambda>r. pr_userId r = userId) (userFollows d))))"

section \<open>The feed\<close>

definition take_limit :: "string option \<Rightarrow> int" where
  "take_limit limit =
     (let n = (case parse_int (case limit of None \<Rightarrow> ''20'' | Some s \<Rightarrow> s) of
                 None \<Rightarrow> 20 | Some k \<Rightarrow> if k = 0 then 20 else k)
      in min (max n 1) 50)"

datatype feed_kind = ChallengeSolved string | BadgeEarned string

record feed_item =
  fi_id :: string
  fi_kind :: feed_kind
  fi_userId :: string
  fi_timestamp :: int

definition solved_item :: "lab_session \<Rightarrow> feed_item" where
  "solved_item c = \<lparr>fi_id = ''completion-'' @ ls_id c, fi_kind = ChallengeSolved (ls_challengeId c),
     fi_userId = ls_userId c,
     fi_timestamp = (case ls_endedAt c of None \<Rightarrow> ls_startedAt c | Some t \<Rightarrow> t)\<rparr>"

definition earned_item :: "user_badge \<Rightarrow> feed_item" where
  "earned_item b = \<lparr>fi_id = ''badge-'' @ ub_userId b @ ''-'' @ ub_badgeId b,
     fi_kind = BadgeEarned (ub_badgeId b), fi_userId = ub_userId b, fi_timestamp = ub_earnedAt b\<rparr>"

definition feed :: "'r env \<Rightarrow> string \<Rightarrow> string option \<Rightarrow> ('r world, feed_item list) act" where
  "feed E userId limit =
     (let n = nat (take_limit limit) in
     bnd (query E (\<lambda>d. map pr_targetId (filter (\<lambda>r. pr_userId r = userId) (userFollows d)))) (\<lambda>followedIds.
     if followedIds = [] then ret []
     else
       bnd (query E (\<lambda>d. take n (latest_first ls_endedAt
         (filter (\<lambda>s. ls_userId s \<in> set followedIds \<and> ls_status s = COMPLETED) (labSessions d))))) (\<lambda>solves.
       bnd (query E (\<lambda>d. take n (sort_key (\<lambda>b. - ub_earnedAt b)
         (filter (\<lambda>b. ub_userId b \<in> set followedIds) (userBadges d))))) (\<lambda>earned.
       ret (take n (sort_key (\<lambda>i. - fi_timestamp i) (map solved_item solves @ map earned_item earned)))))))"

section \<open>Discovery\<close>

definition lower_char :: "char \<Rightarrow> char" where
  "lower_char c = (let n = of_char c :: nat in if 65 \<le> n \<and> n \<le> 90 then char_of (n + 32) else c)"

text \<open>\<open>contains\<close> with \<open>mode: insensitive\<close>, for ASCII letters; a null column contains nothing.\<close>

definition contains_text :: "string \<Rightarrow> string option \<Rightarrow> bool" where
  "contains_text q col = (case col of
     None \<Rightarrow> False
   | Some s \<Rightarrow> list_ex (\<lambda>n. starts_with (map lower_char q) (drop n (map lower_char s))) [0..<Suc (length s)])"

record discovered =
  dc_user :: user
  dc_followersCount :: nat
  dc_topBadge :: "string option"
  dc_isFollowing :: bool
  dc_isSelf :: bool

definition discover ::
  "'r env \<Rightarrow> string option \<Rightarrow> string option \<Rightarrow> string option \<Rightarrow> ('r world, discovered list) act" where
  "discover E viewer q limit =
     (let n = nat (take_limit limit);
          search = (case q of None \<Rightarrow> [] | Some s \<Rightarrow> trim s) in
     bnd (query E (\<lambda>d. map (\<lambda>u. \<lparr>dc_user = u,
           dc_followersCount = count_rows (\<lambda>r. pr_targetId r = user_id u) (userFollows d),
           dc_topBadge = map_option ub_badgeId (List.find (\<lambda>_. True) (sort_key (\<lambda>b. - ub_earnedAt b)
             (filter (\<lambda>b. ub_userId b = user_id u) (userBadges d)))),
           dc_isFollowing = False, dc_isSelf = (viewer = Some (user_id u))\<rparr>)
         (take n (sort_key (\<lambda>u. - user_currentStreak u) (sort_key (\<lambda>u. - user_xp u)
           (filter (\<lambda>u. user_isPublic u \<and> (search = [] \<or> contains_text search (user_name u) \<or>
              contains_text search (user_username u) \<or> contains_text search (user_jobTitle u)))
            (users d)))))))
       (\<lambda>found.
     if truthy viewer then
       bnd (query E (\<lambda>d. map pr_targetId (filter (\<lambda>r. pr_userId r = the viewer) (userFollows d)))) (\<lambda>followed.
       ret (map (\<lambda>r. r\<lparr>dc_isFollowing := user_id (dc_user r) \<in> set followed\<rparr>) found))
     else ret found))"

section \<open>Comments\<close>

record comment_view =
  vw_comment :: comment
  vw_score :: int
  vw_userVote :: int
  vw_replyCount :: nat

definition score_of :: "comment_vote list \<Rightarrow> int" where
  "score_of vs = int (count_rows (\<lambda>v. cv_vote v > 0) vs) - int (count_rows (\<lambda>v. cv_vote v < 0) vs)"

definition vote_of :: "string option \<Rightarrow> comment_vote list \<Rightarrow> int" where
  "vote_of viewer vs = (if \<not> truthy viewer then 0
     else case find (\<lambda>v. cv_userId v = the viewer) vs of None \<Rightarrow> 0 | Some v \<Rightarrow> cv_vote v)"

definition formatComment :: "string option \<Rightarrow> db \<Rightarrow> nat \<Rightarrow> comment \<Rightarrow> comment_view" where
  "formatComment viewer d replies c =
     (let vs = filter (\<lambda>v. cv_commentId v = cm_id c) (commentVotes d) in
      \<lparr>vw_comment = c, vw_score = score_of vs, vw_userVote = vote_of viewer vs, vw_replyCount = replies\<rparr>)"

definition replies_to :: "string \<Rightarrow> db \<Rightarrow> comment list" where
  "replies_to i d = sort_key cm_createdAt (filter (\<lambda>c. cm_parentId c = Some i) (comments d))"

definition list_comments ::
  "'r env \<Rightarrow> string option \<Rightarrow> string \<Rightarrow> ('r world, (comment_view \<times> comment_view list) list social) act" where
  "list_comments E viewer challengeId = or_fail (
     bnd (query E (\<lambda>d. map (\<lambda>c. (formatComment viewer d (length (replies_to (cm_id c) d)) c,
           map (formatComment viewer d 0) (replies_to (cm_id c) d)))
         (sort_key (\<lambda>c. if cm_isPinned c then (0 :: nat) else 1) (sort_key (\<lambda>c. - cm_createdAt c)
           (filter (\<lambda>c. cm_challengeId c = challengeId \<and> cm_parentId c = None) (comments d)))))) (\<lambda>results.
     ret (Sent 200 results)))"

definition insert_comment ::
  "string \<Rightarrow> string \<Rightarrow> string \<Rightarrow> string option \<Rightarrow> string \<Rightarrow> int \<Rightarrow> db \<Rightarrow> (exn + unit) \<times> db" where
  "insert_comment i challengeId userId parent text t d = guarded
     [(UniqueViolation, has_key cm_id i (comments d)),
      (ForeignKeyViolation, \<not> has_challenge d challengeId), (ForeignKeyViolation, \<not> has_user d userId),
      (ForeignKeyViolation, parent \<noteq> None \<and> \<not> has_key cm_id (the parent) (comments d))]
     (d\<lparr>comments := comments d @ [\<lparr>cm_id = i, cm_challengeId = challengeId, cm_userId = userId,
        cm_parentId = parent, cm_content = text, cm_isPinned = False, cm_createdAt = t\<rparr>]\<rparr>) d"

definition post_comment ::
  "'r env \<Rightarrow> string option \<Rightarrow> string \<Rightarrow> string option \<Rightarrow> string option \<Rightarrow> ('r world, string social) act" where
  "post_comment E caller challengeId content parentId =
     (if \<not> truthy caller then ret (Denied 401 Unauthenticated)
      else if \<not> truthy content \<or> trim (the content) = [] then ret (Denied 400 EmptyComment)
      else or_fail (
        bnd (query E (find_challenge challengeId)) (\<lambda>challenge.
        if challenge = None then ret (Denied 404 NoSuchChallenge)
        else
          bnd (if truthy parentId then
                 bnd (query E (\<lambda>d. find (\<lambda>c. cm_id c = the parentId) (comments d))) (\<lambda>parent.
                 ret (case parent of None \<Rightarrow> False | Some p \<Rightarrow> cm_challengeId p = challengeId))
               else ret True) (\<lambda>parent_ok.
          if \<not> parent_ok then ret (Denied 404 NoSuchParent)
          else
            with_id E (\<lambda>i.
            sq (run_db_at E (insert_comment i challengeId (the caller) (js_or_null parentId) (trim (the content))))
            (ret (Sent 201 i)))))))"

text \<open>A vote that is not a number compares with nothing: it counts as a vote below zero.\<close>

definition above_zero :: "int option \<Rightarrow> bool" where
  "above_zero vote = (case vote of None \<Rightarrow> False | Some v \<Rightarrow> v > 0)"

definition cast :: "int option \<Rightarrow> int" where
  "cast vote = (if above_zero vote then 1 else - 1)"

definition vote_comment ::
  "'r env \<Rightarrow> string option \<Rightarrow> string \<Rightarrow> int option \<Rightarrow> ('r world, (int \<times> int) social) act" where
  "vote_comment E caller commentId vote =
     (if \<not> truthy caller then ret (Denied 401 Unauthenticated)
      else let userId = the caller; k = (commentId, userId) in or_fail (
        bnd (query E (\<lambda>d. find (\<lambda>c. cm_id c = commentId) (comments d))) (\<lambda>comment.
        if comment = None then ret (Denied 404 NoSuchComment)
        else
          bnd (query E (\<lambda>d. find (\<lambda>v. vote_key v = k) (commentVotes d))) (\<lambda>existing.
          sq (case existing of
                Some v \<Rightarrow>
                  if Some (cv_vote v) = vote \<or> vote = Some 0 then
                    run_db E (\<lambda>d. guarded [(RecordNotFound, \<not> has_key vote_key k (commentVotes d))]
                      (d\<lparr>commentVotes := filter (\<lambda>v. vote_key v \<noteq> k) (commentVotes d)\<rparr>) d)
                  else
                    run_db E (\<lambda>d. guarded [(RecordNotFound, \<not> has_key vote_key k (commentVotes d))]
                      (d\<lparr>commentVotes := update_rows (\<lambda>v. vote_key v = k) (\<lambda>v. v\<lparr>cv_vote := cast vote\<rparr>)
                         (commentVotes d)\<rparr>) d)
              | None \<Rightarrow>
                  when_act (vote \<noteq> Some 0)
                    (run_db E (\<lambda>d. guarded
                      [(UniqueViolation, has_key vote_key k (commentVotes d)),
                       (ForeignKeyViolation, \<not> has_user d userId),
                       (ForeignKeyViolation, \<not> has_key cm_id commentId (comments d))]
                      (d\<lparr>commentVotes := commentVotes d @
                         [\<lparr>cv_commentId = commentId, cv_userId = userId, cv_vote = cast vote\<rparr>]\<rparr>) d))) (
          bnd (query E (\<lambda>d. filter (\<lambda>v. cv_commentId v = commentId) (commentVotes d))) (\<lambda>allVotes.
          ret (Sent 200 (score_of allVotes, vote_of caller allVotes))))))))"

definition delete_comment ::
  "'r env \<Rightarrow> string option \<Rightarrow> string \<Rightarrow> ('r world, unit social) act" where
  "delete_comment E caller i =
     (if \<not> truthy caller then ret (Denied 401 Unauthenticated)
      else or_fail (
        bnd (query E (\<lambda>d. find (\<lambda>c. cm_id c = i) (comments d))) (\<lambda>found.
        case found of
          None \<Rightarrow> ret (Denied 404 NoSuchComment)
        | Some c \<Rightarrow>
            bnd (query E (find_user (the caller))) (\<lambda>user.
            if cm_userId c \<noteq> the caller \<and> map_option user_role user \<noteq> Some ADMIN then
              ret (Denied 403 NotCommentAuthor)
            else
              sq (run_db E (\<lambda>d. guarded [(RecordNotFound, \<not> has_key cm_id i (comments d))]
                   (without_comments (\<lambda>c. cm_id c = i) d) d))
              (ret (Sent 200 ()))))))"

end
