(* ===== verification/Collections.thy ===== *)
theory Collections
  imports Social
begin

text \<open>
  The named lists of challenges that a user keeps (\<open>services/core/src/modules/content/list.routes.ts\<close>)
  and the public share tokens for achievements (\<open>modules/social/share.routes.ts\<close>).
\<close>

section \<open>Lists\<close>

abbreviation find_list :: "string \<Rightarrow> db \<Rightarrow> challenge_list option" where
  "find_list i d \<equiv> find (\<lambda>l. cl_id l = i) (challengeLists d)"

text \<open>A list with its items, each with its challenge, in the order of the items.\<close>

definition items_of :: "string \<Rightarrow> db \<Rightarrow> (list_item \<times> challenge option) list" where
  "items_of i d = map (\<lambda>x. (x, find_challenge (li_challengeId x) d))
     (sort_key li_order (filter (\<lambda>x. li_listId x = i) (listItems d)))"

definition my_lists ::
  "'r env \<Rightarrow> string option \<Rightarrow> ('r world, (challenge_list \<times> (list_item \<times> challenge option) list) list social) act" where
  "my_lists E caller =
     (if \<not> truthy caller then ret (Denied 401 Unauthenticated)
      else or_fail (
        bnd (query E (\<lambda>d. map (\<lambda>l. (l, items_of (cl_id l) d))
          (sort_key (\<lambda>l. - cl_createdAt l) (filter (\<lambda>l. cl_userId l = the caller) (challengeLists d))))) (\<lambda>lists.
        ret (Sent 200 lists))))"

definition insert_list :: "challenge_list \<Rightarrow> db \<Rightarrow> (exn + unit) \<times> db" where
  "insert_list l d = guarded
     [(UniqueViolation, has_key cl_id (cl_id l) (challengeLists d)),
      (UniqueViolation, has_key list_name_key (list_name_key l) (challengeLists d)),
      (ForeignKeyViolation, \<not> has_user d (cl_userId l))]
     (d\<lparr>challengeLists := challengeLists d @ [l]\<rparr>) d"

definition create_list ::
  "'r env \<Rightarrow> string option \<Rightarrow> string option \<Rightarrow> string option \<Rightarrow> bool option \<Rightarrow>
   ('r world, string social) act" where
  "create_list E caller name description isPublic =
     (if \<not> truthy caller then ret (Denied 401 Unauthenticated)
      else if \<not> truthy name \<or> trim (the name) = [] then ret (Denied 400 NameRequired)
      else or_fail (
        bnd (query E (\<lambda>d. find (\<lambda>l. list_name_key l = (the caller, trim (the name))) (challengeLists d))) (\<lambda>existing.
        if existing \<noteq> None then ret (Denied 409 DuplicateName)
        else
          with_id E (\<lambda>i.
          sq (run_db_at E (\<lambda>t. insert_list \<lparr>cl_id = i, cl_userId = the caller, cl_name = trim (the name),
                cl_description = js_or_null (map_option trim description),
                cl_isPublic = (case isPublic of None \<Rightarrow> False | Some b \<Rightarrow> b), cl_createdAt = t\<rparr>))
          (ret (Sent 201 i))))))"

definition get_list ::
  "'r env \<Rightarrow> string option \<Rightarrow> string \<Rightarrow>
   ('r world, (challenge_list \<times> (list_item \<times> challenge option) list) social) act" where
  "get_list E viewer i = or_fail (
     bnd (query E (\<lambda>d. map_option (\<lambda>l. (l, items_of i d)) (find_list i d))) (\<lambda>found.
     case found of
       None \<Rightarrow> ret (Denied 404 NoSuchList)
     | Some (l, items) \<Rightarrow>
         if \<not> cl_isPublic l \<and> Some (cl_userId l) \<noteq> viewer then ret (Denied 403 PrivateList)
         else ret (Sent 200 (l, items))))"

text \<open>The checks that the three routes which change a list begin with.\<close>

definition owned_list ::
  "'r env \<Rightarrow> string \<Rightarrow> string \<Rightarrow> ('r world, 'b social) act \<Rightarrow> ('r world, 'b social) act" where
  "owned_list E userId i act =
     bnd (query E (find_list i)) (\<lambda>found.
     case found of
       None \<Rightarrow> ret (Denied 404 NoSuchList)
     | Some l \<Rightarrow> if cl_userId l \<noteq> userId then ret (Denied 403 NotListOwner) else act)"

definition upsert_item :: "string \<Rightarrow> string \<Rightarrow> int \<Rightarrow> db \<Rightarrow> (exn + unit) \<times> db" where
  "upsert_item i c n d =
     (if has_key item_key (i, c) (listItems d) then (Inr (), d)
      else guarded
        [(ForeignKeyViolation, \<not> has_key cl_id i (challengeLists d)), (ForeignKeyViolation, \<not> has_challenge d c)]
        (d\<lparr>listItems := listItems d @ [\<lparr>li_listId = i, li_challengeId = c, li_order = n\<rparr>]\<rparr>) d)"

definition add_item ::
  "'r env \<Rightarrow> string option \<Rightarrow> string \<Rightarrow> string option \<Rightarrow> ('r world, unit social) act" where
  "add_item E caller listId challengeId =
     (if \<not> truthy caller then ret (Denied 401 Unauthenticated)
      else if \<not> truthy challengeId then ret (Denied 400 ChallengeRequired)
      else or_fail (owned_list E (the caller) listId (
        bnd (query E (find_challenge (the challengeId))) (\<lambda>challenge.
        if challenge = None then ret (Denied 404 NoSuchChallenge)
        else
          bnd (query E (\<lambda>d. count_rows (\<lambda>x. li_listId x = listId) (listItems d))) (\<lambda>n.
          sq (run_db E (upsert_item listId (the challengeId) (int n)))
          (ret (Sent 201 ())))))))"

definition remove_item ::
  "'r env \<Rightarrow> string option \<Rightarrow> string \<Rightarrow> string \<Rightarrow> ('r world, unit social) act" where
  "remove_item E caller listId challengeId =
     (if \<not> truthy caller then ret (Denied 401 Unauthenticated)
      else or_fail (owned_list E (the caller) listId (
        sq (write_db E (\<lambda>d. d\<lparr>listItems := filter (\<lambda>x. item_key x \<noteq> (listId, challengeId)) (listItems d)\<rparr>))
        (ret (Sent 200 ())))))"

definition delete_list :: "'r env \<Rightarrow> string option \<Rightarrow> string \<Rightarrow> ('r world, unit social) act" where
  "delete_list E caller i =
     (if \<not> truthy caller then ret (Denied 401 Unauthenticated)
      else or_fail (owned_list E (the caller) i (
        sq (run_db E (\<lambda>d. guarded [(RecordNotFound, \<not> has_key cl_id i (challengeLists d))]
             (without_lists (\<lambda>l. cl_id l = i) d) d))
        (ret (Sent 200 ())))))"

section \<open>Shares\<close>

text \<open>
  \<open>custom\<close> is the metadata of the request, which is stored as it is, with the facts about the
  challenge on top when one is named. \<open>hex8\<close> gives the random tokens.
\<close>

definition snapshot :: "challenge \<Rightarrow> check_result list \<Rightarrow> int \<Rightarrow> share_snapshot" where
  "snapshot c checks completedAt = \<lparr>sn_challengeTitle = ch_title c, sn_difficulty = ch_difficulty c,
     sn_category = ch_category c, sn_xpEarned = ch_xp c, sn_completedAt = completedAt,
     sn_verifiedChecks = map (\<lambda>r. (cr_checkId r, cr_status r, cr_message r)) checks\<rparr>"

definition insert_share :: "share_token \<Rightarrow> db \<Rightarrow> (exn + unit) \<times> db" where
  "insert_share s d = guarded
     [(UniqueViolation, has_key sh_token (sh_token s) (shareTokens d)),
      (ForeignKeyViolation, \<not> has_user d (sh_userId s)),
      (ForeignKeyViolation, sh_challengeId s \<noteq> None \<and> \<not> has_challenge d (the (sh_challengeId s)))]
     (d\<lparr>shareTokens := shareTokens d @ [s]\<rparr>) d"

definition enrich ::
  "'r env \<Rightarrow> string \<Rightarrow> string \<Rightarrow> ('r world, share_snapshot option) act" where
  "enrich E userId challengeId =
     bnd (query E (find_challenge challengeId)) (\<lambda>challenge.
     case challenge of
       None \<Rightarrow> ret None
     | Some c \<Rightarrow>
         bnd (query E (\<lambda>d. filter (\<lambda>r. cr_userId r = userId \<and> cr_challengeId r = challengeId) (checkResults d))) (\<lambda>checks.
         bnd (query E (\<lambda>d. find (\<lambda>r. completion_key r = (userId, challengeId)) (completions d))) (\<lambda>completion.
         bnd now (\<lambda>t.
         ret (Some (snapshot c checks (case completion of None \<Rightarrow> t | Some r \<Rightarrow> co_createdAt r)))))))"

definition create_share ::
  "'r env \<Rightarrow> (nat \<Rightarrow> string) \<Rightarrow> string option \<Rightarrow> string option \<Rightarrow> share_type option \<Rightarrow> string \<Rightarrow>
   ('r world, string social) act" where
  "create_share E hex8 caller challengeId ty custom =
     (if \<not> truthy caller then ret (Denied 401 Unauthenticated)
      else or_fail (
        bnd (query E (find_user (the caller))) (\<lambda>user.
        if user = None then ret (Denied 404 NoSuchUser)
        else
          bnd (if truthy challengeId then enrich E (the caller) (the challengeId) else ret None) (\<lambda>facts.
          if truthy challengeId \<and> facts = None then ret (Denied 404 NoSuchChallenge)
          else
            bnd (draw hex8) (\<lambda>token.
            sq (run_db_at E (\<lambda>t. insert_share \<lparr>sh_token = token,
                  sh_type = (case ty of None \<Rightarrow> CHALLENGE_SOLVE | Some y \<Rightarrow> y), sh_userId = the caller,
                  sh_challengeId = js_or_null challengeId, sh_custom = custom, sh_snapshot = facts,
                  sh_views = 0, sh_createdAt = t\<rparr>))
            (ret (Sent 201 token)))))))"

record share_view =
  sv_share :: share_token
  sv_views :: int
  sv_solver :: "user option"
  sv_challenge :: "challenge option"
  sv_isVerified :: bool
  sv_verifiedAt :: int

text \<open>The view counter is written in the background; the answer does not wait for it.\<close>

definition resolve_share :: "'r env \<Rightarrow> string \<Rightarrow> ('r world, share_view social) act" where
  "resolve_share E token = or_fail (
     bnd (query E (\<lambda>d. map_option (\<lambda>s. (s, find_user (sh_userId s) d,
         Option.bind (sh_challengeId s) (\<lambda>c. find_challenge c d)))
       (find (\<lambda>s. sh_token s = token) (shareTokens d)))) (\<lambda>found.
     case found of
       None \<Rightarrow> ret (Denied 404 NoSuchShare)
     | Some (s, solver, challenge) \<Rightarrow>
         sq (catch (run_db E (\<lambda>d. guarded [(RecordNotFound, \<not> has_key sh_token token (shareTokens d))]
               (d\<lparr>shareTokens := update_rows (\<lambda>s. sh_token s = token) (\<lambda>s. s\<lparr>sh_views := sh_views s + 1\<rparr>)
                  (shareTokens d)\<rparr>) d))
             (\<lambda>_. ret ()))
         (ret (Sent 200 \<lparr>sv_share = s, sv_views = sh_views s + 1, sv_solver = solver,
            sv_challenge = challenge, sv_isVerified = True, sv_verifiedAt = sh_createdAt s\<rparr>))))"

end
