(* ===== verification/Social_Laws.thy ===== *)
theory Social_Laws
  imports Collections Example Redis_Calls "HOL-Library.Multiset"
begin

text \<open>
  What the social features promise: toggles that flip a set, the feed as the latest of all events,
  votes as a function of the user, deletions by the author or an administrator; and where the
  comments and the shares deviate from what their comments say.
\<close>

section \<open>Toggles flip a set\<close>

text \<open>The specification of the three toggles: the set of pairs, and the symmetric difference.\<close>

definition pairs :: "pair_row list \<Rightarrow> (string \<times> string) set" where
  "pairs rs = pair_key ` set rs"

definition flip :: "'a \<Rightarrow> 'a set \<Rightarrow> 'a set" where
  "flip x A = (if x \<in> A then A - {x} else insert x A)"

lemma pairs_find: "find (\<lambda>r. pair_key r = k) rs = None \<longleftrightarrow> k \<notin> pairs rs"
  by (auto simp: pairs_def find_None_iff)

lemma pairs_has_key: "has_key pair_key k rs \<longleftrightarrow> k \<in> pairs rs"
  by (auto simp: pairs_def has_key_def)

lemma pairs_upd: "pairs (filter (\<lambda>r. pair_key r \<noteq> k) rs) = pairs rs - {k}"
  "pairs (rs @ [r]) = insert (pair_key r) (pairs rs)"
  by (auto simp: pairs_def)

lemma pair_key_new: "pair_key \<lparr>pr_targetId = i, pr_userId = u, pr_createdAt = t\<rparr> = (i, u)"
  by (simp add: pair_key_def)

text \<open>\<open>upd\<close> writes the table that \<open>tab\<close> reads.\<close>

lemma toggle_pair_run:
  assumes "calm E" and upd: "\<And>f d. tab (upd f d) = f (tab d)" and "target (db w) i" and "has_user (db w) u"
    and "unique_by pair_key (tab (db w))"
  shows "\<exists>w'. toggle_pair E tab upd target i u w = (Inr ((i, u) \<notin> pairs (tab (db w))), w') \<and>
    pairs (tab (db w')) = flip (i, u) (pairs (tab (db w))) \<and> unique_by pair_key (tab (db w'))"
proof (cases "(i, u) \<in> pairs (tab (db w))")
  case True
  then have "find (\<lambda>r. pair_key r = (i, u)) (tab (db w)) \<noteq> None" by (simp add: pairs_find)
  with True assms(5) show ?thesis
    by (simp add: toggle_pair_def act_simps calm_runs [OF assms(1)] pairs_has_key upd pairs_upd flip_def
        unique_by_filter)
next
  case False
  then have "find (\<lambda>r. pair_key r = (i, u)) (tab (db w)) = None" by (simp add: pairs_find)
  with False assms(3-5) show ?thesis
    by (simp add: toggle_pair_def act_simps calm_runs [OF assms(1)] pairs_has_key upd pairs_upd flip_def
        pair_key_new)
qed

lemma unique_pairs_count:
  assumes "unique_by pair_key rs"
  shows "count_rows (\<lambda>r. pr_targetId r = i) rs = card {u. (i, u) \<in> pairs rs}"
proof -
  let ?rs = "filter (\<lambda>r. pr_targetId r = i) rs"
  have "{u. (i, u) \<in> pairs rs} = pr_userId ` set ?rs"
    by (auto simp: pairs_def pair_key_def)
  moreover have "inj_on pr_userId (set ?rs)"
    using unique_by_inj [OF assms] by (auto simp: inj_on_def pair_key_def)
  moreover have "distinct ?rs" using assms by (simp add: unique_by_def distinct_map)
  then have "card (set ?rs) = length ?rs" by (rule distinct_card)
  ultimately show ?thesis by (simp only: card_image count_rows_def)
qed

text \<open>
  The like, bookmark and follow routes implement a set of pairs that a request flips: in a calm
  run over existing rows the set afterwards is the one before with the caller's pair flipped, the
  answer tells whether the pair is in it now, and the number of likes is the number of users in it.
\<close>

lemma toggles_flip:
  assumes "calm E" and "constraints (db w)" and "has_user (db w) u"
  shows "(has_challenge (db w) i \<longrightarrow>
      (\<exists>w' n. toggle_like E u i w = (Inr (Sent 200 (n, (i, u) \<notin> pairs (challengeLikes (db w)))), w') \<and>
        pairs (challengeLikes (db w')) = flip (i, u) (pairs (challengeLikes (db w))) \<and>
        n = card {v. (i, v) \<in> pairs (challengeLikes (db w'))})) \<and>
    (has_challenge (db w) i \<longrightarrow>
      (\<exists>w'. toggle_bookmark E u i w = (Inr (Sent 200 ((i, u) \<notin> pairs (challengeBookmarks (db w)))), w') \<and>
        pairs (challengeBookmarks (db w')) = flip (i, u) (pairs (challengeBookmarks (db w))))) \<and>
    (has_user (db w) i \<and> i \<noteq> u \<longrightarrow>
      (\<exists>w' n m. toggle_follow E u i w = (Inr (Sent 200 ((i, u) \<notin> pairs (userFollows (db w)), n, m)), w') \<and>
        pairs (userFollows (db w')) = flip (i, u) (pairs (userFollows (db w)))))"
proof -
  have w: "db (tick E w) = db w" by simp
  have uniq: "unique_by pair_key (challengeLikes (db w))" "unique_by pair_key (challengeBookmarks (db w))"
    "unique_by pair_key (userFollows (db w))" using assms(2) by (simp_all add: constraint_defs)
  note run = toggle_pair_run [OF assms(1), where w = "tick E w" and u = u and i = i, unfolded w]
  have like: "\<exists>w' n. toggle_like E u i w = (Inr (Sent 200 (n, (i, u) \<notin> pairs (challengeLikes (db w)))), w') \<and>
        pairs (challengeLikes (db w')) = flip (i, u) (pairs (challengeLikes (db w))) \<and>
        n = card {v. (i, v) \<in> pairs (challengeLikes (db w'))}" if c: "has_challenge (db w) i"
  proof -
    from c have "find_challenge i (db w) \<noteq> None" by (simp add: has_key_find)
    with run [of challengeLikes challengeLikes_update "\<lambda>d. has_challenge d"] c assms(3) uniq(1)
    show ?thesis
      by (auto simp: toggle_like_def or_fail_def act_simps calm_runs [OF assms(1)] unique_pairs_count)
  qed
  have bookmark: "\<exists>w'. toggle_bookmark E u i w = (Inr (Sent 200 ((i, u) \<notin> pairs (challengeBookmarks (db w)))), w') \<and>
        pairs (challengeBookmarks (db w')) = flip (i, u) (pairs (challengeBookmarks (db w)))" if c: "has_challenge (db w) i"
  proof -
    from c have "find_challenge i (db w) \<noteq> None" by (simp add: has_key_find)
    with run [of challengeBookmarks challengeBookmarks_update "\<lambda>d. has_challenge d"] c assms(3) uniq(2)
    show ?thesis
      by (auto simp: toggle_bookmark_def or_fail_def act_simps calm_runs [OF assms(1)])
  qed
  have follow: "\<exists>w' n m. toggle_follow E u i w = (Inr (Sent 200 ((i, u) \<notin> pairs (userFollows (db w)), n, m)), w') \<and>
        pairs (userFollows (db w')) = flip (i, u) (pairs (userFollows (db w)))" if c: "has_user (db w) i" "i \<noteq> u"
  proof -
    from c have "find_user i (db w) \<noteq> None" by (simp add: has_key_find)
    with run [of userFollows userFollows_update "\<lambda>d. has_user d"] c assms(3) uniq(3)
    show ?thesis
      by (auto simp: toggle_follow_def or_fail_def act_simps calm_runs [OF assms(1)])
  qed
  show ?thesis using like bookmark follow by blast
qed

lemma toggles_flip_witness:
  "\<exists>w' n. toggle_like calm_env ''ann'' ''c1'' (example_world example_db) = (Inr (Sent 200 (n, True)), w') \<and>
    pairs (challengeLikes (db w')) = {(''c1'', ''ann'')} \<and> n = card {v. (''c1'', v) \<in> pairs (challengeLikes (db w'))}"
proof -
  have "has_challenge example_db ''c1''" "has_user example_db ''ann''" "challengeLikes example_db = []"
    by code_simp+
  with toggles_flip [of calm_env "example_world example_db" "''ann''" "''c1''"]
  show ?thesis by (simp add: pairs_def flip_def)
qed

section \<open>The feed\<close>

text \<open>The first elements of a sorted list do not change with elements that come later.\<close>

lemma take_insort:
  fixes l :: "'a::linorder list"
  assumes "sorted l" and "n \<le> length (filter (\<lambda>y. y \<le> x) l)"
  shows "take n (insort x l) = take n l"
proof -
  let ?A = "filter (\<lambda>y. y \<le> x) l" and ?B = "filter (\<lambda>y. \<not> y \<le> x) l"
  have m: "mset (?A @ ?B) = mset l" by simp
  have s: "sorted (?A @ ?B)" "sorted (?A @ x # ?B)"
    using assms(1) by (auto simp: sorted_append sorted_wrt_filter sorted_filter)
  have l: "l = ?A @ ?B"
    using properties_for_sort [OF m s(1)] assms(1) by (simp add: sorted_sort_id)
  have "sort (insort x l) = ?A @ x # ?B"
    by (rule properties_for_sort) (use m s(2) in simp_all)
  then have "insort x l = ?A @ x # ?B" using sorted_insort [of x l] assms(1) by (simp add: sorted_sort_id)
  with assms(2) have "take n (insort x l) = take n ?A" by simp
  also have "\<dots> = take n l" using assms(2) by (subst (2) l) simp
  finally show ?thesis .
qed

lemma length_filter_sort: "length (filter P (sort l)) = length (filter P l)"
  by (metis mset_filter mset_sort size_mset)

lemma take_sort_late:
  fixes Z :: "'a::linorder list"
  assumes "\<forall>x \<in> set D. n \<le> length (filter (\<lambda>y. y \<le> x) Z)"
  shows "take n (sort (D @ Z)) = take n (sort Z)"
  using assms
proof (induction D)
  case (Cons x D)
  have "n \<le> length (filter (\<lambda>y. y \<le> x) (sort (D @ Z)))"
    using Cons.prems by (simp add: length_filter_sort trans_le_add2)
  then have "take n (insort x (sort (D @ Z))) = take n (sort (D @ Z))" by (rule take_insort [OF sorted_sort])
  with Cons show ?case by simp
qed simp

lemma late_part:
  fixes xs :: "'a::linorder list"
  assumes "x \<in> set (drop n (sort xs))"
  shows "n \<le> length (filter (\<lambda>y. y \<le> x) (take n (sort xs)))"
proof -
  have "sorted (take n (sort xs) @ drop n (sort xs))" by simp
  then have "\<forall>y \<in> set (take n (sort xs)). y \<le> x" using assms unfolding sorted_append by blast
  moreover have "n \<le> length (sort xs)" using assms by (cases "n \<le> length (sort xs)") auto
  ultimately show ?thesis by (simp add: filter_id_conv [THEN iffD2])
qed

lemma take_sort_merge:
  fixes xs ys :: "'a::linorder list"
  shows "take n (sort (take n (sort xs) @ take n (sort ys))) = take n (sort (xs @ ys))"
proof -
  let ?Z = "take n (sort xs) @ take n (sort ys)" and ?D = "drop n (sort xs) @ drop n (sort ys)"
  have "mset (?D @ ?Z) = mset (xs @ ys)"
    by (simp add: add.left_commute flip: mset_append)
       (metis (no_types, lifting) add.assoc add.commute append_take_drop_id mset_append mset_sort)
  then have "sort (xs @ ys) = sort (?D @ ?Z)"
    by (intro properties_for_sort) simp_all
  also have "take n \<dots> = take n (sort ?Z)"
    by (rule take_sort_late) (use late_part [of _ n xs] late_part [of _ n ys] in \<open>fastforce intro: trans_le_add1 trans_le_add2\<close>)
  finally show ?thesis by simp
qed

lemma map_sort_key: "map f (sort_key f xs) = sort (map f xs)"
  by (rule sym, rule properties_for_sort) simp_all


text \<open>The reference: all solves and badges of the users that u follows.\<close>

definition follows :: "db \<Rightarrow> string \<Rightarrow> string \<Rightarrow> bool" where
  "follows d u v \<longleftrightarrow> (v, u) \<in> pairs (userFollows d)"

definition all_events :: "string \<Rightarrow> db \<Rightarrow> feed_item list" where
  "all_events u d =
     map solved_item (filter (\<lambda>s. follows d u (ls_userId s) \<and> ls_status s = COMPLETED) (labSessions d)) @
     map earned_item (filter (\<lambda>b. follows d u (ub_userId b)) (userBadges d))"

lemma followed_set: "v \<in> pr_targetId ` {r \<in> set (userFollows d). pr_userId r = u} \<longleftrightarrow> follows d u v"
  by (force simp: follows_def pairs_def pair_key_def)

lemma latest_first_some:
  "\<forall>x \<in> set xs. f x \<noteq> None \<Longrightarrow> latest_first f xs = sort_key (\<lambda>x. - the (f x)) xs"
  by (simp add: latest_first_def filter_id_conv [THEN iffD2] filter_empty_conv [THEN iffD2])

lemma map_take_sort:
  assumes "\<And>x. x \<in> set xs \<Longrightarrow> k x = g (f x)"
  shows "map g (map f (take n (sort_key k xs))) = take n (sort (map g (map f xs)))"
proof -
  have "map g (map f (take n (sort_key k xs))) = map k (take n (sort_key k xs))"
    using assms by (auto dest!: in_set_takeD)
  also have "\<dots> = take n (sort (map k xs))" by (simp add: map_sort_key flip: take_map)
  also have "map k xs = map g (map f xs)" using assms by simp
  finally show ?thesis .
qed

text \<open>
  C34. The feed is the latest events of the followed users: although the handler reads at most
  \<open>limit\<close> solves and \<open>limit\<close> badges before it merges and cuts them, the times it shows are those
  of the first \<open>limit\<close> in the order of all their events, it shows no other events, and it shows at
  most fifty.
\<close>

theorem feed_latest:
  assumes "calm E" and "\<And>s. s \<in> set (labSessions (db w)) \<Longrightarrow> ls_status s = COMPLETED \<Longrightarrow> ls_endedAt s \<noteq> None"
  shows "\<exists>r w'. feed E u limit w = (Inr r, w') \<and>
    map fi_timestamp r = map fi_timestamp
      (take (nat (take_limit limit)) (sort_key (\<lambda>i. - fi_timestamp i) (all_events u (db w)))) \<and>
    set r \<subseteq> set (all_events u (db w)) \<and> length r \<le> 50"
proof -
  let ?d = "db w" and ?n = "nat (take_limit limit)" and ?ts = "\<lambda>i. - fi_timestamp i"
  let ?S = "filter (\<lambda>s. follows ?d u (ls_userId s) \<and> ls_status s = COMPLETED) (labSessions ?d)"
  let ?B = "filter (\<lambda>b. follows ?d u (ub_userId b)) (userBadges ?d)"
  let ?s = "take ?n (latest_first ls_endedAt ?S)" and ?b = "take ?n (sort_key (\<lambda>b. - ub_earnedAt b) ?B)"
  let ?r = "take ?n (sort_key ?ts (map solved_item ?s @ map earned_item ?b))"
  have n: "?n \<le> 50" by (simp add: take_limit_def Let_def)
  have run: "\<exists>w'. feed E u limit w = (Inr ?r, w')"
  proof (cases "map pr_targetId (filter (\<lambda>r. pr_userId r = u) (userFollows ?d)) = []")
    case True
    then have "\<not> follows ?d u v" for v
      by (auto simp: filter_empty_conv simp flip: followed_set)
    with True show ?thesis
      by (simp add: feed_def Let_def act_simps calm_runs [OF assms(1)] latest_first_def)
  next
    case False
    then show ?thesis
      by (simp add: feed_def Let_def act_simps calm_runs [OF assms(1)] followed_set)
  qed
  have ended: "latest_first ls_endedAt ?S = sort_key (\<lambda>x. - the (ls_endedAt x)) ?S"
    by (rule latest_first_some) (use assms(2) in auto)
  have "map ?ts ?r = take ?n (sort (map ?ts (map solved_item ?s) @ map ?ts (map earned_item ?b)))"
    by (simp add: map_sort_key flip: take_map)
  also have "map ?ts (map solved_item ?s) = take ?n (sort (map ?ts (map solved_item ?S)))"
    unfolding ended by (rule map_take_sort) (auto simp: solved_item_def split: option.splits dest: assms(2))
  also have "map ?ts (map earned_item ?b) = take ?n (sort (map ?ts (map earned_item ?B)))"
    by (rule map_take_sort) (simp add: earned_item_def)
  also have "take ?n (sort (take ?n (sort (map ?ts (map solved_item ?S))) @ take ?n (sort (map ?ts (map earned_item ?B))))) =
      map ?ts (take ?n (sort_key ?ts (all_events u ?d)))"
    by (simp add: take_sort_merge all_events_def map_sort_key flip: take_map)
  finally have "map uminus (map ?ts ?r) = map uminus (map ?ts (take ?n (sort_key ?ts (all_events u ?d))))" by simp
  then have "map fi_timestamp ?r = map fi_timestamp (take ?n (sort_key ?ts (all_events u ?d)))"
    by (simp add: comp_def)
  moreover have "set ?r \<subseteq> set (all_events u ?d)"
    unfolding ended all_events_def by (auto dest!: in_set_takeD)
  ultimately show ?thesis using run n by auto
qed


text \<open>Bob follows Ann, who has solved a challenge and earned two badges.\<close>

definition ann_active :: db where
  "ann_active = example_db\<lparr>userFollows := [\<lparr>pr_targetId = ''ann'', pr_userId = ''bob'', pr_createdAt = 0\<rparr>],
     labSessions := [(example_session ''s1'' ''ann'' ''c1'' COMPLETED)\<lparr>ls_endedAt := Some 7\<rparr>],
     userBadges := [\<lparr>ub_userId = ''ann'', ub_badgeId = ''b1'', ub_earnedAt = 8\<rparr>,
       \<lparr>ub_userId = ''ann'', ub_badgeId = ''b2'', ub_earnedAt = 3\<rparr>]\<rparr>"

lemma feed_latest_witness:
  "\<exists>r w'. feed calm_env ''bob'' (Some ''2'') (example_world ann_active) = (Inr r, w') \<and> map fi_timestamp r = [8, 7]"
proof -
  have "map fi_timestamp (take (nat (take_limit (Some ''2''))) (sort_key (\<lambda>i. - fi_timestamp i) (all_events ''bob'' ann_active))) = [8, 7]"
    by code_simp
  moreover have "\<forall>s \<in> set (labSessions ann_active). ls_status s = COMPLETED \<longrightarrow> ls_endedAt s \<noteq> None" by code_simp
  ultimately show ?thesis
    using feed_latest [of calm_env "example_world ann_active" "''bob''" "Some ''2''"] by auto
qed


section \<open>Votes\<close>

text \<open>The table of votes as a function of the comment and the user.\<close>

definition votes :: "db \<Rightarrow> string \<times> string \<Rightarrow> int option" where
  "votes d k = map_option cv_vote (find (\<lambda>v. vote_key v = k) (commentVotes d))"

lemma find_without: "find (\<lambda>r. key r = k') (filter (\<lambda>r. key r \<noteq> k) rs) =
    (if k' = k then None else find (\<lambda>r. key r = k') rs)"
  by (induction rs) auto

lemma find_changed:
  assumes "\<And>r. key (f r) = key r"
  shows "find (\<lambda>r. key r = k') (update_rows (\<lambda>r. key r = k) f rs) =
    (if k' = k then map_option f else id) (find (\<lambda>r. key r = k') rs)"
  by (induction rs) (auto simp: assms)

lemma find_snoc: "find P (rs @ [r]) = (case find P rs of None \<Rightarrow> if P r then Some r else None | Some x \<Rightarrow> Some x)"
  by (induction rs) auto

lemma vote_of_votes:
  "u \<noteq> [] \<Longrightarrow> vote_of (Some u) (filter (\<lambda>v. cv_commentId v = c) (commentVotes d)) =
   (case votes d (c, u) of None \<Rightarrow> 0 | Some v \<Rightarrow> v)"
proof -
  have "find (\<lambda>v. cv_userId v = u) (filter (\<lambda>v. cv_commentId v = c) vs) = find (\<lambda>v. vote_key v = (c, u)) vs" for vs
    by (induction vs) (auto simp: vote_key_def)
  then show "u \<noteq> [] \<Longrightarrow> ?thesis" by (simp add: vote_of_def votes_def split: option.split)
qed

text \<open>The specification: the same vote again and a zero withdraw, anything else is plus or minus one.\<close>

fun revote :: "int option \<Rightarrow> int option \<Rightarrow> int option" where
  "revote vote None = (if vote = Some 0 then None else Some (cast vote))"
| "revote vote (Some v) = (if vote = Some v \<or> vote = Some 0 then None else Some (cast vote))"

text \<open>
  In a calm run a vote on a comment changes the caller's vote on that comment as specified and
  no other one, and the answer reports it; nobody can weigh more than one, since what is stored is
  plus or minus one whatever number was sent.
\<close>

lemma vote_effect:
  assumes "calm E" and "u \<noteq> []" and "has_user (db w) u" and "has_key cm_id c (comments (db w))"
  shows "\<exists>score w'. vote_comment E (Some u) c vote w =
      (Inr (Sent 200 (score, case revote vote (votes (db w) (c, u)) of None \<Rightarrow> 0 | Some v \<Rightarrow> v)), w') \<and>
    votes (db w') = (votes (db w))((c, u) := revote vote (votes (db w) (c, u)))"
proof -
  note run = vote_comment_def or_fail_def Let_def act_simps calm_runs [OF assms(1)] vote_of_votes [OF assms(2)]
  obtain k where k: "find (\<lambda>r. cm_id r = c) (comments (db w)) = Some k"
    using assms(4) by (auto simp: has_key_find)
  let ?old = "find (\<lambda>v. vote_key v = (c, u)) (commentVotes (db w))"
  show ?thesis
  proof (cases ?old)
    case None
    then have "\<not> has_key vote_key (c, u) (commentVotes (db w))" by (simp add: has_key_find)
    with None k assms(2-4) show ?thesis
      by (auto simp: run votes_def fun_eq_iff find_snoc vote_key_def [of "\<lparr>cv_commentId = _, cv_userId = _, cv_vote = _\<rparr>"] split: option.split)
  next
    case (Some v)
    then have "has_key vote_key (c, u) (commentVotes (db w))" by (simp add: has_key_find)
    moreover have "vote_key (v\<lparr>cv_vote := x\<rparr>) = vote_key v" for v x by (simp add: vote_key_def)
    ultimately show ?thesis using Some k assms(2)
      by (auto simp: run votes_def fun_eq_iff find_without find_changed)
  qed
qed


text \<open>Ann has commented, Bob has answered, Ann has answered Bob.\<close>

definition thread :: db where
  "thread = example_db\<lparr>comments :=
     [\<lparr>cm_id = ''k1'', cm_challengeId = ''c1'', cm_userId = ''ann'', cm_parentId = None,
        cm_content = ''a'', cm_isPinned = False, cm_createdAt = 1\<rparr>,
      \<lparr>cm_id = ''k2'', cm_challengeId = ''c1'', cm_userId = ''bob'', cm_parentId = Some ''k1'',
        cm_content = ''b'', cm_isPinned = False, cm_createdAt = 2\<rparr>,
      \<lparr>cm_id = ''k3'', cm_challengeId = ''c1'', cm_userId = ''ann'', cm_parentId = Some ''k2'',
        cm_content = ''c'', cm_isPinned = False, cm_createdAt = 3\<rparr>]\<rparr>"

lemma vote_effect_witness:
  "\<exists>score w'. vote_comment calm_env (Some ''bob'') ''k1'' (Some 9) (example_world thread) =
      (Inr (Sent 200 (score, 1)), w') \<and> votes (db w') (''k1'', ''bob'') = Some 1"
proof -
  have "has_user thread ''bob''" "has_key cm_id ''k1'' (comments thread)" "votes thread (''k1'', ''bob'') = None"
      "revote (Some 9) None = Some 1" by code_simp+
  with vote_effect [of calm_env "''bob''" "example_world thread" "''k1''" "Some 9"]
  show ?thesis by auto
qed

section \<open>Deleting a comment\<close>

text \<open>The reference: the comment itself, and whatever answers one below it.\<close>

inductive below :: "comment list \<Rightarrow> string \<Rightarrow> comment \<Rightarrow> bool" for cs i where
  below_root: "c \<in> set cs \<Longrightarrow> cm_id c = i \<Longrightarrow> below cs i c"
| below_reply: "below cs i p \<Longrightarrow> c \<in> set cs \<Longrightarrow> cm_parentId c = Some (cm_id p) \<Longrightarrow> below cs i c"

inductive_simps below_id: "below cs i c"

lemma below_in: "below cs i c \<Longrightarrow> c \<in> set cs"
  by (induction rule: below.induct)

lemma remaining_comments:
  assumes "unique_by cm_id cs" and "\<forall>c \<in> set cs. has_parent cs c"
  shows "set (drop_orphans (filter (\<lambda>c. cm_id c \<noteq> i) cs)) = {c \<in> set cs. \<not> below cs i c}"
proof
  let ?rest = "drop_orphans (filter (\<lambda>c. cm_id c \<noteq> i) cs)"
  have sub: "set ?rest \<subseteq> {c \<in> set cs. cm_id c \<noteq> i}"
    using drop_orphans_subset [of "filter (\<lambda>c. cm_id c \<noteq> i) cs"] by simp
  have "c \<notin> set ?rest" if "below cs i c" for c
    using that
  proof induction
    case (below_reply p c)
    show ?case
    proof
      assume "c \<in> set ?rest"
      then have "has_parent ?rest c"
        using drop_orphans_closed [of "filter (\<lambda>c. cm_id c \<noteq> i) cs"] by (simp add: list_all_iff)
      with below_reply.hyps(3) obtain q where "q \<in> set ?rest" "cm_id q = cm_id p" by (auto simp: has_parent_def)
      with sub below_in [OF below_reply.hyps(1)] have "q = p" using unique_by_inj [OF assms(1)] by blast
      with \<open>q \<in> set ?rest\<close> below_reply.IH show False by simp
    qed
  qed (use sub in auto)
  with sub show "set ?rest \<subseteq> {c \<in> set cs. \<not> below cs i c}" by auto
  show "{c \<in> set cs. \<not> below cs i c} \<subseteq> set ?rest"
  proof (rule drop_orphans_keeps)
    fix c assume "c \<in> {c \<in> set cs. \<not> below cs i c}"
    then show "cm_parentId c = None \<or> cm_parentId c \<in> (\<lambda>p. Some (cm_id p)) ` {c \<in> set cs. \<not> below cs i c}"
      using assms(2) by (auto simp: has_parent_def dest: below.below_reply)
  qed (auto intro: below_root)
qed

text \<open>
  Only its author or an administrator deletes a comment: whatever fails, the comments are as
  before, or the caller is one of them and what is left is exactly what is not below the comment,
  the cascade over the replies included.
\<close>

lemma comment_deletion:
  assumes "constraints (db w)" and "delete_comment E caller i w = (r, w')"
  shows "comments (db w') = comments (db w) \<or>
    (\<exists>u c. caller = Some u \<and> find (\<lambda>c. cm_id c = i) (comments (db w)) = Some c \<and>
      (cm_userId c = u \<or> map_option user_role (find_user u (db w)) = Some ADMIN) \<and>
      set (comments (db w')) = {x \<in> set (comments (db w)). \<not> below (comments (db w)) i x})"
proof -
  define Q :: "exn + unit social \<Rightarrow> db \<Rightarrow> bool" where "Q = (\<lambda>_ d'. comments d' = comments (db w) \<or>
    (\<exists>u c. caller = Some u \<and> find (\<lambda>c. cm_id c = i) (comments (db w)) = Some c \<and>
      (cm_userId c = u \<or> map_option user_role (find_user u (db w)) = Some ADMIN) \<and>
      set (comments d') = {x \<in> set (comments (db w)). \<not> below (comments (db w)) i x}))"
  have same: "Q r (db w)" for r by (simp add: Q_def)
  have left: "set (comments (without_comments (\<lambda>c. cm_id c = i) (db w))) = {x \<in> set (comments (db w)). \<not> below (comments (db w)) i x}"
    using assms(1) remaining_comments [of "comments (db w)" i]
    by (auto simp: constraint_defs without_comments_def Let_def has_parent_def)
  have "db_post (delete_comment E caller i) (db w) Q"
    unfolding delete_comment_def or_fail_def
    by (intro post_rules; (simp add: same)?) (auto simp: Q_def left dest!: truthyD)
  with assms(2) show ?thesis by (auto simp: Q_def dest: db_postD)
qed


lemma comment_deletion_witness:
  "set (comments (db (snd (delete_comment calm_env (Some ''bob'') ''k2'' (example_world thread))))) =
     {x \<in> set (comments thread). \<not> below (comments thread) ''k2'' x}"
proof -
  have "constraints thread" by code_simp
  moreover have "map cm_id (comments (db (snd (delete_comment calm_env (Some ''bob'') ''k2'' (example_world thread))))) = [''k1'']"
      "map cm_id (comments thread) = [''k1'', ''k2'', ''k3'']" by code_simp+
  ultimately show ?thesis
    using comment_deletion [OF _ surjective_pairing, of "example_world thread" calm_env "Some ''bob''" "''k2''"]
    by auto
qed

section \<open>What is shown\<close>

definition shown :: "(comment_view \<times> comment_view list) list \<Rightarrow> comment list" where
  "shown views = concat (map (\<lambda>(top, rs). vw_comment top # map vw_comment rs) views)"

text \<open>
  The listing shows exactly two levels of a challenge's comments, those without a parent and
  the direct replies to them. The route that creates comments accepts a reply to any comment: a
  reply to a reply is stored and never shown.
\<close>

lemma two_levels_shown:
  assumes "list_comments E viewer i w = (Inr (Sent code views), w')"
  shows "set (shown views) = {c \<in> set (comments (db w)). (cm_challengeId c = i \<and> cm_parentId c = None) \<or>
    (\<exists>p \<in> set (comments (db w)). cm_parentId c = Some (cm_id p) \<and> cm_challengeId p = i \<and> cm_parentId p = None)}"
proof -
  let ?tops = "sort_key (\<lambda>c. if cm_isPinned c then (0 :: nat) else 1) (sort_key (\<lambda>c. - cm_createdAt c)
    (filter (\<lambda>c. cm_challengeId c = i \<and> cm_parentId c = None) (comments (db w))))"
  have fmt: "vw_comment (formatComment v d n c) = c" for v d n c by (simp add: formatComment_def Let_def)
  from assms have views: "views = map (\<lambda>c. (formatComment viewer (db w) (length (replies_to (cm_id c) (db w))) c,
      map (formatComment viewer (db w) 0) (replies_to (cm_id c) (db w)))) ?tops"
    by (auto simp: list_comments_def or_fail_def catch_run ret_def query_def split: prod.splits sum.splits
        elim!: bnd_InrE dest!: run_db_Inr)
  have "set (shown views) = (\<Union>c \<in> set ?tops. insert c (set (replies_to (cm_id c) (db w))))"
    unfolding views shown_def by (simp add: comp_def fmt)
  then show ?thesis by (auto simp: replies_to_def)
qed

lemma two_levels_shown_witness:
  "\<exists>views w'. list_comments calm_env None ''c1'' (example_world thread) = (Inr (Sent 200 views), w') \<and>
    set (shown views) = {c \<in> set (comments thread). cm_id c \<noteq> ''k3''}"
proof -
  let ?r = "list_comments calm_env None ''c1'' (example_world thread)"
  have "\<exists>views w'. ?r = (Inr (Sent 200 views), w')"
    by (simp add: list_comments_def or_fail_def act_simps calm_runs)
  then obtain views w' where run: "?r = (Inr (Sent 200 views), w')" by blast
  have "\<forall>c \<in> set (comments thread). ((cm_challengeId c = ''c1'' \<and> cm_parentId c = None) \<or>
      (\<exists>p \<in> set (comments thread). cm_parentId c = Some (cm_id p) \<and> cm_challengeId p = ''c1'' \<and> cm_parentId p = None)) =
      (cm_id c \<noteq> ''k3'')" by code_simp
  with two_levels_shown [OF run] have "set (shown views) = {c \<in> set (comments thread). cm_id c \<noteq> ''k3''}"
    by (simp cong: conj_cong)
  with run show ?thesis by blast
qed

section \<open>Lists\<close>

text \<open>
  A list that is not public is shown to its owner only, and only the owner changes a list:
  whatever fails, after the routes that add, remove and delete both tables are as before, or the
  caller owns the list.
\<close>

lemma lists_private:
  "(get_list E viewer i w = (Inr (Sent code (l, items)), w1) \<longrightarrow>
     find_list i (db w) = Some l \<and> (cl_isPublic l \<or> viewer = Some (cl_userId l))) \<and>
   (\<forall>w' \<in> {snd (add_item E caller i c w), snd (remove_item E caller i c' w), snd (delete_list E caller i w)}.
     challengeLists (db w') = challengeLists (db w) \<and> listItems (db w') = listItems (db w) \<or>
     (\<exists>l. find_list i (db w) = Some l \<and> caller = Some (cl_userId l)))"
proof -
  define Q :: "exn + unit social \<Rightarrow> db \<Rightarrow> bool" where "Q = (\<lambda>_ d'.
     challengeLists d' = challengeLists (db w) \<and> listItems d' = listItems (db w) \<or>
     (\<exists>l. find_list i (db w) = Some l \<and> caller = Some (cl_userId l)))"
  have "db_post (add_item E caller i c) (db w) Q \<and> db_post (remove_item E caller i c') (db w) Q \<and>
      db_post (delete_list E caller i) (db w) Q"
  proof (cases "\<exists>l. find_list i (db w) = Some l \<and> caller = Some (cl_userId l)")
    case True
    then show ?thesis by (simp add: Q_def db_post_def)
  next
    case False
    then have other: "find_list i (db w) = Some l \<Longrightarrow> truthy caller \<Longrightarrow> \<not> cl_userId l \<noteq> the caller \<Longrightarrow> G" for l G
      by (auto dest!: truthyD)
    have same: "Q r (db w)" for r by (simp add: Q_def)
    show ?thesis
      unfolding add_item_def remove_item_def delete_list_def owned_list_def or_fail_def
      by (intro conjI post_rules; simp add: same; elim other; simp)
  qed
  moreover have "find_list i (db w) = Some l \<and> (cl_isPublic l \<or> viewer = Some (cl_userId l))"
    if "get_list E viewer i w = (Inr (Sent code (l, items)), w1)"
    using that
    by (auto simp: get_list_def or_fail_def catch_run ret_def query_def split: prod.splits sum.splits option.splits if_splits
        elim!: bnd_InrE dest!: run_db_Inr)
  ultimately show ?thesis unfolding Q_def by (auto dest: db_post_run)
qed


text \<open>Ann keeps a private list.\<close>

definition ann_list :: db where
  "ann_list = example_db\<lparr>challengeLists := [\<lparr>cl_id = ''l1'', cl_userId = ''ann'', cl_name = ''L'',
     cl_description = None, cl_isPublic = False, cl_createdAt = 0\<rparr>]\<rparr>"

lemma lists_private_witness:
  "challengeLists (db (snd (delete_list calm_env (Some ''bob'') ''l1'' (example_world ann_list)))) = challengeLists ann_list \<and>
   challengeLists (db (snd (delete_list calm_env (Some ''ann'') ''l1'' (example_world ann_list)))) = []"
proof -
  have "\<not> (\<exists>l. find_list ''l1'' ann_list = Some l \<and> Some ''bob'' = Some (cl_userId l))"
    by (simp add: ann_list_def)
  then have "challengeLists (db (snd (delete_list calm_env (Some ''bob'') ''l1'' (example_world ann_list)))) = challengeLists ann_list"
    using lists_private [of calm_env None "''l1''" "example_world ann_list" 0 undefined "[]" undefined "Some ''bob''" None "[]"]
    by auto
  moreover have "challengeLists (db (snd (delete_list calm_env (Some ''ann'') ''l1'' (example_world ann_list)))) = []"
    by code_simp
  ultimately show ?thesis by simp
qed

section \<open>Shares\<close>

text \<open>
  A share is \<open>verified\<close> whether or not there is anything to verify: in a calm run a user who never
  solved a challenge gets a share token for it, and the public page of the token names the
  challenge, its XP as earned, the present time as its completion, and says that it is verified.
\<close>

lemma unsolved_share_verified:
  assumes "calm E" and "u \<noteq> []" and "has_user (db w) u" and "c \<noteq> []" and "find_challenge c (db w) = Some ch"
    and "\<not> has_key completion_key (u, c) (completions (db w))"
    and "\<And>n. \<not> has_key sh_token (hex8 n) (shareTokens (db w))"
  shows "\<exists>token w' v sn w''. create_share E hex8 (Some u) (Some c) None custom w = (Inr (Sent 201 token), w') \<and>
    resolve_share E token w' = (Inr (Sent 200 v), w'') \<and> sv_isVerified v \<and>
    map_option user_id (sv_solver v) = Some u \<and> sh_snapshot (sv_share v) = Some sn \<and>
    sn_challengeTitle sn = ch_title ch \<and> sn_xpEarned sn = ch_xp ch \<and>
    clock w \<le> sn_completedAt sn \<and> sn_completedAt sn \<le> clock w'"
proof -
  obtain user where user: "find_user u (db w) = Some user" "user_id user = u"
    using assms(3) by (auto simp: has_key_find dest: find_in)
  have none: "find (\<lambda>r. completion_key r = (u, c)) (completions (db w)) = None"
    using assms(6) by (simp add: find_key_None)
  have has: "has_challenge (db w) c" using assms(5) by (simp add: has_key_find)
  have token: "find (\<lambda>s. sh_token s = hex8 n) (shareTokens (db w)) = None" for n
    using assms(7) by (simp add: find_key_None)
  have enrich: "\<exists>v. enrich E u c (tick E w) = (Inr (Some (snapshot ch cs (clock v))), v) \<and> db v = db w \<and> clock w \<le> clock v"
    if "cs = filter (\<lambda>r. cr_userId r = u \<and> cr_challengeId r = c) (checkResults (db w))" for cs
    using that assms(5) none by (simp add: enrich_def act_simps now_def calm_runs [OF assms(1)])
  then obtain v cs where v: "enrich E u c (tick E w) = (Inr (Some (snapshot ch cs (clock v))), v)" "db v = db w" "clock w \<le> clock v"
    by blast
  define w1 where "w1 = tick E (v\<lparr>fresh := Suc (fresh v)\<rparr>)"
  define s where "s = \<lparr>sh_token = hex8 (fresh v), sh_type = CHALLENGE_SOLVE, sh_userId = u, sh_challengeId = Some c,
    sh_custom = custom, sh_snapshot = Some (snapshot ch cs (clock v)), sh_views = 0, sh_createdAt = clock w1\<rparr>"
  define w' where "w' = w1\<lparr>db := (db w)\<lparr>shareTokens := shareTokens (db w) @ [s]\<rparr>\<rparr>"
  have create: "create_share E hex8 (Some u) (Some c) None custom w = (Inr (Sent 201 (hex8 (fresh v))), w')"
    using assms(2-4,7) user has v
    by (simp add: create_share_def or_fail_def act_simps draw_def insert_share_def calm_runs [OF assms(1)]
        w'_def s_def w1_def del: tick_simps(11))
  have "find (\<lambda>x. sh_token x = hex8 (fresh v)) (shareTokens (db w')) = Some s"
    using token by (simp add: w'_def find_snoc s_def)
  then obtain x w'' where x: "resolve_share E (hex8 (fresh v)) w' = (Inr (Sent 200 x), w'')" "sv_isVerified x"
      "sv_share x = s" "sv_solver x = find_user u (db w')"
    by (simp add: resolve_share_def or_fail_def act_simps calm_runs [OF assms(1)] has_key_find s_def)
  have "map_option user_id (sv_solver x) = Some u" "sh_snapshot (sv_share x) = Some (snapshot ch cs (clock v))"
    using x(3,4) user by (simp_all add: w'_def w1_def s_def)
  moreover have "sn_challengeTitle (snapshot ch cs (clock v)) = ch_title ch"
      "sn_xpEarned (snapshot ch cs (clock v)) = ch_xp ch" "sn_completedAt (snapshot ch cs (clock v)) = clock v"
    by (simp_all add: snapshot_def)
  moreover have "clock v \<le> clock w'" by (simp add: w'_def w1_def)
  ultimately show ?thesis using create x(1,2) v(3) by metis
qed


lemma unsolved_share_verified_witness:
  "\<exists>token w' v w''. create_share calm_env show_nat (Some ''ann'') (Some ''c1'') None ''{}'' (example_world example_db) =
      (Inr (Sent 201 token), w') \<and> resolve_share calm_env token w' = (Inr (Sent 200 v), w'') \<and> sv_isVerified v"
proof -
  have "has_user example_db ''ann''" "find_challenge ''c1'' example_db = Some (example_challenge ''c1'' 50 True)"
      "completions example_db = []" "shareTokens example_db = []" by code_simp+
  then show ?thesis
    using unsolved_share_verified [of calm_env "''ann''" "example_world example_db" "''c1''"
        "example_challenge ''c1'' 50 True" show_nat "''{}''"] by auto
qed


end
