(* ===== verification/Social_Steps.thy ===== *)
theory Social_Steps
  imports Collections
begin

text \<open>
  Every request to the social routes keeps the constraints of the database, whatever fails.
\<close>

section \<open>The constraints of the database\<close>

lemma keep_toggle:
  assumes "\<And>d t. constraints d \<Longrightarrow> \<not> has_key pair_key (i, u) (tab d) \<Longrightarrow> target d i \<Longrightarrow> has_user d u \<Longrightarrow>
      constraints (upd (\<lambda>rs. rs @ [\<lparr>pr_targetId = i, pr_userId = u, pr_createdAt = t\<rparr>]) d)"
    and "\<And>d. constraints d \<Longrightarrow> constraints (upd (filter (\<lambda>r. pair_key r \<noteq> (i, u))) d)"
  shows "moves (on_db (keeping constraints)) (toggle_pair E tab upd target i u)"
  unfolding toggle_pair_def
  by (intro keeping_steps) (simp_all add: assms)

lemma keep_toggles:
  "moves (on_db (keeping constraints)) (toggle_like E u i)"
  "moves (on_db (keeping constraints)) (toggle_bookmark E u i)"
  "moves (on_db (keeping constraints)) (toggle_follow E u i)"
  unfolding toggle_like_def toggle_bookmark_def toggle_follow_def or_fail_def
  by (intro keeping_steps keep_toggle; auto simp: constraint_defs pair_key_def)+

lemma keep_insert_comment: "moves (on_db (keeping constraints)) (run_db_at E (insert_comment i c u p text))"
  unfolding insert_comment_def [abs_def]
  by (rule keeping_guarded_at) (auto simp: constraint_defs has_key_def)

lemma keep_without_comments:
  "moves (on_db (keeping constraints)) (run_db E (\<lambda>d. guarded (gs d) (without_comments P d) d))"
  by (rule keeping_guarded) (rule without_comments_constraints)

lemma keep_comments:
  "moves (on_db (keeping constraints)) (post_comment E caller c text parent)"
  "moves (on_db (keeping constraints)) (delete_comment E caller i)"
  unfolding post_comment_def delete_comment_def or_fail_def Let_def
  by (intro keep_insert_comment keep_without_comments keeping_steps)+

lemma keep_vote: "moves (on_db (keeping constraints)) (vote_comment E caller i vote)"
proof -
  have k: "vote_key (v\<lparr>cv_vote := x\<rparr>) = vote_key v" "vote_key \<lparr>cv_commentId = a, cv_userId = b, cv_vote = x\<rparr> = (a, b)"
    for v x a b by (simp_all add: vote_key_def)
  show ?thesis
    unfolding vote_comment_def or_fail_def Let_def
    by (intro keeping_steps; auto simp: constraint_defs unique_by_update ball_update_rows k)
qed


lemma keep_insert_list: "moves (on_db (keeping constraints)) (run_db_at E (\<lambda>t. insert_list (l t)))"
  unfolding insert_list_def
  by (rule keeping_guarded_at) (auto simp: constraint_defs)

lemma keep_upsert_item: "moves (on_db (keeping constraints)) (run_db E (upsert_item i c n))"
proof (rule kept.moves_run_db)
  fix d
  have "constraints (d\<lparr>listItems := listItems d @ [\<lparr>li_listId = i, li_challengeId = c, li_order = n\<rparr>]\<rparr>)"
    if "constraints d" "\<not> has_key item_key (i, c) (listItems d)" "has_key cl_id i (challengeLists d)" "has_challenge d c"
    using that by (auto simp: constraint_defs item_key_def)
  then show "keeping constraints d (snd (upsert_item i c n d))"
    by (auto simp: upsert_item_def keeping_def)
qed

lemma keep_without_lists:
  "moves (on_db (keeping constraints)) (run_db E (\<lambda>d. guarded (gs d) (without_lists P d) d))"
  by (rule keeping_guarded) (rule without_lists_constraints)

lemma keep_remove_item:
  "moves (on_db (keeping constraints)) (write_db E (\<lambda>d. d\<lparr>listItems := filter P (listItems d)\<rparr>))"
  by (rule keeping_write) (auto simp: constraint_defs)

lemma keep_lists:
  "moves (on_db (keeping constraints)) (create_list E caller name desc pub)"
  "moves (on_db (keeping constraints)) (add_item E caller i c)"
  "moves (on_db (keeping constraints)) (remove_item E caller i c')"
  "moves (on_db (keeping constraints)) (delete_list E caller i)"
  unfolding create_list_def add_item_def remove_item_def delete_list_def owned_list_def or_fail_def
  by (intro keep_insert_list keep_upsert_item keep_without_lists keep_remove_item keeping_steps)+

lemma keep_insert_share: "moves (on_db (keeping constraints)) (run_db_at E (\<lambda>t. insert_share (s t)))"
  unfolding insert_share_def
  by (rule keeping_guarded_at) (auto simp: constraint_defs)

lemma keep_shares:
  "moves (on_db (keeping constraints)) (create_share E hex8 caller c ty custom)"
  "moves (on_db (keeping constraints)) (resolve_share E token)"
  unfolding create_share_def enrich_def resolve_share_def or_fail_def
  by (intro keep_insert_share keeping_steps; auto simp: constraint_defs unique_by_update ball_update_rows)+

text \<open>The requests that change something.\<close>

inductive social_step :: "'r env \<Rightarrow> (nat \<Rightarrow> string) \<Rightarrow> 'r world \<Rightarrow> 'r world \<Rightarrow> bool" for E hex8 where
  "social_step E hex8 w (snd (toggle_like E u i w))"
| "social_step E hex8 w (snd (toggle_bookmark E u i w))"
| "social_step E hex8 w (snd (toggle_follow E u i w))"
| "social_step E hex8 w (snd (post_comment E caller c text parent w))"
| "social_step E hex8 w (snd (vote_comment E caller i vote w))"
| "social_step E hex8 w (snd (delete_comment E caller i w))"
| "social_step E hex8 w (snd (create_list E caller name desc pub w))"
| "social_step E hex8 w (snd (add_item E caller i item w))"
| "social_step E hex8 w (snd (remove_item E caller i c w))"
| "social_step E hex8 w (snd (delete_list E caller i w))"
| "social_step E hex8 w (snd (create_share E hex8 caller ch ty custom w))"
| "social_step E hex8 w (snd (resolve_share E token w))"

lemma social_step_constraints:
  assumes "social_step E hex8 w w'" and "constraints (db w)"
  shows "constraints (db w')"
proof -
  note runs = keep_toggles [THEN moves_db_run] keep_comments [THEN moves_db_run] keep_vote [THEN moves_db_run]
    keep_lists [THEN moves_db_run] keep_shares [THEN moves_db_run]
  from assms(1) have "keeping constraints (db w) (db w')"
    by cases (simp_all only: runs)
  with assms(2) show ?thesis by (simp add: keeping_def)
qed

end
