(* ===== verification/Orgs.thy ===== *)
theory Orgs
  imports Auth_Tokens Streak
begin

text \<open>
  Organizations: members, invitations, private scenarios, path assignments and the reports of an
  organization (services/core/src/modules/org/org.routes.ts). A handler takes the claims of the
  verified token, of which it reads \<open>id\<close> and \<open>sub\<close>.
\<close>

datatype org_error =
    OrgUnauthorized | NotMember | OwnerRequired | AdminRequired | NameAndSlugRequired | SlugInUse
  | NoOrganization | EmailRequired | SeatsExhausted | FieldsRequired | InviteNotFound
  | InviteNotPending invite_status | InviteHasExpired | PathRequired | OrgFailure

type_synonym 'b org_answer = "(org_error, 'b) response"

definition org_fail :: "('r world, 'b org_answer) act \<Rightarrow> ('r world, 'b org_answer) act" where
  "org_fail m = catch m (\<lambda>_. ret (Denied 500 OrgFailure))"

section \<open>Who is asking, and for which organization\<close>

text \<open>\<open>request.user?.id || request.user?.sub\<close>\<close>

definition caller_id :: "claims \<Rightarrow> string" where
  "caller_id c = js_or (claims.cl_id c) (cl_sub c)"

abbreviation find_member :: "string \<Rightarrow> string \<Rightarrow> db \<Rightarrow> org_member option" where
  "find_member u i d \<equiv> find (\<lambda>m. member_key m = (u, i)) (orgMembers d)"

abbreviation find_org :: "string \<Rightarrow> db \<Rightarrow> org option" where
  "find_org i d \<equiv> find (\<lambda>r. org_id r = i) (orgs d)"

definition checkOrgAccess ::
  "'r env \<Rightarrow> claims \<Rightarrow> string \<Rightarrow> org_role option \<Rightarrow> ('r world, nat \<times> org_error + org_member) act" where
  "checkOrgAccess E c i minRole =
     (if caller_id c = [] then ret (Inl (401, OrgUnauthorized))
      else
        bnd (query E (find_member (caller_id c) i)) (\<lambda>membership.
        case membership of
          None \<Rightarrow> ret (Inl (403, NotMember))
        | Some m \<Rightarrow>
            if minRole = Some OWNER \<and> mem_orgRole m \<noteq> OWNER then ret (Inl (403, OwnerRequired))
            else if minRole = Some ORG_ADMIN \<and> mem_orgRole m \<noteq> OWNER \<and> mem_orgRole m \<noteq> ORG_ADMIN then
              ret (Inl (403, AdminRequired))
            else ret (Inr m)))"

text \<open>
  The beginning of every handler below an organization: \<open>me\<close> stands for the organization of the
  user \<open>uid\<close>, and looking up an undefined identifier throws.
\<close>

definition in_org ::
  "'r env \<Rightarrow> claims \<Rightarrow> string option \<Rightarrow> string \<Rightarrow> org_role option \<Rightarrow>
   (string \<Rightarrow> ('r world, 'b org_answer) act) \<Rightarrow> ('r world, 'b org_answer) act" where
  "in_org E c uid orgId minRole body =
     (let enter = (\<lambda>i. bnd (checkOrgAccess E c i minRole) (\<lambda>access.
            case access of Inl (code, e) \<Rightarrow> ret (Denied code e) | Inr _ \<Rightarrow> body i))
      in if orgId = ''me'' then
           (case uid of
              None \<Rightarrow> throw InvalidInput
            | Some u \<Rightarrow>
                bnd (query E (find_user u)) (\<lambda>user.
                case Option.bind user user_orgId of
                  None \<Rightarrow> ret (Denied 404 NoOrganization)
                | Some i \<Rightarrow> if i = [] then ret (Denied 404 NoOrganization) else enter i))
         else enter orgId)"

section \<open>Creating an organization\<close>

definition seats_of :: "plan_tier option \<Rightarrow> int" where
  "seats_of plan = (if plan = Some TEAM then 50 else if plan = Some PRO then 5 else 1)"

definition insert_org :: "org \<Rightarrow> db \<Rightarrow> (exn + unit) \<times> db" where
  "insert_org r d = guarded
     [(UniqueViolation, has_key org_id (org_id r) (orgs d)), (UniqueViolation, has_key org_slug (org_slug r) (orgs d))]
     (d\<lparr>orgs := orgs d @ [r]\<rparr>) d"

definition insert_member :: "string \<Rightarrow> string \<Rightarrow> org_role \<Rightarrow> int \<Rightarrow> db \<Rightarrow> (exn + unit) \<times> db" where
  "insert_member u i role t d = guarded
     [(UniqueViolation, has_key member_key (u, i) (orgMembers d)),
      (ForeignKeyViolation, \<not> has_user d u), (ForeignKeyViolation, \<not> has_key org_id i (orgs d))]
     (d\<lparr>orgMembers := orgMembers d @ [\<lparr>mem_userId = u, mem_orgId = i, mem_orgRole = role, mem_joinedAt = t\<rparr>]\<rparr>) d"

definition set_org :: "string \<Rightarrow> string \<Rightarrow> db \<Rightarrow> (exn + unit) \<times> db" where
  "set_org u i d = guarded
     [(RecordNotFound, \<not> has_user d u), (ForeignKeyViolation, \<not> has_key org_id i (orgs d))]
     (d\<lparr>users := update_rows (\<lambda>r. user_id r = u) (\<lambda>r. r\<lparr>user_orgId := Some i\<rparr>) (users d)\<rparr>) d"

definition create_org ::
  "'r env \<Rightarrow> claims \<Rightarrow> string option \<Rightarrow> string option \<Rightarrow> plan_tier option \<Rightarrow> ('r world, org org_answer) act" where
  "create_org E c name slug planTier =
     (if \<not> truthy name \<or> \<not> truthy slug then ret (Denied 400 NameAndSlugRequired)
      else org_fail (
        bnd (query E (\<lambda>d. find (\<lambda>r. org_slug r = the slug) (orgs d))) (\<lambda>existing.
        if existing \<noteq> None then ret (Denied 409 SlugInUse)
        else
          bnd (interactive E (
            with_id E (\<lambda>i.
            let r = \<lparr>org_id = i, org_name = the name, org_slug = the slug,
                  org_planTier = (case planTier of None \<Rightarrow> FREE | Some p \<Rightarrow> p),
                  org_seatsPurchased = seats_of planTier, org_ssoProvider = None, org_ssoDomain = None,
       org_ssoMetadataUrl = None\<rparr> in
            sq (run_db E (insert_org r)) (
            sq (run_db_at E (insert_member (caller_id c) i OWNER)) (
            sq (run_db E (set_org (caller_id c) i))
            (ret r)))))) (\<lambda>r.
          ret (Sent 201 r)))))"

definition my_org :: "'r env \<Rightarrow> claims \<Rightarrow> ('r world, (org \<times> org_role) org_answer) act" where
  "my_org E c = org_fail (
     bnd (query E (\<lambda>d. Option.bind (find_user (caller_id c) d) (\<lambda>u.
         Option.bind (user_orgId u) (\<lambda>i. find_org i d)))) (\<lambda>found.
     case found of
       None \<Rightarrow> ret (Denied 404 NoOrganization)
     | Some r \<Rightarrow>
         bnd (query E (find_member (caller_id c) (org_id r))) (\<lambda>membership.
         ret (Sent 200 (r, case membership of None \<Rightarrow> MEMBER | Some m \<Rightarrow> mem_orgRole m)))))"

section \<open>Members and invitations\<close>

record member_view =
  mv_id :: string
  mv_name :: string
  mv_role :: string
  mv_orgRole :: org_role
  mv_active :: bool
  mv_currentSandbox :: string
  mv_score :: int

definition member_view_of :: "db \<Rightarrow> org_member \<Rightarrow> user \<Rightarrow> member_view" where
  "member_view_of d m u =
     (let active = find (\<lambda>s. ls_userId s = user_id u \<and> ls_status s = ACTIVE) (labSessions d) in
      \<lparr>mv_id = user_id u, mv_name = js_or (user_name u) (user_email u),
       mv_role = js_or (user_jobTitle u) ''Engineer'', mv_orgRole = mem_orgRole m,
       mv_active = (active \<noteq> None),
       mv_currentSandbox = js_or (Option.bind active (\<lambda>s. map_option ch_title (find_challenge (ls_challengeId s) d))) ''-'',
       mv_score = user_xp u\<rparr>)"

text \<open>The members of an organization, each with the user row that the query includes.\<close>

definition members_with_user :: "string \<Rightarrow> db \<Rightarrow> (org_member \<times> user) list" where
  "members_with_user i d = List.map_filter (\<lambda>m. map_option (\<lambda>u. (m, u)) (find_user (mem_userId m) d))
     (filter (\<lambda>m. mem_orgId m = i) (orgMembers d))"

definition list_members :: "'r env \<Rightarrow> claims \<Rightarrow> string \<Rightarrow> ('r world, member_view list org_answer) act" where
  "list_members E c orgId = in_org E c (claims.cl_id c) orgId None (\<lambda>i. org_fail (
     bnd (query E (\<lambda>d. map (\<lambda>(m, u). member_view_of d m u) (members_with_user i d))) (\<lambda>members.
     ret (Sent 200 members))))"

definition insert_invite :: "org_invite \<Rightarrow> db \<Rightarrow> (exn + unit) \<times> db" where
  "insert_invite v d = guarded
     [(UniqueViolation, has_key inv_id (inv_id v) (orgInvites d)),
      (UniqueViolation, has_key inv_token (inv_token v) (orgInvites d)),
      (ForeignKeyViolation, \<not> has_key org_id (inv_orgId v) (orgs d))]
     (d\<lparr>orgInvites := orgInvites d @ [v]\<rparr>) d"

definition file_org_event :: "'r env \<Rightarrow> string \<Rightarrow> payload \<Rightarrow> int \<Rightarrow> db \<Rightarrow> (exn + unit) \<times> db" where
  "file_org_event E ty p t d = (Inr (), d\<lparr>coreOutbox := coreOutbox d @
     [new_outbox_event (cuid E (map ob_id (coreOutbox d))) ty p t]\<rparr>)"

definition seats_full :: "string \<Rightarrow> db \<Rightarrow> bool" where
  "seats_full i d = (case find_org i d of
     None \<Rightarrow> False
   | Some r \<Rightarrow> int (count_rows (\<lambda>m. mem_orgId m = i) (orgMembers d)) \<ge> org_seatsPurchased r)"

definition invite_member ::
  "'r env \<Rightarrow> claims \<Rightarrow> string \<Rightarrow> string option \<Rightarrow> org_role option \<Rightarrow> ('r world, org_invite org_answer) act" where
  "invite_member E c orgId email role = in_org E c (Some (caller_id c)) orgId (Some ORG_ADMIN) (\<lambda>i.
     if \<not> truthy email then ret (Denied 400 EmailRequired)
     else org_fail (
       bnd (query E (seats_full i)) (\<lambda>full.
       if full then ret (Denied 409 SeatsExhausted)
       else
         bnd now (\<lambda>t.
         with_id E (\<lambda>inviteId. with_id E (\<lambda>token.
         let v = \<lparr>inv_id = inviteId, inv_orgId = i, inv_email = the email, inv_token = token,
               inv_orgRole = (case role of None \<Rightarrow> MEMBER | Some r \<Rightarrow> r), inv_status = PENDING,
               inv_expiresAt = t + 7 * 24 * 60 * 60 * 1000\<rparr> in
         sq (run_db E (insert_invite v)) (
         sq (run_db_at E (file_org_event E ''org.invite.sent'' (OrgInviteSent inviteId i (the email) token)))
         (ret (Sent 201 v)))))))))"

section \<open>Analytics\<close>

record analytics =
  an_totalEngineers :: nat
  an_activeSandboxes :: nat
  an_highResourceSandboxes :: nat
  an_avgSkillScore :: int
  an_pathsCompleted :: nat
  an_pathsCompletedThisWeek :: nat
  an_scoreChangeLastWeek :: int
  an_engineersAddedThisMonth :: nat

definition analytics_of :: "(org_member \<times> user) list \<Rightarrow> int \<Rightarrow> int \<Rightarrow> db \<Rightarrow> analytics" where
  "analytics_of ms weekAgo monthAgo d =
     (let n = length ms;
          completions_of = (\<lambda>u. filter (\<lambda>r. co_userId r = user_id u) (completions d));
          active = sum_list (map (\<lambda>(m, u). count_rows (\<lambda>s. ls_userId s = user_id u \<and> ls_status s = ACTIVE) (labSessions d)) ms);
          totalXp = sum_list (map (\<lambda>(m, u). user_xp u) ms)
      in \<lparr>an_totalEngineers = n, an_activeSandboxes = active, an_highResourceSandboxes = active,
          an_avgSkillScore = (if n > 0 then round_div totalXp (int n) else 0),
          an_pathsCompleted = sum_list (map (\<lambda>(m, u). length (completions_of u)) ms),
          an_pathsCompletedThisWeek =
            sum_list (map (\<lambda>(m, u). count_rows (\<lambda>r. co_createdAt r \<ge> weekAgo) (completions_of u)) ms),
          an_scoreChangeLastWeek = 0,
          an_engineersAddedThisMonth = count_rows (\<lambda>(m, u). mem_joinedAt m \<ge> monthAgo) ms\<rparr>)"

definition org_analytics :: "'r env \<Rightarrow> claims \<Rightarrow> string \<Rightarrow> ('r world, analytics org_answer) act" where
  "org_analytics E c orgId = in_org E c (claims.cl_id c) orgId (Some ORG_ADMIN) (\<lambda>i. org_fail (
     bnd (query E (\<lambda>d. (members_with_user i d, d))) (\<lambda>(ms, d).
     bnd now (\<lambda>t1.
     bnd now (\<lambda>t2.
     ret (Sent 200 (analytics_of ms (t1 - 7 * 24 * 60 * 60 * 1000) (t2 - 30 * 24 * 60 * 60 * 1000) d)))))))"

section \<open>Scenarios\<close>

definition list_scenarios :: "'r env \<Rightarrow> claims \<Rightarrow> string \<Rightarrow> ('r world, org_scenario list org_answer) act" where
  "list_scenarios E c orgId = in_org E c (Some (caller_id c)) orgId None (\<lambda>i. org_fail (
     bnd (query E (\<lambda>d. sort_key (\<lambda>s. - os_createdAt s) (filter (\<lambda>s. os_orgId s = i) (orgScenarios d)))) (\<lambda>scenarios.
     ret (Sent 200 scenarios))))"

record scenario_body =
  sb_title :: "string option"
  sb_description :: "string option"
  sb_difficulty :: "difficulty option"
  sb_category :: "category option"
  sb_dockerImage :: "string option"
  sb_setupInstructions :: "string option"
  sb_checks :: "(string \<times> string \<times> string) list option"

definition insert_scenario :: "org_scenario \<Rightarrow> db \<Rightarrow> (exn + unit) \<times> db" where
  "insert_scenario s d = guarded
     [(UniqueViolation, has_key os_id (os_id s) (orgScenarios d)),
      (ForeignKeyViolation, \<not> has_key org_id (os_orgId s) (orgs d)),
      (ForeignKeyViolation, \<not> has_user d (os_createdByUserId s))]
     (d\<lparr>orgScenarios := orgScenarios d @ [s]\<rparr>) d"

text \<open>The author of a scenario is \<open>request.user!.id\<close>; without one the client refuses the row.\<close>

definition create_scenario ::
  "'r env \<Rightarrow> claims \<Rightarrow> string \<Rightarrow> scenario_body \<Rightarrow> ('r world, string org_answer) act" where
  "create_scenario E c orgId b = in_org E c (Some (caller_id c)) orgId (Some ORG_ADMIN) (\<lambda>i.
     if \<not> truthy (sb_title b) \<or> \<not> truthy (sb_description b) \<or> \<not> truthy (sb_dockerImage b) then
       ret (Denied 400 FieldsRequired)
     else org_fail (
       case claims.cl_id c of
         None \<Rightarrow> throw InvalidInput
       | Some author \<Rightarrow>
           with_id E (\<lambda>k.
           sq (run_db_at E (\<lambda>t. insert_scenario \<lparr>os_id = k, os_orgId = i, os_createdByUserId = author,
                 os_title = the (sb_title b), os_description = the (sb_description b),
                 os_difficulty = (case sb_difficulty b of None \<Rightarrow> MID | Some x \<Rightarrow> x),
                 os_category = (case sb_category b of None \<Rightarrow> KUBERNETES | Some x \<Rightarrow> x),
                 os_dockerImage = the (sb_dockerImage b),
                 os_setupInstructions = (case sb_setupInstructions b of None \<Rightarrow> [] | Some x \<Rightarrow> x),
                 os_checks = (case sb_checks b of None \<Rightarrow> [] | Some x \<Rightarrow> x),
                 os_status = PRIVATE, os_createdAt = t\<rparr>))
           (ret (Sent 201 k)))))"

section \<open>Joining\<close>

definition set_invite :: "string \<Rightarrow> invite_status \<Rightarrow> db \<Rightarrow> (exn + unit) \<times> db" where
  "set_invite v st d = guarded [(RecordNotFound, \<not> has_key inv_id v (orgInvites d))]
     (d\<lparr>orgInvites := update_rows (\<lambda>r. inv_id r = v) (\<lambda>r. r\<lparr>inv_status := st\<rparr>) (orgInvites d)\<rparr>) d"

definition join_org :: "'r env \<Rightarrow> claims \<Rightarrow> string \<Rightarrow> ('r world, unit org_answer) act" where
  "join_org E c token = org_fail (
     bnd (query E (\<lambda>d. find (\<lambda>v. inv_token v = token) (orgInvites d))) (\<lambda>found.
     case found of
       None \<Rightarrow> ret (Denied 404 InviteNotFound)
     | Some v \<Rightarrow>
         if inv_status v \<noteq> PENDING then ret (Denied 400 (InviteNotPending (inv_status v)))
         else
           bnd now (\<lambda>t.
           if inv_expiresAt v < t then
             sq (run_db E (set_invite (inv_id v) InviteExpired)) (ret (Denied 410 InviteHasExpired))
           else
             sq (interactive E (
               sq (run_db E (set_org (caller_id c) (inv_orgId v))) (
               sq (run_db_at E (insert_member (caller_id c) (inv_orgId v) (inv_orgRole v))) (
               sq (run_db E (set_invite (inv_id v) ACCEPTED))
               (run_db_at E (file_org_event E ''org.member.joined''
                  (OrgMemberJoined (caller_id c) (inv_orgId v) (inv_orgRole v)))))))) (
             ret (Sent 200 ())))))"

section \<open>Path assignments\<close>

definition list_assignments ::
  "'r env \<Rightarrow> claims \<Rightarrow> string \<Rightarrow> ('r world, (path_assignment \<times> learning_path option) list org_answer) act" where
  "list_assignments E c orgId = in_org E c (Some (caller_id c)) orgId None (\<lambda>i. org_fail (
     bnd (query E (\<lambda>d. map (\<lambda>a. (a, find (\<lambda>p. path_id p = pa_learningPathId a) (learningPaths d)))
       (filter (\<lambda>a. pa_orgId a = i) (pathAssignments d)))) (\<lambda>assignments.
     ret (Sent 200 assignments))))"

definition upsert_assignment ::
  "string \<Rightarrow> string \<Rightarrow> string \<Rightarrow> string \<Rightarrow> int \<Rightarrow> int \<Rightarrow> db \<Rightarrow> (exn + unit) \<times> db" where
  "upsert_assignment i path u by_user t t' d =
     (let key = (\<lambda>a. (pa_orgId a, pa_learningPathId a, pa_userId a)) in
      if has_key key (i, path, Some u) (pathAssignments d) then
        (Inr (), d\<lparr>pathAssignments := update_rows (\<lambda>a. key a = (i, path, Some u)) (\<lambda>a. a\<lparr>pa_assignedAt := t\<rparr>)
           (pathAssignments d)\<rparr>)
      else guarded
        [(ForeignKeyViolation, \<not> has_key org_id i (orgs d)),
         (ForeignKeyViolation, \<not> has_key path_id path (learningPaths d))]
        (d\<lparr>pathAssignments := pathAssignments d @ [\<lparr>pa_orgId = i, pa_learningPathId = path, pa_userId = Some u,
           pa_assignedByUserId = by_user, pa_assignedAt = t'\<rparr>]\<rparr>) d)"

text \<open>A null in the unique selector of an upsert is refused by the client.\<close>

definition assign_path ::
  "'r env \<Rightarrow> claims \<Rightarrow> string \<Rightarrow> string option \<Rightarrow> string option \<Rightarrow> ('r world, unit org_answer) act" where
  "assign_path E c orgId learningPathId userId = in_org E c (Some (caller_id c)) orgId (Some ORG_ADMIN) (\<lambda>i.
     if \<not> truthy learningPathId then ret (Denied 400 PathRequired)
     else org_fail (
       case js_or_null userId of
         None \<Rightarrow> throw InvalidInput
       | Some u \<Rightarrow>
           bnd now (\<lambda>t.
           sq (run_db_at E (upsert_assignment i (the learningPathId) u (caller_id c) t))
           (ret (Sent 201 ())))))"

section \<open>The progress matrix\<close>

datatype progress_status = NOT_STARTED | IN_PROGRESS | PATH_COMPLETED

record path_progress =
  pp_pathId :: string
  pp_pathTitle :: string
  pp_totalChallenges :: nat
  pp_completedChallenges :: nat
  pp_percentage :: int
  pp_status :: progress_status

record matrix_row =
  mx_userId :: string
  mx_name :: string
  mx_email :: string
  mx_role :: string
  mx_orgRole :: org_role
  mx_xp :: int
  mx_assignments :: "path_progress list"

text \<open>
  The percentage is the nearest integer of the exact quotient; the code computes it in floating
  point, which can differ by one where the exact value lies half-way between two integers.
\<close>

definition percentage_of :: "nat \<Rightarrow> nat \<Rightarrow> int" where
  "percentage_of completed n = (if n > 0 then round_div (int completed * 100) (int n) else 0)"

definition path_challenges :: "string \<Rightarrow> db \<Rightarrow> challenge list" where
  "path_challenges p d = concat (map (\<lambda>m. filter (\<lambda>c. ch_moduleId c = Some (mod_id m)) (challenges d))
     (filter (\<lambda>m. mod_pathId m = p) (modules d)))"

definition progress_of :: "db \<Rightarrow> string \<Rightarrow> learning_path \<Rightarrow> path_progress" where
  "progress_of d u p =
     (let done_nodes = map co_nodeId (filter (\<lambda>r. co_userId r = u) (completions d));
          cs = path_challenges (path_id p) d;
          n = length cs;
          completed = count_rows (\<lambda>c. ch_id c \<in> set done_nodes) cs;
          percentage = percentage_of completed n
      in \<lparr>pp_pathId = path_id p, pp_pathTitle = path_title p, pp_totalChallenges = n,
          pp_completedChallenges = completed, pp_percentage = percentage,
          pp_status = (if percentage = 100 then PATH_COMPLETED
            else if percentage > 0 then IN_PROGRESS else NOT_STARTED)\<rparr>)"

definition progress_matrix :: "'r env \<Rightarrow> claims \<Rightarrow> string \<Rightarrow> ('r world, matrix_row list org_answer) act" where
  "progress_matrix E c orgId = in_org E c (Some (caller_id c)) orgId (Some ORG_ADMIN) (\<lambda>i. org_fail (
     bnd (query E (\<lambda>d. (members_with_user i d, d))) (\<lambda>(ms, d1).
     bnd (query E (\<lambda>d. (List.map_filter (\<lambda>a. find (\<lambda>p. path_id p = pa_learningPathId a) (learningPaths d))
       (filter (\<lambda>a. pa_orgId a = i) (pathAssignments d)), d))) (\<lambda>(paths, d2).
     ret (Sent 200 (map (\<lambda>(m, u). \<lparr>mx_userId = user_id u, mx_name = js_or (user_name u) (user_email u),
         mx_email = user_email u, mx_role = js_or (user_jobTitle u) ''Engineer'', mx_orgRole = mem_orgRole m,
         mx_xp = user_xp u,
         mx_assignments = map (progress_of (d2\<lparr>completions := completions d1\<rparr>) (user_id u)) paths\<rparr>) ms))))))"

section \<open>The compliance report\<close>

definition quote :: char where "quote = CHR 0x22"

definition quoted_cell :: "string \<Rightarrow> string" where
  "quoted_cell s = quote # s @ [quote]"

text \<open>\<open>replace(/"/g, '""')\<close>\<close>

definition double_quotes :: "string \<Rightarrow> string" where
  "double_quotes s = concat (map (\<lambda>ch. if ch = quote then [quote, quote] else [ch]) s)"

fun org_role_name :: "org_role \<Rightarrow> string" where
  "org_role_name OWNER = ''OWNER''"
| "org_role_name ORG_ADMIN = ''ADMIN''"
| "org_role_name MEMBER = ''MEMBER''"

fun node_type_name :: "node_type \<Rightarrow> string" where
  "node_type_name CONCEPT = ''CONCEPT''"
| "node_type_name SCENARIO = ''SCENARIO''"
| "node_type_name QUIZ = ''QUIZ''"

definition pad :: "nat \<Rightarrow> int \<Rightarrow> string" where
  "pad n k = (let s = show_int k in replicate (n - length s) (CHR ''0'') @ s)"

text \<open>\<open>toISOString\<close> for the years 0 to 9999.\<close>

definition toISOString :: "int \<Rightarrow> string" where
  "toISOString t = (let ms = t mod MS_PER_DAY in
     pad 4 (getUTCFullYear t) @ ''-'' @ pad 2 (int (getUTCMonth t) + 1) @ ''-'' @ pad 2 (getUTCDate t) @ ''T'' @
     pad 2 (ms div 3600000) @ '':'' @ pad 2 (ms div 60000 mod 60) @ '':'' @ pad 2 (ms div 1000 mod 60) @ ''.'' @
     pad 3 (ms mod 1000) @ ''Z'')"

primrec join_with :: "string \<Rightarrow> string list \<Rightarrow> string" where
  "join_with sep [] = []"
| "join_with sep (x # xs) = (if xs = [] then x else x @ sep @ join_with sep xs)"

definition csv_headers :: "string list" where
  "csv_headers = [''Organization'', ''Engineer Name'', ''Email'', ''Role'', ''Org Role'', ''XP'',
     ''Completed Unit'', ''Type'', ''Completed At'']"

definition csv_row :: "org option \<Rightarrow> org_member \<Rightarrow> user \<Rightarrow> string \<times> string \<times> string \<Rightarrow> string list" where
  "csv_row r m u = (\<lambda>(unit, ty, at).
     [quoted_cell (js_or (map_option org_name r) ''Org''), quoted_cell (js_or (user_name u) []),
      quoted_cell (user_email u), quoted_cell (js_or (user_jobTitle u) ''Engineer''),
      quoted_cell (org_role_name (mem_orgRole m)), show_int (user_xp u),
      quoted_cell unit, quoted_cell ty, quoted_cell at])"

definition completed_units :: "db \<Rightarrow> string \<Rightarrow> (string \<times> string \<times> string) list" where
  "completed_units d u = List.map_filter (\<lambda>r. map_option (\<lambda>n.
       (double_quotes (nd_title n), node_type_name (nd_type n), toISOString (co_createdAt r)))
     (find (\<lambda>n. nd_id n = co_nodeId r) (nodes d))) (filter (\<lambda>r. co_userId r = u) (completions d))"

definition csv_rows :: "org option \<Rightarrow> (org_member \<times> user) list \<Rightarrow> db \<Rightarrow> string list list" where
  "csv_rows r ms d = concat (map (\<lambda>(m, u).
     if filter (\<lambda>x. co_userId x = user_id u) (completions d) = []
     then [csv_row r m u (''None'', ''N/A'', ''N/A'')]
     else map (csv_row r m u) (completed_units d (user_id u))) ms)"

definition compliance_export :: "'r env \<Rightarrow> claims \<Rightarrow> string \<Rightarrow> ('r world, string org_answer) act" where
  "compliance_export E c orgId = in_org E c (Some (caller_id c)) orgId (Some ORG_ADMIN) (\<lambda>i. org_fail (
     bnd (query E (find_org i)) (\<lambda>r.
     bnd (query E (\<lambda>d. csv_rows r (members_with_user i d) d)) (\<lambda>rows.
     ret (Sent 200 (join_with [CHR 0x0D, CHR 0x0A] (map (join_with '','') (csv_headers # rows))))))))"

end
