(* ===== verification/Org_Laws.thy ===== *)
theory Org_Laws
  imports Orgs
begin

text \<open>
  Organizations: every request keeps the constraints of the database, only administrators write and
  only in their own organization, what joining does, that no scenario can be created with a token of
  the auth service, and what the progress and compliance reports say.
\<close>

section \<open>The constraints of the database\<close>

lemma keep_access: "moves (on_db (keeping constraints)) (checkOrgAccess E c i r)"
  unfolding checkOrgAccess_def by (intro keeping_steps)

lemma moves_sum: "(\<And>a. moves R (f a)) \<Longrightarrow> (\<And>b. moves R (g b)) \<Longrightarrow>
    moves R (case x of Inl a \<Rightarrow> f a | Inr b \<Rightarrow> g b)"
  by (cases x) simp_all

lemma keep_in_org:
  "(\<And>i. moves (on_db (keeping constraints)) (body i)) \<Longrightarrow>
   moves (on_db (keeping constraints)) (in_org E c uid orgId r body)"
  unfolding in_org_def Let_def
  by (intro keep_access moves_sum keeping_steps; assumption)

lemma keep_org_writes:
  "moves (on_db (keeping constraints)) (run_db E (insert_org o1))"
  "moves (on_db (keeping constraints)) (run_db_at E (insert_member u i r))"
  "moves (on_db (keeping constraints)) (run_db E (set_org u i))"
  "moves (on_db (keeping constraints)) (run_db E (insert_invite v))"
  "moves (on_db (keeping constraints)) (run_db E (set_invite k st))"
  "moves (on_db (keeping constraints)) (run_db_at E (\<lambda>t. insert_scenario (s t)))"
  unfolding insert_org_def [abs_def] insert_member_def [abs_def] set_org_def [abs_def] insert_invite_def [abs_def]
    set_invite_def [abs_def] insert_scenario_def
  by (rule keeping_guarded keeping_guarded_at,
      force simp: constraint_defs member_key_def unique_by_update has_key_update ball_update_rows)+

lemma keep_org_event: "moves (on_db (keeping constraints)) (run_db_at E (file_org_event E' ty p))"
  by (rule kept.moves_run_db_at) (simp add: file_org_event_def keeping_def constraint_defs)

lemma keep_assignment: "moves (on_db (keeping constraints)) (run_db_at E (upsert_assignment i p u b t))"
proof (rule kept.moves_run_db_at)
  fix t' d
  show "keeping constraints d (snd (upsert_assignment i p u b t t' d))"
    by (auto simp: upsert_assignment_def keeping_def Let_def constraint_defs ball_update_rows)
qed

lemma keep_org_routes:
  "moves (on_db (keeping constraints)) (create_org E c name slug plan)"
  "moves (on_db (keeping constraints)) (invite_member E c orgId email role)"
  "moves (on_db (keeping constraints)) (create_scenario E c orgId b)"
  "moves (on_db (keeping constraints)) (join_org E c token)"
  "moves (on_db (keeping constraints)) (assign_path E c orgId path u)"
  unfolding create_org_def invite_member_def create_scenario_def join_org_def assign_path_def org_fail_def Let_def
  by (intro keep_in_org keep_org_writes keep_org_event keep_assignment kept.moves_interactive keeping_steps)+

text \<open>The requests that change something.\<close>

inductive org_step :: "'r env \<Rightarrow> 'r world \<Rightarrow> 'r world \<Rightarrow> bool" for E where
  "org_step E w (snd (create_org E c name slug plan w))"
| "org_step E w (snd (invite_member E c orgId email role w))"
| "org_step E w (snd (create_scenario E c orgId b w))"
| "org_step E w (snd (join_org E c token w))"
| "org_step E w (snd (assign_path E c orgId path u w))"

lemma org_step_constraints:
  assumes "org_step E w w'" and "constraints (db w)"
  shows "constraints (db w')"
proof -
  note runs = keep_org_routes [THEN moves_db_run]
  from assms(1) have "keeping constraints (db w) (db w')" by cases (simp_all only: runs)
  with assms(2) show ?thesis by (simp add: keeping_def)
qed

section \<open>Who writes\<close>

text \<open>The organization that a request names: \<open>me\<close> is the one of the user.\<close>

definition org_meant :: "string option \<Rightarrow> string \<Rightarrow> db \<Rightarrow> string option" where
  "org_meant uid orgId d =
     (if orgId = ''me'' then Option.bind (Option.bind uid (\<lambda>u. find_user u d)) user_orgId else Some orgId)"

text \<open>Entering an organization: either an early answer, or the caller is a member with the role.\<close>

lemma post_in_org:
  assumes "\<And>e. Q (Inl e) d" and "\<And>code e. Q (Inr (Denied code e)) d"
    and "\<And>i m. find_member (caller_id c) i d = Some m \<Longrightarrow> r = Some ORG_ADMIN \<Longrightarrow> ORG_ADMIN \<le> mem_orgRole m \<Longrightarrow>
      org_meant uid orgId d = Some i \<Longrightarrow> db_post (body i) d Q"
    and "r = Some ORG_ADMIN"
  shows "db_post (in_org E c uid orgId r body) d Q"
proof -
  have rank: "ORG_ADMIN \<le> mem_orgRole m" if "\<not> (mem_orgRole m \<noteq> OWNER \<and> mem_orgRole m \<noteq> ORG_ADMIN)"
    for m :: org_member
    using that by (auto simp: less_eq_org_role_def)
  show ?thesis
    unfolding in_org_def checkOrgAccess_def Let_def
    by (intro post_rules assms(1,2)) (use assms(3,4) rank in \<open>auto intro!: post_rules assms(1,2) simp: org_meant_def\<close>)
qed

text \<open>What an administrator of the organization i may change of d.\<close>

definition within_org :: "string \<Rightarrow> db \<Rightarrow> db \<Rightarrow> bool" where
  "within_org i d d' \<longleftrightarrow>
     filter (\<lambda>v. inv_orgId v \<noteq> i) (orgInvites d') = filter (\<lambda>v. inv_orgId v \<noteq> i) (orgInvites d) \<and>
     filter (\<lambda>s. os_orgId s \<noteq> i) (orgScenarios d') = filter (\<lambda>s. os_orgId s \<noteq> i) (orgScenarios d) \<and>
     filter (\<lambda>a. pa_orgId a \<noteq> i) (pathAssignments d') = filter (\<lambda>a. pa_orgId a \<noteq> i) (pathAssignments d)"

interpretation within: db_order "within_org i" for i
  by unfold_locales (auto simp: within_org_def)

lemma filter_update_other:
  "(\<And>r. P r \<Longrightarrow> \<not> Q r) \<Longrightarrow> (\<And>r. P r \<Longrightarrow> \<not> Q (f r)) \<Longrightarrow> filter Q (update_rows P f rs) = filter Q rs"
  by (induction rs) auto

lemma within_writes:
  "inv_orgId v = i \<Longrightarrow> moves (on_db (within_org i)) (run_db E (insert_invite v))"
  "(\<And>t. os_orgId (s t) = i) \<Longrightarrow> moves (on_db (within_org i)) (run_db_at E (\<lambda>t. insert_scenario (s t)))"
  "moves (on_db (within_org i)) (run_db_at E (file_org_event E' ty p))"
  "moves (on_db (within_org i)) (run_db_at E (upsert_assignment i path u by_u t0))"
  unfolding insert_invite_def [abs_def] insert_scenario_def file_org_event_def [abs_def] upsert_assignment_def [abs_def]
    Let_def
  by (intro within.moves_run_db within.moves_run_db_at;
      auto intro!: within.guarded_step filter_update_other simp: within_org_def)+

text \<open>An organization with ann as owner and bob as invited member.\<close>

definition shop :: db where
  "shop = example_db\<lparr>
     users := [(example_user ''ann'' LEARNER)\<lparr>user_orgId := Some ''o1''\<rparr>, example_user ''bob'' LEARNER],
     orgs := [\<lparr>org_id = ''o1'', org_name = ''Shop'', org_slug = ''shop'', org_planTier = PRO,
       org_seatsPurchased = 5, org_ssoProvider = None, org_ssoDomain = None,
       org_ssoMetadataUrl = None\<rparr>],
     orgMembers := [\<lparr>mem_userId = ''ann'', mem_orgId = ''o1'', mem_orgRole = OWNER, mem_joinedAt = 0\<rparr>],
     orgInvites := [\<lparr>inv_id = ''v1'', inv_orgId = ''o1'', inv_email = ''carl@x.io'', inv_token = ''tok'',
       inv_orgRole = ORG_ADMIN, inv_status = PENDING, inv_expiresAt = 5000\<rparr>]\<rparr>"

lemma shop_constraints: "constraints shop"
  by code_simp

definition caller_claims :: "string \<Rightarrow> claims" where
  "caller_claims u = \<lparr>cl_sub = u, cl_id = None, cl_email = None, cl_role = Some LEARNER, cl_orgId = None,
     cl_iss = None, cl_jti = Some ''j'', cl_pendingMfa = False, cl_iat = 1, cl_exp = 901\<rparr>"

text \<open>
  C37. Inviting, creating a scenario and assigning a path are for administrators, each in the own
  organization: whatever fails, the three tables are as before, or the caller is a member of an
  organization with at least the role of an administrator and no row of another organization has
  changed.
\<close>

theorem admins_write_their_org:
  assumes "d' \<in> {db (snd (invite_member E c orgId email role w)), db (snd (create_scenario E c orgId b w)),
    db (snd (assign_path E c orgId path u w))}"
  shows "(orgInvites d' = orgInvites (db w) \<and> orgScenarios d' = orgScenarios (db w) \<and>
      pathAssignments d' = pathAssignments (db w)) \<or>
    (\<exists>m \<in> set (orgMembers (db w)). mem_userId m = caller_id c \<and> ORG_ADMIN \<le> mem_orgRole m \<and>
      within_org (mem_orgId m) (db w) d')"
proof -
  define ok where "ok = (\<lambda>d'. (orgInvites d' = orgInvites (db w) \<and> orgScenarios d' = orgScenarios (db w) \<and>
      pathAssignments d' = pathAssignments (db w)) \<or>
    (\<exists>m \<in> set (orgMembers (db w)). mem_userId m = caller_id c \<and> ORG_ADMIN \<le> mem_orgRole m \<and>
      within_org (mem_orgId m) (db w) d'))"
  have same: "ok (db w)" by (simp add: ok_def)
  have enter: "db_post (in_org E c uid orgId (Some ORG_ADMIN) body) (db w) (\<lambda>_ d'. ok d')"
    if "\<And>i. moves (on_db (within_org i)) (body i)" for uid and body :: "string \<Rightarrow> ('a world, 'x org_answer) act"
  proof (rule post_in_org)
    fix i m assume "find_member (caller_id c) i (db w) = Some m" and role: "ORG_ADMIN \<le> mem_orgRole m"
    then have m: "m \<in> set (orgMembers (db w))" "mem_userId m = caller_id c" "mem_orgId m = i"
      using find_in [of _ "orgMembers (db w)" m] by (auto simp: member_key_def)
    show "db_post (body i) (db w) (\<lambda>_ d'. ok d')"
      by (rule db_post_conseq [OF moves_db_post [OF that]]) (use m role in \<open>auto simp: ok_def\<close>)
  qed (simp_all add: same)
  have "db_post (invite_member E c orgId email role) (db w) (\<lambda>_ d'. ok d')"
      "db_post (create_scenario E c orgId b) (db w) (\<lambda>_ d'. ok d')"
      "db_post (assign_path E c orgId path u) (db w) (\<lambda>_ d'. ok d')"
    unfolding invite_member_def create_scenario_def assign_path_def org_fail_def Let_def
    by (intro enter within_writes within.db_moves moves_rules; simp)+
  with assms show ?thesis unfolding ok_def by (auto dest: db_post_run)
qed


lemma admins_write_their_org_witness:
  "within_org ''o1'' shop (db (snd (invite_member calm_env (caller_claims ''ann'') ''me'' (Some ''d@x.io'') None (example_world shop))))"
proof -
  let ?d = "db (snd (invite_member calm_env (caller_claims ''ann'') ''me'' (Some ''d@x.io'') None (example_world shop)))"
  have "length (orgInvites ?d) = 2" "length (orgInvites shop) = 1" by code_simp+
  moreover have "\<forall>m \<in> set (orgMembers shop). mem_orgId m = ''o1''" by code_simp
  ultimately show ?thesis
    using admins_write_their_org [of ?d calm_env "caller_claims ''ann''" "''me''" "Some ''d@x.io''" None "example_world shop"]
    by auto
qed

section \<open>Scenarios and tokens\<close>

text \<open>
  No scenario is ever created with a token of the auth service: its tokens carry the user as
  \<open>sub\<close> and no \<open>id\<close>, the author of a scenario is taken from \<open>id\<close>, so whatever fails the table stays
  as it is and the answer is never 201.
\<close>

lemma no_scenario_created:
  assumes "signAccessToken E A user v = (Inr c, v')"
  shows "orgScenarios (db (snd (create_scenario E' c orgId b w))) = orgScenarios (db w) \<and>
    fst (create_scenario E' c orgId b w) \<noteq> Inr (Sent 201 k)"
proof -
  have c: "claims.cl_id c = None"
    using assms by (auto simp: signAccessToken_def act_simps new_id_def now_def split: prod.splits sum.splits)
  define Q :: "exn + string org_answer \<Rightarrow> db \<Rightarrow> bool"
    where "Q = (\<lambda>r d'. orgScenarios d' = orgScenarios (db w) \<and> (\<forall>k. r \<noteq> Inr (Sent 201 k)))"
  have Q: "Q (Inl e) (db w)" "Q (Inr (Denied n e')) (db w)" for e n e' by (simp_all add: Q_def)
  have "db_post (create_scenario E' c orgId b) (db w) Q"
    unfolding create_scenario_def c option.case org_fail_def
    by (rule post_in_org) (intro post_rules Q refl)+
  then have "Q (fst (create_scenario E' c orgId b w)) (db (snd (create_scenario E' c orgId b w)))"
    by (rule db_post_run) simp
  then show ?thesis by (simp add: Q_def)
qed

definition plain_auth :: auth_env where
  "plain_auth = \<lparr>sha256 = id, randomHex = show_nat, argonHash = (\<lambda>n p. p), argonVerify = (=), totpSecret = show_nat,
     totpVerify = (\<lambda>t c s. c = s), jwtIssuer = ''iss'', refreshTokenSecs = 604800, mfaTokenSecs = 300,
     defaultRole = LEARNER\<rparr>"

definition lab_body :: scenario_body where
  "lab_body = \<lparr>sb_title = Some ''T'', sb_description = Some ''D'', sb_difficulty = None, sb_category = None,
     sb_dockerImage = Some ''img'', sb_setupInstructions = None, sb_checks = None\<rparr>"

lemma no_scenario_created_witness:
  "\<exists>c v. signAccessToken calm_env plain_auth (example_user ''ann'' LEARNER) (example_world shop) = (Inr c, v) \<and>
     orgScenarios (db (snd (create_scenario calm_env c ''o1'' lab_body (example_world shop)))) = []"
proof -
  obtain c v where "signAccessToken calm_env plain_auth (example_user ''ann'' LEARNER) (example_world shop) = (Inr c, v)"
    by (simp add: signAccessToken_def new_id_def now_def act_simps Let_def)
  moreover from no_scenario_created [OF this, of calm_env "''o1''" lab_body "example_world shop"]
  have "orgScenarios (db (snd (create_scenario calm_env c ''o1'' lab_body (example_world shop)))) = orgScenarios shop"
    by simp
  moreover have "orgScenarios shop = []" by code_simp
  ultimately show ?thesis by auto
qed

section \<open>Joining\<close>

lemma interactive_calm:
  "calm E \<Longrightarrow> m w = (Inr a, v) \<Longrightarrow> interactive E m w = (Inr a, if oneTransaction E then tick E v else v)"
  by (simp add: interactive_def calm_def)

lemma find_changed_user:
  assumes "\<And>r. user_id (f r) = user_id r"
  shows "find (\<lambda>r. user_id r = u) (update_rows (\<lambda>r. user_id r = u) f us) = map_option f (find (\<lambda>r. user_id r = u) us)"
  by (induction us) (auto simp: assms)

text \<open>
  In a calm run an invitation that is pending and not over admits whoever presents its token:
  the caller becomes a member with the role of the invitation, the invitation is accepted and an
  event is filed. Neither the address that was invited nor the number of seats is looked at.
\<close>

lemma join_effects:
  assumes "calm E" and "find (\<lambda>v. inv_token v = token) (orgInvites (db w)) = Some v"
    and "inv_status v = PENDING" and "clock w + int (latency E (calls w)) \<le> inv_expiresAt v"
    and "has_user (db w) (caller_id c)" and "constraints (db w)"
    and "find_member (caller_id c) (inv_orgId v) (db w) = None"
  shows "\<exists>w' m e. join_org E c token w = (Inr (Sent 200 ()), w') \<and>
    orgMembers (db w') = orgMembers (db w) @ [m] \<and>
    mem_userId m = caller_id c \<and> mem_orgId m = inv_orgId v \<and> mem_orgRole m = inv_orgRole v \<and>
    map_option user_orgId (find_user (caller_id c) (db w')) = Some (Some (inv_orgId v)) \<and>
    (\<forall>x \<in> set (orgInvites (db w')). inv_id x = inv_id v \<longrightarrow> inv_status x = ACCEPTED) \<and>
    coreOutbox (db w') = coreOutbox (db w) @ [e] \<and>
    ob_payload e = OrgMemberJoined (caller_id c) (inv_orgId v) (inv_orgRole v)"
proof -
  let ?u = "caller_id c" and ?i = "inv_orgId v"
  have v: "v \<in> set (orgInvites (db w))" using find_in [OF assms(2)] by simp
  then have org: "has_key org_id ?i (orgs (db w))" using assms(6) by (simp add: constraint_defs)
  have inv: "has_key inv_id (inv_id v) (orgInvites (db w))" using v by (auto simp: has_key_def)
  have fresh: "\<not> has_key member_key (?u, ?i) (orgMembers (db w))" using assms(7) by (simp add: find_key_None)
  have user: "has_user (db w) ?u" by (rule assms(5))
  let ?w = "tick E w"
  let ?body = "sq (run_db E (set_org ?u ?i)) (
     sq (run_db_at E (insert_member ?u ?i (inv_orgRole v))) (
     sq (run_db E (set_invite (inv_id v) ACCEPTED))
     (run_db_at E (file_org_event E ''org.member.joined'' (OrgMemberJoined ?u ?i (inv_orgRole v))))))"
  obtain x t e where body: "?body ?w = (Inr (), x)"
    and x: "db x = (db w)\<lparr>users := update_rows (\<lambda>r. user_id r = ?u) (\<lambda>r. r\<lparr>user_orgId := Some ?i\<rparr>) (users (db w)),
        orgMembers := orgMembers (db w) @ [\<lparr>mem_userId = ?u, mem_orgId = ?i, mem_orgRole = inv_orgRole v, mem_joinedAt = t\<rparr>],
        orgInvites := update_rows (\<lambda>r. inv_id r = inv_id v) (\<lambda>r. r\<lparr>inv_status := ACCEPTED\<rparr>) (orgInvites (db w)),
        coreOutbox := coreOutbox (db w) @ [e]\<rparr>"
    and e: "ob_payload e = OrgMemberJoined ?u ?i (inv_orgRole v)"
    using user org inv fresh
    by (simp add: act_simps calm_runs [OF assms(1)] set_org_def insert_member_def set_invite_def file_org_event_def
        has_key_update new_outbox_event_def del: tick_simps(11))
  obtain y where y: "interactive E ?body ?w = (Inr (), y)" "db y = db x"
    using interactive_calm [where m = ?body, OF assms(1) body] by simp
  have run: "join_org E c token w = (Inr (Sent 200 ()), y)"
    using assms(2-4) y(1)
    by (simp add: join_org_def org_fail_def act_simps calm_runs [OF assms(1)] now_def)
  have "map_option user_orgId (find_user ?u (db y)) = Some (Some ?i)"
    using user x y(2) by (auto simp: find_changed_user has_key_find)
  with run x y(2) e show ?thesis by (auto simp: set_update_rows)
qed

lemma join_effects_witness:
  "\<exists>w' m e. join_org calm_env (caller_claims ''bob'') ''tok'' (example_world shop) = (Inr (Sent 200 ()), w') \<and>
     orgMembers (db w') = orgMembers shop @ [m] \<and> mem_orgRole m = ORG_ADMIN \<and>
     coreOutbox (db w') = coreOutbox shop @ [e] \<and> ob_payload e = OrgMemberJoined ''bob'' ''o1'' ORG_ADMIN"
proof -
  let ?v = "hd (orgInvites shop)"
  have pre: "find (\<lambda>v. inv_token v = ''tok'') (orgInvites shop) = Some ?v" "inv_status ?v = PENDING"
      "1000 + int 0 \<le> inv_expiresAt ?v" "has_user shop ''bob''" "find_member ''bob'' ''o1'' shop = None" by code_simp+
  have v: "inv_orgId ?v = ''o1''" "inv_orgRole ?v = ORG_ADMIN" "caller_id (caller_claims ''bob'') = ''bob''"
    by code_simp+
  note j = join_effects [of calm_env "''tok''" "example_world shop" ?v "caller_claims ''bob''",
    unfolded v example_world_sel calm_env_sel, OF calm_calm_env pre(1-4) shop_constraints pre(5)]
  from j show ?thesis by blast
qed

section \<open>Progress reports\<close>

lemma le_div: "0 < b \<Longrightarrow> k \<le> (a :: int) div b \<longleftrightarrow> k * b \<le> a"
proof
  assume b: "0 < b" and "k \<le> a div b"
  then have "k * b \<le> a div b * b" by (intro mult_right_mono) simp_all
  also have "\<dots> \<le> a" using b div_mult_mod_eq [of a b] pos_mod_sign [of b a] by linarith
  finally show "k * b \<le> a" .
next
  assume b: "0 < b" and "k * b \<le> a"
  then have "k * b div b \<le> a div b" by (intro zdiv_mono1) simp_all
  then show "k \<le> a div b" using b by simp
qed

lemma percentage_at_least: "0 < n \<Longrightarrow> k \<le> percentage_of c n \<longleftrightarrow> (2 * k - 1) * int n \<le> 200 * int c"
  by (simp add: percentage_of_def round_div_def le_div algebra_simps)

text \<open>
  The report of a path shows a percentage between 0 and 100. A path counts as completed exactly
  if at least 199 of each 200 of its challenges are, so that a path of 200 or more is reported as
  completed with one of them missing, and as not started exactly if fewer than one in 200 is.
\<close>

lemma path_progress_bounds:
  "let q = progress_of d u p; n = pp_totalChallenges q; c = pp_completedChallenges q in
   c \<le> n \<and> 0 \<le> pp_percentage q \<and> pp_percentage q \<le> 100 \<and>
   (pp_status q = PATH_COMPLETED \<longleftrightarrow> 0 < n \<and> 199 * n \<le> 200 * c) \<and>
   (pp_status q = NOT_STARTED \<longleftrightarrow> n = 0 \<or> 200 * c < n)"
proof -
  define n c where "n = pp_totalChallenges (progress_of d u p)" and "c = pp_completedChallenges (progress_of d u p)"
  have q: "pp_percentage (progress_of d u p) = percentage_of c n"
    "pp_status (progress_of d u p) = (if percentage_of c n = 100 then PATH_COMPLETED
       else if percentage_of c n > 0 then IN_PROGRESS else NOT_STARTED)"
    by (simp_all add: n_def c_def progress_of_def Let_def)
  have cn: "c \<le> n" by (simp add: n_def c_def progress_of_def Let_def count_rows_def)
  show ?thesis
  proof (cases "n = 0")
    case True
    with cn q show ?thesis by (simp add: Let_def percentage_of_def flip: n_def c_def)
  next
    case False
    then have at: "k \<le> percentage_of c n \<longleftrightarrow> (2 * k - 1) * int n \<le> 200 * int c" for k
      using percentage_at_least [of n k c] by simp
    have "0 \<le> percentage_of c n" "\<not> 101 \<le> percentage_of c n"
      "100 \<le> percentage_of c n \<longleftrightarrow> 199 * int n \<le> 200 * int c"
      "1 \<le> percentage_of c n \<longleftrightarrow> int n \<le> 200 * int c"
      unfolding at using cn False by auto
    with False cn q show ?thesis by (auto simp: Let_def simp flip: n_def c_def)
  qed
qed

section \<open>The compliance report can be read back\<close>

text \<open>A reader of RFC 4180 lines: a quoted cell ends at a quote that is not doubled.\<close>

fun quoted :: "string \<Rightarrow> string \<times> string" where
  "quoted [] = ([], [])"
| "quoted [ch] = (if ch = quote then [] else [ch], [])"
| "quoted (ch # x # cs) =
     (if ch \<noteq> quote then map_prod ((#) ch) id (quoted (x # cs))
      else if x = quote then map_prod ((#) quote) id (quoted cs)
      else ([], x # cs))"

lemma quoted_shorter: "length (snd (quoted s)) \<le> length s"
  by (induction s rule: quoted.induct) auto

lemma quoted_simps:
  "ch \<noteq> quote \<Longrightarrow> quoted (ch # cs) = map_prod ((#) ch) id (quoted cs)"
  "quoted (quote # quote # cs) = map_prod ((#) quote) id (quoted cs)"
  "rest = [] \<or> hd rest \<noteq> quote \<Longrightarrow> quoted (quote # rest) = ([], rest)"
  by (cases cs; simp) (cases rest; simp)+

text \<open>
  A reader of a whole file: cells are separated by commas, lines by a carriage return and a line feed; a cell
  that does not begin with a quote ends before one of these.
\<close>

definition stops :: "char \<Rightarrow> bool" where
  "stops ch \<longleftrightarrow> ch = CHR '','' \<or> ch = CHR 0x0D"

function records :: "string \<Rightarrow> string list list" where
  "records s =
     (let (a, r) = (if s \<noteq> [] \<and> hd s = quote then quoted (tl s)
                    else (takeWhile (\<lambda>ch. \<not> stops ch) s, dropWhile (\<lambda>ch. \<not> stops ch) s))
      in case r of
           [] \<Rightarrow> [[a]]
         | x # xs \<Rightarrow>
             if x = CHR '','' then (case records xs of [] \<Rightarrow> [[a]] | line # lines \<Rightarrow> (a # line) # lines)
             else [a] # records (drop 1 xs))"
  by pat_completeness auto

termination
proof -
  have shorter: "length xs < length s"
    if p: "p = (if s \<noteq> [] \<and> hd s = quote then quoted (tl s)
        else (takeWhile (\<lambda>ch. \<not> stops ch) s, dropWhile (\<lambda>ch. \<not> stops ch) s))" "(a, r) = p" "r = x # xs"
    for s p a r x and xs :: string
  proof -
    from p have "length r \<le> length s"
      using quoted_shorter [of "tl s"] length_dropWhile_le [of "\<lambda>ch. \<not> stops ch" s]
      by (auto simp: prod_eq_iff split: if_splits)
    with p(3) show ?thesis by simp
  qed
  then have "length (drop 1 xs) < length s"
    if "p = (if s \<noteq> [] \<and> hd s = quote then quoted (tl s)
        else (takeWhile (\<lambda>ch. \<not> stops ch) s, dropWhile (\<lambda>ch. \<not> stops ch) s))" "(a, r) = p" "r = x # xs"
    for s p a r x and xs :: string
    using that by (metis length_drop diff_le_self le_less_trans)
  with shorter show ?thesis by (relation "measure length") simp_all
qed

declare records.simps [simp del]

lemma double_quotes_simps [simp]:
  "double_quotes [] = []"
  "double_quotes (ch # s) = (if ch = quote then [quote, quote] else [ch]) @ double_quotes s"
  by (simp_all add: double_quotes_def)

lemma double_quotes_id: "quote \<notin> set s \<Longrightarrow> double_quotes s = s"
  by (induction s) auto

lemma quoted_back: "rest = [] \<or> hd rest \<noteq> quote \<Longrightarrow> quoted (double_quotes s @ quote # rest) = (s, rest)"
  by (induction s) (simp_all add: quoted_simps del: quoted.simps)

text \<open>A cell as it is written, and what is read from it.\<close>

datatype cell = Quoted string | Bare string

fun render :: "cell \<Rightarrow> string" where
  "render (Quoted s) = quoted_cell (double_quotes s)"
| "render (Bare s) = s"

fun content :: "cell \<Rightarrow> string" where
  "content (Quoted s) = s"
| "content (Bare s) = s"

fun plain :: "cell \<Rightarrow> bool" where
  "plain (Quoted s) = True"
| "plain (Bare s) = (quote \<notin> set s \<and> list_all (\<lambda>ch. \<not> stops ch) s)"

lemma stops_not_quote: "stops ch \<Longrightarrow> ch \<noteq> quote"
  by (auto simp: stops_def quote_def)

text \<open>The first cell, followed by nothing, by another cell or by another line.\<close>

lemma records_render:
  assumes "plain x" and "rest = [] \<or> stops (hd rest)"
  shows "records (render x @ rest) = (case rest of
      [] \<Rightarrow> [[content x]]
    | ch # s \<Rightarrow> if ch = CHR '','' then (case records s of [] \<Rightarrow> [[content x]] | line # lines \<Rightarrow> (content x # line) # lines)
        else [content x] # records (drop 1 s))"
proof (cases x)
  case (Quoted s)
  with assms(2) have "quoted (double_quotes s @ quote # rest) = (s, rest)"
    by (intro quoted_back) (auto dest: stops_not_quote)
  with Quoted show ?thesis
    by (subst records.simps) (simp add: quoted_cell_def split: list.split)
next
  case (Bare s)
  with assms(1) have s: "\<forall>ch \<in> set s. \<not> stops ch" "s = [] \<or> hd s \<noteq> quote"
    by (auto simp: list_all_iff dest: hd_in_set)
  have "takeWhile (\<lambda>ch. \<not> stops ch) rest = []" "dropWhile (\<lambda>ch. \<not> stops ch) rest = rest"
    using assms(2) by (cases rest; simp)+
  then have "takeWhile (\<lambda>ch. \<not> stops ch) (s @ rest) = s" "dropWhile (\<lambda>ch. \<not> stops ch) (s @ rest) = rest"
    using takeWhile_append2 [of s "\<lambda>ch. \<not> stops ch" rest] dropWhile_append2 [of s "\<lambda>ch. \<not> stops ch" rest] s(1)
    by simp_all
  moreover have "\<not> (s @ rest \<noteq> [] \<and> hd (s @ rest) = quote)"
    using s(2) assms(2) by (cases s; cases rest) (auto dest: stops_not_quote)
  ultimately show ?thesis using Bare by (subst records.simps) (auto split: list.split)
qed

abbreviation csv_line :: "cell list \<Rightarrow> string" where
  "csv_line xs \<equiv> join_with '','' (map render xs)"

lemma comma_stops [simp]: "stops (CHR '','')" "stops (CHR 0x0D)"
  by (simp_all add: stops_def)

lemma records_line:
  assumes "xs \<noteq> []" and "list_all plain xs" and "rest = [] \<or> (\<exists>s. rest = CHR 0x0D # CHR 0x0A # s)"
  shows "records (csv_line xs @ rest) = map content xs # (case rest of [] \<Rightarrow> [] | _ \<Rightarrow> records (drop 2 rest))"
  using assms(1,2)
proof (induction xs)
  case (Cons x xs)
  show ?case
  proof (cases "xs = []")
    case True
    with Cons.prems assms(3) records_render [of x rest] records_render [of x "[]"] show ?thesis by auto
  next
    case False
    with Cons have "records (csv_line xs @ rest) = map content xs # (case rest of [] \<Rightarrow> [] | _ \<Rightarrow> records (drop 2 rest))" by simp
    with False Cons.prems records_render [of x "CHR '','' # csv_line xs @ rest"] show ?thesis by simp
  qed
qed simp

abbreviation line_end :: string where
  "line_end \<equiv> [CHR 0x0D, CHR 0x0A]"

lemma records_file:
  assumes "rows \<noteq> []" and "list_all (\<lambda>xs. xs \<noteq> [] \<and> list_all plain xs) rows"
  shows "records (join_with line_end (map csv_line rows)) = map (map content) rows"
  using assms
proof (induction rows)
  case (Cons xs rows)
  then show ?case
    using records_line [of xs "[]"] records_line [of xs "line_end @ join_with line_end (map csv_line rows)"]
    by (cases "rows = []") auto
qed simp

lemma show_int_chars: "ch \<in> set (show_int n) \<Longrightarrow> is_digit ch \<or> ch = CHR ''-''"
  using show_nat_digits [of "nat n"] show_nat_digits [of "nat (- n)"] by (auto simp: show_int_def split: if_splits)

lemma digits_plain: "is_digit ch \<or> ch = CHR ''-'' \<Longrightarrow> ch \<noteq> quote \<and> \<not> stops ch"
  by (auto simp: is_digit_def quote_def stops_def)

lemma show_int_plain: "plain (Bare (show_int n))"
  using show_int_chars digits_plain by (fastforce simp: list_all_iff)

lemma names_unquoted: "quote \<notin> set (org_role_name x)" "quote \<notin> set (node_type_name y)" "quote \<notin> set (toISOString t)"
proof -
  have pad: "quote \<notin> set (pad n k)" for n k
    using show_int_chars [of quote k] digits_plain [of quote] by (auto simp: pad_def Let_def quote_def is_digit_def)
  show "quote \<notin> set (org_role_name x)" "quote \<notin> set (node_type_name y)" "quote \<notin> set (toISOString t)"
    using pad by (cases x; cases y; simp add: toISOString_def Let_def quote_def)+
qed

text \<open>
  What the report says: a line for each member without completions, and otherwise one for each completed unit
  that there is.
\<close>

definition report_line :: "org option \<Rightarrow> org_member \<Rightarrow> user \<Rightarrow> string \<Rightarrow> string \<Rightarrow> string \<Rightarrow> string list" where
  "report_line r m u title ty at =
     [js_or (map_option org_name r) ''Org'', js_or (user_name u) [], user_email u,
      js_or (user_jobTitle u) ''Engineer'', org_role_name (mem_orgRole m), show_int (user_xp u), title, ty, at]"

definition report :: "string \<Rightarrow> db \<Rightarrow> string list list" where
  "report i d = concat (map (\<lambda>(m, u).
     let own = filter (\<lambda>x. co_userId x = user_id u) (completions d) in
     if own = [] then [report_line (find_org i d) m u ''None'' ''N/A'' ''N/A'']
     else List.map_filter (\<lambda>x. map_option (\<lambda>n. report_line (find_org i d) m u (nd_title n) (node_type_name (nd_type n))
         (toISOString (co_createdAt x))) (find (\<lambda>n. nd_id n = co_nodeId x) (nodes d))) own)
     (members_with_user i d))"

text \<open>No quote stands where the report does not escape one.\<close>

definition unquoted :: "db \<Rightarrow> bool" where
  "unquoted d \<longleftrightarrow> (\<forall>r \<in> set (orgs d). quote \<notin> set (org_name r)) \<and>
     (\<forall>u \<in> set (users d). quote \<notin> set (user_email u) \<and>
        (\<forall>s \<in> set_option (user_name u) \<union> set_option (user_jobTitle u). quote \<notin> set s))"

fun cell_row :: "string list \<Rightarrow> cell list" where
  "cell_row [a, b, c, d, e, x, t, y, at] =
     [Quoted a, Quoted b, Quoted c, Quoted d, Quoted e, Bare x, Quoted t, Quoted y, Quoted at]"
| "cell_row _ = []"

lemma csv_row_cells:
  assumes "unquoted d" and "u \<in> set (users d)" and "quote \<notin> set ty" and "quote \<notin> set at"
  shows "csv_row (find_org i d) m u (double_quotes title, ty, at) =
    map render (cell_row (report_line (find_org i d) m u title ty at))"
proof -
  have "quote \<notin> set (js_or (map_option org_name (find_org i d)) ''Org'')"
    using assms(1) by (cases "find_org i d") (auto simp: unquoted_def quote_def dest: find_in)
  moreover have user: "quote \<notin> set (user_email u)" "\<And>s. user_name u = Some s \<Longrightarrow> quote \<notin> set s"
      "\<And>s. user_jobTitle u = Some s \<Longrightarrow> quote \<notin> set s"
    using assms(1,2) by (auto simp: unquoted_def)
  moreover have "quote \<notin> set (js_or (user_name u) [])" using user(2) by (cases "user_name u") auto
  moreover have "quote \<notin> set (js_or (user_jobTitle u) ''Engineer'')"
    using user(3) by (cases "user_jobTitle u") (auto simp: quote_def)
  ultimately show ?thesis
    using assms(3,4) names_unquoted by (simp add: csv_row_def report_line_def double_quotes_id del: js_or.simps)
qed

lemma member_known: "(m, u) \<in> set (members_with_user i d) \<Longrightarrow> u \<in> set (users d)"
  by (auto simp: members_with_user_def map_filter_def dest: find_in)

lemma rows_are_cells:
  assumes "unquoted d"
  shows "csv_rows (find_org i d) (members_with_user i d) d = map (map render \<circ> cell_row) (report i d)"
proof -
  have one: "(if filter (\<lambda>x. co_userId x = user_id u) (completions d) = []
       then [csv_row (find_org i d) m u (''None'', ''N/A'', ''N/A'')]
       else map (csv_row (find_org i d) m u) (completed_units d (user_id u))) =
     map (map render \<circ> cell_row) (let own = filter (\<lambda>x. co_userId x = user_id u) (completions d) in
     if own = [] then [report_line (find_org i d) m u ''None'' ''N/A'' ''N/A'']
     else List.map_filter (\<lambda>x. map_option (\<lambda>n. report_line (find_org i d) m u (nd_title n) (node_type_name (nd_type n))
         (toISOString (co_createdAt x))) (find (\<lambda>n. nd_id n = co_nodeId x) (nodes d))) own)"
    if "u \<in> set (users d)" for m u
  proof -
    note row = csv_row_cells [OF assms that]
    have none: "csv_row (find_org i d) m u (''None'', ''N/A'', ''N/A'') =
        map render (cell_row (report_line (find_org i d) m u ''None'' ''N/A'' ''N/A''))"
      using row [of "''N/A''" "''N/A''" i m "''None''"] by (simp add: quote_def double_quotes_id del: cell_row.simps)
    have "map (csv_row (find_org i d) m u) (List.map_filter (\<lambda>r. map_option (\<lambda>n.
         (double_quotes (nd_title n), node_type_name (nd_type n), toISOString (co_createdAt r)))
           (find (\<lambda>n. nd_id n = co_nodeId r) (nodes d))) own) =
       map (map render \<circ> cell_row) (List.map_filter (\<lambda>x. map_option (\<lambda>n. report_line (find_org i d) m u (nd_title n)
         (node_type_name (nd_type n)) (toISOString (co_createdAt x))) (find (\<lambda>n. nd_id n = co_nodeId x) (nodes d))) own)" for own :: "completion list"
      by (induction own) (auto simp: List.map_filter_simps row names_unquoted split: option.split)
    with none show ?thesis by (simp add: completed_units_def Let_def)
  qed
  show ?thesis
    unfolding csv_rows_def report_def map_concat map_map
    by (intro arg_cong [where f = concat] map_cong refl, clarify)
      (simp only: comp_apply [of "map (map render \<circ> cell_row)"] prod.case one [OF member_known])
qed

lemma report_rows_plain: "list_all (\<lambda>xs. xs \<noteq> [] \<and> list_all plain xs) (map cell_row (report i d))"
proof -
  have "\<exists>m u t y at. line = report_line (find_org i d) m u t y at" if "line \<in> set (report i d)" for line
    using that by (auto simp: report_def Let_def map_filter_def split: if_splits; blast)
  then have "cell_row line \<noteq> [] \<and> list_all plain (cell_row line)" if "line \<in> set (report i d)" for line
    using that show_int_plain unfolding report_line_def by fastforce
  then show ?thesis by (simp add: list_all_iff)
qed

lemma content_row: "line \<in> set (report i d) \<Longrightarrow> map content (cell_row line) = line"
  by (auto simp: report_def report_line_def Let_def map_filter_def split: if_splits)

lemma headers_bare: "map render (map Bare csv_headers) = csv_headers" "list_all plain (map Bare csv_headers)"
  by (simp_all add: csv_headers_def quote_def stops_def)

lemma export_text:
  "db_post (compliance_export E c orgId) d (\<lambda>r d'. \<forall>text. r = Inr (Sent 200 text) \<longrightarrow>
     (\<exists>i. org_meant (Some (caller_id c)) orgId d = Some i \<and>
       text = join_with line_end (map (join_with '','') (csv_headers # csv_rows (find_org i d) (members_with_user i d) d))))"
  unfolding compliance_export_def
  by (rule post_in_org) (auto simp: org_fail_def intro!: post_rules)

text \<open>
  C33. Read by the rules of RFC 4180, the compliance report that an administrator downloads says for the organization that
  was asked for, after the headings, a line for each member without completions and one for each completed
  unit of the others, with the values of the database: also the titles of units that contain quotes, commas
  or line breaks. The condition is that no quote stands in the name of an organization or in the name, the address
  or the job of a user, which the report does not escape.
\<close>

theorem compliance_export_roundtrip:
  assumes "compliance_export E c orgId w = (Inr (Sent 200 csv), w')" and "unquoted (db w)"
  shows "\<exists>i. org_meant (Some (caller_id c)) orgId (db w) = Some i \<and> records csv = csv_headers # report i (db w)"
proof -
  from db_postD [OF export_text assms(1) refl] obtain i where i: "org_meant (Some (caller_id c)) orgId (db w) = Some i"
    and csv: "csv = join_with line_end (map (join_with '','')
      (csv_headers # csv_rows (find_org i (db w)) (members_with_user i (db w)) (db w)))" by auto
  let ?rows = "map Bare csv_headers # map cell_row (report i (db w))"
  have "map (join_with '','') (map (map render \<circ> cell_row) rs) = map csv_line (map cell_row rs)" for rs
    by (simp add: comp_def)
  then have "csv = join_with line_end (map csv_line ?rows)"
    unfolding csv rows_are_cells [OF assms(2)] by (simp only: list.map headers_bare(1))
  moreover have "records (join_with line_end (map csv_line ?rows)) = map (map content) ?rows"
    by (rule records_file) (use headers_bare(2) report_rows_plain in \<open>auto simp: csv_headers_def\<close>)
  moreover have "map (map content) ?rows = csv_headers # report i (db w)"
    using content_row by (auto simp: comp_def intro: map_idI)
  ultimately show ?thesis using i by auto
qed

text \<open>The same, where ann has completed a unit whose title holds quotes and a comma.\<close>

definition quoting_shop :: db where
  "quoting_shop = shop\<lparr>
     nodes := [\<lparr>nd_id = ''n1'', nd_type = QUIZ, nd_title = ''Say '' @ [quote] @ ''hi'' @ [quote] @ '', twice'',
       nd_description = ''D'', nd_metadata = NoMetadata\<rparr>],
     completions := [\<lparr>co_userId = ''ann'', co_nodeId = ''n1'', co_createdAt = 0\<rparr>]\<rparr>"

lemma compliance_export_roundtrip_witness:
  "\<exists>csv w'. compliance_export calm_env (caller_claims ''ann'') ''me'' (example_world quoting_shop) = (Inr (Sent 200 csv), w') \<and>
     records csv = [csv_headers, [''Shop'', [], ''ann@x.io'', ''Engineer'', ''OWNER'', ''0'',
       ''Say '' @ [quote] @ ''hi'' @ [quote] @ '', twice'', ''QUIZ'', ''1970-01-01T00:00:00.000Z'']]"
proof -
  let ?run = "compliance_export calm_env (caller_claims ''ann'') ''me'' (example_world quoting_shop)"
  have "(case fst ?run of Inr (Sent k _) \<Rightarrow> k = 200 | _ \<Rightarrow> False) = True" by code_simp
  then obtain csv where "?run = (Inr (Sent 200 csv), snd ?run)"
    by (cases ?run) (auto split: sum.splits response.splits)
  moreover have "unquoted (db (example_world quoting_shop))" by code_simp
  moreover have "org_meant (Some (caller_id (caller_claims ''ann''))) ''me'' quoting_shop = Some ''o1''" by code_simp
  moreover have "report ''o1'' quoting_shop = [[''Shop'', [], ''ann@x.io'', ''Engineer'', ''OWNER'', ''0'',
       ''Say '' @ [quote] @ ''hi'' @ [quote] @ '', twice'', ''QUIZ'', ''1970-01-01T00:00:00.000Z'']]" by code_simp
  ultimately show ?thesis
    using compliance_export_roundtrip [of calm_env "caller_claims ''ann''" "''me''" "example_world quoting_shop"] by fastforce
qed

end
