(* ===== verification/Curriculum.thy ===== *)
theory Curriculum
  imports Orgs Social Progress
begin

text \<open>
  What a learner works through: the graph of nodes and their prerequisites
  (\<open>services/core/src/modules/content/node.routes.ts\<close>), the quizzes (\<open>content/quiz.routes.ts\<close>) and the
  roadmaps (\<open>content/roadmap.routes.ts\<close>). An edge goes from a node to its prerequisite.
\<close>

datatype learn_error =
    NodeNotFound | QuizNotFound | MissingFields | MalformedQuiz | LearnerUnknown | RoadmapNotFound
  | LearnFailure

type_synonym 'b learn = "(learn_error, 'b) response"

definition learn_fail :: "('r world, 'b learn) act \<Rightarrow> ('r world, 'b learn) act" where
  "learn_fail m = catch m (\<lambda>_. ret (Denied 500 LearnFailure))"

abbreviation find_node :: "string \<Rightarrow> db \<Rightarrow> node option" where
  "find_node i d \<equiv> find (\<lambda>n. nd_id n = i) (nodes d)"

section \<open>The graph of nodes\<close>

definition get_node :: "'r env \<Rightarrow> string \<Rightarrow> ('r world, node learn) act" where
  "get_node E i = learn_fail (
     bnd (query E (find_node i)) (\<lambda>found.
     case found of None \<Rightarrow> ret (Denied 404 NodeNotFound) | Some n \<Rightarrow> ret (Sent 200 n)))"

definition node_parents :: "'r env \<Rightarrow> string \<Rightarrow> ('r world, node list learn) act" where
  "node_parents E i = learn_fail (
     bnd (query E (\<lambda>d. List.map_filter (\<lambda>e. find_node (ed_toId e) d) (filter (\<lambda>e. ed_fromId e = i) (edges d)))) (\<lambda>ns.
     ret (Sent 200 ns)))"

definition node_children :: "'r env \<Rightarrow> string \<Rightarrow> ('r world, node list learn) act" where
  "node_children E i = learn_fail (
     bnd (query E (\<lambda>d. List.map_filter (\<lambda>e. find_node (ed_fromId e) d) (filter (\<lambda>e. ed_toId e = i) (edges d)))) (\<lambda>ns.
     ret (Sent 200 ns)))"

text \<open>
  \<open>WITH RECURSIVE \<dots> UNION\<close>: the rows found in the last round are joined with the edges, and what is
  not among the rows found so far is the next round.
\<close>

function walk :: "edge list \<Rightarrow> string list \<Rightarrow> string list \<Rightarrow> string list" where
  "walk es found work =
     (if work = [] then found
      else let more = remdups (map ed_toId (filter (\<lambda>e. ed_fromId e \<in> set work \<and> ed_toId e \<notin> set found) es))
           in walk es (found @ more) more)"
  by pat_completeness auto

termination
proof (relation "measures [\<lambda>(es, found, work). card (ed_toId ` set es - set found), \<lambda>(es, found, work). length work]")
  fix es :: "edge list" and found work more :: "string list"
  assume work: "work \<noteq> []"
    and more: "more = remdups (map ed_toId (filter (\<lambda>e. ed_fromId e \<in> set work \<and> ed_toId e \<notin> set found) es))"
  show "((es, found @ more, more), (es, found, work)) \<in>
      measures [\<lambda>(es, found, work). card (ed_toId ` set es - set found), \<lambda>(es, found, work). length work]"
  proof (cases "more = []")
    case True
    with work show ?thesis by simp
  next
    case False
    then obtain x where "x \<in> set more" by (cases more) auto
    then have "x \<in> ed_toId ` set es - set found" "x \<in> set (found @ more)" using more by auto
    then have "ed_toId ` set es - set (found @ more) \<subset> ed_toId ` set es - set found" by auto
    then have "card (ed_toId ` set es - set (found @ more)) < card (ed_toId ` set es - set found)"
      by (rule psubset_card_mono [rotated]) simp
    then show ?thesis by simp
  qed
qed simp

declare walk.simps [simp del]

definition ancestor_ids :: "string \<Rightarrow> db \<Rightarrow> string list" where
  "ancestor_ids i d = (let first = remdups (map ed_toId (filter (\<lambda>e. ed_fromId e = i) (edges d)))
     in walk (edges d) first first)"

definition node_ancestors :: "'r env \<Rightarrow> string \<Rightarrow> ('r world, node list learn) act" where
  "node_ancestors E i = learn_fail (
     bnd (query E (\<lambda>d. filter (\<lambda>n. nd_id n \<in> set (ancestor_ids i d)) (nodes d))) (\<lambda>ns.
     ret (Sent 200 ns)))"

text \<open>Nodes that are not completed and whose prerequisites all are.\<close>

definition frontier :: "'r env \<Rightarrow> string \<Rightarrow> ('r world, node list learn) act" where
  "frontier E userId = learn_fail (
     bnd (query E (\<lambda>d. map co_nodeId (filter (\<lambda>c. co_userId c = userId) (completions d)))) (\<lambda>completed.
     bnd (query E (\<lambda>d. map (\<lambda>n. (n, map ed_toId (filter (\<lambda>e. ed_fromId e = nd_id n) (edges d))))
       (filter (\<lambda>n. nd_id n \<notin> set completed) (nodes d)))) (\<lambda>candidates.
     ret (Sent 200 (map fst (filter (\<lambda>(n, outgoing). list_all (\<lambda>i. i \<in> set completed) outgoing) candidates))))))"

section \<open>Quizzes\<close>

text \<open>A question without its \<open>correctIndex\<close>, and a quiz node with the questions it shows, if it has any.\<close>

record question_view =
  qv_id :: string
  qv_question :: "string option"
  qv_text :: "string option"
  qv_options :: "string list"
  qv_explanation :: "string option"

record quiz_view =
  vq_id :: string
  vq_title :: string
  vq_description :: string
  vq_metadata :: node_metadata
  vq_questions :: "question_view list option"

definition hide_answer :: "question \<Rightarrow> question_view" where
  "hide_answer q = \<lparr>qv_id = q_id q, qv_question = q_question q, qv_text = q_text q, qv_options = q_options q,
     qv_explanation = q_explanation q\<rparr>"

definition stripAnswers :: "node \<Rightarrow> quiz_view" where
  "stripAnswers quiz = \<lparr>vq_id = nd_id quiz, vq_title = nd_title quiz, vq_description = nd_description quiz,
     vq_metadata = (case nd_metadata quiz of
         QuizMetadata m \<Rightarrow> QuizMetadata (m\<lparr>qm_questions := None\<rparr>) | m \<Rightarrow> m),
     vq_questions = (case nd_metadata quiz of
         QuizMetadata m \<Rightarrow> map_option (map hide_answer) (qm_questions m) | _ \<Rightarrow> None)\<rparr>"

definition list_quizzes :: "'r env \<Rightarrow> ('r world, quiz_view list learn) act" where
  "list_quizzes E = learn_fail (
     bnd (query E (\<lambda>d. filter (\<lambda>n. nd_type n = QUIZ) (nodes d))) (\<lambda>quizzes.
     ret (Sent 200 (map stripAnswers quizzes))))"

definition get_quiz :: "'r env \<Rightarrow> string \<Rightarrow> ('r world, quiz_view learn) act" where
  "get_quiz E i = learn_fail (
     bnd (query E (\<lambda>d. find (\<lambda>n. nd_id n = i \<and> nd_type n = QUIZ) (nodes d))) (\<lambda>quiz.
     case quiz of None \<Rightarrow> ret (Denied 404 QuizNotFound) | Some q \<Rightarrow> ret (Sent 200 (stripAnswers q))))"

text \<open>The first quiz with this identifier or this slug in its metadata.\<close>

definition quiz_slug :: "node \<Rightarrow> string option" where
  "quiz_slug n = (case nd_metadata n of QuizMetadata m \<Rightarrow> qm_slug m | _ \<Rightarrow> None)"

definition quiz_named :: "string \<Rightarrow> db \<Rightarrow> node option" where
  "quiz_named i d = find (\<lambda>n. (nd_id n = i \<or> quiz_slug n = Some i) \<and> nd_type n = QUIZ) (nodes d)"

record question_result =
  qr_questionId :: string
  qr_correct :: bool
  qr_correctIndex :: int
  qr_explanation :: "string option"

record quiz_result =
  qz_passed :: bool
  qz_score :: nat
  qz_total :: nat
  qz_results :: "question_result list"

text \<open>
  The answers are a JSON object, here a list of its entries. \<open>correctCount / total >= 0.7\<close>
  holds for the rounded quotient exactly if it holds of the fraction, as long as the total is far
  below two to the fifty.
\<close>

definition mark_question :: "(string \<times> int) list \<Rightarrow> question \<Rightarrow> question_result" where
  "mark_question answers q = \<lparr>qr_questionId = q_id q,
     qr_correct = (map_of answers (q_id q) = Some (q_correctIndex q)),
     qr_correctIndex = q_correctIndex q, qr_explanation = q_explanation q\<rparr>"

definition grade :: "(string \<times> int) list \<Rightarrow> question list \<Rightarrow> quiz_result" where
  "grade answers questions =
     (let results = map (mark_question answers) questions;
          correctCount = count_rows qr_correct results;
          n = length questions
      in \<lparr>qz_passed = (n > 0 \<and> 10 * correctCount \<ge> 7 * n), qz_score = correctCount, qz_total = n,
          qz_results = results\<rparr>)"

definition insert_attempt ::
  "string \<Rightarrow> string \<Rightarrow> (string \<times> int) list \<Rightarrow> quiz_result \<Rightarrow> int \<Rightarrow> db \<Rightarrow> (exn + unit) \<times> db" where
  "insert_attempt u i answers g t d = guarded
     [(ForeignKeyViolation, \<not> has_user d u), (ForeignKeyViolation, \<not> has_key nd_id i (nodes d))]
     (d\<lparr>quizAttempts := quizAttempts d @ [\<lparr>qa_userId = u, qa_nodeId = i, qa_score = int (qz_score g),
        qa_total = int (qz_total g), qa_passed = qz_passed g, qa_answers = answers, qa_createdAt = t\<rparr>]\<rparr>) d"

text \<open>The user is the one of a valid token, or else the one that the body names.\<close>

definition submit_quiz ::
  "'r env \<Rightarrow> string option \<Rightarrow> string option \<Rightarrow> (string \<times> int) list option \<Rightarrow> string \<Rightarrow>
   ('r world, quiz_result learn) act" where
  "submit_quiz E tokenUser bodyUser answers i =
     (let user = (if truthy tokenUser then tokenUser else bodyUser) in
      if \<not> truthy user \<or> answers = None then ret (Denied 400 MissingFields)
      else learn_fail (
        bnd (query E (quiz_named i)) (\<lambda>found.
        case found of
          None \<Rightarrow> ret (Denied 404 QuizNotFound)
        | Some quiz \<Rightarrow>
            (case nd_metadata quiz of
               QuizMetadata m \<Rightarrow>
                 (case qm_questions m of
                    None \<Rightarrow> ret (Denied 500 MalformedQuiz)
                  | Some questions \<Rightarrow>
                      (let g = grade (the answers) questions in
                       sq (catch (run_db_at E (insert_attempt (the user) (nd_id quiz) (the answers) g)) (\<lambda>_. ret ())) (
                       sq (when_act (qz_passed g) (run_db_at E (upsert_completion (the user) (nd_id quiz))))
                       (ret (Sent 200 g)))))
             | _ \<Rightarrow> ret (Denied 500 MalformedQuiz)))))"

text \<open>The attempts of a user, the latest first, each with the quiz it belongs to.\<close>

definition attempts_of :: "(quiz_attempt \<Rightarrow> bool) \<Rightarrow> db \<Rightarrow> quiz_attempt list" where
  "attempts_of P d = sort_key (\<lambda>a. - qa_createdAt a) (filter P (quizAttempts d))"

definition my_quiz_history :: "'r env \<Rightarrow> string option \<Rightarrow> ('r world, (quiz_attempt \<times> string) list learn) act" where
  "my_quiz_history E caller =
     (if \<not> truthy caller then ret (Denied 401 LearnerUnknown)
      else learn_fail (
        bnd (query E (\<lambda>d. List.map_filter (\<lambda>a. map_option (\<lambda>n. (a, nd_title n)) (find_node (qa_nodeId a) d))
          (take 20 (attempts_of (\<lambda>a. qa_userId a = the caller) d)))) (\<lambda>attempts.
        ret (Sent 200 attempts))))"

definition quiz_history ::
  "'r env \<Rightarrow> string option \<Rightarrow> string \<Rightarrow> ('r world, (string \<times> string \<times> quiz_attempt list) learn) act" where
  "quiz_history E caller i =
     (if \<not> truthy caller then ret (Denied 401 LearnerUnknown)
      else learn_fail (
        bnd (query E (quiz_named i)) (\<lambda>found.
        case found of
          None \<Rightarrow> ret (Denied 404 QuizNotFound)
        | Some quiz \<Rightarrow>
            bnd (query E (attempts_of (\<lambda>a. qa_userId a = the caller \<and> qa_nodeId a = nd_id quiz))) (\<lambda>attempts.
            ret (Sent 200 (nd_id quiz, nd_title quiz, attempts))))))"

section \<open>The editorial of a quiz\<close>

definition nl :: string where "nl = [CHR 0x0A]"

definition question_section :: "nat \<Rightarrow> question \<Rightarrow> string" where
  "question_section k q = join_with nl
     [''### Question '' @ show_nat (k + 1) @ '': '' @
        js_or (q_question q) (case q_text q of None \<Rightarrow> ''undefined'' | Some s \<Rightarrow> s),
      ''- **Correct Concept**: '' @ js_or (q_explanation q)
        ''Understanding the architectural lifecycle and command behavior is essential.'',
      ''- **Production Takeaway**: Avoid manual workarounds; rely on deterministic, automated infrastructure patterns.'']"

definition default_editorial :: "string \<Rightarrow> question list \<Rightarrow> string" where
  "default_editorial title questions = join_with nl
     [''# Editorial & Deep Dive: '' @ title, [],
      ''## Conceptual Overview'',
      ''This assessment tests core proficiency in **'' @ title @
        ''**. Mastery of these concepts is critical for production reliability, container orchestration, and rapid incident triage.'',
      [],
      ''## Question-by-Question Deep Dive'',
      join_with (nl @ nl) (map (\<lambda>(k, q). question_section k q) (enumerate 0 questions)), [],
      ''## Recommended Next Steps'',
      ''1. Practice live debugging in our interactive hands-on sandboxes.'',
      ''2. Review our SRE incident postmortems in the Articles library.'']"

definition default_takeaways :: "string list" where
  "default_takeaways =
     [''Understand the difference between graceful shutdown (SIGTERM) and forced termination (SIGKILL).'',
      ''Ensure non-root container user permissions comply with least-privilege security.'',
      ''Verify listening ports and sockets before deploying configuration modifications.'']"

definition quiz_editorial ::
  "'r env \<Rightarrow> string \<Rightarrow> ('r world, (string \<times> string \<times> string \<times> string list) learn) act" where
  "quiz_editorial E i = learn_fail (
     bnd (query E (quiz_named i)) (\<lambda>found.
     case found of
       None \<Rightarrow> ret (Denied 404 QuizNotFound)
     | Some quiz \<Rightarrow>
         (let m = (case nd_metadata quiz of QuizMetadata m \<Rightarrow> m
                   | _ \<Rightarrow> \<lparr>qm_slug = None, qm_category = None, qm_questions = None, qm_editorial = None,
                           qm_takeaways = None\<rparr>);
              questions = (case qm_questions m of None \<Rightarrow> [] | Some qs \<Rightarrow> qs)
          in ret (Sent 200 (nd_id quiz, nd_title quiz,
               js_or (qm_editorial m) (default_editorial (nd_title quiz) questions),
               case qm_takeaways m of None \<Rightarrow> default_takeaways | Some ts \<Rightarrow> ts)))))"

section \<open>Roadmaps\<close>

definition same_text :: "string \<Rightarrow> string option \<Rightarrow> bool" where
  "same_text q col = (case col of None \<Rightarrow> False | Some s \<Rightarrow> map lower_char s = map lower_char q)"

record roadmap_view =
  rv_path :: learning_path
  rv_icon :: string
  rv_timeEstimate :: string
  rv_category :: "string option"
  rv_nodeCount :: nat

definition roadmap_view_of :: "db \<Rightarrow> learning_path \<Rightarrow> roadmap_view" where
  "roadmap_view_of d p = \<lparr>rv_path = p, rv_icon = js_or (path_icon p) ''Terminal'',
     rv_timeEstimate = js_or (path_timeEstimate p) ''~60 mins'', rv_category = js_or_null (path_category p),
     rv_nodeCount = length (path_challenges (path_id p) d)\<rparr>"

definition matches_roadmap ::
  "string option \<Rightarrow> string list \<Rightarrow> string \<Rightarrow> learning_path \<Rightarrow> bool" where
  "matches_roadmap category rawTags q p \<longleftrightarrow>
     (truthy category \<and> map lower_char (the category) \<noteq> ''all'' \<longrightarrow> same_text (the category) (path_category p)) \<and>
     (rawTags \<noteq> [] \<longrightarrow> list_ex (\<lambda>t. t \<in> set (path_tags p)) rawTags) \<and>
     (q \<noteq> [] \<longrightarrow> contains_text q (Some (path_title p)) \<or> contains_text q (Some (path_description p)) \<or>
        contains_text q (path_category p))"

definition list_roadmaps ::
  "'r env \<Rightarrow> string option \<Rightarrow> string option \<Rightarrow> string option \<Rightarrow> string option \<Rightarrow>
   ('r world, roadmap_view list learn) act" where
  "list_roadmaps E category tags search quer = learn_fail (
     (let rawTags = (if truthy tags then filter (\<lambda>t. t \<noteq> []) (map trim (split_on CHR '','' (the tags))) else []);
          q = trim (js_or search (js_or quer []))
      in bnd (query E (\<lambda>d. map (roadmap_view_of d)
           (sort_key path_createdAt (filter (matches_roadmap category rawTags q) (learningPaths d))))) (\<lambda>paths.
         ret (Sent 200 paths))))"

text \<open>A roadmap with its challenges in the order of the modules, each with the title of its module.\<close>

definition ordered_challenges :: "string \<Rightarrow> db \<Rightarrow> (challenge \<times> string) list" where
  "ordered_challenges p d = concat (map (\<lambda>m. map (\<lambda>c. (c, mod_title m))
       (filter (\<lambda>c. ch_moduleId c = Some (mod_id m)) (challenges d)))
     (sort_key mod_order (filter (\<lambda>m. mod_pathId m = p) (modules d))))"

definition get_roadmap ::
  "'r env \<Rightarrow> string \<Rightarrow> ('r world, (roadmap_view \<times> (challenge \<times> string) list) learn) act" where
  "get_roadmap E slug = learn_fail (
     bnd (query E (\<lambda>d. map_option (\<lambda>p. (p, ordered_challenges (path_id p) d))
       (find (\<lambda>p. path_slug p = slug) (learningPaths d)))) (\<lambda>found.
     case found of
       None \<Rightarrow> ret (Denied 404 RoadmapNotFound)
     | Some (p, cs) \<Rightarrow>
         ret (Sent 200 (\<lparr>rv_path = p, rv_icon = js_or (path_icon p) ''Terminal'',
           rv_timeEstimate = js_or (path_timeEstimate p)
             (''~'' @ show_nat (max (length cs * 20) 60) @ '' mins''),
           rv_category = js_or_null (path_category p), rv_nodeCount = length cs\<rparr>, cs))))"

end
