(* ===== verification/Curriculum_Laws.thy ===== *)
theory Curriculum_Laws
  imports Curriculum
begin

text \<open>
  What the routes of Curriculum promise: the recursive query finds the nodes that a node depends on,
  the frontier is never empty before everything is completed, the answers of a quiz are not shown
  before a submission, and what a submission records.
\<close>

section \<open>Prerequisites\<close>

definition pairs_of :: "edge list \<Rightarrow> (string \<times> string) set" where
  "pairs_of es = (\<lambda>e. (ed_fromId e, ed_toId e)) ` set es"

abbreviation requires :: "db \<Rightarrow> (string \<times> string) set" where
  "requires d \<equiv> pairs_of (edges d)"

lemma finite_pairs_of [simp]: "finite (pairs_of es)"
  by (simp add: pairs_of_def)

text \<open>
  Each round of the recursive query finds the direct prerequisites of the last round; what was found
  before the last round has all of its prerequisites among the found ones.
\<close>

lemma walk_set:
  assumes "set work \<subseteq> set found"
    and "pairs_of es `` (set found - set work) \<subseteq> set found"
  shows "set (walk es found work) = (pairs_of es)\<^sup>* `` set found"
  using assms
proof (induction es found work rule: walk.induct)
  case (1 es found work)
  let ?R = "pairs_of es"
  define more where "more = remdups (map ed_toId (filter (\<lambda>e. ed_fromId e \<in> set work \<and> ed_toId e \<notin> set found) es))"
  have more: "set more = ?R `` set work - set found" by (auto simp: more_def pairs_of_def image_iff)
  show ?case
  proof (cases "work = []")
    case True
    with 1(3) show ?thesis by (simp add: walk.simps Image_closed_trancl)
  next
    case False
    have "?R `` (set (found @ more) - set more) \<subseteq> set (found @ more)"
      unfolding set_append more using 1(3) by blast
    then have "set (walk es (found @ more) more) = ?R\<^sup>* `` set (found @ more)"
      by (intro 1(1) [OF False more_def]) simp_all
    also have "\<dots> = ?R\<^sup>* `` set found"
    proof -
      have "set more \<subseteq> ?R\<^sup>* `` set found" using more 1(2) by auto
      then show ?thesis by (auto intro: rtrancl_trans) 
    qed
    finally show ?thesis using False by (simp add: walk.simps [of es found work] more_def Let_def)
  qed
qed

lemma ancestor_ids_set: "set (ancestor_ids i d) = (requires d)\<^sup>+ `` {i}"
proof -
  let ?first = "remdups (map ed_toId (filter (\<lambda>e. ed_fromId e = i) (edges d)))"
  have "set ?first = requires d `` {i}" by (auto simp: pairs_of_def image_iff)
  moreover have "set (walk (edges d) ?first ?first) = (requires d)\<^sup>* `` set ?first"
    using walk_set [of ?first ?first "edges d"] by simp
  ultimately show ?thesis
    by (auto simp: ancestor_ids_def Let_def trancl_unfold_left [of "requires d"])
qed

text \<open>
  C15. In a calm run the recursive query answers, also if the prerequisites form a cycle, and its
  answer is exactly the nodes that the node depends on directly or through others.
\<close>

theorem ancestors_reachable:
  assumes "calm E"
  shows "\<exists>ns w'. node_ancestors E i w = (Inr (Sent 200 ns), w') \<and> db w' = db w \<and>
    set ns = {n \<in> set (nodes (db w)). (i, nd_id n) \<in> (requires (db w))\<^sup>+}"
  by (simp add: node_ancestors_def learn_fail_def act_simps calm_runs [OF assms] ancestor_ids_set)

section \<open>The frontier\<close>

definition completed_by :: "string \<Rightarrow> db \<Rightarrow> string set" where
  "completed_by u d = co_nodeId ` set (filter (\<lambda>c. co_userId c = u) (completions d))"

lemma requires_within: "requires d `` {i} \<subseteq> C \<longleftrightarrow> (\<forall>e \<in> set (edges d). ed_fromId e = i \<longrightarrow> ed_toId e \<in> C)"
  by (force simp: pairs_of_def)

lemma frontier_run:
  assumes "calm E"
  shows "\<exists>ns w'. frontier E u w = (Inr (Sent 200 ns), w') \<and> db w' = db w \<and>
    set ns = {n \<in> set (nodes (db w)). nd_id n \<notin> completed_by u (db w) \<and>
      requires (db w) `` {nd_id n} \<subseteq> completed_by u (db w)}"
proof -
  let ?d = "db w" and ?C = "completed_by u (db w)"
  let ?open = "filter (\<lambda>n. nd_id n \<notin> ?C) (nodes ?d)"
  let ?ns = "map fst (filter (\<lambda>(n, outgoing). list_all (\<lambda>i. i \<in> ?C) outgoing)
      (map (\<lambda>n. (n, map ed_toId (filter (\<lambda>e. ed_fromId e = nd_id n) (edges ?d)))) ?open))"
  have C: "co_nodeId ` {c \<in> set (completions ?d). co_userId c = u} = ?C" by (simp add: completed_by_def)
  have "set ?ns = {n \<in> set (nodes ?d). nd_id n \<notin> ?C \<and> (\<forall>e \<in> set (edges ?d). ed_fromId e = nd_id n \<longrightarrow> ed_toId e \<in> ?C)}"
    by (auto simp: list_all_iff image_iff)
  also have "\<dots> = {n \<in> set (nodes ?d). nd_id n \<notin> ?C \<and> requires ?d `` {nd_id n} \<subseteq> ?C}"
    by (simp only: requires_within)
  finally have ns: "set ?ns = \<dots>" .
  have "\<exists>w'. frontier E u w = (Inr (Sent 200 ?ns), w') \<and> db w' = ?d"
    by (simp add: frontier_def learn_fail_def act_simps calm_runs [OF assms] C)
  with ns show ?thesis by blast
qed

text \<open>
  As long as the prerequisites form no cycle, the frontier of a user leads everywhere: each node
  that is not completed depends on a node of the frontier or is one itself. So the frontier is empty
  only if everything is completed.
\<close>

lemma frontier_leads_everywhere:
  assumes "calm E" and "constraints (db w)" and "acyclic (requires (db w))"
  shows "\<exists>ns w'. frontier E u w = (Inr (Sent 200 ns), w') \<and>
    (\<forall>n \<in> set (nodes (db w)). nd_id n \<notin> completed_by u (db w) \<longrightarrow>
      (\<exists>m \<in> set ns. (nd_id n, nd_id m) \<in> (requires (db w))\<^sup>*))"
proof -
  let ?d = "db w" and ?R = "requires (db w)" and ?C = "completed_by u (db w)"
  obtain ns w' where run: "frontier E u w = (Inr (Sent 200 ns), w')"
    and ns: "set ns = {n \<in> set (nodes ?d). nd_id n \<notin> ?C \<and> ?R `` {nd_id n} \<subseteq> ?C}"
    using frontier_run [OF assms(1)] by blast
  have "wf (?R\<inverse>)" using assms(3) by (simp add: finite_acyclic_wf_converse)
  then have "\<forall>n \<in> set (nodes ?d). nd_id n = i \<longrightarrow> i \<notin> ?C \<longrightarrow> (\<exists>m \<in> set ns. (i, nd_id m) \<in> ?R\<^sup>*)" for i
  proof (induction i rule: wf_induct_rule)
    case (less i)
    show ?case
    proof (intro ballI impI)
      fix n assume n: "n \<in> set (nodes ?d)" "nd_id n = i" "i \<notin> ?C"
      show "\<exists>m \<in> set ns. (i, nd_id m) \<in> ?R\<^sup>*"
      proof (cases "?R `` {i} \<subseteq> ?C")
        case True
        with n show ?thesis unfolding ns by blast
      next
        case False
        then obtain j where j: "(i, j) \<in> ?R" "j \<notin> ?C" by blast
        then have "has_key nd_id j (nodes ?d)" using assms(2) by (auto simp: constraint_defs pairs_of_def)
        then obtain k where "k \<in> set (nodes ?d)" "nd_id k = j" by (auto simp: has_key_def)
        with less [of j] j show ?thesis by (blast intro: converse_rtrancl_into_rtrancl)
      qed
    qed
  qed
  with run show ?thesis by blast
qed

section \<open>Quizzes before a submission\<close>

text \<open>The same database with other correct answers.\<close>

definition with_answers :: "(string \<Rightarrow> int) \<Rightarrow> db \<Rightarrow> db" where
  "with_answers key d = d\<lparr>nodes := map (\<lambda>n. n\<lparr>nd_metadata := (case nd_metadata n of
      QuizMetadata m \<Rightarrow> QuizMetadata (m\<lparr>qm_questions := map_option (map (\<lambda>q. q\<lparr>q_correctIndex := key (q_id q)\<rparr>))
        (qm_questions m)\<rparr>)
    | m \<Rightarrow> m)\<rparr>) (nodes d)\<rparr>"

lemma find_map: "find P (map f xs) = map_option f (find (P \<circ> f) xs)"
  by (induction xs) auto

lemma stripAnswers_with [simp]:
  "stripAnswers (n\<lparr>nd_metadata := (case nd_metadata n of
      QuizMetadata m \<Rightarrow> QuizMetadata (m\<lparr>qm_questions := map_option (map (\<lambda>q. q\<lparr>q_correctIndex := key (q_id q)\<rparr>))
        (qm_questions m)\<rparr>)
    | m \<Rightarrow> m)\<rparr>) = stripAnswers n"
  by (cases "nd_metadata n") (simp_all add: stripAnswers_def option.map_comp comp_def hide_answer_def [abs_def])

lemma with_answers_nodes: "nodes (with_answers key d) = map (\<lambda>n. n\<lparr>nd_metadata := (case nd_metadata n of
      QuizMetadata m \<Rightarrow> QuizMetadata (m\<lparr>qm_questions := map_option (map (\<lambda>q. q\<lparr>q_correctIndex := key (q_id q)\<rparr>))
        (qm_questions m)\<rparr>)
    | m \<Rightarrow> m)\<rparr>) (nodes d)"
  by (simp add: with_answers_def)

lemma shown_quizzes: "fst (list_quizzes E w) = Inr (case outcome_of E (calls w) of
   Done \<Rightarrow> Sent 200 (map stripAnswers (filter (\<lambda>n. nd_type n = QUIZ) (nodes (db w)))) | _ \<Rightarrow> Denied 500 LearnFailure)"
  by (cases "outcome_of E (calls w)") (simp_all add: list_quizzes_def learn_fail_def act_simps query_result)

lemma shown_quiz: "fst (get_quiz E i w) = Inr (case outcome_of E (calls w) of
   Done \<Rightarrow> (case find (\<lambda>n. nd_id n = i \<and> nd_type n = QUIZ) (nodes (db w)) of
       None \<Rightarrow> Denied 404 QuizNotFound | Some q \<Rightarrow> Sent 200 (stripAnswers q))
 | _ \<Rightarrow> Denied 500 LearnFailure)"
  by (cases "outcome_of E (calls w)")
    (simp_all add: get_quiz_def learn_fail_def act_simps query_result split: option.split)

text \<open>The editorial uses the texts of the questions only.\<close>

abbreviation rekey_question :: "(string \<Rightarrow> int) \<Rightarrow> question \<Rightarrow> question" where
  "rekey_question key \<equiv> (\<lambda>q. q\<lparr>q_correctIndex := key (q_id q)\<rparr>)"

definition rekey :: "(string \<Rightarrow> int) \<Rightarrow> node \<Rightarrow> node" where
  "rekey key n = n\<lparr>nd_metadata := (case nd_metadata n of
      QuizMetadata m \<Rightarrow> QuizMetadata (m\<lparr>qm_questions := map_option (map (rekey_question key)) (qm_questions m)\<rparr>)
    | m \<Rightarrow> m)\<rparr>"

lemma rekey_nodes: "nodes (with_answers key d) = map (rekey key) (nodes d)"
  by (simp add: with_answers_def rekey_def [abs_def])

lemma rekey_named: "quiz_named i (with_answers key d) = map_option (rekey key) (quiz_named i d)"
proof -
  have "quiz_slug (rekey key n) = quiz_slug n" for n
    by (cases "nd_metadata n") (simp_all add: rekey_def quiz_slug_def)
  moreover have "nd_id (rekey key n) = nd_id n" "nd_type (rekey key n) = nd_type n" for n by (simp_all add: rekey_def)
  ultimately show ?thesis by (simp add: quiz_named_def rekey_nodes find_map comp_def)
qed

lemma rekey_editorial: "default_editorial title (map (rekey_question key) qs) = default_editorial title qs"
proof -
  have "question_section k (rekey_question key q) = question_section k q" for k q
    by (simp add: question_section_def)
  then have "map (\<lambda>(k, q). question_section k q) (enumerate n (map (rekey_question key) qs)) =
      map (\<lambda>(k, q). question_section k q) (enumerate n qs)" for n
    by (induction qs arbitrary: n) simp_all
  then show ?thesis by (simp add: default_editorial_def)
qed

lemma shown_editorial: "fst (quiz_editorial E i (w\<lparr>db := with_answers key (db w)\<rparr>)) = fst (quiz_editorial E i w)"
proof (cases "outcome_of E (calls w) = Done")
  case True
  show ?thesis
  proof (cases "quiz_named i (db w)")
    case (Some n)
    with True show ?thesis
      by (cases "nd_metadata n")
        (auto simp: quiz_editorial_def learn_fail_def act_simps query_result rekey_named rekey_def rekey_editorial Let_def
          split: option.split)
  qed (use True in \<open>simp add: quiz_editorial_def learn_fail_def act_simps query_result rekey_named\<close>)
next
  case False
  then show ?thesis
    by (cases "outcome_of E (calls w)") (simp_all add: quiz_editorial_def learn_fail_def act_simps query_result)
qed

text \<open>
  C16. The list of the quizzes, the page of a quiz and its editorial, as the routes of quizzes answer them, do not
  depend on the correct answers: whatever fails, two databases that differ in nothing else give the same
  answers. This is not so for the routes of nodes, which show a quiz as it is stored to everybody
  (\<open>answers_shown_by_nodes\<close>), nor for what a submission is answered with.
\<close>

theorem quiz_answers_hidden:
  "fst (list_quizzes E (w\<lparr>db := with_answers key (db w)\<rparr>)) = fst (list_quizzes E w) \<and>
   fst (get_quiz E i (w\<lparr>db := with_answers key (db w)\<rparr>)) = fst (get_quiz E i w) \<and>
   fst (quiz_editorial E i (w\<lparr>db := with_answers key (db w)\<rparr>)) = fst (quiz_editorial E i w)"
  by (cases "outcome_of E (calls w)"; cases "find (\<lambda>n. nd_id n = i \<and> nd_type n = QUIZ) (nodes (db w))")
    (simp_all add: shown_quizzes shown_quiz with_answers_nodes filter_map find_map comp_def shown_editorial)

text \<open>Without a login the route of a node answers with the quiz and its correct answers.\<close>

lemma answers_shown_by_nodes:
  assumes "calm E" and "find_node i (db w) = Some n" and "nd_metadata n = QuizMetadata m" and "qm_questions m = Some qs"
  shows "\<exists>shown m'. fst (get_node E i w) = Inr (Sent 200 shown) \<and> nd_metadata shown = QuizMetadata m' \<and>
    map_option (map q_correctIndex) (qm_questions m') = Some (map q_correctIndex qs)"
  using assms by (simp add: get_node_def learn_fail_def act_simps query_result calm_def)

section \<open>Submissions\<close>

text \<open>Who a submission is for: the user of the token, or else the one that the body names.\<close>

definition submitter :: "string option \<Rightarrow> string option \<Rightarrow> string option" where
  "submitter tokenUser bodyUser = (if truthy tokenUser then tokenUser else bodyUser)"

definition quiz_with :: "string \<Rightarrow> question list \<Rightarrow> db \<Rightarrow> node \<Rightarrow> bool" where
  "quiz_with i qs d n \<longleftrightarrow> quiz_named i d = Some n \<and>
     (\<exists>m. nd_metadata n = QuizMetadata m \<and> qm_questions m = Some qs)"

lemma quiz_with_node: "quiz_with i qs d n \<Longrightarrow> has_key nd_id (nd_id n) (nodes d)"
  by (auto simp: quiz_with_def quiz_named_def find_Some_iff has_key_def)

lemma submit_run:
  assumes "calm E" and "quiz_with i qs (db w) n" and "submitter tok body = Some u" and "u \<noteq> []"
    and "has_user (db w) u"
  shows "\<exists>w' t. submit_quiz E tok body (Some answers) i w = (Inr (Sent 200 (grade answers qs)), w') \<and>
    quizAttempts (db w') = quizAttempts (db w) @ [\<lparr>qa_userId = u, qa_nodeId = nd_id n,
        qa_score = int (qz_score (grade answers qs)), qa_total = int (length qs),
        qa_passed = qz_passed (grade answers qs), qa_answers = answers, qa_createdAt = t\<rparr>] \<and>
    completed_by u (db w') = completed_by u (db w) \<union> (if qz_passed (grade answers qs) then {nd_id n} else {}) \<and>
    nodes (db w') = nodes (db w) \<and> edges (db w') = edges (db w) \<and> users (db w') = users (db w)"
proof -
  from assms(2) obtain m where m: "quiz_named i (db w) = Some n" "nd_metadata n = QuizMetadata m" "qm_questions m = Some qs"
    by (auto simp: quiz_with_def)
  have who: "(if truthy tok then tok else body) = Some u" using assms(3) by (simp add: submitter_def)
  have total: "qz_total (grade answers qs) = length qs" by (simp add: grade_def Let_def)
  have node: "has_key nd_id (nd_id n) (nodes (db w))" by (rule quiz_with_node [OF assms(2)])
  have key: "has_key completion_key (u, nd_id n) (completions (db w)) \<longleftrightarrow> nd_id n \<in> completed_by u (db w)"
    by (auto simp: has_key_def completion_key_def completed_by_def image_iff)
  note simps = submit_quiz_def learn_fail_def Let_def act_simps calm_runs [OF assms(1)] insert_attempt_def
    upsert_completion_def m who assms(4,5) node total key
  have more: "completed_by u (d\<lparr>completions := cs @ [\<lparr>co_userId = u, co_nodeId = j, co_createdAt = t\<rparr>]\<rparr>) =
      insert j (completed_by u (d\<lparr>completions := cs\<rparr>))" for d cs j t
    by (simp add: completed_by_def)
  have same: "completed_by u (d\<lparr>quizAttempts := qas\<rparr>) = completed_by u d"
    "completed_by u (d\<lparr>quizAttempts := qas, completions := completions d\<rparr>) = completed_by u d" for d qas
    by (simp_all add: completed_by_def)
  show ?thesis
    by (cases "qz_passed (grade answers qs)"; cases "nd_id n \<in> completed_by u (db w)")
       (simp_all add: simps more same insert_absorb)
qed

lemma submission_completes:
  "completed_by v (db (snd (submit_quiz E tok body answers i w))) \<subseteq> completed_by v (db w) \<union>
     {j. submitter tok body = Some v \<and> (\<exists>n qs. quiz_with i qs (db w) n \<and> j = nd_id n \<and> qz_passed (grade (the answers) qs))}"
proof -
  let ?new = "\<lambda>d'. completed_by v d' \<subseteq> completed_by v (db w) \<union>
     {j. submitter tok body = Some v \<and> (\<exists>n qs. quiz_with i qs (db w) n \<and> j = nd_id n \<and> qz_passed (grade (the answers) qs))}"
  let ?user = "if truthy tok then tok else body"
  define ok where "ok = ?new"
  have same: "ok d" if "completions d = completions (db w)" for d using that by (simp add: ok_def completed_by_def)
  have attempt: "moves (on_db (fixing completions)) (catch (run_db_at E (insert_attempt u j a g)) (\<lambda>_. ret ()))" for u j a g
    unfolding insert_attempt_def [abs_def] by (intro fixing_steps; simp)
  have pass: "db_post (run_db_at E (upsert_completion u (nd_id n))) d (\<lambda>_. ok)"
    if "submitter tok body = Some u" "quiz_with i qs (db w) n" "qz_passed (grade (the answers) qs)"
      "completions d = completions (db w)" for u n qs d
  proof -
    have "ok (d\<lparr>completions := completions d @ [\<lparr>co_userId = u, co_nodeId = nd_id n, co_createdAt = t\<rparr>]\<rparr>)" for t
      using that by (auto simp: ok_def completed_by_def)
    then show ?thesis
      unfolding upsert_completion_def Let_def using same [OF that(4)]
      by (intro post_guarded_at) (simp_all split: if_split)
  qed
  have tail: "db_post (sq (when_act (qz_passed (grade (the answers) qs)) (run_db_at E (upsert_completion u (nd_id n)))) (ret r)) d (\<lambda>_. ok)"
    if "submitter tok body = Some u" "quiz_with i qs (db w) n" "completions d = completions (db w)" for u n qs d r
    by (rule post_sq_conseq [where Q' = "\<lambda>_. ok"]) (auto intro!: post_when pass that same post_ret)
  have body: "db_post (case nd_metadata n of
               QuizMetadata m \<Rightarrow>
                 (case qm_questions m of
                    None \<Rightarrow> ret (Denied 500 MalformedQuiz)
                  | Some questions \<Rightarrow>
                       sq (catch (run_db_at E (insert_attempt u (nd_id n) (the answers) (grade (the answers) questions))) (\<lambda>_. ret ())) (
                       sq (when_act (qz_passed (grade (the answers) questions)) (run_db_at E (upsert_completion u (nd_id n))))
                       (ret (Sent 200 (grade (the answers) questions)))))
             | _ \<Rightarrow> ret (Denied 500 MalformedQuiz)) (db w) (\<lambda>_. ok)"
    if "quiz_named i (db w) = Some n" "submitter tok body = Some u" for n u
    using that
    by (auto split: node_metadata.split option.split
        intro!: post_ret same frame_sq [OF attempt] tail simp: quiz_with_def)
  have "db_post (submit_quiz E tok body answers i) (db w) (\<lambda>_. ok)"
  proof (cases "truthy ?user \<and> answers \<noteq> None")
    case True
    then obtain u where u: "?user = Some u" "submitter tok body = Some u" by (auto simp: submitter_def dest!: truthyD)
    obtain ys where ys: "answers = Some ys" using True by auto
    have caught: "db_post (catch m (\<lambda>_. ret (Denied 500 LearnFailure))) (db w) (\<lambda>_. ok)"
      if "db_post m (db w) (\<lambda>_. ok)" for m
      using that by (intro post_catch db_post_conseq [OF that]) (simp add: recovering_def post_ret split: sum.split)
    show ?thesis
      using True body [OF _ u(2)] unfolding submit_quiz_def learn_fail_def Let_def u(1) ys option.sel
      by (auto intro!: caught post_bnd post_query post_ret same simp: passing_def split: option.split)
  qed (simp add: submit_quiz_def post_ret same Let_def)
  then show ?thesis by (simp add: ok_def db_post_def)
qed

text \<open>
  C8. Whatever fails, a submission completes nothing but the quiz that it is for, only for its
  submitter, and only with a passing grade.
\<close>

theorem completion_needs_pass:
  "completed_by v (db (snd (submit_quiz E tok body answers i w))) \<subseteq> completed_by v (db w) \<union>
     {j. submitter tok body = Some v \<and> (\<exists>n qs. quiz_with i qs (db w) n \<and> j = nd_id n \<and> qz_passed (grade (the answers) qs))}"
  by (rule submission_completes)

lemma submission_fixes_nodes: "moves (on_db (fixing nodes)) (submit_quiz E tok body answers i)"
proof -
  have "moves (on_db (fixing nodes)) (run_db_at E (insert_attempt u j a g))" for u j a g
    unfolding insert_attempt_def [abs_def] by (intro fixing_steps; simp)
  moreover have "moves (on_db (fixing nodes)) (run_db_at E (upsert_completion u j))" for u j
    unfolding upsert_completion_def [abs_def] Let_def by (intro fixing_steps; simp)
  ultimately show ?thesis
    unfolding submit_quiz_def learn_fail_def Let_def
    by (intro fixing_steps; simp split: node_metadata.split) (intro allI impI conjI fixing_steps)
qed

text \<open>
  If no call fails, a submission for a user and a quiz that exist is graded, its attempt is
  stored, and the quiz counts as completed from then on exactly if it did before or at least seven
  tenths of the answers are correct.
\<close>

lemma submission_recorded:
  assumes "calm E" and "quiz_with i qs (db w) n" and "submitter tok body = Some u" and "u \<noteq> []"
    and "has_user (db w) u" and "qs \<noteq> []"
  shows "\<exists>g w' t. submit_quiz E tok body (Some answers) i w = (Inr (Sent 200 g), w') \<and>
    qz_score g = length (filter (\<lambda>q. map_of answers (q_id q) = Some (q_correctIndex q)) qs) \<and>
    qz_total g = length qs \<and>
    quizAttempts (db w') = quizAttempts (db w) @ [\<lparr>qa_userId = u, qa_nodeId = nd_id n, qa_score = int (qz_score g),
      qa_total = int (length qs), qa_passed = qz_passed g, qa_answers = answers, qa_createdAt = t\<rparr>] \<and>
    (nd_id n \<in> completed_by u (db w') \<longleftrightarrow>
      nd_id n \<in> completed_by u (db w) \<or> 7 * length qs \<le> 10 * qz_score g)"
proof -
  have score: "qz_score (grade answers qs) = length (filter (\<lambda>q. map_of answers (q_id q) = Some (q_correctIndex q)) qs)"
    by (simp add: grade_def Let_def count_rows_def mark_question_def filter_map comp_def)
  have "qz_passed (grade answers qs) \<longleftrightarrow> 7 * length qs \<le> 10 * qz_score (grade answers qs)" "qz_total (grade answers qs) = length qs"
    using assms(6) by (simp_all add: grade_def Let_def)
  then show ?thesis
    using submit_run [OF assms(1-5), of answers] score by auto
qed

lemma full_marks:
  assumes "distinct (map q_id qs)" and "qs \<noteq> []"
  shows "qz_passed (grade (map (\<lambda>r. (qr_questionId r, qr_correctIndex r)) (qz_results (grade [] qs))) qs)"
proof -
  let ?key = "map (\<lambda>q. (q_id q, q_correctIndex q)) qs"
  have key: "map (\<lambda>r. (qr_questionId r, qr_correctIndex r)) (qz_results (grade [] qs)) = ?key"
    by (simp add: grade_def Let_def mark_question_def)
  have "map_of ?key (q_id q) = Some (q_correctIndex q)" if "q \<in> set qs" for q
    using that assms(1) by (intro map_of_is_SomeI) (auto simp: comp_def)
  then have "filter (\<lambda>q. qr_correct (mark_question ?key q)) qs = qs" by (simp add: mark_question_def)
  then show ?thesis
    using assms(2) unfolding key by (simp add: grade_def Let_def count_rows_def filter_map comp_def)
qed

text \<open>
  A quiz can be passed without knowing anything. Without a token, naming any user and giving no
  answer, one is told the correct answers; sending them back completes the quiz for that user.
\<close>

lemma quiz_passed_blindly:
  assumes "calm E" and "quiz_with i qs (db w) n" and "u \<noteq> []" and "has_user (db w) u"
    and "distinct (map q_id qs)" and "qs \<noteq> []"
  shows "\<exists>g w1 g' w2. submit_quiz E None (Some u) (Some []) i w = (Inr (Sent 200 g), w1) \<and>
    submit_quiz E None (Some u) (Some (map (\<lambda>r. (qr_questionId r, qr_correctIndex r)) (qz_results g))) i w1 =
      (Inr (Sent 200 g'), w2) \<and> qz_passed g' \<and> nd_id n \<in> completed_by u (db w2)"
proof -
  have who: "submitter None (Some u) = Some u" by (simp add: submitter_def)
  from submit_run [OF assms(1,2) who assms(3,4), of "[]"] obtain w1 where
    first: "submit_quiz E None (Some u) (Some []) i w = (Inr (Sent 200 (grade [] qs)), w1)"
    and "nodes (db w1) = nodes (db w)" "users (db w1) = users (db w)" by blast
  then have "quiz_with i qs (db w1) n" "has_user (db w1) u"
    using assms(2,4) by (simp_all add: quiz_with_def quiz_named_def)
  from submit_run [OF assms(1) this(1) who assms(3) this(2)] full_marks [OF assms(5,6)] obtain w2 where
    "submit_quiz E None (Some u) (Some (map (\<lambda>r. (qr_questionId r, qr_correctIndex r)) (qz_results (grade [] qs)))) i w1 =
      (Inr (Sent 200 (grade (map (\<lambda>r. (qr_questionId r, qr_correctIndex r)) (qz_results (grade [] qs))) qs)), w2)"
    "nd_id n \<in> completed_by u (db w2)" by fastforce
  with first full_marks [OF assms(5,6)] show ?thesis by blast
qed

section \<open>The constraints of the database\<close>

lemma keep_submit_quiz: "moves (on_db (keeping constraints)) (submit_quiz E tok body answers i)"
proof -
  have "moves (on_db (keeping constraints)) (run_db_at E (insert_attempt u j a g))" for u j a g
    unfolding insert_attempt_def [abs_def] by (rule keeping_guarded_at) (auto simp: constraint_defs)
  then show ?thesis
    unfolding submit_quiz_def learn_fail_def Let_def
    by (intro keeping_steps constraints_completion; simp split: node_metadata.split)
       (intro allI impI conjI keeping_steps constraints_completion)
qed

section \<open>Examples\<close>

definition example_quiz :: quiz_metadata where
  "example_quiz = \<lparr>qm_slug = Some ''quiz'', qm_category = None, qm_questions = Some
     [\<lparr>q_id = ''q1'', q_correctIndex = 2, q_question = None, q_text = None, q_options = [], q_explanation = None\<rparr>],
     qm_editorial = None, qm_takeaways = None\<rparr>"

definition example_node :: "string \<Rightarrow> node" where
  "example_node i = \<lparr>nd_id = i, nd_type = QUIZ, nd_title = ''T'', nd_description = ''D'',
     nd_metadata = QuizMetadata example_quiz\<rparr>"

definition graph_db :: db where
  "graph_db = example_db\<lparr>nodes := [example_node ''n1'', example_node ''n2'', example_node ''n3''],
     edges := [\<lparr>ed_fromId = ''n3'', ed_toId = ''n2''\<rparr>, \<lparr>ed_fromId = ''n2'', ed_toId = ''n1''\<rparr>]\<rparr>"

lemma graph_db_facts:
  "constraints graph_db" "requires graph_db = {(''n3'', ''n2''), (''n2'', ''n1'')}"
  "quiz_with ''n1'' (the (qm_questions example_quiz)) graph_db (example_node ''n1'')" "has_user graph_db ''ann''"
  "the (qm_questions example_quiz) \<noteq> []" "distinct (map q_id (the (qm_questions example_quiz)))"
proof -
  have "quiz_named ''n1'' graph_db = Some (example_node ''n1'')" by code_simp
  moreover have "nd_metadata (example_node ''n1'') = QuizMetadata example_quiz" by (simp add: example_node_def)
  ultimately show "quiz_with ''n1'' (the (qm_questions example_quiz)) graph_db (example_node ''n1'')"
    by (simp add: quiz_with_def example_quiz_def)
  show "constraints graph_db" by code_simp
  show "requires graph_db = {(''n3'', ''n2''), (''n2'', ''n1'')}" by (simp add: pairs_of_def graph_db_def)
  show "has_user graph_db ''ann''" by code_simp
  show "the (qm_questions example_quiz) \<noteq> []" "distinct (map q_id (the (qm_questions example_quiz)))"
    by (simp_all add: example_quiz_def)
qed

lemma ancestors_reachable_witness:
  "\<exists>ns w'. node_ancestors calm_env ''n3'' (example_world graph_db) = (Inr (Sent 200 ns), w') \<and> db w' = graph_db \<and>
    set ns = {n \<in> set (nodes graph_db). (''n3'', nd_id n) \<in> (requires graph_db)\<^sup>+}"
  using ancestors_reachable [OF calm_calm_env, where w = "example_world graph_db" and i = "''n3''"] by simp

lemma frontier_leads_everywhere_witness:
  "\<exists>ns w'. frontier calm_env ''ann'' (example_world graph_db) = (Inr (Sent 200 ns), w') \<and>
    (\<forall>n \<in> set (nodes graph_db). nd_id n \<notin> completed_by ''ann'' graph_db \<longrightarrow>
      (\<exists>m \<in> set ns. (nd_id n, nd_id m) \<in> (requires graph_db)\<^sup>*))"
proof -
  have "acyclic {(''n3'', ''n2''), (''n2'', ''n1'')}"
    by (auto simp: acyclic_insert wf_acyclic elim: rtranclE converse_rtranclE)
  then show ?thesis
    using frontier_leads_everywhere [OF calm_calm_env, where w = "example_world graph_db" and u = "''ann''"]
    by (simp add: graph_db_facts)
qed

lemma submission_recorded_witness:
  "\<exists>g w' t. submit_quiz calm_env None (Some ''ann'') (Some [(''q1'', 2)]) ''n1'' (example_world graph_db) = (Inr (Sent 200 g), w') \<and>
    quizAttempts (db w') = [\<lparr>qa_userId = ''ann'', qa_nodeId = ''n1'', qa_score = int (qz_score g),
      qa_total = 1, qa_passed = qz_passed g, qa_answers = [(''q1'', 2)], qa_createdAt = t\<rparr>] \<and>
    ''n1'' \<in> completed_by ''ann'' (db w')"
proof -
  have facts: "quizAttempts graph_db = []" "nd_id (example_node ''n1'') = ''n1''" "length (the (qm_questions example_quiz)) = 1"
    "filter (\<lambda>q. map_of [(''q1'', 2)] (q_id q) = Some (q_correctIndex q)) (the (qm_questions example_quiz)) =
      the (qm_questions example_quiz)"
    by code_simp+
  let ?qs = "the (qm_questions example_quiz)" and ?w = "example_world graph_db"
  have pre: "quiz_with ''n1'' ?qs (db ?w) (example_node ''n1'')" "submitter None (Some ''ann'') = Some ''ann''" "has_user (db ?w) ''ann''"
    by (simp_all add: graph_db_facts submitter_def)
  obtain g w' t where "submit_quiz calm_env None (Some ''ann'') (Some [(''q1'', 2)]) ''n1'' ?w = (Inr (Sent 200 g), w')"
    and "qz_score g = length ?qs" "quizAttempts (db w') = [] @ [\<lparr>qa_userId = ''ann'', qa_nodeId = ''n1'', qa_score = int (qz_score g),
      qa_total = int 1, qa_passed = qz_passed g, qa_answers = [(''q1'', 2)], qa_createdAt = t\<rparr>]"
    "''n1'' \<in> completed_by ''ann'' (db w') \<longleftrightarrow> ''n1'' \<in> completed_by ''ann'' graph_db \<or> 7 * 1 \<le> 10 * qz_score g"
    using submission_recorded [OF calm_calm_env pre(1,2) list.distinct(2) pre(3) graph_db_facts(5), of "[(''q1'', 2)]"]
    unfolding example_world_sel facts by blast
  then show ?thesis unfolding facts by (intro exI conjI) simp_all
qed

lemma quiz_passed_blindly_witness:
  "\<exists>g w1 g' w2. submit_quiz calm_env None (Some ''ann'') (Some []) ''n1'' (example_world graph_db) = (Inr (Sent 200 g), w1) \<and>
    submit_quiz calm_env None (Some ''ann'') (Some (map (\<lambda>r. (qr_questionId r, qr_correctIndex r)) (qz_results g))) ''n1'' w1 =
      (Inr (Sent 200 g'), w2) \<and> qz_passed g' \<and> nd_id (example_node ''n1'') \<in> completed_by ''ann'' (db w2)"
  by (rule quiz_passed_blindly [OF calm_calm_env, where qs = "the (qm_questions example_quiz)"])
     (simp_all add: graph_db_facts)

end
