(* ===== verification/Dashboards.thy ===== *)
theory Dashboards
  imports Curriculum
begin

text \<open>
  What a user sees of the own progress (\<open>services/core/src/modules/user/dashboard.routes.ts\<close>) and of
  everybody's (\<open>user/leaderboard.routes.ts\<close>). The caller is the user of a valid token.
\<close>

datatype view_error =
    ViewUserNotFound | PathNotFound | ViewQuizNotFound | ViewUnauthorized | NotAMember | ViewFailure

type_synonym 'b page = "(view_error, 'b) response"

text \<open>\<open>orderBy: desc\<close> on a time, and \<open>take\<close>.\<close>

definition latest :: "('r \<Rightarrow> int) \<Rightarrow> nat \<Rightarrow> 'r list \<Rightarrow> 'r list" where
  "latest time n rs = take n (sort_key (\<lambda>r. - time r) rs)"

section \<open>The dashboard\<close>

record in_progress =
  ip_id :: string
  ip_title :: string
  ip_category :: category
  ip_completed :: nat
  ip_lastTouchedAt :: int

record user_page =
  pg_user :: user
  pg_org :: "org option"
  pg_badges :: "(user_badge \<times> badge) list"
  pg_completions :: "(completion \<times> node) list"
  pg_sessions :: "(lab_session \<times> challenge) list"

record dashboard =
  dash_hasActivity :: bool
  dash_today :: "string \<times> string \<times> bool"
  dash_inProgress :: "in_progress list"
  dash_xp :: int
  dash_streak :: int
  dash_longestStreak :: int
  dash_roadmapsCompleted :: nat
  dash_badgesEarned :: nat
  dash_recommended :: "string \<times> string \<times> string"
  dash_recentBadges :: "(string \<times> string \<times> int) list"
  dash_recentActivity :: "(string \<times> string \<times> int) list"
  dash_org :: "(string \<times> nat) option"

text \<open>A row with the row that it refers to.\<close>

definition joined :: "('r \<Rightarrow> string) \<Rightarrow> ('s \<Rightarrow> string) \<Rightarrow> 's list \<Rightarrow> 'r list \<Rightarrow> ('r \<times> 's) list" where
  "joined ref key ss rs = List.map_filter (\<lambda>r. map_option (Pair r) (find (\<lambda>s. key s = ref r) ss)) rs"

definition user_page_of :: "string \<Rightarrow> db \<Rightarrow> user_page option" where
  "user_page_of u d = map_option (\<lambda>usr. \<lparr>pg_user = usr,
     pg_org = Option.bind (user_orgId usr) (\<lambda>i. find (\<lambda>r. org_id r = i) (orgs d)),
     pg_badges = joined ub_badgeId bd_id (badges d)
       (latest ub_earnedAt 10 (filter (\<lambda>b. ub_userId b = u) (userBadges d))),
     pg_completions = joined co_nodeId nd_id (nodes d)
       (latest co_createdAt 10 (filter (\<lambda>c. co_userId c = u) (completions d))),
     pg_sessions = joined ls_challengeId ch_id (challenges d)
       (latest ls_startedAt 20 (filter (\<lambda>s. ls_userId s = u) (labSessions d)))\<rparr>) (find_user u d)"

text \<open>The first session of each challenge counts.\<close>

fun first_touch :: "(lab_session \<times> challenge) list \<Rightarrow> in_progress list \<Rightarrow> in_progress list" where
  "first_touch [] items = items"
| "first_touch ((s, c) # rest) items = first_touch rest
     (if ch_id c \<in> ip_id ` set items then items
      else items @ [\<lparr>ip_id = ch_id c, ip_title = ch_title c, ip_category = ch_category c,
        ip_completed = (if ls_status s = COMPLETED then 1 else 0), ip_lastTouchedAt = ls_startedAt s\<rparr>])"

definition in_progress_of :: "(lab_session \<times> challenge) list \<Rightarrow> in_progress list" where
  "in_progress_of ss = take 5 (filter (\<lambda>i. ip_completed i < 1) (first_touch ss []))"

definition recommended_next :: "in_progress list \<Rightarrow> bool \<Rightarrow> string \<times> string \<times> string" where
  "recommended_next items hasActivity =
     (case items of
        i # _ \<Rightarrow> (''Continue where you left off'', ''Resume practicing '' @ ip_title i @ ''.'',
                  ''/challenges/'' @ ip_id i)
      | [] \<Rightarrow>
          if hasActivity then
            (''Try something new'', ''Browse our catalog for your next challenge.'', ''/challenges'')
          else (''SSH Key Permissions'', ''A great first challenge to test your Linux basics.'',
                ''/challenges/ssh-key-permissions''))"

definition roadmaps_completed :: "string set \<Rightarrow> string list list \<Rightarrow> nat" where
  "roadmaps_completed done_ids paths =
     count_rows (\<lambda>ids. ids \<noteq> [] \<and> list_all (\<lambda>i. i \<in> done_ids) ids) paths"

definition first_challenge :: "db \<Rightarrow> challenge option" where
  "first_challenge d = (case sort_key ch_createdAt (challenges d) of [] \<Rightarrow> None | c # _ \<Rightarrow> Some c)"

text \<open>\<open>startOfDay\<close> gives the last midnight before a time, in the time zone of the process.\<close>

definition my_dashboard ::
  "'r env \<Rightarrow> (int \<Rightarrow> int) \<Rightarrow> string \<Rightarrow> ('r world, dashboard page) act" where
  "my_dashboard E startOfDay userId =
     bnd (query E (user_page_of userId)) (\<lambda>found.
     case found of
       None \<Rightarrow> ret (Denied 404 ViewUserNotFound)
     | Some p \<Rightarrow>
         (let hasActivity = (pg_completions p \<noteq> [] \<or> pg_sessions p \<noteq> []);
              inProgress = in_progress_of (pg_sessions p) in
          bnd (query E (\<lambda>d. map (\<lambda>lp. map ch_id (path_challenges (path_id lp) d)) (learningPaths d))) (\<lambda>allPaths.
          bnd (case pg_org p of
                 None \<Rightarrow> ret None
               | Some o' \<Rightarrow>
                   bnd (query E (\<lambda>d. count_rows (\<lambda>r. user_orgId r = user_orgId (pg_user p)) (users d))) (\<lambda>n.
                   ret (Some (org_name o', n - 1)))) (\<lambda>orgData.
          bnd (query E first_challenge) (\<lambda>firstChallenge.
          bnd now (\<lambda>t.
          bnd (query E first_challenge) (\<lambda>defaultDailyChallenge.
          ret (Sent 200 \<lparr>dash_hasActivity = hasActivity,
            dash_today = (case firstChallenge of
                Some c \<Rightarrow> (ch_id c, ch_title c, list_ex (\<lambda>(co, n). co_nodeId co = ch_id c \<and>
                  startOfDay t \<le> co_createdAt co) (pg_completions p))
              | None \<Rightarrow> (js_or (map_option ch_id defaultDailyChallenge) ''default_challenge'',
                  js_or (map_option ch_title defaultDailyChallenge) ''Fix the Broken Nginx Config'', False)),
            dash_inProgress = inProgress,
            dash_xp = user_xp (pg_user p), dash_streak = user_currentStreak (pg_user p),
            dash_longestStreak = user_longestStreak (pg_user p),
            dash_roadmapsCompleted = roadmaps_completed (set (map (\<lambda>(co, n). co_nodeId co) (pg_completions p))) allPaths,
            dash_badgesEarned = length (pg_badges p),
            dash_recommended = recommended_next inProgress hasActivity,
            dash_recentBadges = map (\<lambda>(ub, b). (bd_id b, bd_title b, ub_earnedAt ub)) (take 5 (pg_badges p)),
            dash_recentActivity = map (\<lambda>(co, n). (co_nodeId co, ''Completed \"'' @ nd_title n @ ''\"'', co_createdAt co))
              (take 5 (pg_completions p)),
            dash_org = orgData\<rparr>))))))))"

section \<open>Progress and history\<close>

definition roadmap_progress :: "'r env \<Rightarrow> string \<Rightarrow> string \<Rightarrow> ('r world, string list page) act" where
  "roadmap_progress E userId slug =
     bnd (query E (\<lambda>d. map_option (\<lambda>p. map ch_id (path_challenges (path_id p) d))
       (find (\<lambda>p. path_slug p = slug) (learningPaths d)))) (\<lambda>path.
     case path of
       None \<Rightarrow> ret (Denied 404 PathNotFound)
     | Some challengeIds \<Rightarrow>
         bnd (query E (\<lambda>d. map co_nodeId
           (filter (\<lambda>c. co_userId c = userId \<and> co_nodeId c \<in> set challengeIds) (completions d)))) (\<lambda>completed.
         ret (Sent 200 completed)))"

record quiz_status =
  qs_quizId :: string
  qs_status :: string
  qs_score :: "int option"
  qs_total :: "int option"

definition my_attempts :: "string \<Rightarrow> string \<Rightarrow> nat \<Rightarrow> db \<Rightarrow> quiz_attempt list" where
  "my_attempts u i n d = latest qa_createdAt n (filter (\<lambda>a. qa_userId a = u \<and> qa_nodeId a = i) (quizAttempts d))"

definition quiz_progress :: "'r env \<Rightarrow> string \<Rightarrow> string \<Rightarrow> ('r world, quiz_status page) act" where
  "quiz_progress E userId slug =
     bnd (query E (quiz_named slug)) (\<lambda>node.
     case node of
       None \<Rightarrow> ret (Denied 404 ViewQuizNotFound)
     | Some n \<Rightarrow>
         bnd (query E (\<lambda>d. case my_attempts userId (nd_id n) 1 d of [] \<Rightarrow> None | a # _ \<Rightarrow> Some a)) (\<lambda>attempt.
         ret (Sent 200 \<lparr>qs_quizId = nd_id n,
           qs_status = (case attempt of
               Some a \<Rightarrow> if qa_passed a then ''Completed'' else ''In progress''
             | None \<Rightarrow> ''Not started''),
           qs_score = map_option qa_score attempt, qs_total = map_option qa_total attempt\<rparr>)))"

definition my_quiz_attempts ::
  "'r env \<Rightarrow> string \<Rightarrow> string \<Rightarrow> ('r world, (string \<times> quiz_attempt) list page) act" where
  "my_quiz_attempts E userId slug =
     bnd (query E (quiz_named slug)) (\<lambda>node.
     case node of
       None \<Rightarrow> ret (Denied 404 ViewQuizNotFound)
     | Some n \<Rightarrow>
         bnd (query E (my_attempts userId (nd_id n) 50)) (\<lambda>attempts.
         ret (Sent 200 (map (\<lambda>a. (''Scored '' @ show_int (qa_score a) @ ''/'' @ show_int (qa_total a) @ '' on '' @ nd_title n, a))
           attempts))))"

definition my_submissions :: "string \<Rightarrow> (submission \<Rightarrow> bool) \<Rightarrow> nat \<Rightarrow> db \<Rightarrow> submission list" where
  "my_submissions u P n d = latest sub_createdAt n (filter (\<lambda>s. sub_userId s = u \<and> P s) (submissions d))"

fun status_name :: "submission_status \<Rightarrow> string" where
  "status_name SubPending = ''PENDING''"
| "status_name SubRunning = ''RUNNING''"
| "status_name SubCompleted = ''COMPLETED''"
| "status_name SubFailed = ''FAILED''"

definition challenge_history ::
  "'r env \<Rightarrow> string \<Rightarrow> string \<Rightarrow> ('r world, (string \<times> submission) list page) act" where
  "challenge_history E userId i =
     bnd (query E (my_submissions userId (\<lambda>s. sub_challengeId s = i) 50)) (\<lambda>submissions.
     ret (Sent 200 (map (\<lambda>s. (''Submission '' @ status_name (sub_status s), s)) submissions)))"

definition my_history :: "'r env \<Rightarrow> string \<Rightarrow> ('r world, (string \<times> int) list page) act" where
  "my_history E userId =
     bnd (query E (\<lambda>d. joined co_nodeId nd_id (nodes d)
       (latest co_createdAt 20 (filter (\<lambda>c. co_userId c = userId) (completions d))))) (\<lambda>completed.
     bnd (query E (\<lambda>d. joined sub_challengeId ch_id (challenges d) (my_submissions userId (\<lambda>s. True) 20 d))) (\<lambda>submitted.
     ret (Sent 200 (latest snd 50
       (map (\<lambda>(c, n). (''Completed \"'' @ nd_title n @ ''\"'', co_createdAt c)) completed @
        map (\<lambda>(s, c). (''Submitted challenge \"'' @ ch_title c @ ''\" - '' @ status_name (sub_status s), sub_createdAt s))
          submitted)))))"

record profile =
  pf_user :: user
  pf_jobTitle :: string
  pf_badges :: "(user_badge \<times> badge) list"
  pf_org :: "org option"

definition my_profile :: "'r env \<Rightarrow> string \<Rightarrow> ('r world, profile page) act" where
  "my_profile E userId =
     bnd (query E (\<lambda>d. map_option (\<lambda>u. \<lparr>pf_user = u, pf_jobTitle = js_or (user_jobTitle u) [],
       pf_badges = joined ub_badgeId bd_id (badges d) (filter (\<lambda>b. ub_userId b = userId) (userBadges d)),
       pf_org = Option.bind (user_orgId u) (\<lambda>i. find (\<lambda>r. org_id r = i) (orgs d))\<rparr>) (find_user userId d))) (\<lambda>found.
     case found of None \<Rightarrow> ret (Denied 404 ViewUserNotFound) | Some p \<Rightarrow> ret (Sent 200 p))"

text \<open>The fields that the body leaves out keep their values.\<close>

definition edit_user :: "string option \<Rightarrow> string option \<Rightarrow> user \<Rightarrow> user" where
  "edit_user name jobTitle u = u\<lparr>user_name := (if name = None then user_name u else name),
     user_jobTitle := (if jobTitle = None then user_jobTitle u else jobTitle)\<rparr>"

definition update_profile ::
  "'r env \<Rightarrow> string \<Rightarrow> string option \<Rightarrow> string option \<Rightarrow> ('r world, user option page) act" where
  "update_profile E userId name jobTitle =
     bnd (run_db E (\<lambda>d. if has_user d userId then
         (let d' = d\<lparr>users := update_rows (\<lambda>r. user_id r = userId) (edit_user name jobTitle) (users d)\<rparr>
          in (Inr (find_user userId d'), d'))
       else (Inl RecordNotFound, d))) (\<lambda>updated.
     ret (Sent 200 updated))"

section \<open>Leaderboards\<close>

record ranked =
  rk_rank :: nat
  rk_id :: string
  rk_name :: string
  rk_username :: "string option"
  rk_avatarUrl :: "string option"
  rk_jobTitle :: "string option"
  rk_xp :: int
  rk_currentStreak :: int

text \<open>A template string shows a missing user name as \<open>null\<close>.\<close>

definition at_name :: "string option \<Rightarrow> string" where
  "at_name un = CHR ''@'' # (case un of None \<Rightarrow> ''null'' | Some s \<Rightarrow> s)"

definition ranked_user :: "(user \<Rightarrow> string) \<Rightarrow> nat \<times> user \<Rightarrow> ranked" where
  "ranked_user fallback = (\<lambda>(idx, u). \<lparr>rk_rank = idx + 1, rk_id = user_id u,
     rk_name = js_or (user_name u) (fallback u), rk_username = user_username u, rk_avatarUrl = user_avatarUrl u,
     rk_jobTitle = user_jobTitle u, rk_xp = user_xp u, rk_currentStreak = user_currentStreak u\<rparr>)"

definition leader_limit :: "string option \<Rightarrow> nat" where
  "leader_limit limit = nat (min 100 (max 1 (case parse_int (js_or limit ''50'') of
     None \<Rightarrow> 50 | Some n \<Rightarrow> if n = 0 then 50 else n)))"

definition category_name :: "category \<Rightarrow> string" where
  "category_name c = (case c of KUBERNETES \<Rightarrow> ''KUBERNETES'' | DOCKER \<Rightarrow> ''DOCKER'' | CICD \<Rightarrow> ''CICD''
     | TERRAFORM \<Rightarrow> ''TERRAFORM'' | BASH \<Rightarrow> ''BASH'' | SECURITY \<Rightarrow> ''SECURITY'' | MONITORING \<Rightarrow> ''MONITORING'')"

text \<open>\<open>metadata.category\<close> of a node.\<close>

definition node_category :: "node \<Rightarrow> string option" where
  "node_category n = (case nd_metadata n of
       ScenarioMetadata x c df ts \<Rightarrow> Some (category_name c) | QuizMetadata m \<Rightarrow> qm_category m | _ \<Rightarrow> None)"

definition upper_char :: "char \<Rightarrow> char" where
  "upper_char c = (let n = of_char c :: nat in if 97 \<le> n \<and> n \<le> 122 then char_of (n - 32) else c)"

definition in_scope :: "string option \<Rightarrow> user \<Rightarrow> bool" where
  "in_scope orgId u \<longleftrightarrow> user_isPublic u \<and> (truthy orgId \<longrightarrow> user_orgId u = orgId)"

definition solves_among :: "string list \<Rightarrow> db \<Rightarrow> user \<Rightarrow> nat" where
  "solves_among nodeIds d u =
     count_rows (\<lambda>c. co_userId c = user_id u \<and> co_nodeId c \<in> set nodeIds) (completions d)"

text \<open>The answer: each user with the number of solves in the category, or of badges without one.\<close>

definition leaderboard ::
  "'r env \<Rightarrow> string option \<Rightarrow> string option \<Rightarrow> string option \<Rightarrow>
   ('r world, (ranked \<times> nat) list page) act" where
  "leaderboard E rawCategory orgId rawLimit =
     (let limit = leader_limit rawLimit;
          category = map_option (map upper_char) rawCategory in
      catch (
        if truthy category \<and> the category \<in> set (map category_name
             [KUBERNETES, DOCKER, CICD, TERRAFORM, BASH, SECURITY, MONITORING]) then
          bnd (query E (\<lambda>d. map nd_id (filter (\<lambda>n. node_category n = category) (nodes d)))) (\<lambda>nodeIds.
          bnd (query E (\<lambda>d. map (\<lambda>u. (u, solves_among nodeIds d u)) (latest user_xp limit
            (filter (\<lambda>u. in_scope orgId u \<and> 0 < solves_among nodeIds d u) (users d))))) (\<lambda>us.
          ret (Sent 200 (map (\<lambda>(idx, u, n). (ranked_user (\<lambda>u. at_name (user_username u)) (idx, u), n)) (enumerate 0 us)))))
        else
          bnd (query E (\<lambda>d. map (\<lambda>u. (u, count_rows (\<lambda>b. ub_userId b = user_id u) (userBadges d)))
            (latest user_xp limit (filter (in_scope orgId) (users d))))) (\<lambda>us.
          ret (Sent 200 (map (\<lambda>(idx, u, n). (ranked_user (\<lambda>u.
              if truthy (user_username u) then at_name (user_username u) else ''Anonymous Engineer'') (idx, u), n))
            (enumerate 0 us))))) (\<lambda>_. ret (Denied 500 ViewFailure)))"

record ranked_member =
  rm_ranked :: ranked
  rm_orgRole :: org_role
  rm_completionsCount :: nat
  rm_badgeCount :: nat
  rm_joinedAt :: int

definition org_leaderboard ::
  "'r env \<Rightarrow> string option \<Rightarrow> string \<Rightarrow> ('r world, ranked_member list page) act" where
  "org_leaderboard E caller orgId =
     (if \<not> truthy caller then ret (Denied 401 ViewUnauthorized)
      else catch (
        bnd (query E (find_member (the caller) orgId)) (\<lambda>membership.
        if membership = None then ret (Denied 403 NotAMember)
        else
          bnd (query E (\<lambda>d. map (\<lambda>(m, u). (m, u, count_rows (\<lambda>c. co_userId c = user_id u) (completions d),
              count_rows (\<lambda>b. ub_userId b = user_id u) (userBadges d)))
            (joined mem_userId user_id (users d) (filter (\<lambda>m. mem_orgId m = orgId) (orgMembers d))))) (\<lambda>members.
          ret (Sent 200 (map (\<lambda>(idx, m, u, cs, bs). \<lparr>rm_ranked = ranked_user (\<lambda>u. at_name (user_username u)) (idx, u),
              rm_orgRole = mem_orgRole m, rm_completionsCount = cs, rm_badgeCount = bs, rm_joinedAt = mem_joinedAt m\<rparr>)
            (enumerate 0 (sort_key (\<lambda>(m, u, cs, bs). - user_xp u) members))))))) (\<lambda>_. ret (Denied 500 ViewFailure)))"

end
