(* ===== verification/Dashboard_Laws.thy ===== *)
theory Dashboard_Laws
  imports Dashboards Curriculum_Laws
begin

text \<open>
  What the pages of Dashboards show: leaderboards hold the best of the public users in order, and the
  dashboard counts no more than it has fetched.
\<close>

section \<open>The latest rows\<close>

lemma latest_facts:
  "length (latest f n rs) = min n (length rs)" "set (latest f n rs) \<subseteq> set rs"
  "sorted_wrt (\<lambda>a b. f b \<le> f a) (latest f n rs)"
proof -
  have "sorted (map (\<lambda>r. - f r) (sort_key (\<lambda>r. - f r) rs))" by simp
  then have "sorted_wrt (\<lambda>a b. f b \<le> f a) (sort_key (\<lambda>r. - f r) rs)" by (simp add: sorted_map)
  then show "sorted_wrt (\<lambda>a b. f b \<le> f a) (latest f n rs)" by (simp add: latest_def sorted_wrt_take)
  show "length (latest f n rs) = min n (length rs)" by (simp add: latest_def)
  show "set (latest f n rs) \<subseteq> set rs"
    unfolding latest_def using set_take_subset [of n "sort_key (\<lambda>r. - f r) rs"] by simp
qed

lemma latest_best:
  assumes "r \<in> set rs" and "r \<notin> set (latest f n rs)" and "s \<in> set (latest f n rs)"
  shows "f r \<le> f s"
proof -
  let ?xs = "sort_key (\<lambda>r. - f r) rs"
  have "sorted (map (\<lambda>r. - f r) ?xs)" by simp
  then have "sorted_wrt (\<lambda>a b. f b \<le> f a) (take n ?xs @ drop n ?xs)" by (simp add: sorted_map)
  moreover have "r \<in> set (take n ?xs) \<union> set (drop n ?xs)"
    unfolding set_append [symmetric] append_take_drop_id using assms(1) by simp
  ultimately show ?thesis using assms(2,3) unfolding sorted_wrt_append latest_def by blast
qed

section \<open>Leaderboards\<close>

text \<open>What a list of ranks promises of the users that it is drawn from.\<close>

definition ranks_best :: "user list \<Rightarrow> nat \<Rightarrow> ranked list \<Rightarrow> bool" where
  "ranks_best us n rks \<longleftrightarrow> length rks = min n (length us) \<and>
     map rk_rank rks = [1..<Suc (length rks)] \<and>
     sorted_wrt (\<lambda>a b. rk_xp b \<le> rk_xp a) rks \<and>
     (\<forall>r \<in> set rks. \<exists>u \<in> set us. rk_id r = user_id u \<and> rk_xp r = user_xp u) \<and>
     (\<forall>u \<in> set us. user_id u \<in> rk_id ` set rks \<or> (\<forall>r \<in> set rks. user_xp u \<le> rk_xp r))"

lemma ranks_best_latest:
  "ranks_best us n (map (ranked_user f) (enumerate 0 (latest user_xp n us)))"
proof -
  let ?best = "latest user_xp n us"
  have sel: "rk_rank (ranked_user f p) = fst p + 1" "rk_id (ranked_user f p) = user_id (snd p)"
    "rk_xp (ranked_user f p) = user_xp (snd p)" for p
    by (simp_all add: ranked_user_def split: prod.split)
  have ids: "snd ` set (enumerate 0 ?best) = set ?best" by (simp only: set_map [symmetric] map_snd_enumerate)
  have inside: "snd p \<in> set ?best" if "p \<in> set (enumerate 0 ?best)" for p
    unfolding ids [symmetric] using that by (rule imageI)
  have "map rk_rank (map (ranked_user f) (enumerate 0 ?best)) = map Suc (map fst (enumerate 0 ?best))"
    by (simp only: map_map comp_def sel Suc_eq_plus1)
  also have "\<dots> = [1..<Suc (length ?best)]" by (simp add: map_Suc_upt)
  finally have ranks: "map rk_rank (map (ranked_user f) (enumerate 0 ?best)) = [1..<Suc (length ?best)]" .
  have "sorted_wrt (\<lambda>a b. user_xp b \<le> user_xp a) (map snd (enumerate 0 ?best))" using latest_facts(3) by simp
  then have order: "sorted_wrt (\<lambda>a b. rk_xp b \<le> rk_xp a) (map (ranked_user f) (enumerate 0 ?best))"
    unfolding sorted_wrt_map sel .
  have member: "\<exists>u \<in> set us. rk_id r = user_id u \<and> rk_xp r = user_xp u"
    if "r \<in> set (map (ranked_user f) (enumerate 0 ?best))" for r
  proof -
    from that obtain p where p: "p \<in> set (enumerate 0 ?best)" "r = ranked_user f p" by auto
    have "snd p \<in> set us" by (rule subsetD [OF latest_facts(2) inside [OF p(1)]])
    then show ?thesis unfolding p(2) sel by blast
  qed
  have rest: "user_id u \<in> rk_id ` set (map (ranked_user f) (enumerate 0 ?best)) \<or>
      (\<forall>r \<in> set (map (ranked_user f) (enumerate 0 ?best)). user_xp u \<le> rk_xp r)" if u: "u \<in> set us" for u
  proof (cases "u \<in> set ?best")
    case True
    then obtain p where "p \<in> set (enumerate 0 ?best)" "snd p = u"
      unfolding ids [symmetric] by blast
    then have "ranked_user f p \<in> set (map (ranked_user f) (enumerate 0 ?best))" "user_id u = rk_id (ranked_user f p)"
      by (simp_all add: sel)
    then show ?thesis by blast
  next
    case False
    have "user_xp u \<le> user_xp (snd p)" if "p \<in> set (enumerate 0 ?best)" for p
      using u False inside [OF that] by (rule latest_best)
    then show ?thesis by (simp add: sel)
  qed
  show ?thesis
    unfolding ranks_best_def
  proof (intro conjI ballI)
    show "length (map (ranked_user f) (enumerate 0 ?best)) = min n (length us)" by (simp add: latest_facts(1))
    show "map rk_rank (map (ranked_user f) (enumerate 0 ?best)) =
        [1..<Suc (length (map (ranked_user f) (enumerate 0 ?best)))]"
      unfolding ranks by simp
  qed (rule order member rest; assumption)+
qed

lemma enumerate_pairs:
  "map (\<lambda>(idx, u, n). (ranked_user f (idx, u), n)) (enumerate k (map (\<lambda>u. (u, g u)) us)) =
   map (\<lambda>p. (ranked_user f p, g (snd p))) (enumerate k us)"
  by (induction us arbitrary: k) simp_all

definition board_users :: "string option \<Rightarrow> string option \<Rightarrow> db \<Rightarrow> user list" where
  "board_users category orgId d = filter (\<lambda>u. in_scope orgId u \<and>
     (category \<noteq> None \<longrightarrow> (\<exists>c \<in> set (completions d). co_userId c = user_id u \<and>
        (\<exists>n \<in> set (nodes d). nd_id n = co_nodeId c \<and> node_category n = category)))) (users d)"

lemma solved_in_category:
  "filter (\<lambda>u. in_scope orgId u \<and> 0 < solves_among (map nd_id (filter (\<lambda>n. node_category n = category) (nodes d))) d u)
     (users d) = board_users category orgId d" if "category = Some c"
proof -
  have among: "co_nodeId co \<in> set (map nd_id (filter (\<lambda>n. node_category n = Some c) (nodes d))) \<longleftrightarrow>
      (\<exists>n \<in> set (nodes d). nd_id n = co_nodeId co \<and> node_category n = Some c)" for co :: completion
    by force
  have "0 < solves_among (map nd_id (filter (\<lambda>n. node_category n = Some c) (nodes d))) d u \<longleftrightarrow>
      (\<exists>co \<in> set (completions d). co_userId co = user_id u \<and>
        (\<exists>n \<in> set (nodes d). nd_id n = co_nodeId co \<and> node_category n = Some c))" for u
    unfolding solves_among_def count_rows_def length_greater_0_conv filter_empty_conv among by blast
  then show ?thesis by (simp add: that board_users_def cong: conj_cong)
qed

text \<open>
  C26. In a calm run the leaderboard shows the best: at most the asked number, never more than a hundred,
  of the public users in scope, in the order of their XP and ranked from one; who is in scope and
  missing has no more XP than anyone shown. With a category, in scope is who solved a node of it.
\<close>

theorem leaderboard_ranks_best:
  assumes "calm E"
  shows "\<exists>rs w'. leaderboard E (map_option category_name category) orgId limit w = (Inr (Sent 200 rs), w') \<and>
    ranks_best (board_users (map_option category_name category) orgId (db w)) (leader_limit limit) (map fst rs) \<and>
    leader_limit limit \<in> {1..100}"
proof -
  have range: "leader_limit limit \<in> {1..100}"
    by (auto simp: leader_limit_def nat_le_iff le_nat_iff split: option.split)
  have best: "ranks_best us n (map fst (map (\<lambda>p. (ranked_user f p, g (snd p))) (enumerate 0 (latest user_xp n us))))"
    for us n f and g :: "user \<Rightarrow> nat"
    using ranks_best_latest [of us n f] by (simp add: comp_def)
  show ?thesis
  proof (cases category)
    case None
    have all: "board_users None orgId (db w) = filter (in_scope orgId) (users (db w))" by (simp add: board_users_def)
    let ?name = "\<lambda>u. if truthy (user_username u) then at_name (user_username u) else ''Anonymous Engineer''"
    let ?rs = "map (\<lambda>p. (ranked_user ?name p, count_rows (\<lambda>b. ub_userId b = user_id (snd p)) (userBadges (db w))))
        (enumerate 0 (latest user_xp (leader_limit limit) (filter (in_scope orgId) (users (db w)))))"
    have "\<exists>w'. leaderboard E None orgId limit w = (Inr (Sent 200 ?rs), w')"
      by (simp add: leaderboard_def Let_def act_simps calm_runs [OF assms] enumerate_pairs)
    then obtain w' where run: "leaderboard E None orgId limit w = (Inr (Sent 200 ?rs), w')" by blast
    show ?thesis
      unfolding None option.map all by (rule exI [of _ ?rs], rule exI [of _ w'], intro conjI run best range)
  next
    case (Some c)
    let ?ids = "map nd_id (filter (\<lambda>n. node_category n = Some (category_name c)) (nodes (db w)))"
    have upper: "map upper_char (category_name c) = category_name c" "category_name c \<noteq> []"
      by (cases c; simp add: category_name_def upper_char_def Let_def)+
    have known: "category_name c \<in> category_name ` {KUBERNETES, DOCKER, CICD, TERRAFORM, BASH, SECURITY, MONITORING}"
      by (cases c) simp_all
    note scope = solved_in_category [OF refl, of orgId "category_name c" "db w"]
    let ?rs = "map (\<lambda>p. (ranked_user (\<lambda>u. at_name (user_username u)) p, solves_among ?ids (db w) (snd p)))
        (enumerate 0 (latest user_xp (leader_limit limit) (board_users (Some (category_name c)) orgId (db w))))"
    have "\<exists>w'. leaderboard E (Some (category_name c)) orgId limit w = (Inr (Sent 200 ?rs), w')"
      using known by (simp add: leaderboard_def Let_def act_simps calm_runs [OF assms] enumerate_pairs upper scope)
    then obtain w' where run: "leaderboard E (Some (category_name c)) orgId limit w = (Inr (Sent 200 ?rs), w')" by blast
    show ?thesis
      unfolding Some option.map by (rule exI [of _ ?rs], rule exI [of _ w'], intro conjI run best range)
  qed
qed

lemma in_enumerate: "(k, x) \<in> set (enumerate n xs) \<Longrightarrow> x \<in> set xs"
  by (auto simp: enumerate_eq_zip dest: set_zip_rightD)

text \<open>
  Whatever fails, a page of an organization's leaderboard is shown only to its members, and it shows
  members of this organization only.
\<close>

lemma org_leaderboard_members:
  assumes "org_leaderboard E caller orgId w = (Inr (Sent 200 rs), w')"
  shows "\<exists>u. caller = Some u \<and> has_key member_key (u, orgId) (orgMembers (db w)) \<and>
    (\<forall>r \<in> set rs. has_key member_key (rk_id (rm_ranked r), orgId) (orgMembers (db w)))"
proof -
  from assms obtain u where u: "caller = Some u" "u \<noteq> []" by (auto simp: org_leaderboard_def ret_def dest: truthyD split: if_splits)
  have sel: "rk_id (ranked_user f p) = user_id (snd p)" for f p by (simp add: ranked_user_def split: prod.split)
  have inside: "has_key member_key (user_id x, orgId) (orgMembers (db w))"
    if "(m, x) \<in> set (joined mem_userId user_id (users (db w)) (filter (\<lambda>m. mem_orgId m = orgId) (orgMembers (db w))))" for m x
    using that by (force simp: joined_def List.map_filter_def has_key_def member_key_def dest: find_in)
  let ?rows = "\<lambda>d. map (\<lambda>(m, x). (m, x, count_rows (\<lambda>c. co_userId c = user_id x) (completions d),
      count_rows (\<lambda>b. ub_userId b = user_id x) (userBadges d)))
    (joined mem_userId user_id (users d) (filter (\<lambda>m. mem_orgId m = orgId) (orgMembers d)))"
  from assms have "find_member u orgId (db w) \<noteq> None"
    and rs: "rs = map (\<lambda>(idx, m, u, cs, bs). \<lparr>rm_ranked = ranked_user (\<lambda>u. at_name (user_username u)) (idx, u),
              rm_orgRole = mem_orgRole m, rm_completionsCount = cs, rm_badgeCount = bs, rm_joinedAt = mem_joinedAt m\<rparr>)
            (enumerate 0 (sort_key (\<lambda>(m, u, cs, bs). - user_xp u) (?rows (db w))))"
    unfolding org_leaderboard_def u
    by (simp_all add: u act_simps query_result split: outcome.splits if_splits option.splits)
  moreover have "has_key member_key (rk_id (rm_ranked r), orgId) (orgMembers (db w))" if "r \<in> set rs" for r
    using that inside unfolding rs by (auto simp: sel dest!: in_enumerate)
  ultimately show ?thesis using u(1) by (auto simp: has_key_find)
qed

section \<open>The dashboard\<close>

lemma dashboard_run:
  assumes "my_dashboard E startOfDay u w = (Inr (Sent 200 p), w')"
  shows "\<exists>g. user_page_of u (db w) = Some g \<and> db w' = db w \<and> dash_badgesEarned p = length (pg_badges g) \<and>
    dash_inProgress p = in_progress_of (pg_sessions g) \<and>
    dash_roadmapsCompleted p = roadmaps_completed (set (map (\<lambda>(co, n). co_nodeId co) (pg_completions g)))
      (map (\<lambda>lp. map ch_id (path_challenges (path_id lp) (db w))) (learningPaths (db w)))"
  using assms unfolding my_dashboard_def
  by (auto elim!: bnd_InrE dest!: query_Inr simp: ret_def now_def look_def Let_def split: option.splits)

text \<open>
  The dashboard counts within a window. Whatever fails, it shows at most ten badges as earned and
  five challenges in progress, and a roadmap with more than ten challenges is never counted as
  completed, whatever the user has completed.
\<close>

lemma dashboard_window:
  assumes "my_dashboard E startOfDay u w = (Inr (Sent 200 p), w')"
  shows "dash_badgesEarned p \<le> 10 \<and> length (dash_inProgress p) \<le> 5 \<and>
    dash_roadmapsCompleted p \<le>
      count_rows (\<lambda>lp. card (set (map ch_id (path_challenges (path_id lp) (db w)))) \<le> 10) (learningPaths (db w))"
proof -
  from dashboard_run [OF assms] obtain g where g: "user_page_of u (db w) = Some g"
    "dash_badgesEarned p = length (pg_badges g)" "dash_inProgress p = in_progress_of (pg_sessions g)"
    "dash_roadmapsCompleted p = roadmaps_completed (set (map (\<lambda>(co, n). co_nodeId co) (pg_completions g)))
      (map (\<lambda>lp. map ch_id (path_challenges (path_id lp) (db w))) (learningPaths (db w)))" by blast
  have joined: "length (joined ref key ss (latest f n rs)) \<le> n" for ref key n f
    and ss :: "'s list" and rs :: "'t list"
    using length_filter_le [of _ "latest f n rs"] latest_facts(1) [of f n rs]
    by (auto simp: joined_def List.map_filter_def intro: order_trans [OF length_filter_le])
  have len: "length (pg_badges g) \<le> 10" "length (pg_completions g) \<le> 10"
    using g(1) joined by (auto simp: user_page_of_def)
  let ?done = "set (map (\<lambda>(co, n). co_nodeId co) (pg_completions g))"
  have small: "card ids \<le> 10" if "ids \<subseteq> ?done" for ids
    using card_mono [OF finite_set that] card_length [of "map (\<lambda>(co, n). co_nodeId co) (pg_completions g)"] len(2) by simp
  have "roadmaps_completed ?done (map ids lps) \<le> count_rows (\<lambda>lp. card (set (ids lp)) \<le> 10) lps"
    for ids and lps :: "learning_path list"
    by (induction lps) (auto simp: roadmaps_completed_def list_all_iff intro!: le_SucI small)
  from this [of "\<lambda>lp. map ch_id (path_challenges (path_id lp) (db w))" "learningPaths (db w)"] show ?thesis
    unfolding g(2-4) using len(1) by (simp only: in_progress_of_def length_take min.cobounded2 simp_thms)
qed

section \<open>Editing the profile\<close>

text \<open>Whatever fails, the row of the caller gets another name and job title at most.\<close>

lemma profile_edit_outcome:
  "db (snd (update_profile E u name title w)) \<in>
     {db w, (db w)\<lparr>users := update_rows (\<lambda>r. user_id r = u) (edit_user name title) (users (db w))\<rparr>}"
proof -
  have "db_post (update_profile E u name title) d (\<lambda>_ d'.
      d' \<in> {d, d\<lparr>users := update_rows (\<lambda>r. user_id r = u) (edit_user name title) (users d)\<rparr>})" for d
    unfolding update_profile_def by (rule post_bnd, rule post_run_db) (simp_all add: Let_def passing_def post_ret)
  then show ?thesis by (simp add: db_post_def)
qed

lemma keep_update_profile: "moves (on_db (keeping constraints)) (update_profile E u name title)"
proof -
  have "constraints (d\<lparr>users := update_rows P (edit_user name title) (users d)\<rparr>)" if "constraints d" for d P
    using that by (auto simp: constraint_defs row_updates edit_user_def)
  then show ?thesis
    unfolding moves_def on_db_def keeping_def using profile_edit_outcome [of E u name title] by (metis insertE singletonD)
qed

section \<open>Examples\<close>

lemma leaderboard_ranks_best_witness:
  "\<exists>rs w'. leaderboard calm_env (map_option category_name (Some DOCKER)) None (Some ''5'') (example_world graph_db) = (Inr (Sent 200 rs), w') \<and>
    ranks_best (board_users (map_option category_name (Some DOCKER)) None graph_db) (leader_limit (Some ''5'')) (map fst rs) \<and>
    leader_limit (Some ''5'') \<in> {1..100}"
  using leaderboard_ranks_best [OF calm_calm_env, where w = "example_world graph_db" and category = "Some DOCKER"
      and limit = "Some ''5''" and orgId = None] unfolding example_world_sel .

definition team_db :: db where
  "team_db = example_db\<lparr>orgs := [\<lparr>org_id = ''o1'', org_name = ''O'', org_slug = ''o'', org_planTier = TEAM,
       org_seatsPurchased = 5, org_ssoProvider = None, org_ssoDomain = None, org_ssoMetadataUrl = None\<rparr>],
     orgMembers := [\<lparr>mem_userId = ''ann'', mem_orgId = ''o1'', mem_orgRole = MEMBER, mem_joinedAt = 0\<rparr>]\<rparr>"

lemma org_leaderboard_members_witness:
  "\<exists>rs. (\<exists>w'. org_leaderboard calm_env (Some ''ann'') ''o1'' (example_world team_db) = (Inr (Sent 200 rs), w')) \<and>
    (\<exists>u. Some ''ann'' = Some u \<and> has_key member_key (u, ''o1'') (orgMembers team_db) \<and>
      (\<forall>r \<in> set rs. has_key member_key (rk_id (rm_ranked r), ''o1'') (orgMembers team_db)))"
proof -
  have "find_member ''ann'' ''o1'' team_db \<noteq> None" by (simp add: team_db_def member_key_def)
  then obtain rs w' where "org_leaderboard calm_env (Some ''ann'') ''o1'' (example_world team_db) = (Inr (Sent 200 rs), w')"
    by (simp add: org_leaderboard_def act_simps calm_runs [OF calm_calm_env])
  from this org_leaderboard_members [OF this] show ?thesis by auto
qed

lemma dashboard_window_witness:
  "\<exists>p. (\<exists>w'. my_dashboard calm_env (\<lambda>t. t) ''ann'' (example_world graph_db) = (Inr (Sent 200 p), w')) \<and>
    dash_badgesEarned p \<le> 10 \<and> length (dash_inProgress p) \<le> 5 \<and>
    dash_roadmapsCompleted p \<le>
      count_rows (\<lambda>lp. card (set (map ch_id (path_challenges (path_id lp) graph_db))) \<le> 10) (learningPaths graph_db)"
proof -
  have "user_page_of ''ann'' graph_db \<noteq> None" by (simp add: user_page_of_def graph_db_def example_db_def example_user_def)
  then obtain g where "user_page_of ''ann'' graph_db = Some g" by auto
  then obtain p w' where run: "my_dashboard calm_env (\<lambda>t. t) ''ann'' (example_world graph_db) = (Inr (Sent 200 p), w')"
    by (cases "pg_org g") (simp_all add: my_dashboard_def act_simps Let_def calm_runs [OF calm_calm_env] now_def look_def)
  from dashboard_window [OF this] show ?thesis unfolding example_world_sel by (intro exI conjI) (rule run, simp_all)
qed

end
