(* ===== verification/Admin.thy ===== *)
theory Admin
  imports Dashboards Accounts
begin

text \<open>
  Who may call the core service (\<open>authenticate\<close> of \<open>services/core/src/app.ts\<close>), and the routes of
  the administrators (\<open>services/core/src/modules/admin/admin.routes.ts\<close>). A token is given by its
  claims, if its signature verifies and it has not expired. The errors of the database that these
  routes do not catch are answered by the framework and stay errors here.
\<close>

definition core_authenticate :: "'r env \<Rightarrow> claims option \<Rightarrow> ('r world, bool) act" where
  "core_authenticate E decoded = catch (
     case decoded of
       None \<Rightarrow> throw ErrorThrown
     | Some c \<Rightarrow>
         if truthy (cl_jti c) then
           bnd (redis_lookup E (denylist_key (the (cl_jti c)))) (\<lambda>isDenylisted.
           ret (isDenylisted \<noteq> Some ''revoked''))
         else ret True) (\<lambda>_. ret False)"

datatype admin_error = InvalidToken | NoIdentity | AdminsOnly

type_synonym 'b admin_answer = "(admin_error, 'b) response"

definition require_admin ::
  "'r env \<Rightarrow> claims option \<Rightarrow> ('r world, 'b admin_answer) act \<Rightarrow> ('r world, 'b admin_answer) act" where
  "require_admin E decoded handler =
     (case decoded of
        None \<Rightarrow> ret (Denied 401 InvalidToken)
      | Some c \<Rightarrow>
          if caller_id c = [] then ret (Denied 401 NoIdentity)
          else
            bnd (query E (find_user (caller_id c))) (\<lambda>user.
            case user of
              None \<Rightarrow> ret (Denied 403 AdminsOnly)
            | Some u \<Rightarrow> if user_role u \<noteq> ADMIN then ret (Denied 403 AdminsOnly) else handler))"

text \<open>A write that returns what it has written.\<close>

definition returning :: "(db \<Rightarrow> (exn + unit) \<times> db) \<Rightarrow> (db \<Rightarrow> 'a) \<Rightarrow> db \<Rightarrow> (exn + 'a) \<times> db" where
  "returning f g d = (case f d of (Inl e, d') \<Rightarrow> (Inl e, d') | (Inr _, d') \<Rightarrow> (Inr (g d'), d'))"

section \<open>Overview\<close>

record overview =
  ov_totalUsers :: nat
  ov_totalOrgs :: nat
  ov_totalChallenges :: nat
  ov_activeSandboxes :: nat
  ov_totalSubmissions :: nat

definition admin_overview :: "'r env \<Rightarrow> claims option \<Rightarrow> ('r world, overview admin_answer) act" where
  "admin_overview E tok = require_admin E tok (
     bnd (query E (\<lambda>d. length (users d))) (\<lambda>us.
     bnd (query E (\<lambda>d. length (orgs d))) (\<lambda>os.
     bnd (query E (\<lambda>d. length (challenges d))) (\<lambda>cs.
     bnd (query E (\<lambda>d. count_rows (\<lambda>s. ls_status s = ACTIVE) (labSessions d))) (\<lambda>ss.
     bnd (query E (\<lambda>d. length (submissions d))) (\<lambda>subs.
     ret (Sent 200 \<lparr>ov_totalUsers = us, ov_totalOrgs = os, ov_totalChallenges = cs, ov_activeSandboxes = ss,
       ov_totalSubmissions = subs\<rparr>)))))))"

section \<open>Users\<close>

text \<open>Tables keep their rows in the order of creation, so that \<open>createdAt: desc\<close> reverses them.\<close>

record 'a paged =
  pp_data :: "'a list"
  pp_page :: int
  pp_limit :: int
  pp_total :: nat
  pp_totalPages :: nat

definition matches_user :: "string option \<Rightarrow> role option \<Rightarrow> user \<Rightarrow> bool" where
  "matches_user search role u \<longleftrightarrow>
     (truthy search \<longrightarrow> contains_text (the search) (Some (user_email u)) \<or>
        contains_text (the search) (user_name u) \<or> contains_text (the search) (user_username u)) \<and>
     (case role of None \<Rightarrow> True | Some r \<Rightarrow> user_role u = r)"

definition page_of :: "int \<Rightarrow> int \<Rightarrow> 'a list \<Rightarrow> 'a list" where
  "page_of page limit rs = take (nat limit) (drop (nat ((page - 1) * limit)) rs)"

text \<open>\<open>role\<close> is \<open>None\<close> for \<open>ALL\<close>. A page that is no number reaches the database as \<open>NaN\<close>, which it refuses.\<close>

definition admin_users ::
  "'r env \<Rightarrow> claims option \<Rightarrow> string option \<Rightarrow> string option \<Rightarrow> string option \<Rightarrow> role option \<Rightarrow>
   ('r world, user paged admin_answer) act" where
  "admin_users E tok rawPage rawLimit rawSearch role = require_admin E tok (
     (let search = map_option trim rawSearch in
      case (parse_int (js_or rawPage ''1''), parse_int (js_or rawLimit ''20'')) of
        (Some p, Some l) \<Rightarrow>
          (let page = max 1 p; limit = min 100 (max 1 l) in
           bnd (query E (\<lambda>d. page_of page limit (filter (matches_user search role) (rev (users d))))) (\<lambda>us.
           bnd (query E (\<lambda>d. count_rows (matches_user search role) (users d))) (\<lambda>total.
           ret (Sent 200 \<lparr>pp_data = us, pp_page = page, pp_limit = limit, pp_total = total,
             pp_totalPages = (total + nat limit - 1) div nat limit\<rparr>))))
      | _ \<Rightarrow> throw InvalidInput))"

text \<open>\<open>orgId\<close>: not given, null or empty, or an organization to connect.\<close>

definition patch_user ::
  "string \<Rightarrow> role option \<Rightarrow> string option option \<Rightarrow> string option \<Rightarrow> db \<Rightarrow> (exn + unit) \<times> db" where
  "patch_user i role orgId name d = guarded
     [(RecordNotFound, \<not> has_user d i),
      (RecordNotFound, case orgId of Some o' \<Rightarrow> truthy o' \<and> \<not> has_key org_id (the o') (orgs d) | None \<Rightarrow> False)]
     (d\<lparr>users := update_rows (\<lambda>r. user_id r = i) (\<lambda>r. r\<lparr>
        user_role := (case role of None \<Rightarrow> user_role r | Some x \<Rightarrow> x),
        user_orgId := (case orgId of None \<Rightarrow> user_orgId r | Some o' \<Rightarrow> js_or_null o'),
        user_name := (case name of None \<Rightarrow> user_name r | Some n \<Rightarrow> Some n)\<rparr>) (users d)\<rparr>) d"

definition admin_patch_user ::
  "'r env \<Rightarrow> claims option \<Rightarrow> string \<Rightarrow> role option \<Rightarrow> string option option \<Rightarrow> string option \<Rightarrow>
   ('r world, user option admin_answer) act" where
  "admin_patch_user E tok i role orgId name = require_admin E tok (
     bnd (run_db E (returning (patch_user i role orgId name) (find_user i))) (\<lambda>u. ret (Sent 200 u)))"

definition admin_delete_user :: "'r env \<Rightarrow> claims option \<Rightarrow> string \<Rightarrow> ('r world, string admin_answer) act" where
  "admin_delete_user E tok i = require_admin E tok (
     sq (run_db E (delete_user i)) (ret (Sent 200 i)))"

section \<open>Organizations\<close>

definition admin_orgs ::
  "'r env \<Rightarrow> claims option \<Rightarrow> ('r world, (org \<times> nat \<times> nat \<times> nat) list admin_answer) act" where
  "admin_orgs E tok = require_admin E tok (
     bnd (query E (\<lambda>d. map (\<lambda>r. (r, count_rows (\<lambda>m. mem_orgId m = org_id r) (orgMembers d),
         count_rows (\<lambda>u. user_orgId u = Some (org_id r)) (users d),
         count_rows (\<lambda>s. os_orgId s = org_id r) (orgScenarios d))) (rev (orgs d)))) (\<lambda>rs.
     ret (Sent 200 rs)))"

definition lower :: "string \<Rightarrow> string" where "lower = map lower_char"

definition admin_create_org ::
  "'r env \<Rightarrow> claims option \<Rightarrow> string \<Rightarrow> string \<Rightarrow> plan_tier option \<Rightarrow> string option \<Rightarrow> string option \<Rightarrow>
   string option \<Rightarrow> ('r world, org admin_answer) act" where
  "admin_create_org E tok name slug planTier ssoDomain ssoProvider ssoMetadataUrl = require_admin E tok (
     with_id E (\<lambda>i.
     let r = \<lparr>org_id = i, org_name = name, org_slug = slug,
           org_planTier = (case planTier of None \<Rightarrow> FREE | Some p \<Rightarrow> p), org_seatsPurchased = 1,
           org_ssoProvider = js_or_null ssoProvider, org_ssoDomain = map_option lower (js_or_null ssoDomain),
           org_ssoMetadataUrl = js_or_null ssoMetadataUrl\<rparr>
     in sq (run_db E (insert_org r)) (ret (Sent 201 r))))"

text \<open>The fields of a request: \<open>None\<close> when they are not given, and null or a string where null is allowed.\<close>

record org_patch =
  ogp_name :: "string option"
  ogp_slug :: "string option"
  ogp_planTier :: "plan_tier option"
  ogp_ssoDomain :: "string option option"
  ogp_ssoProvider :: "string option option"
  ogp_ssoMetadataUrl :: "string option option"
  ogp_seatsPurchased :: "int option"

definition patch_org :: "string \<Rightarrow> org_patch \<Rightarrow> db \<Rightarrow> (exn + unit) \<times> db" where
  "patch_org i p d = guarded
     [(RecordNotFound, \<not> has_key org_id i (orgs d)),
      (UniqueViolation, case ogp_slug p of None \<Rightarrow> False
         | Some s \<Rightarrow> list_ex (\<lambda>r. org_id r \<noteq> i \<and> org_slug r = s) (orgs d))]
     (d\<lparr>orgs := update_rows (\<lambda>r. org_id r = i) (\<lambda>r. r\<lparr>
        org_name := (case ogp_name p of None \<Rightarrow> org_name r | Some x \<Rightarrow> x),
        org_slug := (case ogp_slug p of None \<Rightarrow> org_slug r | Some x \<Rightarrow> x),
        org_planTier := (case ogp_planTier p of None \<Rightarrow> org_planTier r | Some x \<Rightarrow> x),
        org_ssoDomain := (case ogp_ssoDomain p of None \<Rightarrow> org_ssoDomain r
          | Some x \<Rightarrow> map_option lower (js_or_null x)),
        org_ssoProvider := (case ogp_ssoProvider p of None \<Rightarrow> org_ssoProvider r | Some x \<Rightarrow> x),
        org_ssoMetadataUrl := (case ogp_ssoMetadataUrl p of None \<Rightarrow> org_ssoMetadataUrl r | Some x \<Rightarrow> x),
        org_seatsPurchased := (case ogp_seatsPurchased p of None \<Rightarrow> org_seatsPurchased r | Some x \<Rightarrow> x)\<rparr>) (orgs d)\<rparr>) d"

definition admin_patch_org ::
  "'r env \<Rightarrow> claims option \<Rightarrow> string \<Rightarrow> org_patch \<Rightarrow> ('r world, org option admin_answer) act" where
  "admin_patch_org E tok i p = require_admin E tok (
     bnd (run_db E (returning (patch_org i p) (find_org i))) (\<lambda>r. ret (Sent 200 r)))"

text \<open>Members, invites, scenarios and assignments go with their organization; users and challenges lose it.\<close>

definition without_org :: "string \<Rightarrow> db \<Rightarrow> db" where
  "without_org i d = d\<lparr>orgs := filter (\<lambda>r. org_id r \<noteq> i) (orgs d),
     orgMembers := filter (\<lambda>m. mem_orgId m \<noteq> i) (orgMembers d),
     orgInvites := filter (\<lambda>v. inv_orgId v \<noteq> i) (orgInvites d),
     orgScenarios := filter (\<lambda>s. os_orgId s \<noteq> i) (orgScenarios d),
     pathAssignments := filter (\<lambda>a. pa_orgId a \<noteq> i) (pathAssignments d),
     users := update_rows (\<lambda>u. user_orgId u = Some i) (\<lambda>u. u\<lparr>user_orgId := None\<rparr>) (users d),
     challenges := update_rows (\<lambda>c. ch_contributedByOrgId c = Some i) (\<lambda>c. c\<lparr>ch_contributedByOrgId := None\<rparr>)
       (challenges d)\<rparr>"

definition admin_delete_org :: "'r env \<Rightarrow> claims option \<Rightarrow> string \<Rightarrow> ('r world, string admin_answer) act" where
  "admin_delete_org E tok i = require_admin E tok (
     sq (run_db E (\<lambda>d. guarded [(RecordNotFound, \<not> has_key org_id i (orgs d))] (without_org i d) d))
     (ret (Sent 200 i)))"

section \<open>Challenges\<close>

text \<open>\<open>byIdDesc\<close> sorts by identifier in the order of the database.\<close>

definition admin_challenges ::
  "'r env \<Rightarrow> (challenge list \<Rightarrow> challenge list) \<Rightarrow> claims option \<Rightarrow>
   ('r world, (challenge \<times> nat \<times> nat \<times> nat) list admin_answer) act" where
  "admin_challenges E byIdDesc tok = require_admin E tok (
     bnd (query E (\<lambda>d. map (\<lambda>c. (c, count_rows (\<lambda>s. ls_challengeId s = ch_id c) (labSessions d),
         count_rows (\<lambda>s. sub_challengeId s = ch_id c) (submissions d),
         count_rows (\<lambda>m. cm_challengeId m = ch_id c) (comments d))) (byIdDesc (challenges d)))) (\<lambda>cs.
     ret (Sent 200 cs)))"

definition slug_taken :: "string \<Rightarrow> string option \<Rightarrow> db \<Rightarrow> bool" where
  "slug_taken i slug d \<longleftrightarrow> slug \<noteq> None \<and> list_ex (\<lambda>c. ch_id c \<noteq> i \<and> ch_slug c = slug) (challenges d)"

definition insert_challenge :: "challenge \<Rightarrow> db \<Rightarrow> (exn + unit) \<times> db" where
  "insert_challenge c d = guarded
     [(UniqueViolation, has_challenge d (ch_id c)), (UniqueViolation, slug_taken (ch_id c) (ch_slug c) d)]
     (d\<lparr>challenges := challenges d @ [c]\<rparr>) d"

definition admin_create_challenge ::
  "'r env \<Rightarrow> claims option \<Rightarrow> string \<Rightarrow> string option \<Rightarrow> string \<Rightarrow> difficulty \<Rightarrow> category \<Rightarrow> string \<Rightarrow>
   int option \<Rightarrow> string list option \<Rightarrow> ('r world, challenge option admin_answer) act" where
  "admin_create_challenge E tok title slug description difficulty category dockerImage xp tags = require_admin E tok (
     with_id E (\<lambda>i.
     bnd (run_db_at E (\<lambda>t. returning (insert_challenge \<lparr>ch_id = i, ch_title = title, ch_slug = js_or_null slug,
           ch_description = description, ch_difficulty = difficulty, ch_category = category,
           ch_tags = (case tags of None \<Rightarrow> [] | Some ts \<Rightarrow> ts), ch_xp = (case xp of None \<Rightarrow> 100 | Some x \<Rightarrow> x),
           ch_dockerImage = dockerImage, ch_moduleId = None, ch_editorial = None, ch_authorNotes = None,
           ch_contributedByOrgId = None, ch_requiredProvider = ''docker'', ch_guestTrialEligible = False,
           ch_createdAt = t\<rparr>) (find_challenge i))) (\<lambda>c.
     ret (Sent 201 c))))"

record challenge_patch =
  cp_title :: "string option"
  cp_slug :: "string option"
  cp_description :: "string option"
  cp_difficulty :: "difficulty option"
  cp_category :: "category option"
  cp_dockerImage :: "string option"
  cp_xp :: "int option"
  cp_tags :: "string list option"

definition given :: "'a option \<Rightarrow> 'a \<Rightarrow> 'a" where
  "given x old = (case x of None \<Rightarrow> old | Some new \<Rightarrow> new)"

definition patch_challenge :: "string \<Rightarrow> challenge_patch \<Rightarrow> db \<Rightarrow> (exn + unit) \<times> db" where
  "patch_challenge i p d = guarded
     [(RecordNotFound, \<not> has_challenge d i), (UniqueViolation, slug_taken i (cp_slug p) d)]
     (d\<lparr>challenges := update_rows (\<lambda>c. ch_id c = i) (\<lambda>c. c\<lparr>
        ch_title := given (cp_title p) (ch_title c),
        ch_slug := (if cp_slug p = None then ch_slug c else cp_slug p),
        ch_description := given (cp_description p) (ch_description c),
        ch_difficulty := given (cp_difficulty p) (ch_difficulty c),
        ch_category := given (cp_category p) (ch_category c),
        ch_dockerImage := given (cp_dockerImage p) (ch_dockerImage c),
        ch_xp := given (cp_xp p) (ch_xp c), ch_tags := given (cp_tags p) (ch_tags c)\<rparr>) (challenges d)\<rparr>) d"

definition admin_patch_challenge ::
  "'r env \<Rightarrow> claims option \<Rightarrow> string \<Rightarrow> challenge_patch \<Rightarrow> ('r world, challenge option admin_answer) act" where
  "admin_patch_challenge E tok i p = require_admin E tok (
     bnd (run_db E (returning (patch_challenge i p) (find_challenge i))) (\<lambda>c. ret (Sent 200 c)))"

text \<open>
  Likes, bookmarks, comments and list items go with their challenge, share tokens lose it, sessions
  and submissions keep it from being deleted.
\<close>

definition without_challenge :: "string \<Rightarrow> db \<Rightarrow> db" where
  "without_challenge i d = without_comments (\<lambda>c. cm_challengeId c = i)
     (d\<lparr>challenges := filter (\<lambda>c. ch_id c \<noteq> i) (challenges d),
        challengeLikes := filter (\<lambda>r. pr_targetId r \<noteq> i) (challengeLikes d),
        challengeBookmarks := filter (\<lambda>r. pr_targetId r \<noteq> i) (challengeBookmarks d),
        listItems := filter (\<lambda>x. li_challengeId x \<noteq> i) (listItems d),
        shareTokens := update_rows (\<lambda>s. sh_challengeId s = Some i) (\<lambda>s. s\<lparr>sh_challengeId := None\<rparr>) (shareTokens d)\<rparr>)"

definition admin_delete_challenge :: "'r env \<Rightarrow> claims option \<Rightarrow> string \<Rightarrow> ('r world, string admin_answer) act" where
  "admin_delete_challenge E tok i = require_admin E tok (
     sq (run_db E (\<lambda>d. guarded
       [(RecordNotFound, \<not> has_challenge d i),
        (ForeignKeyViolation, has_key ls_challengeId i (labSessions d) \<or> has_key sub_challengeId i (submissions d))]
       (without_challenge i d) d))
     (ret (Sent 200 i)))"

section \<open>Sandboxes\<close>

definition admin_sandboxes ::
  "'r env \<Rightarrow> claims option \<Rightarrow> ('r world, (lab_session \<times> user option \<times> challenge option) list admin_answer) act" where
  "admin_sandboxes E tok = require_admin E tok (
     bnd (query E (\<lambda>d. map (\<lambda>s. (s, find_user (ls_userId s) d, find_challenge (ls_challengeId s) d))
       (latest ls_startedAt 50 (filter (\<lambda>s. ls_status s = ACTIVE) (labSessions d))))) (\<lambda>ss.
     ret (Sent 200 ss)))"

definition admin_terminate ::
  "'r env \<Rightarrow> claims option \<Rightarrow> string \<Rightarrow> ('r world, lab_session option admin_answer) act" where
  "admin_terminate E tok i = require_admin E tok (
     bnd now (\<lambda>t.
     bnd (run_db E (returning (\<lambda>d. guarded [(RecordNotFound, \<not> has_key ls_id i (labSessions d))]
         (d\<lparr>labSessions := update_rows (\<lambda>s. ls_id s = i) (\<lambda>s. s\<lparr>ls_status := TERMINATED, ls_endedAt := Some t\<rparr>)
            (labSessions d)\<rparr>) d) (find_session i))) (\<lambda>s.
     ret (Sent 200 s))))"

end
