(* ===== verification/Admin_Laws.thy ===== *)
theory Admin_Laws
  imports Admin Curriculum_Laws Auth_Steps Org_Laws
begin

text \<open>
  What the routes of the administrators keep and what their guard misses: only administrators change
  anything, the constraints of the database hold, the pages of users cover all of them; but the guard
  takes the token of an unfinished login and a revoked token, and a terminated sandbox is not ended.
\<close>

section \<open>Only administrators\<close>

definition is_admin :: "claims option \<Rightarrow> db \<Rightarrow> bool" where
  "is_admin decoded d \<longleftrightarrow> (\<exists>c u. decoded = Some c \<and> find_user (caller_id c) d = Some u \<and> user_role u = ADMIN)"

lemma moves_require_admin:
  assumes "moves (on_db (keeping I)) m"
  shows "moves (on_db (keeping I)) (require_admin E tok m)"
  unfolding require_admin_def
  by (auto intro!: keeping_steps assms split: option.split)

lemma stopped_at_the_door:
  assumes "\<not> is_admin tok (db w)"
  shows "db (snd (require_admin E tok m w)) = db w" "fst (require_admin E tok m w) \<noteq> Inr (Sent k x)"
  using assms
  by (auto simp: require_admin_def is_admin_def act_simps query_result split: option.split outcome.split)

inductive admin_step :: "'r env \<Rightarrow> claims option \<Rightarrow> 'r world \<Rightarrow> 'r world \<Rightarrow> bool" for E tok where
  "admin_step E tok w (snd (admin_patch_user E tok i role orgId name w))"
| "admin_step E tok w (snd (admin_delete_user E tok i w))"
| "admin_step E tok w (snd (admin_create_org E tok n s p sd sp sm w))"
| "admin_step E tok w (snd (admin_patch_org E tok i op w))"
| "admin_step E tok w (snd (admin_delete_org E tok i w))"
| "admin_step E tok w (snd (admin_create_challenge E tok title slug desc df cat img xp tags w))"
| "admin_step E tok w (snd (admin_patch_challenge E tok i cp w))"
| "admin_step E tok w (snd (admin_delete_challenge E tok i w))"
| "admin_step E tok w (snd (admin_terminate E tok i w))"

lemmas admin_mutations = admin_patch_user_def admin_delete_user_def admin_create_org_def admin_patch_org_def
  admin_delete_org_def admin_create_challenge_def admin_patch_challenge_def admin_delete_challenge_def admin_terminate_def

text \<open>
  C7. Whatever fails, a request to the administration changes the database only if its token names a
  user who is an administrator in the database at that moment, whatever role the token claims.
\<close>

theorem only_admins_change:
  assumes "admin_step E tok w w'" and "db w' \<noteq> db w"
  shows "\<exists>c u. tok = Some c \<and> find_user (caller_id c) (db w) = Some u \<and> user_role u = ADMIN"
proof (rule ccontr)
  assume "\<not> ?thesis"
  then have "\<not> is_admin tok (db w)" by (simp add: is_admin_def)
  from assms(1) have "db w' = db w"
    by cases (simp_all only: admin_mutations stopped_at_the_door(1) [OF \<open>\<not> is_admin tok (db w)\<close>])
  with assms(2) show False by simp
qed

section \<open>The constraints of the database\<close>

lemma snd_returning: "snd (returning f g d) = snd (f d)"
  by (simp add: returning_def split: prod.split sum.split)

lemma keep_returning:
  "(\<And>d. constraints d \<Longrightarrow> constraints (snd (f d))) \<Longrightarrow> moves (on_db (keeping constraints)) (run_db E (returning f g))"
  "(\<And>t d. constraints d \<Longrightarrow> constraints (snd (h t d))) \<Longrightarrow>
   moves (on_db (keeping constraints)) (run_db_at E (\<lambda>t. returning (h t) g))"
  by (rule kept.moves_run_db kept.moves_run_db_at, simp add: snd_returning keeping_def)+

lemma guarded_keeps:
  "(list_all (\<lambda>g. \<not> snd g) gs \<Longrightarrow> constraints d') \<Longrightarrow> constraints d \<Longrightarrow> constraints (snd (guarded gs d' d))"
  using guarded_outcomes [of gs d' d] by auto

lemma has_key_filter_other: "has_key f k (filter (\<lambda>r. f r \<noteq> i) rs) \<longleftrightarrow> k \<noteq> i \<and> has_key f k rs"
  by (auto simp: has_key_def)

lemma without_org_constraints: "constraints d \<Longrightarrow> constraints (without_org i d)"
  by (auto simp: constraint_defs without_org_def row_updates has_key_filter_other)

text \<open>The deletion of a challenge as its comments first, then the rows of the other tables.\<close>

definition strip_challenge :: "string \<Rightarrow> db \<Rightarrow> db" where
  "strip_challenge i d = d\<lparr>challenges := filter (\<lambda>c. ch_id c \<noteq> i) (challenges d),
     challengeLikes := filter (\<lambda>r. pr_targetId r \<noteq> i) (challengeLikes d),
     challengeBookmarks := filter (\<lambda>r. pr_targetId r \<noteq> i) (challengeBookmarks d),
     listItems := filter (\<lambda>x. li_challengeId x \<noteq> i) (listItems d),
     shareTokens := update_rows (\<lambda>s. sh_challengeId s = Some i) (\<lambda>s. s\<lparr>sh_challengeId := None\<rparr>) (shareTokens d)\<rparr>"

lemma strip_challenge_constraints:
  assumes "constraints d" and "\<not> has_key ls_challengeId i (labSessions d)" and "\<not> has_key sub_challengeId i (submissions d)"
    and "\<forall>c \<in> set (comments d). cm_challengeId c \<noteq> i"
  shows "constraints (strip_challenge i d)"
  using assms unfolding strip_challenge_def
  by (auto simp: constraint_defs row_updates has_key_filter_other) (auto simp: has_key_def)

lemma without_challenge_constraints:
  assumes "constraints d" and "\<not> has_key ls_challengeId i (labSessions d)" and "\<not> has_key sub_challengeId i (submissions d)"
  shows "constraints (without_challenge i d)"
proof -
  let ?d = "without_comments (\<lambda>c. cm_challengeId c = i) d"
  have "without_challenge i d = strip_challenge i ?d"
    by (simp add: without_challenge_def strip_challenge_def without_comments_def Let_def)
  moreover have "constraints (strip_challenge i ?d)"
  proof (rule strip_challenge_constraints)
    show "constraints ?d" using assms(1) by (rule without_comments_constraints)
    show "\<forall>c \<in> set (comments ?d). cm_challengeId c \<noteq> i"
      using drop_orphans_subset [of "filter (\<lambda>c. cm_challengeId c \<noteq> i) (comments d)"]
      by (auto simp: without_comments_def Let_def)
  qed (use assms in \<open>simp_all add: without_comments_def Let_def\<close>)
  ultimately show ?thesis by simp
qed

lemma unique_by_rekey:
  assumes "unique_by f rs" and "unique_by key rs" and "\<And>r. r \<in> set rs \<Longrightarrow> key r \<noteq> i \<Longrightarrow> f r \<noteq> s"
    and "\<And>r. f (u r) = s"
  shows "unique_by f (update_rows (\<lambda>r. key r = i) u rs)"
  using assms(1-3)
proof (induction rs)
  case (Cons a rs)
  have IH: "unique_by f (update_rows (\<lambda>r. key r = i) u rs)" using Cons by auto
  show ?case
  proof (cases "key a = i")
    case True
    then have "update_rows (\<lambda>r. key r = i) u rs = rs"
      unfolding update_rows_def using Cons(3) by (intro map_idI) (auto simp: has_key_def)
    with True Cons assms(4) show ?thesis by (auto simp: has_key_def)
  next
    case False
    then have "f a \<noteq> s" using Cons(4) [of a] by simp
    with False IH Cons(2) assms(4) show ?thesis by (auto simp: has_key_def set_update_rows)
  qed
qed simp

lemma patch_constraints:
  assumes "constraints d"
  shows "constraints (snd (patch_user i role orgId name d))" "constraints (snd (patch_org i p d))"
    "constraints (snd (patch_challenge i q d))" "constraints (snd (insert_challenge c d))"
proof -
  show "constraints (snd (patch_user i role orgId name d))"
    unfolding patch_user_def using assms by (rule guarded_keeps [rotated]) (use assms in \<open>simp add: constraint_defs row_updates\<close>)
  show "constraints (snd (patch_challenge i q d))"
    unfolding patch_challenge_def using assms by (rule guarded_keeps [rotated]) (use assms in \<open>simp add: constraint_defs row_updates\<close>)
  show "constraints (snd (insert_challenge c d))"
    unfolding insert_challenge_def using assms by (rule guarded_keeps [rotated]) (use assms in \<open>simp add: constraint_defs\<close>)
  show "constraints (snd (patch_org i p d))"
    unfolding patch_org_def using assms
  proof (rule guarded_keeps [rotated])
    assume ok: "list_all (\<lambda>g. \<not> snd g) [(RecordNotFound, \<not> has_key org_id i (orgs d)),
      (UniqueViolation, case ogp_slug p of None \<Rightarrow> False | Some s \<Rightarrow> list_ex (\<lambda>r. org_id r \<noteq> i \<and> org_slug r = s) (orgs d))]"
    let ?u = "\<lambda>r. r\<lparr>org_name := (case ogp_name p of None \<Rightarrow> org_name r | Some x \<Rightarrow> x),
        org_slug := (case ogp_slug p of None \<Rightarrow> org_slug r | Some x \<Rightarrow> x),
        org_planTier := (case ogp_planTier p of None \<Rightarrow> org_planTier r | Some x \<Rightarrow> x),
        org_ssoDomain := (case ogp_ssoDomain p of None \<Rightarrow> org_ssoDomain r
          | Some x \<Rightarrow> map_option lower (js_or_null x)),
        org_ssoProvider := (case ogp_ssoProvider p of None \<Rightarrow> org_ssoProvider r | Some x \<Rightarrow> x),
        org_ssoMetadataUrl := (case ogp_ssoMetadataUrl p of None \<Rightarrow> org_ssoMetadataUrl r | Some x \<Rightarrow> x),
        org_seatsPurchased := (case ogp_seatsPurchased p of None \<Rightarrow> org_seatsPurchased r | Some x \<Rightarrow> x)\<rparr>"
    have "unique_by org_slug (update_rows (\<lambda>r. org_id r = i) ?u (orgs d))"
    proof (cases "ogp_slug p")
      case None
      then show ?thesis using assms by (subst unique_by_update) (simp_all add: constraint_defs)
    next
      case (Some s)
      show ?thesis
        by (rule unique_by_rekey [where s = s]) (use assms ok Some in \<open>auto simp: constraint_defs list_ex_iff\<close>)
    qed
    then show "constraints (d\<lparr>orgs := update_rows (\<lambda>r. org_id r = i) ?u (orgs d)\<rparr>)"
      using assms by (simp add: constraint_defs row_updates)
  qed
qed

lemma keep_admin:
  "moves (on_db (keeping constraints)) (admin_patch_user E tok i role orgId name)"
  "moves (on_db (keeping constraints)) (admin_delete_user E tok i)"
  "moves (on_db (keeping constraints)) (admin_create_org E tok n s p sd sp sm)"
  "moves (on_db (keeping constraints)) (admin_patch_org E tok i op)"
  "moves (on_db (keeping constraints)) (admin_delete_org E tok i)"
  "moves (on_db (keeping constraints)) (admin_create_challenge E tok title slug desc df cat img xp tags)"
  "moves (on_db (keeping constraints)) (admin_patch_challenge E tok i cp)"
  "moves (on_db (keeping constraints)) (admin_delete_challenge E tok i)"
  "moves (on_db (keeping constraints)) (admin_terminate E tok i)"
proof -
  have close: "constraints (snd (guarded gs (d\<lparr>labSessions := update_rows P (\<lambda>s. s\<lparr>ls_status := TERMINATED, ls_endedAt := x\<rparr>)
      (labSessions d)\<rparr>) d))" if "constraints d" for d gs P x
    using that by (rule guarded_keeps [rotated]) (use that in \<open>simp add: constraint_defs row_updates\<close>)
  have org: "constraints (snd (insert_org r d))" if "constraints d" for r d
    unfolding insert_org_def using that by (rule guarded_keeps [rotated]) (use that in \<open>simp add: constraint_defs\<close>)
  show "moves (on_db (keeping constraints)) (admin_delete_challenge E tok i)"
    unfolding admin_delete_challenge_def
    by (intro moves_require_admin keeping_steps) (simp add: without_challenge_constraints)
  show "moves (on_db (keeping constraints)) (admin_delete_org E tok i)"
    unfolding admin_delete_org_def
    by (intro moves_require_admin keeping_steps) (simp add: without_org_constraints)
  show "moves (on_db (keeping constraints)) (admin_create_org E tok n s p sd sp sm)"
    unfolding admin_create_org_def Let_def
    by (intro moves_require_admin keeping_steps kept.moves_run_db) (simp add: org keeping_def)
  show "moves (on_db (keeping constraints)) (admin_delete_user E tok i)"
    unfolding admin_delete_user_def by (intro moves_require_admin keeping_steps keep_delete_user)
  show "moves (on_db (keeping constraints)) (admin_patch_user E tok i role orgId name)"
    "moves (on_db (keeping constraints)) (admin_patch_org E tok i op)"
    "moves (on_db (keeping constraints)) (admin_create_challenge E tok title slug desc df cat img xp tags)"
    "moves (on_db (keeping constraints)) (admin_patch_challenge E tok i cp)"
    "moves (on_db (keeping constraints)) (admin_terminate E tok i)"
    unfolding admin_mutations
    by (intro moves_require_admin keeping_steps keep_returning patch_constraints close; assumption)+
qed

lemma admin_step_constraints:
  assumes "admin_step E tok w w'" and "constraints (db w)"
  shows "constraints (db w')"
proof -
  note runs = keep_admin [THEN moves_db_run]
  from assms(1) have "keeping constraints (db w) (db w')"
    by cases (simp_all only: runs)
  with assms(2) show ?thesis by (simp add: keeping_def)
qed

section \<open>Pages\<close>

lemma concat_pages: "concat (map (\<lambda>k. take l (drop (k * l) rs)) [0..<n]) = take (n * l) rs"
proof (induction n)
  case (Suc n)
  have "take (n * l) rs @ take l (drop (n * l) rs) = take (Suc n * l) rs"
    by (simp add: take_add [symmetric] add.commute)
  with Suc show ?case by simp
qed simp

lemma upto_int: "[1..int n] = map (\<lambda>k. int k + 1) [0..<n]"
  by (induction n) (simp_all add: upto_rec2)

lemma pages_cover:
  assumes "0 < l"
  shows "concat (map (\<lambda>p. page_of p (int l) rs) [1..int ((length rs + l - 1) div l)]) = rs"
proof -
  let ?n = "(length rs + l - 1) div l"
  have "page_of (int k + 1) (int l) rs = take l (drop (k * l) rs)" for k
    by (simp add: page_of_def nat_mult_distrib)
  then have "concat (map (\<lambda>p. page_of p (int l) rs) [1..int ?n]) = concat (map (\<lambda>k. take l (drop (k * l) rs)) [0..<?n])"
    unfolding upto_int by (simp add: comp_def)
  also have "\<dots> = take (?n * l) rs" by (rule concat_pages)
  also have "\<dots> = rs"
  proof -
    have "length rs + l - 1 < Suc ?n * l" using assms by (metis div_less_iff_less_mult lessI mult.commute)
    then show ?thesis by (simp add: algebra_simps)
  qed
  finally show ?thesis .
qed

text \<open>
  In a calm run the pages of users cover everything: an administrator who fetches the pages from one
  to the reported number of pages sees each user that matches exactly once, the newest first.
\<close>

lemma user_pages_cover:
  assumes "calm E" and "find_user (caller_id c) (db w) = Some u" and "user_role u = ADMIN" and "caller_id c \<noteq> []"
    and "0 < l" and "l \<le> 100"
  shows "\<exists>n. (\<forall>p \<ge> 1. \<exists>w'. admin_users E (Some c) (Some (show_int p)) (Some (show_int l)) search role w =
      (Inr (Sent 200 \<lparr>pp_data = page_of p l (filter (matches_user (map_option trim search) role) (rev (users (db w)))), pp_page = p, pp_limit = l,
        pp_total = length (filter (matches_user (map_option trim search) role) (users (db w))), pp_totalPages = n\<rparr>), w')) \<and>
    concat (map (\<lambda>p. page_of p l (filter (matches_user (map_option trim search) role) (rev (users (db w))))) [1..int n]) =
      filter (matches_user (map_option trim search) role) (rev (users (db w)))"
proof -
  let ?rows = "filter (matches_user (map_option trim search) role) (rev (users (db w)))"
  let ?n = "(length ?rows + nat l - 1) div nat l"
  have len: "length ?rows = length (filter (matches_user (map_option trim search) role) (users (db w)))"
    by (simp add: rev_filter [symmetric])
  have num: "show_int x \<noteq> []" for x
    using parse_show [of x] by (auto simp: parse_int_def)
  have run: "\<exists>w'. admin_users E (Some c) (Some (show_int p)) (Some (show_int l)) search role w =
      (Inr (Sent 200 \<lparr>pp_data = page_of p l ?rows, pp_page = p, pp_limit = l, pp_total = length ?rows, pp_totalPages = ?n\<rparr>), w')"
    if "1 \<le> p" for p
    using that assms(2-6)
    by (simp add: admin_users_def require_admin_def act_simps calm_runs [OF assms(1)] num parse_show Let_def count_rows_def len)
  have "concat (map (\<lambda>p. page_of p (int (nat l)) ?rows) [1..int ?n]) = ?rows"
    by (rule pages_cover) (use assms(5) in simp)
  then show ?thesis
    using run assms(5) unfolding len [symmetric] by (intro exI [of _ ?n]) simp
qed

section \<open>Terminated sandboxes\<close>

text \<open>
  An administrator who terminates a sandbox marks its session, whatever its status was, and files no
  event: nothing tells the sandbox or the other services.
\<close>

lemma terminate_files_nothing: "coreOutbox (db (snd (admin_terminate E tok i w))) = coreOutbox (db w)"
proof -
  have "moves (on_db (fixing coreOutbox)) (run_db E (returning (\<lambda>d. guarded [(RecordNotFound, \<not> has_key ls_id i (labSessions d))]
         (d\<lparr>labSessions := update_rows (\<lambda>s. ls_id s = i) (\<lambda>s. s\<lparr>ls_status := TERMINATED, ls_endedAt := Some t\<rparr>)
            (labSessions d)\<rparr>) d) (find_session i)))" for t
    by (rule fixed.moves_run_db) (simp add: snd_returning fixing_def)
  then have "moves (on_db (fixing coreOutbox)) (admin_terminate E tok i)"
    unfolding admin_terminate_def require_admin_def
    by (auto intro!: fixing_steps split: option.split)
  then show ?thesis by (auto dest: moves_db_run simp: fixing_def)
qed

lemma terminate_any_status:
  assumes "calm E" and "find_user (caller_id c) (db w) = Some u" and "user_role u = ADMIN" and "caller_id c \<noteq> []"
    and "has_key ls_id i (labSessions (db w))"
  shows "\<exists>s w'. admin_terminate E (Some c) i w = (Inr (Sent 200 s), w') \<and>
    (\<forall>r \<in> set (labSessions (db w')). ls_id r = i \<longrightarrow> ls_status r = TERMINATED)"
  using assms(2-5)
  by (simp add: admin_terminate_def require_admin_def act_simps calm_runs [OF assms(1)] now_def look_def returning_def
      ball_update_rows)

end
