(* ===== verification/Access_Laws.thy ===== *)
theory Access_Laws
  imports Admin_Laws Login_Laws
begin

text \<open>
  Tokens of the auth service at the doors of the core service: a token is refused there when it was
  revoked on its own, but not when all tokens of its user were; the administrators' door does not
  ask for revocations at all; and the token that only says that a second factor is due opens both.
\<close>

lemma core_authenticate_calm:
  assumes "calm E"
  shows "fst (core_authenticate E (Some c) w) = Inr (\<not> truthy (cl_jti c) \<or>
    redis_get (redis_api E) (clock (tick E w)) (denylist_key (the (cl_jti c))) (redis w) \<noteq> Some ''revoked'')"
  by (simp add: core_authenticate_def act_simps calm_redis_runs [OF assms] del: tick_simps(11))

lemma door_opens:
  assumes "calm E" and "find_user (caller_id c) (db w) = Some u" and "user_role u = ADMIN" and "caller_id c \<noteq> []"
  shows "require_admin E (Some c) handler w = handler (tick E w)"
  using assms(2-4) by (simp add: require_admin_def act_simps calm_runs [OF assms(1)])

section \<open>Revocation\<close>

text \<open>
  A token that was revoked on its own is refused by the routes that authenticate, as long as the
  mark of its revocation lives, but the routes of the administrators still take it.
\<close>

lemma revoked_token_administers:
  assumes "redis_store (redis_api E) view" and "calm E" and "\<And>n. latency E n \<le> 250"
    and "cl_jti c = Some j" and "j \<noteq> []" and "denylistAccessToken E (cl_jti c) w = (Inr (), w')"
    and "find_user (caller_id c) (db w) = Some u" and "user_role u = ADMIN" and "caller_id c \<noteq> []"
  shows "fst (core_authenticate E (Some c) w') = Inr False \<and>
    require_admin E (Some c) handler w' = handler (tick E w')"
proof -
  have w': "w' = (tick E w)\<lparr>redis := redis_set_ex (redis_api E) (clock (tick E w)) (denylist_key j) ''revoked'' 900 (redis w)\<rparr>"
    using assms(4-6) by (simp add: denylistAccessToken_def calm_redis_runs [OF assms(2)] del: tick_simps(11))
  have "clock (tick E w') < clock (tick E w) + 900 * 1000"
    using assms(3) [of "calls w'"] by (simp add: w')
  then have "redis_get (redis_api E) (clock (tick E w')) (denylist_key j) (redis w') = Some ''revoked''"
    by (simp add: w' redis_store.get_law [OF assms(1)] redis_store.set_law [OF assms(1)] del: tick_simps(11))
  then have "fst (core_authenticate E (Some c) w') = Inr False"
    using assms(4,5) by (simp add: core_authenticate_calm [OF assms(2)])
  moreover have "find_user (caller_id c) (db w') = Some u" using assms(7) by (simp add: w')
  ultimately show ?thesis using door_opens [OF assms(2) _ assms(8,9)] by blast
qed

text \<open>
  A log-out everywhere does not reach the core service. Whoever holds another token of the user,
  one that was not revoked on its own, is still let in there, although the account routes refuse it.
\<close>

lemma logout_all_misses_core:
  assumes "redis_store (redis_api E) view" and "calm E" and "logout_all E c w = (r, w')"
    and "cl_jti c' = Some j" and "cl_jti c \<noteq> Some j" and "view (redis w) (denylist_key j) = None"
    and "view (redis v) (denylist_key j) = view (redis w') (denylist_key j)"
  shows "fst (core_authenticate E (Some c') v) = Inr True"
proof -
  let ?k = "denylist_key j"
  from redis_store.invalidate_run [OF assms(1,2) refl, of "cl_sub c" w] obtain u where
    u: "invalidateAllSessions E (cl_sub c) w = (Inr (), u)"
      "\<forall>k. \<not> starts_with (refresh_prefix (cl_sub c)) k \<and> k \<noteq> revoked_key (cl_sub c) \<longrightarrow> view (redis u) k = view (redis w) k"
    by blast
  have "\<not> starts_with (refresh_prefix (cl_sub c)) ?k" "?k \<noteq> revoked_key (cl_sub c)"
    by (simp_all add: starts_with_def refresh_prefix_def denylist_key_def revoked_key_def)
  with u(2) assms(6) have "view (redis u) ?k = None" by simp
  moreover have "denylist_key i \<noteq> ?k" if "cl_jti c = Some i" for i
    using that assms(5) by (simp add: denylist_key_def)
  ultimately have "view (redis w') ?k = None"
    using assms(3) u(1)
    by (cases "cl_jti c") (auto simp: logout_all_def denylistAccessToken_def logSecurityEvent_def act_simps
        calm_runs [OF assms(2)] calm_redis_runs [OF assms(2)] redis_store.set_law [OF assms(1)] split: if_splits)
  then have "redis_get (redis_api E) t ?k (redis v) = None" for t
    using assms(7) by (simp add: redis_store.get_law [OF assms(1)])
  then show ?thesis using assms(4) by (simp add: core_authenticate_calm [OF assms(2)])
qed

section \<open>The second factor\<close>

text \<open>
  Where the second factor is on, the password alone gives a token that the core service takes for
  a full one: with it every route that authenticates is open, and for an administrator the routes of
  the administrators are too.
\<close>

lemma second_factor_not_needed:
  assumes "login E A email pw w = (Inr (Answer k (MfaRequired m)), w')"
  shows "\<exists>user. find_email email (db w) = Some user \<and> user_mfaEnabled user \<and> caller_id m = user_id user \<and>
    (\<forall>v. core_authenticate E' (Some m) v = (Inr True, v)) \<and>
    (\<forall>v. calm E' \<longrightarrow> user_role user = ADMIN \<longrightarrow> user_id user \<noteq> [] \<longrightarrow> find_user (user_id user) (db v) = Some user \<longrightarrow>
      require_admin E' (Some m) handler v = handler (tick E' v))"
proof -
  from login_grants [OF assms] obtain user t where u: "find_email email (db w) = Some user" "user_mfaEnabled user"
    and m: "m = mfa_claims A (user_id user) t" by auto
  have id: "caller_id m = user_id user" and jti: "cl_jti m = None" by (simp_all add: m mfa_claims_def caller_id_def)
  have "core_authenticate E' (Some m) v = (Inr True, v)" for v
    by (simp add: core_authenticate_def jti act_simps)
  with u id show ?thesis by (intro exI [of _ user] conjI allI impI) (simp_all add: door_opens)
qed

section \<open>Examples\<close>

definition root_claims :: "string \<Rightarrow> claims" where
  "root_claims j = \<lparr>cl_sub = ''root'', cl_id = None, cl_email = None, cl_role = Some ADMIN, cl_orgId = None,
     cl_iss = None, cl_jti = Some j, cl_pendingMfa = False, cl_iat = 1, cl_exp = 901\<rparr>"

lemma root_facts:
  "caller_id (root_claims j) = ''root''" "cl_jti (root_claims j) = Some j"
  "find_user ''root'' example_db = Some (example_user ''root'' ADMIN)" "user_role (example_user ''root'' ADMIN) = ADMIN"
  by (simp_all add: caller_id_def root_claims_def example_db_def example_user_def)

lemma revoked_token_administers_witness:
  "fst (core_authenticate calm_env (Some (root_claims ''j'')) (snd (denylistAccessToken calm_env (Some ''j'') (example_world example_db)))) = Inr False \<and>
   require_admin calm_env (Some (root_claims ''j'')) (ret (Sent 200 ()))
     (snd (denylistAccessToken calm_env (Some ''j'') (example_world example_db))) =
   ret (Sent 200 ()) (tick calm_env (snd (denylistAccessToken calm_env (Some ''j'') (example_world example_db))))"
proof -
  let ?w = "example_world example_db"
  have run: "denylistAccessToken calm_env (cl_jti (root_claims ''j'')) ?w = (Inr (), snd (denylistAccessToken calm_env (Some ''j'') ?w))"
    unfolding root_facts by (simp add: denylistAccessToken_def calm_redis_runs)
  show ?thesis
    by (rule revoked_token_administers [of calm_env map_of _ "''j''" _ _ "example_user ''root'' ADMIN", OF _ _ _ _ _ run])
       (simp_all add: alist_redis.redis_store_axioms root_facts)
qed

lemma logout_all_misses_core_witness:
  "fst (core_authenticate calm_env (Some (root_claims ''other'')) (snd (logout_all calm_env (root_claims ''j'') (example_world example_db)))) = Inr True"
  by (rule logout_all_misses_core [of calm_env map_of "root_claims ''j''" "example_world example_db" "fst (logout_all calm_env (root_claims ''j'') (example_world example_db))"
        "snd (logout_all calm_env (root_claims ''j'') (example_world example_db))" _ "''other''"])
     (simp_all add: alist_redis.redis_store_axioms root_facts)

text \<open>The administrator with a second factor.\<close>

definition mfa_db :: db where
  "mfa_db = example_db\<lparr>users := [(example_user ''root'' ADMIN)\<lparr>user_mfaEnabled := True\<rparr>]\<rparr>"

lemma second_factor_not_needed_witness:
  "\<exists>m w'. login calm_env example_auth ''root@x.io'' ''hash'' (example_world mfa_db) = (Inr (Answer 200 (MfaRequired m)), w') \<and>
    (\<exists>user. find_email ''root@x.io'' mfa_db = Some user \<and> user_mfaEnabled user \<and> caller_id m = user_id user \<and>
    (\<forall>v. core_authenticate calm_env (Some m) v = (Inr True, v)) \<and>
    (\<forall>v. calm calm_env \<longrightarrow> user_role user = ADMIN \<longrightarrow> user_id user \<noteq> [] \<longrightarrow> find_user (user_id user) (db v) = Some user \<longrightarrow>
      require_admin calm_env (Some m) (ret (Sent 200 ())) v = ret (Sent 200 ()) (tick calm_env v)))"
proof -
  let ?run = "login calm_env example_auth ''root@x.io'' ''hash'' (example_world mfa_db)"
  have "case fst ?run of Inr (Answer k (MfaRequired m)) \<Rightarrow> k = 200 | _ \<Rightarrow> False" by code_simp
  then obtain m w' where run: "?run = (Inr (Answer 200 (MfaRequired m)), w')"
    by (cases ?run) (auto split: sum.splits answer.splits login_result.splits)
  from second_factor_not_needed [OF run] run show ?thesis unfolding example_world_sel by blast
qed

lemma only_admins_change_witness:
  "\<exists>w'. admin_step calm_env (Some (root_claims ''j'')) (example_world example_db) w' \<and> db w' \<noteq> example_db \<and>
    (\<exists>c u. Some (root_claims ''j'') = Some c \<and> find_user (caller_id c) example_db = Some u \<and> user_role u = ADMIN)"
proof -
  let ?w' = "snd (admin_delete_user calm_env (Some (root_claims ''j'')) ''bob'' (example_world example_db))"
  have step: "admin_step calm_env (Some (root_claims ''j'')) (example_world example_db) ?w'" by (rule admin_step.intros)
  have "length (users (db ?w')) = 2" by code_simp
  moreover have "length (users example_db) = 3" by code_simp
  ultimately have "db ?w' \<noteq> example_db" by auto
  with only_admins_change [OF step] step show ?thesis unfolding example_world_sel by blast
qed

lemma user_pages_cover_witness:
  "\<exists>n. (\<forall>p \<ge> 1. \<exists>w'. admin_users calm_env (Some (root_claims ''j'')) (Some (show_int p)) (Some (show_int 2)) None None (example_world example_db) =
      (Inr (Sent 200 \<lparr>pp_data = page_of p 2 (filter (matches_user None None) (rev (users example_db))), pp_page = p, pp_limit = 2,
        pp_total = length (filter (matches_user None None) (users example_db)), pp_totalPages = n\<rparr>), w')) \<and>
    concat (map (\<lambda>p. page_of p 2 (filter (matches_user None None) (rev (users example_db)))) [1..int n]) =
      filter (matches_user None None) (rev (users example_db))"
  using user_pages_cover [OF calm_calm_env, where w = "example_world example_db" and c = "root_claims ''j''" and l = 2
      and search = None and role = None and u = "example_user ''root'' ADMIN"]
  by (simp add: root_facts)

end
