(* ===== verification/Articles.thy ===== *)
theory Articles
  imports Admin Social_Laws Social_Steps
begin

text \<open>
  The articles (\<open>services/core/src/modules/content/article.routes.ts\<close>): the list and its filters, the view,
  the creation with its generated slug, likes, bookmarks and reports; and what they promise. Text is ASCII
  where case matters.
\<close>

datatype article_error =
    NotSignedIn | StaffOnly | FieldsRequired | ReasonRequired | NoSuchArticle | ArticleFailure

type_synonym 'b article_answer = "(article_error, 'b) response"

definition article_fail :: "('r world, 'b article_answer) act \<Rightarrow> ('r world, 'b article_answer) act" where
  "article_fail m = catch m (\<lambda>_. ret (Denied 500 ArticleFailure))"

text \<open>The hook \<open>fastify.authenticate\<close> in front of a route.\<close>

definition signed_in ::
  "'r env \<Rightarrow> claims option \<Rightarrow> (claims \<Rightarrow> ('r world, 'b article_answer) act) \<Rightarrow> ('r world, 'b article_answer) act" where
  "signed_in E decoded handler =
     bnd (core_authenticate E decoded) (\<lambda>ok.
     case decoded of
       Some c \<Rightarrow> if ok then handler c else ret (Denied 401 NotSignedIn)
     | None \<Rightarrow> ret (Denied 401 NotSignedIn))"

abbreviation find_article :: "string \<Rightarrow> db \<Rightarrow> article option" where
  "find_article i d \<equiv> find (\<lambda>a. art_id a = i \<or> art_slug a = i) (articles d)"

section \<open>Reading\<close>

definition matches_article :: "string option \<Rightarrow> string option \<Rightarrow> string option \<Rightarrow> article \<Rightarrow> bool" where
  "matches_article q category tag a \<longleftrightarrow>
     (truthy category \<and> category \<noteq> Some ''all'' \<longrightarrow> lower (art_category a) = lower (the category)) \<and>
     (truthy tag \<longrightarrow> the tag \<in> set (art_tags a)) \<and>
     (truthy q \<and> trim (the q) \<noteq> [] \<longrightarrow>
        contains_text (trim (the q)) (Some (art_title a)) \<or> contains_text (trim (the q)) (Some (art_summary a)) \<or>
        contains_text (trim (the q)) (Some (art_content a)))"

definition likes_of :: "db \<Rightarrow> article \<Rightarrow> nat" where
  "likes_of d a = count_rows (\<lambda>r. pr_targetId r = art_id a) (articleLikes d)"

definition list_articles ::
  "'r env \<Rightarrow> string option \<Rightarrow> string option \<Rightarrow> string option \<Rightarrow> ('r world, (article \<times> nat) list article_answer) act" where
  "list_articles E q category tag = article_fail (
     bnd (query E (\<lambda>d. map (\<lambda>a. (a, likes_of d a))
           (sort_key (\<lambda>a. - art_publishedAt a) (filter (matches_article q category tag) (articles d))))) (\<lambda>rows.
     ret (Sent 200 rows)))"

record article_view =
  av_article :: article
  av_likes :: nat
  av_saves :: nat
  av_liked :: bool
  av_saved :: bool

text \<open>\<open>viewer\<close> is \<open>request.user?.sub\<close>. The route has no hook that sets \<open>request.user\<close>.\<close>

definition view_article :: "'r env \<Rightarrow> string option \<Rightarrow> string \<Rightarrow> ('r world, article_view article_answer) act" where
  "view_article E viewer slug = article_fail (
     bnd (query E (\<lambda>d. map_option (\<lambda>a. \<lparr>av_article = a, av_likes = likes_of d a,
         av_saves = count_rows (\<lambda>r. pr_targetId r = art_id a) (articleBookmarks d), av_liked = False, av_saved = False\<rparr>)
         (find_article slug d))) (\<lambda>found.
     case found of
       None \<Rightarrow> ret (Denied 404 NoSuchArticle)
     | Some v \<Rightarrow>
         if truthy viewer then
           bnd (query E (\<lambda>d. has_key pair_key (art_id (av_article v), the viewer) (articleLikes d))) (\<lambda>liked.
           bnd (query E (\<lambda>d. has_key pair_key (art_id (av_article v), the viewer) (articleBookmarks d))) (\<lambda>saved.
           ret (Sent 200 (v\<lparr>av_liked := liked, av_saved := saved\<rparr>))))
         else ret (Sent 200 v)))"

definition get_article :: "'r env \<Rightarrow> claims option \<Rightarrow> string \<Rightarrow> ('r world, article_view article_answer) act" where
  "get_article E decoded slug = view_article E None slug"

section \<open>Writing\<close>

definition slug_char :: "char \<Rightarrow> bool" where
  "slug_char c \<longleftrightarrow> 97 \<le> (of_char c :: nat) \<and> (of_char c :: nat) \<le> 122 \<or> is_digit c"

text \<open>\<open>replace(/[^a-z0-9]+/g, "-")\<close>: \<open>sep\<close> tells that the run is replaced already.\<close>

fun dashed :: "bool \<Rightarrow> string \<Rightarrow> string" where
  "dashed sep [] = []"
| "dashed sep (c # s) =
     (if slug_char c then c # dashed False s else if sep then dashed True s else CHR ''-'' # dashed True s)"

text \<open>\<open>replace(/(^-|-$)/g, "")\<close>\<close>

definition strip_dashes :: "string \<Rightarrow> string" where
  "strip_dashes s =
     (let t = (case s of c # r \<Rightarrow> if c = CHR ''-'' then r else s | [] \<Rightarrow> [])
      in if t \<noteq> [] \<and> last t = CHR ''-'' then butlast t else t)"

definition slugify :: "string \<Rightarrow> string" where
  "slugify title = strip_dashes (dashed False (lower title))"

record article_body =
  ab_slug :: "string option"
  ab_title :: "string option"
  ab_summary :: "string option"
  ab_content :: "string option"
  ab_category :: "string option"
  ab_badge :: "string option"
  ab_authorName :: "string option"
  ab_authorRole :: "string option"
  ab_authorAvatar :: "string option"
  ab_readTime :: "string option"
  ab_tags :: "string list option"
  ab_featured :: "bool option"

definition insert_article :: "article \<Rightarrow> db \<Rightarrow> (exn + unit) \<times> db" where
  "insert_article a d = guarded
     [(UniqueViolation, has_key art_id (art_id a) (articles d)), (UniqueViolation, has_key art_slug (art_slug a) (articles d))]
     (d\<lparr>articles := articles d @ [a]\<rparr>) d"

definition new_article :: "string \<Rightarrow> article_body \<Rightarrow> int \<Rightarrow> article" where
  "new_article i b t =
     \<lparr>art_id = i, art_slug = js_or (ab_slug b) (slugify (the (ab_title b))), art_title = the (ab_title b),
      art_summary = the (ab_summary b), art_content = the (ab_content b),
      art_category = js_or (ab_category b) ''Postmortem'', art_badge = js_or (ab_badge b) ''Analysis'',
      art_authorName = js_or (ab_authorName b) ''DevOps.lab Editorial Team'',
      art_authorRole = js_or (ab_authorRole b) ''SRE Staff'', art_authorAvatar = js_or_null (ab_authorAvatar b),
      art_readTime = js_or (ab_readTime b) ''5 min read'',
      art_tags = (case ab_tags b of None \<Rightarrow> [''devops'', ''incident''] | Some ts \<Rightarrow> ts),
      art_featured = (case ab_featured b of None \<Rightarrow> False | Some f \<Rightarrow> f), art_publishedAt = t\<rparr>"

definition create_article :: "'r env \<Rightarrow> claims option \<Rightarrow> article_body \<Rightarrow> ('r world, article option article_answer) act" where
  "create_article E decoded b = signed_in E decoded (\<lambda>user.
     if cl_role user \<noteq> Some ADMIN \<and> cl_role user \<noteq> Some CONTRIBUTOR then ret (Denied 403 StaffOnly)
     else if \<not> truthy (ab_title b) \<or> \<not> truthy (ab_summary b) \<or> \<not> truthy (ab_content b) then ret (Denied 400 FieldsRequired)
     else article_fail (
       with_id E (\<lambda>i.
       bnd (run_db_at E (\<lambda>t. returning (insert_article (new_article i b t)) (find_article i))) (\<lambda>created.
       ret (Sent 201 created)))))"

text \<open>Likes and bookmarks are pairs of an article and a user, as for challenges.\<close>

definition has_article :: "db \<Rightarrow> string \<Rightarrow> bool" where
  "has_article d i \<longleftrightarrow> has_key art_id i (articles d)"

definition toggle_article ::
  "'r env \<Rightarrow> (db \<Rightarrow> pair_row list) \<Rightarrow> ((pair_row list \<Rightarrow> pair_row list) \<Rightarrow> db \<Rightarrow> db) \<Rightarrow> claims option \<Rightarrow> string \<Rightarrow>
   ('r world, (nat \<times> bool) article_answer) act" where
  "toggle_article E tab upd decoded i = signed_in E decoded (\<lambda>c.
     if caller_id c = [] then ret (Denied 401 NotSignedIn)
     else article_fail (
       bnd (query E (find_article i)) (\<lambda>found.
       case found of
         None \<Rightarrow> ret (Denied 404 NoSuchArticle)
       | Some a \<Rightarrow>
           bnd (toggle_pair E tab upd has_article (art_id a) (caller_id c)) (\<lambda>on.
           bnd (query E (\<lambda>d. count_rows (\<lambda>r. pr_targetId r = art_id a) (tab d))) (\<lambda>n.
           ret (Sent 200 (n, on)))))))"

definition like_article :: "'r env \<Rightarrow> claims option \<Rightarrow> string \<Rightarrow> ('r world, (nat \<times> bool) article_answer) act" where
  "like_article E = toggle_article E articleLikes articleLikes_update"

definition bookmark_article :: "'r env \<Rightarrow> claims option \<Rightarrow> string \<Rightarrow> ('r world, (nat \<times> bool) article_answer) act" where
  "bookmark_article E = toggle_article E articleBookmarks articleBookmarks_update"

definition insert_report :: "article_report \<Rightarrow> db \<Rightarrow> (exn + unit) \<times> db" where
  "insert_report r d = guarded
     [(ForeignKeyViolation, \<not> has_article d (rep_articleId r)), (ForeignKeyViolation, \<not> has_user d (rep_userId r))]
     (d\<lparr>articleReports := articleReports d @ [r]\<rparr>) d"

definition report_article ::
  "'r env \<Rightarrow> claims option \<Rightarrow> string \<Rightarrow> string option \<Rightarrow> string option \<Rightarrow> ('r world, unit article_answer) act" where
  "report_article E decoded i reason details = signed_in E decoded (\<lambda>c.
     if caller_id c = [] then ret (Denied 401 NotSignedIn)
     else if \<not> truthy reason then ret (Denied 400 ReasonRequired)
     else article_fail (
       bnd (query E (find_article i)) (\<lambda>found.
       case found of
         None \<Rightarrow> ret (Denied 404 NoSuchArticle)
       | Some a \<Rightarrow>
           sq (run_db E (insert_report \<lparr>rep_articleId = art_id a, rep_userId = caller_id c, rep_reason = the reason,
               rep_details = js_or_null details\<rparr>))
             (ret (Sent 200 ())))))"

end
