(* ===== verification/Article_Laws.thy ===== *)
theory Article_Laws
  imports Articles Admin_Laws
begin

text \<open>
  What the articles promise: canonical slugs, articles written by staff only, likes and bookmarks that flip
  a set; and that the page of an article never shows them to who gave them.
\<close>

section \<open>Slugs\<close>

fun no_double_dash :: "string \<Rightarrow> bool" where
  "no_double_dash (a # b # s) = (\<not> (a = CHR ''-'' \<and> b = CHR ''-'') \<and> no_double_dash (b # s))"
| "no_double_dash _ = True"

definition canonical_slug :: "string \<Rightarrow> bool" where
  "canonical_slug s \<longleftrightarrow> list_all (\<lambda>c. slug_char c \<or> c = CHR ''-'') s \<and> no_double_dash s \<and>
     (s \<noteq> [] \<longrightarrow> hd s \<noteq> CHR ''-'' \<and> last s \<noteq> CHR ''-'')"

lemma dash_no_slug: "\<not> slug_char CHR ''-''"
  by (simp add: slug_char_def is_digit_def)

lemma dashed_chars: "list_all (\<lambda>c. slug_char c \<or> c = CHR ''-'') (dashed sep s)"
  by (induction sep s rule: dashed.induct) auto

lemma dashed_no_double: "no_double_dash (dashed sep s) \<and> (sep \<longrightarrow> dashed sep s \<noteq> [] \<longrightarrow> hd (dashed sep s) \<noteq> CHR ''-'')"
proof (induction sep s rule: dashed.induct)
  case (2 sep c s)
  then show ?case
    by (cases "dashed True s"; cases "dashed False s") (auto simp: dash_no_slug)
qed simp

lemma no_double_parts:
  "no_double_dash (c # s) \<Longrightarrow> no_double_dash s" "no_double_dash s \<Longrightarrow> no_double_dash (butlast s)"
  by (cases s; simp) (induction s rule: no_double_dash.induct; auto)

lemma last_of_butlast: "no_double_dash s \<Longrightarrow> s \<noteq> [] \<Longrightarrow> last s = CHR ''-'' \<Longrightarrow> butlast s \<noteq> [] \<Longrightarrow> last (butlast s) \<noteq> CHR ''-''"
  by (induction s rule: no_double_dash.induct) (auto split: if_splits)

lemma strip_canonical:
  assumes "list_all (\<lambda>c. slug_char c \<or> c = CHR ''-'') s" and "no_double_dash s"
  shows "canonical_slug (strip_dashes s)"
proof -
  define t where "t = (case s of c # r \<Rightarrow> if c = CHR ''-'' then r else s | [] \<Rightarrow> [])"
  have t: "list_all (\<lambda>c. slug_char c \<or> c = CHR ''-'') t" "no_double_dash t" "t \<noteq> [] \<Longrightarrow> hd t \<noteq> CHR ''-''"
    using assms no_double_parts(1) [of "hd s" "tl s"] by (auto simp: t_def split: list.split) (cases "tl s"; auto)+
  have "strip_dashes s = (if t \<noteq> [] \<and> last t = CHR ''-'' then butlast t else t)"
    by (simp add: strip_dashes_def t_def Let_def)
  moreover have "hd (butlast t) = hd t" if "butlast t \<noteq> []" using that by (cases t) (auto split: if_splits)
  ultimately show ?thesis
    using t no_double_parts(2) [OF t(2)] last_of_butlast [OF t(2)]
    by (auto simp: canonical_slug_def list_all_iff dest: in_set_butlastD)
qed

lemma lower_slug: "slug_char c \<or> c = CHR ''-'' \<Longrightarrow> lower_char c = c"
  by (auto simp: slug_char_def is_digit_def lower_char_def Let_def)

lemma dashed_canonical:
  "list_all (\<lambda>c. slug_char c \<or> c = CHR ''-'') s \<Longrightarrow> no_double_dash s \<Longrightarrow> (sep \<longrightarrow> s = [] \<or> hd s \<noteq> CHR ''-'') \<Longrightarrow> dashed sep s = s"
proof (induction sep s rule: dashed.induct)
  case (2 sep c s)
  then have "no_double_dash s" by (auto dest: no_double_parts(1))
  with 2 show ?case by (cases s) (auto simp: dash_no_slug)
qed simp

text \<open>
  The slug that is made from a title consists of lower case letters, digits and single dashes between
  them, and making a slug of a slug gives the same slug.
\<close>

lemma slugs_canonical:
  "canonical_slug (slugify title) \<and> slugify (slugify title) = slugify title"
proof -
  have canon: "canonical_slug (slugify title)"
    unfolding slugify_def using dashed_no_double by (intro strip_canonical dashed_chars) blast
  let ?s = "slugify title"
  have "lower ?s = ?s"
    using canon by (auto simp: lower_def canonical_slug_def list_all_iff intro!: map_idI lower_slug)
  moreover have "dashed False ?s = ?s"
    using canon by (intro dashed_canonical) (auto simp: canonical_slug_def)
  moreover have "strip_dashes ?s = ?s"
    using canon by (cases ?s) (auto simp: canonical_slug_def strip_dashes_def Let_def)
  ultimately have "slugify ?s = ?s" by (simp add: slugify_def)
  with canon show ?thesis by blast
qed

section \<open>Who writes\<close>

lemma core_authenticate_db: "db (snd (core_authenticate E t w)) = db w"
proof -
  have "moves (on_db (fixing id)) (core_authenticate E t)"
    unfolding core_authenticate_def by (intro fixing_steps fixed.moves_redis_calls)
  then show ?thesis by (auto dest: moves_db_run simp: fixing_def)
qed

lemma moves_signed_in:
  assumes "\<And>c. moves (on_db (fixing f)) (h c)"
  shows "moves (on_db (fixing f)) (signed_in E t h)"
proof -
  have "moves (on_db (fixing f)) (core_authenticate E t)"
    unfolding core_authenticate_def by (intro fixing_steps fixed.moves_redis_calls)
  then show ?thesis unfolding signed_in_def by (intro fixing_steps assms)
qed

inductive article_step :: "'r env \<Rightarrow> claims option \<Rightarrow> 'r world \<Rightarrow> 'r world \<Rightarrow> bool" for E tok where
  "article_step E tok w (snd (create_article E tok b w))"
| "article_step E tok w (snd (like_article E tok i w))"
| "article_step E tok w (snd (bookmark_article E tok i w))"
| "article_step E tok w (snd (report_article E tok i reason details w))"

lemma others_keep_articles:
  "moves (on_db (fixing articles)) (like_article E tok i)"
  "moves (on_db (fixing articles)) (bookmark_article E tok i)"
  "moves (on_db (fixing articles)) (report_article E tok i reason details)"
  unfolding like_article_def bookmark_article_def toggle_article_def report_article_def article_fail_def toggle_pair_def insert_report_def
  by (intro moves_signed_in fixing_steps; simp)+

definition added_article :: "db \<Rightarrow> db \<Rightarrow> bool" where
  "added_article d d' \<longleftrightarrow> (\<exists>a. articles d' = articles d @ [a] \<and>
     \<not> has_key art_slug (art_slug a) (articles d) \<and> \<not> has_key art_id (art_id a) (articles d))"

lemma insert_article_post:
  "db_post (article_fail (with_id E (\<lambda>i. bnd (run_db_at E (\<lambda>t. returning (insert_article (new_article i b t)) (find_article i)))
     (\<lambda>created. ret (Sent 201 created))))) d (\<lambda>_ d'. articles d' = articles d \<or> added_article d d')"
proof -
  let ?Q = "\<lambda>(_ :: exn + 'x) d'. articles d' = articles d \<or> added_article d d'"
  have "?Q r (snd (insert_article a d))" for a and r :: "exn + 'x"
    using guarded_outcomes [of "[(UniqueViolation, has_key art_id (art_id a) (articles d)),
        (UniqueViolation, has_key art_slug (art_slug a) (articles d))]" "d\<lparr>articles := articles d @ [a]\<rparr>" d]
    by (auto simp: insert_article_def added_article_def)
  then have "db_post (run_db_at E (\<lambda>t. returning (insert_article (new_article i b t)) (find_article i))) d
      (\<lambda>_ d'. articles d' = articles d \<or> added_article d d')" for i
    by (intro post_run_db_at) (auto simp: snd_returning)
  note step = this
  show ?thesis
    unfolding article_fail_def with_id_def
    by (intro post_catch post_bnd post_new_id passing_simps db_post_conseq [OF step])
      (auto simp: passing_def recovering_def intro!: post_ret split: sum.split)
qed

text \<open>
  Whatever fails, a request adds an article only if its token is valid, not revoked and claims the role
  of an administrator or a contributor; it adds one article, with a slug and a name that no other has, and
  changes none.
\<close>

lemma staff_write_articles:
  assumes "article_step E tok w w'" and "articles (db w') \<noteq> articles (db w)"
  shows "\<exists>c a. tok = Some c \<and> (cl_role c = Some ADMIN \<or> cl_role c = Some CONTRIBUTOR) \<and>
    fst (core_authenticate E tok w) = Inr True \<and> articles (db w') = articles (db w) @ [a] \<and>
    \<not> has_key art_slug (art_slug a) (articles (db w)) \<and> \<not> has_key art_id (art_id a) (articles (db w))"
proof -
  note others = others_keep_articles [THEN moves_db_run, unfolded fixing_def]
  from assms obtain b where w': "w' = snd (create_article E tok b w)"
    by (cases rule: article_step.cases) (auto simp: others)
  obtain r v where auth: "core_authenticate E tok w = (r, v)" by fastforce
  then have v: "db v = db w" using core_authenticate_db [of E tok w] by simp
  from assms(2) w' auth v obtain c where c: "tok = Some c" "r = Inr True" "cl_role c = Some ADMIN \<or> cl_role c = Some CONTRIBUTOR"
    and v': "w' = snd (article_fail (with_id E (\<lambda>i. bnd (run_db_at E (\<lambda>t. returning (insert_article (new_article i b t)) (find_article i)))
      (\<lambda>created. ret (Sent 201 created)))) v)"
    by (auto simp: create_article_def signed_in_def act_simps split: sum.splits option.splits if_splits)
  from db_post_run [OF insert_article_post, of v "db w" E b] v v' assms(2) have "added_article (db w) (db w')" by simp
  with c auth show ?thesis by (auto simp: added_article_def)
qed

section \<open>Likes\<close>

lemma signed_in_calm:
  assumes "fst (core_authenticate E (Some c) w) = Inr True"
  shows "signed_in E (Some c) h w = h c (snd (core_authenticate E (Some c) w))"
  using assms by (cases "core_authenticate E (Some c) w") (simp add: signed_in_def act_simps)

lemma toggle_article_run:
  assumes "calm E" and "fst (core_authenticate E (Some c) w) = Inr True"
    and "find_article i (db w) = Some a" and "caller_id c \<noteq> []" and "has_user (db w) (caller_id c)"
    and "\<And>f d. tab (upd f d) = f (tab d)" and "unique_by pair_key (tab (db w))"
  shows "\<exists>w' n. toggle_article E tab upd (Some c) i w = (Inr (Sent 200 (n, (art_id a, caller_id c) \<notin> pairs (tab (db w)))), w') \<and>
    pairs (tab (db w')) = flip (art_id a, caller_id c) (pairs (tab (db w))) \<and>
    n = count_rows (\<lambda>r. pr_targetId r = art_id a) (tab (db w')) \<and> n = card {v. (art_id a, v) \<in> pairs (tab (db w'))}"
proof -
  define v where "v = snd (core_authenticate E (Some c) w)"
  have v: "db v = db w" by (simp add: v_def core_authenticate_db)
  have "find_article i (db w) \<noteq> None" "has_article (db w) (art_id a)"
    using assms(3) find_in [OF assms(3)] by (auto simp: has_article_def has_key_def)
  with toggle_pair_run [where tab = tab and upd = upd and target = has_article and w = "tick E v" and i = "art_id a"
      and u = "caller_id c" and E = E] assms(1,5-7)
  obtain u where u: "toggle_pair E tab upd has_article (art_id a) (caller_id c) (tick E v) =
      (Inr ((art_id a, caller_id c) \<notin> pairs (tab (db w))), u)"
    "pairs (tab (db u)) = flip (art_id a, caller_id c) (pairs (tab (db w)))" "unique_by pair_key (tab (db u))"
    by (auto simp: v)
  have "toggle_article E tab upd (Some c) i w =
      (Inr (Sent 200 (count_rows (\<lambda>r. pr_targetId r = art_id a) (tab (db u)), (art_id a, caller_id c) \<notin> pairs (tab (db w)))), tick E u)"
    unfolding toggle_article_def signed_in_calm [OF assms(2)] v_def [symmetric]
    using assms(3,4) u(1) by (simp add: article_fail_def act_simps calm_runs [OF assms(1)] v)
  then show ?thesis using u(2,3) unique_pairs_count [OF u(3)] by auto
qed

text \<open>
  The like and bookmark routes of articles flip the caller's pair in a set, and count the users in it.
  But nobody is ever shown that she likes an article: the route that shows it does not ask who is calling,
  so that right after a like the page says that it is not liked, while the number of likes counts her.
\<close>

lemma likes_not_shown:
  assumes "calm E" and "constraints (db w)" and "fst (core_authenticate E (Some c) w) = Inr True"
    and "find_article i (db w) = Some a" and "caller_id c \<noteq> []" and "has_user (db w) (caller_id c)"
    and "(art_id a, caller_id c) \<notin> pairs (articleLikes (db w))"
  shows "\<exists>w' n w'' v. like_article E (Some c) i w = (Inr (Sent 200 (n, True)), w') \<and> 0 < n \<and>
    (art_id a, caller_id c) \<in> pairs (articleLikes (db w')) \<and>
    get_article E (Some c) i w' = (Inr (Sent 200 v), w'') \<and> av_likes v = n \<and> \<not> av_liked v"
proof -
  have uniq: "unique_by pair_key (articleLikes (db w))" using assms(2) by (simp add: constraint_defs)
  obtain w' n where
    run: "like_article E (Some c) i w = (Inr (Sent 200 (n, True)), w')"
    and pairs: "pairs (articleLikes (db w')) = flip (art_id a, caller_id c) (pairs (articleLikes (db w)))"
    and n: "n = count_rows (\<lambda>r. pr_targetId r = art_id a) (articleLikes (db w'))"
      "n = card {v. (art_id a, v) \<in> pairs (articleLikes (db w'))}"
    using toggle_article_run [where tab = articleLikes and upd = articleLikes_update, OF assms(1,3,4,5,6)] uniq assms(7)
    by (auto simp: like_article_def)
  have mem: "(art_id a, caller_id c) \<in> pairs (articleLikes (db w'))" using pairs assms(7) by (simp add: flip_def)
  have "finite {v. (art_id a, v) \<in> pairs (articleLikes (db w'))}"
    by (rule finite_subset [of _ "snd ` pairs (articleLikes (db w'))"]) (auto simp: pairs_def image_iff, metis snd_conv)
  with mem n(2) have "0 < n" by (auto simp: card_gt_0_iff)
  moreover have "articles (db w') = articles (db w)"
    using moves_db_run [OF others_keep_articles(1), where w = w] run by (metis fixing_def snd_conv)
  then have "\<exists>v w''. get_article E (Some c) i w' = (Inr (Sent 200 v), w'') \<and> av_likes v = n \<and> \<not> av_liked v"
    using assms(4) n(1) by (simp add: get_article_def view_article_def article_fail_def act_simps calm_runs [OF assms(1)] likes_of_def)
  ultimately show ?thesis using run mem by blast
qed

section \<open>The constraints of the database\<close>

lemma keep_signed_in:
  assumes "\<And>c. moves (on_db (keeping I)) (h c)"
  shows "moves (on_db (keeping I)) (signed_in E t h)"
proof -
  have "moves (on_db (keeping I)) (core_authenticate E t)"
    unfolding core_authenticate_def by (intro keeping_steps kept.moves_redis_calls)
  then show ?thesis unfolding signed_in_def by (intro keeping_steps assms)
qed

lemma insert_article_constraints: "constraints d \<Longrightarrow> constraints (snd (insert_article a d))"
  unfolding insert_article_def by (rule guarded_keeps) (auto simp: constraint_defs)

lemma keep_articles:
  "moves (on_db (keeping constraints)) (create_article E tok b)"
  "moves (on_db (keeping constraints)) (like_article E tok i)"
  "moves (on_db (keeping constraints)) (bookmark_article E tok i)"
  "moves (on_db (keeping constraints)) (report_article E tok i reason details)"
proof -
  show "moves (on_db (keeping constraints)) (create_article E tok b)"
    unfolding create_article_def article_fail_def
    by (intro keep_signed_in keeping_steps keep_returning insert_article_constraints)
  show "moves (on_db (keeping constraints)) (report_article E tok i reason details)"
    unfolding report_article_def article_fail_def insert_report_def
    by (intro keep_signed_in keeping_steps) (auto simp: constraint_defs has_article_def)
  show "moves (on_db (keeping constraints)) (like_article E tok i)" "moves (on_db (keeping constraints)) (bookmark_article E tok i)"
    unfolding like_article_def bookmark_article_def toggle_article_def article_fail_def
    by (intro keep_signed_in keeping_steps keep_toggle; auto simp: constraint_defs has_article_def pair_key_def)+
qed

lemma article_step_constraints:
  assumes "article_step E tok w w'" and "constraints (db w)"
  shows "constraints (db w')"
proof -
  note runs = keep_articles [THEN moves_db_run]
  from assms(1) have "keeping constraints (db w) (db w')"
    by cases (simp_all only: runs)
  with assms(2) show ?thesis by (simp add: keeping_def)
qed

section \<open>Examples\<close>

definition editor_claims :: claims where
  "editor_claims = \<lparr>cl_sub = ''ann'', cl_id = Some ''ann'', cl_email = None, cl_role = Some CONTRIBUTOR, cl_orgId = None,
     cl_iss = None, cl_jti = None, cl_pendingMfa = False, cl_iat = 0, cl_exp = 900\<rparr>"

definition draft :: article_body where
  "draft = \<lparr>ab_slug = None, ab_title = Some ''DNS, again'', ab_summary = Some ''s'', ab_content = Some ''c'', ab_category = None,
     ab_badge = None, ab_authorName = None, ab_authorRole = None, ab_authorAvatar = None, ab_readTime = None,
     ab_tags = None, ab_featured = None\<rparr>"

definition article_db :: db where
  "article_db = example_db\<lparr>articles := [new_article ''a1'' draft 0]\<rparr>"

lemma editor_enters: "fst (core_authenticate E (Some editor_claims) w) = Inr True"
  by (simp add: core_authenticate_def editor_claims_def act_simps)

lemma article_db_facts:
  "constraints article_db" "find_article ''a1'' article_db = Some (new_article ''a1'' draft 0)"
  "has_user article_db (caller_id editor_claims)" "caller_id editor_claims = ''ann''" "articleLikes article_db = []"
  "art_id (new_article ''a1'' draft 0) = ''a1''"
proof -
  have "constraints example_db" "articleLikes example_db = []" "articleBookmarks example_db = []" "articleReports example_db = []"
    "has_user example_db ''ann''" by code_simp+
  then show "constraints article_db" "has_user article_db (caller_id editor_claims)" "articleLikes article_db = []"
    by (simp_all add: article_db_def constraint_defs editor_claims_def caller_id_def)
qed (simp_all add: article_db_def new_article_def editor_claims_def caller_id_def)

lemma likes_not_shown_witness:
  "\<exists>w' n w'' v. like_article calm_env (Some editor_claims) ''a1'' (example_world article_db) = (Inr (Sent 200 (n, True)), w') \<and> 0 < n \<and>
    (''a1'', ''ann'') \<in> pairs (articleLikes (db w')) \<and>
    get_article calm_env (Some editor_claims) ''a1'' w' = (Inr (Sent 200 v), w'') \<and> av_likes v = n \<and> \<not> av_liked v"
proof -
  have "\<exists>w' n w'' v. like_article calm_env (Some editor_claims) ''a1'' (example_world article_db) = (Inr (Sent 200 (n, True)), w') \<and> 0 < n \<and>
    (art_id (new_article ''a1'' draft 0), caller_id editor_claims) \<in> pairs (articleLikes (db w')) \<and>
    get_article calm_env (Some editor_claims) ''a1'' w' = (Inr (Sent 200 v), w'') \<and> av_likes v = n \<and> \<not> av_liked v"
    by (rule likes_not_shown) (simp_all add: editor_enters article_db_facts article_db_facts(3) [unfolded article_db_facts(4)] pairs_def)
  then show ?thesis by (simp only: article_db_facts)
qed

lemma staff_write_articles_witness:
  "\<exists>c a. Some editor_claims = Some c \<and> (cl_role c = Some ADMIN \<or> cl_role c = Some CONTRIBUTOR) \<and>
    fst (core_authenticate calm_env (Some editor_claims) (example_world example_db)) = Inr True \<and>
    articles (db (snd (create_article calm_env (Some editor_claims) draft (example_world example_db)))) = articles example_db @ [a] \<and>
    \<not> has_key art_slug (art_slug a) (articles example_db) \<and> \<not> has_key art_id (art_id a) (articles example_db)"
proof -
  have none: "articles example_db = []" by code_simp
  have "articles (db (snd (create_article calm_env (Some editor_claims) draft (example_world example_db)))) \<noteq> articles (db (example_world example_db))"
    by (simp add: create_article_def signed_in_calm editor_enters core_authenticate_db)
      (simp add: core_authenticate_def editor_claims_def draft_def article_fail_def act_simps with_id_def new_id_def returning_def
        insert_article_def none new_article_def calm_runs)
  from staff_write_articles [OF article_step.intros(1) this] show ?thesis by simp
qed

end
