(* ===== verification/Notifications.thy ===== *)
theory Notifications
  imports Brokers Example
begin

text \<open>
  The notification service (\<open>services/notification/src/consumers.ts\<close>, \<open>mailer.ts\<close>): Kafka events become
  mail jobs in RabbitMQ, one per user or token and day, and a worker sends them. Then what the lock
  that it takes guarantees, and what it loses.
\<close>

section \<open>From events to jobs\<close>

definition SEND_EMAIL :: string where "SEND_EMAIL = ''send.email''"

definition welcome_key :: "string \<Rightarrow> string" where
  "welcome_key u = ''email:welcome:'' @ u"

definition verification_key :: "string \<Rightarrow> string \<Rightarrow> string" where
  "verification_key u token = ''email:verification:'' @ u @ '':'' @ token"

definition fallback_email :: "string \<Rightarrow> string" where
  "fallback_email u = ''user-'' @ u @ ''@example.com''"

definition on_user_registered :: "'r env \<Rightarrow> string \<Rightarrow> string option \<Rightarrow> ('r world, unit) act" where
  "on_user_registered E userId rawEmail =
     (let email = js_or rawEmail (fallback_email userId) in
      bnd (redis_run E (\<lambda>t. redis_set_nx (redis_api E) t (welcome_key userId) ''1'' 86400)) (\<lambda>locked.
      if \<not> locked then ret ()
      else rabbit_publish E SEND_EMAIL (WelcomeJob userId email)))"

definition on_verification_requested ::
  "'r env \<Rightarrow> string \<Rightarrow> string option \<Rightarrow> string \<Rightarrow> ('r world, unit) act" where
  "on_verification_requested E userId rawEmail token =
     (let email = js_or rawEmail (fallback_email userId) in
      bnd (redis_run E (\<lambda>t. redis_set_nx (redis_api E) t (verification_key userId token) ''1'' 86400)) (\<lambda>locked.
      if \<not> locked then ret ()
      else rabbit_publish E SEND_EMAIL (VerificationJob userId email token)))"

section \<open>From jobs to mails\<close>

record mail =
  mail_from :: string
  mail_to :: string
  mail_subject :: string
  mail_text :: string
  mail_html :: string

text \<open>\<open>client\<close> tells whether there is a key for the mail provider; without one nothing is sent.\<close>

definition hand_over :: "'r env \<Rightarrow> bool \<Rightarrow> mail \<Rightarrow> ('r world, mail option) act" where
  "hand_over E client m = (if client then await E (\<lambda>w. (Inr (Some m), w)) else ret None)"

definition sendWelcomeEmail :: "'r env \<Rightarrow> bool \<Rightarrow> string \<Rightarrow> string \<Rightarrow> ('r world, mail option) act" where
  "sendWelcomeEmail E client to name = hand_over E client
     \<lparr>mail_from = ''DevOps Platform <noreply@devops.local>'', mail_to = to,
      mail_subject = ''Welcome to the DevOps Platform!'',
      mail_text = ''Hello '' @ name @ '', we are excited to have you on board. Start your first challenge today!'',
      mail_html = ''<p>Hello '' @ name @ '',</p><b>We are excited to have you on board.</b> <p>Start your first challenge today!</p>''\<rparr>"

definition strip_slash :: "string \<Rightarrow> string" where
  "strip_slash s = (if s \<noteq> [] \<and> last s = CHR ''/'' then butlast s else s)"

definition verification_link :: "string \<Rightarrow> string \<Rightarrow> string" where
  "verification_link baseUrl token = strip_slash baseUrl @ ''/verify?token='' @ token"

definition sendVerificationEmail ::
  "'r env \<Rightarrow> bool \<Rightarrow> string option \<Rightarrow> string \<Rightarrow> string \<Rightarrow> ('r world, mail option) act" where
  "sendVerificationEmail E client WEB_APP_URL to token =
     (if \<not> truthy WEB_APP_URL then throw ErrorThrown
      else let link = verification_link (the WEB_APP_URL) token in hand_over E client
        \<lparr>mail_from = ''DevOps Platform <noreply@devops.local>'', mail_to = to, mail_subject = ''Verify your Email'',
         mail_text = ''Please verify your email using this link: '' @ link,
         mail_html = ''<p>Please verify your email using this link: <a href=\"'' @ link @ ''\">'' @ link @ ''</a></p>''\<rparr>)"

text \<open>The jobs carry no name, so that the mail always greets \<open>User\<close>.\<close>

definition on_email_job ::
  "'r env \<Rightarrow> bool \<Rightarrow> string option \<Rightarrow> payload \<Rightarrow> ('r world, mail option) act" where
  "on_email_job E client WEB_APP_URL job = (case job of
       WelcomeJob u email \<Rightarrow> sendWelcomeEmail E client email ''User''
     | VerificationJob u email token \<Rightarrow> sendVerificationEmail E client WEB_APP_URL email token
     | _ \<Rightarrow> ret None)"

section \<open>One job a day\<close>

definition welcome_jobs :: "string \<Rightarrow> 'r world \<Rightarrow> nat" where
  "welcome_jobs u w = count_rows (\<lambda>(q, p). \<exists>e. p = WelcomeJob u e) (rabbit w)"

text \<open>
  Deliveries of registrations of the user, in any environments, and whatever else happens that does
  not touch the user's lock and jobs.
\<close>

inductive welcome_step :: "'r redis_ops \<Rightarrow> ('r \<Rightarrow> string \<Rightarrow> entry option) \<Rightarrow> string \<Rightarrow> 'r world \<Rightarrow> 'r world \<Rightarrow> bool"
  for R view u where
  delivered: "redis_api E = R \<Longrightarrow> welcome_step R view u w (snd (on_user_registered E u email w))"
| elsewhere: "view (redis w') (welcome_key u) = view (redis w) (welcome_key u) \<Longrightarrow> clock w \<le> clock w' \<Longrightarrow>
    welcome_jobs u w' = welcome_jobs u w \<Longrightarrow> welcome_step R view u w w'"

text \<open>The user's lock holds at least until then.\<close>

definition locked_until :: "('r \<Rightarrow> string \<Rightarrow> entry option) \<Rightarrow> string \<Rightarrow> int \<Rightarrow> 'r world \<Rightarrow> bool" where
  "locked_until view u t w \<longleftrightarrow> (\<exists>v x. view (redis w) (welcome_key u) = Some (v, Some x) \<and> t \<le> x)"

lemma clock_later: "clock w \<le> clock (tick E w)"
  by simp

lemma registered_outcome:
  assumes "redis_store R view" and "redis_api E = R" and "snd (on_user_registered E u email w) = w'"
  shows "clock (tick E w) \<le> clock w'"
    and "welcome_jobs u w' = welcome_jobs u w \<or>
      \<not> locked_until view u (clock (tick E w) + 1) w \<and> welcome_jobs u w' = welcome_jobs u w + 1 \<and>
        locked_until view u (clock w + 86400000) w'"
    and "view (redis w') (welcome_key u) = view (redis w) (welcome_key u) \<or> locked_until view u (clock w + 86400000) w'"
proof -
  let ?k = "welcome_key u" and ?w1 = "tick E w"
  define r where "r = snd (redis_set_nx R (clock ?w1) ?k ''1'' 86400 (redis w))"
  let ?job = "WelcomeJob u (js_or email (fallback_email u))"
  let ?free = "live (clock ?w1) (view (redis w) ?k) = None"
  have nx: "redis_set_nx R (clock ?w1) ?k ''1'' 86400 (redis w) = (?free, r)"
    by (simp add: r_def prod_eq_iff redis_store.nx_law [OF assms(1)])
  have view: "view r = (if ?free then (view (redis w))(?k \<mapsto> (''1'', Some (clock ?w1 + 86400000))) else view (redis w))"
    using redis_store.nx_view_law [OF assms(1), of "clock ?w1" ?k "''1''" 86400 "redis w"] by (simp add: r_def)
  have late: "clock w \<le> clock ?w1" by simp
  have free: "\<not> locked_until view u (clock ?w1 + 1) w" if ?free
    using that by (auto simp: locked_until_def live_def)
  define v where "v = ?w1\<lparr>redis := r\<rparr>"
  have v: "clock v = clock ?w1" "welcome_jobs u v = welcome_jobs u w" "?free \<Longrightarrow> locked_until view u (clock w + 86400000) v"
    "\<not> ?free \<Longrightarrow> view (redis v) = view (redis w)"
    using late by (auto simp: v_def welcome_jobs_def locked_until_def view simp del: tick_simps(11))
  have sent: "welcome_jobs u ((tick E v)\<lparr>rabbit := rabbit v @ [(SEND_EMAIL, ?job)]\<rparr>) = welcome_jobs u v + 1"
    by (simp add: welcome_jobs_def)
  have lock: "redis_run E (\<lambda>t. redis_set_nx (redis_api E) t ?k ''1'' 86400) w = (case outcome_of E (calls w) of
      Done \<Rightarrow> (Inr ?free, v) | Failed \<Rightarrow> (Inl ConnectionLost, ?w1) | Unacked \<Rightarrow> (Inl ConnectionLost, v))"
    unfolding redis_run_def await_def Let_def assms(2) v_def by (simp add: nx del: tick_simps(11) split: outcome.split)
  have publish: "snd (rabbit_publish E SEND_EMAIL ?job v) \<in>
      {tick E v, (tick E v)\<lparr>rabbit := rabbit v @ [(SEND_EMAIL, ?job)]\<rparr>}"
    by (simp add: rabbit_publish_def await_def Let_def rabbit_send_def split: outcome.split)
  have cases: "w' \<in> {?w1, v} \<or> ?free \<and> w' \<in> {tick E v, (tick E v)\<lparr>rabbit := rabbit v @ [(SEND_EMAIL, ?job)]\<rparr>}"
    using assms(3) publish unfolding on_user_registered_def Let_def bnd_run lock
    by (cases "outcome_of E (calls w)"; cases ?free) (simp_all add: ret_def)
  have frame: "welcome_jobs u ?w1 = welcome_jobs u w" "welcome_jobs u (tick E v) = welcome_jobs u v"
    "locked_until view u t (tick E v) = locked_until view u t v" "locked_until view u t (x\<lparr>rabbit := q\<rparr>) = locked_until view u t x" for t x q
    by (simp_all add: welcome_jobs_def locked_until_def)
  show "clock ?w1 \<le> clock w'" using cases v(1) clock_later [of v E] by (auto simp del: tick_simps(11))
  show "welcome_jobs u w' = welcome_jobs u w \<or>
      \<not> locked_until view u (clock ?w1 + 1) w \<and> welcome_jobs u w' = welcome_jobs u w + 1 \<and>
        locked_until view u (clock w + 86400000) w'"
    using cases free v(2,3) frame sent by (auto simp del: tick_simps(11))
  show "view (redis w') ?k = view (redis w) ?k \<or> locked_until view u (clock w + 86400000) w'"
    using cases v(3,4) frame by (cases ?free) auto
qed

text \<open>
  C27. However often the registration of a user is delivered, whatever calls fail on the way and
  whatever else happens in between, within a day at most one welcome mail is ordered.
\<close>

theorem one_welcome_job:
  assumes "redis_store R view" and "(welcome_step R view u)\<^sup>*\<^sup>* w w'" and "clock w' < clock w + 86400000"
  shows "welcome_jobs u w' \<le> welcome_jobs u w + 1"
proof -
  let ?T = "clock w + 86400000"
  have "clock w \<le> clock w' \<and> (clock w' < ?T \<longrightarrow> welcome_jobs u w' = welcome_jobs u w \<or>
      welcome_jobs u w' = welcome_jobs u w + 1 \<and> locked_until view u ?T w')"
    using assms(2)
  proof (induction rule: rtranclp_induct)
    case (step x y)
    from step(2) show ?case
    proof cases
      case (delivered E email)
      note out = registered_outcome [OF assms(1) delivered(2), of u email x y]
      have y: "snd (on_user_registered E u email x) = y" using delivered by simp
      have keeps: "locked_until view u ?T y" if "locked_until view u ?T x"
        using out(3) [OF y] that step(3) by (auto simp: locked_until_def)
      have more: "locked_until view u ?T y" if "locked_until view u (clock x + 86400000) y"
        using that step(3) by (auto simp: locked_until_def)
      have closed: "locked_until view u (clock (tick E x) + 1) x" if "locked_until view u ?T x" "clock (tick E x) < ?T"
        using that by (auto simp: locked_until_def simp del: tick_simps(11))
      show ?thesis
        using out(1,2) [OF y] clock_later [of x E] keeps more closed step(3) by (auto simp del: tick_simps(11))
    next
      case elsewhere
      then show ?thesis using step(3) by (auto simp: locked_until_def)
    qed
  qed simp
  with assms(3) show ?thesis by auto
qed

section \<open>A lost mail\<close>

lemma registration_locked:
  assumes "redis_store R view" and "redis_api E = R" and "outcome_of E (calls w) = Done"
    and "live (clock (tick E w)) (view (redis w) (welcome_key u)) \<noteq> None"
  shows "\<exists>r. on_user_registered E u email w = (Inr (), (tick E w)\<lparr>redis := r\<rparr>) \<and> view r = view (redis w)"
proof -
  obtain b r where nx: "redis_set_nx R (clock (tick E w)) (welcome_key u) ''1'' 86400 (redis w) = (b, r)" by fastforce
  have "\<not> b" "view r = view (redis w)"
    using nx assms(4) redis_store.nx_law [OF assms(1), of "clock (tick E w)" "welcome_key u" "''1''" 86400 "redis w"]
      redis_store.nx_view_law [OF assms(1), of "clock (tick E w)" "welcome_key u" "''1''" 86400 "redis w"] by auto
  moreover have "on_user_registered E u email w = (Inr (), (tick E w)\<lparr>redis := r\<rparr>)"
    using nx assms(2,3) \<open>\<not> b\<close>
    by (simp add: on_user_registered_def Let_def act_simps redis_run_def await_def del: tick_simps(11))
  ultimately show ?thesis by blast
qed

lemma registration_fails:
  assumes "redis_store R view" and "redis_api E = R" and "outcome_of E (calls w) = Done" and "outcome_of E (Suc (calls w)) = Failed"
    and "live (clock (tick E w)) (view (redis w) (welcome_key u)) = None"
  shows "\<exists>r. on_user_registered E u email w = (Inl ConnectionLost, tick E ((tick E w)\<lparr>redis := r\<rparr>)) \<and>
    view r = (view (redis w))(welcome_key u \<mapsto> (''1'', Some (clock (tick E w) + 86400000)))"
proof -
  obtain b r where nx: "redis_set_nx R (clock (tick E w)) (welcome_key u) ''1'' 86400 (redis w) = (b, r)" by fastforce
  have "b" "view r = (view (redis w))(welcome_key u \<mapsto> (''1'', Some (clock (tick E w) + 86400000)))"
    using nx assms(5) redis_store.nx_law [OF assms(1), of "clock (tick E w)" "welcome_key u" "''1''" 86400 "redis w"]
      redis_store.nx_view_law [OF assms(1), of "clock (tick E w)" "welcome_key u" "''1''" 86400 "redis w"] by simp_all
  moreover have "on_user_registered E u email w = (Inl ConnectionLost, tick E ((tick E w)\<lparr>redis := r\<rparr>))"
    using nx assms(2-4) \<open>b\<close>
    by (simp add: on_user_registered_def Let_def act_simps redis_run_def await_def rabbit_publish_def del: tick_simps(11))
  ultimately show ?thesis by blast
qed

text \<open>
  A welcome mail can be lost without a trace. If the first attempt takes the lock and the queue then
  refuses the job, the second attempt finds the lock and counts as a success: the message is done, no
  job was ordered, nothing went to the dead letters, and the lock keeps later deliveries away.
\<close>

lemma welcome_mail_lost:
  assumes "redis_store (redis_api E) view" and "\<And>n. latency E n \<le> 1000"
    and "outcome_of E (calls w) = Done" and "outcome_of E (Suc (calls w)) = Failed" and "outcome_of E (Suc (Suc (calls w))) = Done"
    and "live (clock (tick E w)) (view (redis w) (welcome_key u)) = None"
    and "parse raw = Some (u, email)"
  shows "\<exists>w'. eachMessage E topic parse (\<lambda>(u, email). on_user_registered E u email) raw w = (Inr (), w') \<and>
    rabbit w' = rabbit w \<and> kafka w' = kafka w \<and> locked_until view u (clock w + 86400000) w'"
proof -
  let ?T = "clock (tick E w) + 86400000"
  from registration_fails [OF assms(1) refl assms(3,4,6)] obtain r where
    first: "on_user_registered E u email w = (Inl ConnectionLost, tick E ((tick E w)\<lparr>redis := r\<rparr>))"
    and r: "view r = (view (redis w))(welcome_key u \<mapsto> (''1'', Some ?T))" by blast
  define v where "v = (tick E ((tick E w)\<lparr>redis := r\<rparr>))\<lparr>clock := clock (tick E ((tick E w)\<lparr>redis := r\<rparr>)) + 1000\<rparr>"
  have "clock (tick E v) < ?T"
    using assms(2) [of "Suc (calls w)"] assms(2) [of "Suc (Suc (calls w))"] by (simp add: v_def)
  then have "live (clock (tick E v)) (view (redis v) (welcome_key u)) \<noteq> None"
    using r by (simp add: v_def del: tick_simps(11))
  moreover have "outcome_of E (calls v) = Done" using assms(5) by (simp add: v_def)
  ultimately obtain r' where second: "on_user_registered E u email v = (Inr (), (tick E v)\<lparr>redis := r'\<rparr>)" and r': "view r' = view (redis v)"
    using registration_locked [OF assms(1) refl] by blast
  have "eachMessage E topic parse (\<lambda>(u, email). on_user_registered E u email) raw w = (Inr (), (tick E v)\<lparr>redis := r'\<rparr>)"
    using first second assms(7)
    by (simp add: eachMessage_def maxRetries_def numeral_3_eq_3 act_simps sleep_def v_def del: tick_simps(11))
  moreover have "locked_until view u (clock w + 86400000) ((tick E v)\<lparr>redis := r'\<rparr>)"
    using r r' clock_later [of w E] by (simp add: locked_until_def v_def del: tick_simps(11))
  ultimately show ?thesis by (intro exI conjI) (assumption, simp_all add: v_def)
qed

section \<open>Examples\<close>

lemma one_welcome_job_witness:
  "welcome_jobs ''ann'' (snd (on_user_registered calm_env ''ann'' None (snd (on_user_registered (faulty_env [(1, Unacked)]) ''ann'' None
     (example_world example_db))))) \<le> welcome_jobs ''ann'' (example_world example_db) + 1"
proof -
  let ?w1 = "snd (on_user_registered (faulty_env [(1, Unacked)]) ''ann'' None (example_world example_db))"
  let ?w2 = "snd (on_user_registered calm_env ''ann'' None ?w1)"
  have "redis_api (faulty_env [(1, Unacked)]) = alist_redis_ops" "redis_api calm_env = alist_redis_ops"
    by (simp_all add: faulty_env_def)
  then have "welcome_step alist_redis_ops map_of ''ann'' (example_world example_db) ?w1"
      "welcome_step alist_redis_ops map_of ''ann'' ?w1 ?w2"
    by (auto intro: welcome_step.delivered)
  then have "(welcome_step alist_redis_ops map_of ''ann'')\<^sup>*\<^sup>* (example_world example_db) ?w2" by simp
  moreover have "clock ?w2 < clock (example_world example_db) + 86400000" by code_simp
  ultimately show ?thesis by (rule one_welcome_job [OF alist_redis.redis_store_axioms])
qed

lemma welcome_mail_lost_witness:
  "\<exists>w'. eachMessage (faulty_env [(1, Failed)]) ''t'' (\<lambda>s. Some (s, None)) (\<lambda>(u, email). on_user_registered (faulty_env [(1, Failed)]) u email)
      ''ann'' (example_world example_db) = (Inr (), w') \<and>
    rabbit w' = rabbit (example_world example_db) \<and> kafka w' = kafka (example_world example_db) \<and>
    locked_until map_of ''ann'' (clock (example_world example_db) + 86400000) w'"
  by (rule welcome_mail_lost)
     (simp_all add: faulty_env_def alist_redis.redis_store_axioms)

end
