(* ===== verification/Tenancy.thy ===== *)
theory Tenancy
  imports Prelude
begin

text \<open>
  Row level security: the two clients of \<open>packages/db/index.ts\<close>, the getter that gives each request its
  client (\<open>services/core/src/plugins/tenant-prisma.ts\<close>) and the policies of the database
  (\<open>packages/db/prisma/migrations/20261004_fail_closed_rls.sql\<close>). What a client does with an operation is the
  list of its transactions; settings hold until the end of the transaction they are made in.
\<close>

section \<open>Clients\<close>

text \<open>The settings of a connection; \<open>None\<close> is a setting that was not made.\<close>

record settings =
  st_org :: "string option"
  st_user :: "string option"
  st_bypass :: "string option"

definition no_settings :: settings where
  "no_settings = \<lparr>st_org = None, st_user = None, st_bypass = None\<rparr>"

datatype client = BaseClient | Extended client settings

definition createTenantClient :: "client \<Rightarrow> string option \<Rightarrow> string option \<Rightarrow> client" where
  "createTenantClient base orgId userId =
     Extended base \<lparr>st_org = Some (js_or orgId ''''), st_user = Some (js_or userId ''''), st_bypass = Some ''''\<rparr>"

definition createBypassClient :: "client \<Rightarrow> client" where
  "createBypassClient base = Extended base \<lparr>st_org = None, st_user = None, st_bypass = Some ''true''\<rparr>"

datatype statement = SetConfig settings | Operation

text \<open>
  An operation of an extended client is a batch \<open>$transaction\<close> of its base client, of the settings and of the
  same operation of the base client. If that is extended itself, its own extension runs the operation in a
  batch of its own, which the client below opens as another transaction.
\<close>

fun operate :: "client \<Rightarrow> statement list list" where
  "operate BaseClient = [[Operation]]"
| "operate (Extended BaseClient s) = [[SetConfig s, Operation]]"
| "operate (Extended (Extended c s') s) = [SetConfig s] # operate (Extended c s')"

fun set_config :: "settings \<Rightarrow> settings \<Rightarrow> settings" where
  "set_config new old =
     \<lparr>st_org = (if st_org new = None then st_org old else st_org new),
      st_user = (if st_user new = None then st_user old else st_user new),
      st_bypass = (if st_bypass new = None then st_bypass old else st_bypass new)\<rparr>"

text \<open>The settings with which the operations of a transaction run.\<close>

fun runs_with :: "settings \<Rightarrow> statement list \<Rightarrow> settings list" where
  "runs_with now [] = []"
| "runs_with now (SetConfig s # rest) = runs_with (set_config s now) rest"
| "runs_with now (Operation # rest) = now # runs_with now rest"

definition operation_settings :: "client \<Rightarrow> settings list" where
  "operation_settings c = concat (map (runs_with no_settings) (operate c))"

section \<open>The client of a request\<close>

record caller =
  ca_orgId :: "string option"
  ca_sub :: "string option"
  ca_id :: "string option"

record client_cache =
  cc_client :: "client option"
  cc_orgId :: "string option"
  cc_userId :: "string option"

definition empty_cache :: client_cache where
  "empty_cache = \<lparr>cc_client = None, cc_orgId = None, cc_userId = None\<rparr>"

definition caller_org :: "caller option \<Rightarrow> string option" where
  "caller_org user = Option.bind user ca_orgId"

definition caller_user :: "caller option \<Rightarrow> string option" where
  "caller_user user = Option.bind user (\<lambda>u. if truthy (ca_sub u) then ca_sub u else ca_id u)"

definition get_prisma :: "client \<Rightarrow> caller option \<Rightarrow> client_cache \<Rightarrow> client \<times> client_cache" where
  "get_prisma base user cache =
     (let orgId = caller_org user; userId = caller_user user in
      case cc_client cache of
        Some c \<Rightarrow>
          if orgId = cc_orgId cache \<and> userId = cc_userId cache then (c, cache)
          else let new = createTenantClient base orgId userId
               in (new, \<lparr>cc_client = Some new, cc_orgId = orgId, cc_userId = userId\<rparr>)
      | None \<Rightarrow>
          let new = createTenantClient base orgId userId
          in (new, \<lparr>cc_client = Some new, cc_orgId = orgId, cc_userId = userId\<rparr>))"

text \<open>The accesses of one request, whose user changes when a route verifies the token.\<close>

fun accesses :: "client \<Rightarrow> caller option list \<Rightarrow> client_cache \<Rightarrow> client list" where
  "accesses base [] cache = []"
| "accesses base (u # us) cache = (case get_prisma base u cache of (c, cache') \<Rightarrow> c # accesses base us cache')"

text \<open>Both services decorate the framework with a bypass client, and the getter extends that one.\<close>

definition service_client :: client where
  "service_client = createBypassClient BaseClient"

section \<open>Policies\<close>

datatype table =
    T_Org | T_User | T_LearningPath | T_OrgInvite | T_OrgScenario | T_OrgMember | T_PathAssignment
  | T_QuizAttempt | T_ChallengeBookmark | T_ChallengeCheckResult | T_UserSession | T_Completion | T_ChallengeList
  | T_ChallengeListItem

text \<open>What the policies look at. Of an item of a list these are the columns of its list.\<close>

record row =
  rw_id :: string
  rw_orgId :: "string option"
  rw_userId :: "string option"
  rw_isPublic :: bool

definition app_org :: "settings \<Rightarrow> string option" where "app_org s = js_or_null (st_org s)"

definition app_uid :: "settings \<Rightarrow> string option" where "app_uid s = js_or_null (st_user s)"

definition app_bypass :: "settings \<Rightarrow> bool" where "app_bypass s \<longleftrightarrow> st_bypass s = Some ''true''"

text \<open>A comparison with \<open>NULL\<close> is not true.\<close>

fun sql_eq :: "string option \<Rightarrow> string option \<Rightarrow> bool" where
  "sql_eq (Some a) (Some b) = (a = b)"
| "sql_eq _ _ = False"

definition own_org :: "settings \<Rightarrow> row \<Rightarrow> bool" where "own_org s r = sql_eq (rw_orgId r) (app_org s)"

definition own_user :: "settings \<Rightarrow> row \<Rightarrow> bool" where "own_user s r = sql_eq (rw_userId r) (app_uid s)"

text \<open>The rows a \<open>SELECT\<close> sees: those that some policy for the command admits.\<close>

fun may_select :: "settings \<Rightarrow> table \<Rightarrow> row \<Rightarrow> bool" where
  "may_select s T_Org r = (sql_eq (Some (rw_id r)) (app_org s) \<or> app_bypass s)"
| "may_select s T_User r = (app_uid s \<noteq> None \<or> app_org s \<noteq> None \<or> app_bypass s)"
| "may_select s T_LearningPath r = (rw_orgId r = None \<or> own_org s r \<or> app_bypass s)"
| "may_select s T_OrgInvite r = (own_org s r \<or> app_bypass s)"
| "may_select s T_OrgScenario r = (own_org s r \<or> app_bypass s)"
| "may_select s T_OrgMember r = (own_org s r \<or> own_user s r \<or> app_bypass s)"
| "may_select s T_PathAssignment r = (own_org s r \<or> own_user s r \<or> app_bypass s)"
| "may_select s T_QuizAttempt r = (own_user s r \<or> app_bypass s)"
| "may_select s T_ChallengeBookmark r = (own_user s r \<or> app_bypass s)"
| "may_select s T_ChallengeCheckResult r = (own_user s r \<or> app_bypass s)"
| "may_select s T_UserSession r = (own_user s r \<or> app_bypass s)"
| "may_select s T_Completion r = (app_uid s \<noteq> None \<or> own_user s r \<or> app_bypass s)"
| "may_select s T_ChallengeList r = (own_user s r \<or> rw_isPublic r \<and> app_uid s \<noteq> None \<or> app_bypass s)"
| "may_select s T_ChallengeListItem r = (app_bypass s \<or> own_user s r \<or> rw_isPublic r \<and> app_uid s \<noteq> None)"

text \<open>The rows an \<open>UPDATE\<close> may turn into.\<close>

fun may_write :: "settings \<Rightarrow> table \<Rightarrow> row \<Rightarrow> bool" where
  "may_write s T_Org r = (sql_eq (Some (rw_id r)) (app_org s) \<or> app_bypass s)"
| "may_write s T_User r = (sql_eq (Some (rw_id r)) (app_uid s) \<or> own_org s r \<or> app_bypass s)"
| "may_write s T_LearningPath r = (own_org s r \<or> app_bypass s)"
| "may_write s T_OrgInvite r = (own_org s r \<or> app_bypass s)"
| "may_write s T_OrgScenario r = (own_org s r \<or> app_bypass s)"
| "may_write s T_OrgMember r = (own_org s r \<or> app_bypass s)"
| "may_write s T_PathAssignment r = (own_org s r \<or> app_bypass s)"
| "may_write s T_QuizAttempt r = (own_user s r \<or> app_bypass s)"
| "may_write s T_ChallengeBookmark r = (own_user s r \<or> app_bypass s)"
| "may_write s T_ChallengeCheckResult r = (own_user s r \<or> app_bypass s)"
| "may_write s T_UserSession r = (own_user s r \<or> app_bypass s)"
| "may_write s T_Completion r = (own_user s r \<or> app_bypass s)"
| "may_write s T_ChallengeList r = (own_user s r \<or> app_bypass s)"
| "may_write s T_ChallengeListItem r = (app_bypass s \<or> own_user s r)"

text \<open>The rows an \<open>INSERT\<close> may add, and those a \<open>DELETE\<close> may remove.\<close>

fun may_insert :: "settings \<Rightarrow> table \<Rightarrow> row \<Rightarrow> bool" where
  "may_insert s T_Org r = (may_write s T_Org r \<or> app_uid s \<noteq> None)"
| "may_insert s T_User r = app_bypass s"
| "may_insert s t r = may_write s t r"

fun may_delete :: "settings \<Rightarrow> table \<Rightarrow> row \<Rightarrow> bool" where
  "may_delete s T_User r = (sql_eq (Some (rw_id r)) (app_uid s) \<or> app_bypass s)"
| "may_delete s t r = may_write s t r"

section \<open>What isolation holds\<close>

lemma tenant_settings:
  "operation_settings (createTenantClient BaseClient orgId userId) =
     [\<lparr>st_org = Some (js_or orgId ''''), st_user = Some (js_or userId ''''), st_bypass = Some ''''\<rparr>]"
  by (simp add: operation_settings_def createTenantClient_def no_settings_def)

lemma app_tenant:
  assumes "s \<in> set (operation_settings (createTenantClient BaseClient orgId userId))"
  shows "app_org s = js_or_null orgId" "app_uid s = js_or_null userId" "\<not> app_bypass s"
proof -
  have "js_or_null (Some (js_or x [])) = js_or_null x" for x by (cases x) auto
  with assms show "app_org s = js_or_null orgId" "app_uid s = js_or_null userId" "\<not> app_bypass s"
    by (auto simp: tenant_settings app_org_def app_uid_def app_bypass_def simp del: js_or_null.simps)
qed

lemma sql_eq_Some: "sql_eq a b \<longleftrightarrow> a \<noteq> None \<and> a = b"
  by (cases a; cases b) auto

text \<open>A row of the caller: of the caller's organization, or the caller's own.\<close>

definition callers_row :: "string option \<Rightarrow> string option \<Rightarrow> table \<Rightarrow> row \<Rightarrow> bool" where
  "callers_row orgId userId t r \<longleftrightarrow>
     truthy orgId \<and> (rw_orgId r = orgId \<or> t = T_Org \<and> Some (rw_id r) = orgId) \<or>
     truthy userId \<and> (rw_userId r = userId \<or> t = T_User \<and> Some (rw_id r) = userId)"

text \<open>What the policies mean to show of others: global paths, users, completions and public lists.\<close>

definition open_row :: "string option \<Rightarrow> string option \<Rightarrow> table \<Rightarrow> row \<Rightarrow> bool" where
  "open_row orgId userId t r \<longleftrightarrow> t = T_LearningPath \<and> rw_orgId r = None \<or>
     t = T_User \<and> (truthy orgId \<or> truthy userId) \<or>
     truthy userId \<and> (t = T_Completion \<or> t \<in> {T_ChallengeList, T_ChallengeListItem} \<and> rw_isPublic r)"

text \<open>
  C17. A tenant client over the plain client isolates the tenants in the tables of the policies. A row that it
  changes or removes is of the caller's organization or the caller's own; so is one that it adds, or it is an
  organization that a known user adds; users are not added at all. A row that it reads is such a row, a path of
  the global catalog, a user if there is a caller, a completion or a public list or an item of one if the
  caller is a user. So without a caller nothing is written, and read are paths of the global catalog only.
\<close>

theorem tenants_isolated:
  assumes "s \<in> set (operation_settings (createTenantClient BaseClient orgId userId))"
  shows "(may_write s t r \<or> may_delete s t r \<longrightarrow> callers_row orgId userId t r) \<and>
    (may_insert s t r \<longrightarrow> t \<noteq> T_User \<and> (callers_row orgId userId t r \<or> t = T_Org \<and> truthy userId)) \<and>
    (may_select s t r \<longrightarrow> callers_row orgId userId t r \<or> open_row orgId userId t r) \<and>
    (\<not> truthy orgId \<and> \<not> truthy userId \<longrightarrow> \<not> may_write s t r \<and> \<not> may_delete s t r \<and> \<not> may_insert s t r \<and>
       (may_select s t r \<longrightarrow> t = T_LearningPath \<and> rw_orgId r = None))"
proof -
  note app = app_tenant [OF assms]
  note rules = own_org_def own_user_def sql_eq_Some app callers_row_def open_row_def
  have null: "js_or_null x = (if truthy x then x else None)" for x by (cases x) auto
  have "may_write s t r \<or> may_delete s t r \<Longrightarrow> callers_row orgId userId t r"
    by (cases t) (auto simp: rules null split: if_splits)
  moreover have "may_insert s t r \<Longrightarrow> t \<noteq> T_User \<and> (callers_row orgId userId t r \<or> t = T_Org \<and> truthy userId)"
    by (cases t) (auto simp: rules null split: if_splits)
  moreover have "may_select s t r \<Longrightarrow> callers_row orgId userId t r \<or> open_row orgId userId t r"
    by (cases t) (auto simp: rules null split: if_splits)
  ultimately show ?thesis by (auto simp: callers_row_def open_row_def)
qed

definition cache_ok :: "client \<Rightarrow> client_cache \<Rightarrow> bool" where
  "cache_ok base cache \<longleftrightarrow>
     (\<forall>c. cc_client cache = Some c \<longrightarrow> c = createTenantClient base (cc_orgId cache) (cc_userId cache))"

lemma get_prisma_ok:
  "cache_ok base cache \<Longrightarrow>
   \<exists>cache'. get_prisma base u cache = (createTenantClient base (caller_org u) (caller_user u), cache') \<and> cache_ok base cache'"
  by (cases "cc_client cache") (auto simp: get_prisma_def cache_ok_def Let_def)

lemma accesses_follow:
  "cache_ok base cache \<Longrightarrow> accesses base us cache = map (\<lambda>u. createTenantClient base (caller_org u) (caller_user u)) us"
proof (induction us arbitrary: cache)
  case (Cons u us)
  from get_prisma_ok [OF Cons.prems, of u] Cons.IH show ?case by auto
qed simp

lemma empty_cache_ok: "cache_ok base empty_cache"
  by (simp add: cache_ok_def empty_cache_def)

text \<open>
  The getter gives each access of a request the client of the user known at that moment, also when
  the token was verified after an earlier access.
\<close>

lemma getter_follows_user:
  "accesses base us empty_cache = map (\<lambda>u. createTenantClient base (caller_org u) (caller_user u)) us"
  by (rule accesses_follow [OF empty_cache_ok])

lemma service_settings:
  "operation_settings (createTenantClient service_client orgId userId) =
     [\<lparr>st_org = None, st_user = None, st_bypass = Some ''true''\<rparr>]"
  by (simp add: operation_settings_def createTenantClient_def createBypassClient_def service_client_def no_settings_def)

lemma bypass_all: "app_bypass s \<Longrightarrow> may_select s t r \<and> may_write s t r \<and> may_insert s t r \<and> may_delete s t r"
  by (cases t) auto

text \<open>
  The services have no such isolation. The client of each request extends the trusted client of the
  service, so that each of its operations runs in the transaction of the latter, with the policies
  bypassed: whoever asks, every row of every table can be read, added, changed and removed.
\<close>

lemma rls_never_filters:
  "list_all (\<lambda>c. operation_settings c \<noteq> [] \<and> list_all (\<lambda>s. may_select s t r \<and> may_write s t r \<and> may_insert s t r \<and> may_delete s t r) (operation_settings c))
     (accesses service_client us empty_cache)"
  by (simp add: accesses_follow [OF empty_cache_ok] list.pred_map comp_def service_settings bypass_all app_bypass_def list.pred_True)

section \<open>Examples\<close>

definition foreign_invite :: row where
  "foreign_invite = \<lparr>rw_id = ''i1'', rw_orgId = Some ''acme'', rw_userId = None, rw_isPublic = False\<rparr>"

definition acme_settings :: settings where
  "acme_settings = \<lparr>st_org = Some ''acme'', st_user = Some ''ann'', st_bypass = Some []\<rparr>"

lemma tenants_isolated_witness:
  "acme_settings \<in> set (operation_settings (createTenantClient BaseClient (Some ''acme'') (Some ''ann''))) \<and>
   callers_row (Some ''acme'') (Some ''ann'') T_OrgInvite foreign_invite \<and>
   \<not> may_delete acme_settings T_OrgInvite (foreign_invite\<lparr>rw_orgId := Some ''other''\<rparr>)"
proof -
  have s: "acme_settings \<in> set (operation_settings (createTenantClient BaseClient (Some ''acme'') (Some ''ann'')))"
    by (simp add: tenant_settings acme_settings_def)
  have "may_write acme_settings T_OrgInvite foreign_invite"
    by (simp add: own_org_def app_org_def acme_settings_def foreign_invite_def)
  then have "callers_row (Some ''acme'') (Some ''ann'') T_OrgInvite foreign_invite"
    using tenants_isolated [OF s, of T_OrgInvite foreign_invite] by blast
  moreover have "\<not> callers_row (Some ''acme'') (Some ''ann'') T_OrgInvite (foreign_invite\<lparr>rw_orgId := Some ''other''\<rparr>)"
    by (simp add: callers_row_def foreign_invite_def)
  then have "\<not> may_delete acme_settings T_OrgInvite (foreign_invite\<lparr>rw_orgId := Some ''other''\<rparr>)"
    using tenants_isolated [OF s, of T_OrgInvite "foreign_invite\<lparr>rw_orgId := Some ''other''\<rparr>"] by blast
  ultimately show ?thesis using s by blast
qed

end
