(* ===== verification/Web_Client.thy ===== *)
theory Web_Client
  imports Prelude "HOL-Library.AList"
begin

text \<open>
  The library of the web client in \<open>apps/web/src/lib\<close>: the errors it shows (\<open>errors.ts\<close>), the client of
  the gateway with its single refresh in flight (\<open>apiClient.ts\<close>) and the progress of visitors without an
  account (\<open>guestRoadmap.ts\<close>). Calls of the client overlap in the browser, so the client is a machine whose
  steps are the answers of the gateway, in any order. Codes that happen to be names of methods of every
  JavaScript object, and bodies that are not objects, are not modelled.
\<close>

section \<open>Strings\<close>

fun str_includes :: "string \<Rightarrow> string \<Rightarrow> bool" where
  "str_includes p [] = (p = [])"
| "str_includes p (c # s) = (starts_with p (c # s) \<or> str_includes p s)"

text \<open>\<open>a || b || d\<close> where \<open>d\<close> is known.\<close>

fun first_truthy :: "string option list \<Rightarrow> string \<Rightarrow> string" where
  "first_truthy [] d = d"
| "first_truthy (x # xs) d = (if truthy x then the x else first_truthy xs d)"

text \<open>\<open>s.replace(p, r)\<close> for a string \<open>p\<close> replaces its first occurrence.\<close>

fun replace_first :: "string \<Rightarrow> string \<Rightarrow> string \<Rightarrow> string" where
  "replace_first p r [] = (if p = [] then r else [])"
| "replace_first p r (c # s) =
     (if starts_with p (c # s) then r @ drop (length p) (c # s) else c # replace_first p r s)"

definition workerHealth :: "string \<Rightarrow> string" where
  "workerHealth terminalUrl =
     replace_first ''/terminal'' ''/health''
       (replace_first ''wss://'' ''https://'' (replace_first ''ws://'' ''http://'' terminalUrl))"

section \<open>Errors\<close>

datatype severity = Info | Warning | Error | Critical

datatype code_config = code_config (cc_message: string) (cc_severity: severity) (cc_retryable: bool)

datatype status_config =
  status_config (st_message: string) (st_code: string) (st_severity: severity) (st_retryable: bool)

definition CODE_REGISTRY :: "(string \<times> code_config) list" where
  "CODE_REGISTRY =
    [(''USER_EXISTS'', code_config ''An account with this email address already exists.'' Warning False),
     (''INVALID_CREDENTIALS'', code_config ''The email or password you entered is incorrect.'' Error False),
     (''ACCOUNT_LOCKED'', code_config ''This account has been temporarily locked due to too many failed attempts. Please try again later.'' Critical False),
     (''INVALID_VERIFICATION_TOKEN'', code_config ''The verification link is invalid or has expired. Please request a new one.'' Error False),
     (''INVALID_RESET_TOKEN'', code_config ''Your password reset link is invalid or has expired.'' Error False),
     (''MFA_REQUIRED'', code_config ''Multi-factor authentication is required to continue.'' Info False),
     (''INVALID_MFA_CODE'', code_config ''The verification code is incorrect. Please try again.'' Error False),
     (''INVALID_MFA_TOKEN'', code_config ''Your MFA session has expired. Please log in again.'' Warning False),
     (''MFA_SETUP_INCOMPLETE'', code_config ''MFA setup is not complete. Please finish setup first.'' Warning False),
     (''MFA_ALREADY_ENABLED'', code_config ''Multi-factor authentication is already enabled on your account.'' Info False),
     (''MFA_NOT_INITIALIZED'', code_config ''MFA has not been set up yet.'' Info False),
     (''REFRESH_TOKEN_MISSING'', code_config ''Your session has expired. Please log in again.'' Warning False),
     (''INVALID_REFRESH_TOKEN'', code_config ''Your session has expired. Please log in again.'' Warning False),
     (''SESSION_COMPROMISED'', code_config ''Your session was invalidated for security reasons. Please log in again.'' Critical False),
     (''SESSION_EXPIRED'', code_config ''Your active session has expired. Please refresh or re-authenticate.'' Warning False),
     (''UNAUTHORIZED'', code_config ''You must be logged in to perform this action.'' Warning False),
     (''FORBIDDEN'', code_config ''You do not have permission to access this resource.'' Error False),
     (''USER_NOT_FOUND'', code_config ''The requested user account could not be found.'' Error False),
     (''OAUTH_NO_PASSWORD'', code_config ''This account uses social sign-in and does not have a local password.'' Info False),
     (''INCORRECT_PASSWORD'', code_config ''The current password you entered is incorrect.'' Error False),
     (''CHALLENGE_NOT_FOUND'', code_config ''The requested challenge scenario does not exist or has been archived.'' Error False),
     (''EDITORIAL_LOCKED'', code_config ''The solution editorial is locked until you complete the scenario or obtain administrator access.'' Warning False),
     (''SESSION_LIMIT_EXCEEDED'', code_config ''You have reached the maximum number of concurrent sandbox containers. Terminate an existing lab first.'' Warning True),
     (''SANDBOX_UNAVAILABLE'', code_config ''Sandbox worker nodes are currently at capacity. Please retry in a few moments.'' Error True),
     (''SANDBOX_BOOT_FAILED'', code_config ''Failed to initialize the container environment. Please try starting the lab again.'' Error True),
     (''VALIDATION_FAILED'', code_config ''Automated checks did not pass. Inspect check output and try again.'' Warning True),
     (''EXECUTION_TIMEOUT'', code_config ''The execution or validation test timed out before completing.'' Warning True),
     (''ROADMAPS_LOAD_FAILED'', code_config ''Failed to load engineering roadmaps. Please try again.'' Error True),
     (''ROADMAP_NOT_FOUND'', code_config ''The requested roadmap could not be found or has been removed.'' Error False),
     (''QUIZZES_LOAD_FAILED'', code_config ''Failed to load quizzes. Please check your network connection.'' Error True),
     (''QUIZ_NOT_FOUND'', code_config ''The requested quiz could not be found or has been removed.'' Error False),
     (''ASSISTANT_ERROR'', code_config ''Failed to connect to assistant. Please try again.'' Warning True),
     (''SHARE_NOT_FOUND'', code_config ''Proof of skill not found or link has expired.'' Error False),
     (''ORG_NOT_FOUND'', code_config ''Organization not found.'' Error False),
     (''ORG_ACCESS_DENIED'', code_config ''You do not have the required organization privileges for this operation.'' Error False),
     (''INVITE_EXPIRED'', code_config ''This team invitation has expired. Please ask your administrator to re-invite you.'' Warning False),
     (''SEAT_LIMIT_REACHED'', code_config ''Your organization has allocated all purchased member seats.'' Warning False),
     (''NOT_FOUND'', code_config ''The requested resource could not be found.'' Error False),
     (''RATE_LIMITED'', code_config ''Too many requests. Please slow down and try again later.'' Warning True),
     (''NETWORK_ERROR'', code_config ''Unable to reach the server. Please check your internet connection.'' Error True),
     (''SERVER_ERROR'', code_config ''An internal server error occurred. Our engineering team has been notified.'' Critical True),
     (''SERVICE_UNAVAILABLE'', code_config ''The service is temporarily unavailable. Please try again shortly.'' Critical True),
     (''TIMEOUT'', code_config ''The network request timed out. Please try again.'' Warning True),
     (''UNKNOWN_ERROR'', code_config ''An unexpected error occurred. Please try again.'' Error True)]"

definition STATUS_FALLBACKS :: "(int \<times> status_config) list" where
  "STATUS_FALLBACKS =
    [(400, status_config ''The request was invalid. Please verify your inputs.'' ''BAD_REQUEST'' Warning False),
     (401, status_config ''You must be logged in to perform this action.'' ''UNAUTHORIZED'' Warning False),
     (403, status_config ''You do not have permission to access this resource.'' ''FORBIDDEN'' Error False),
     (404, status_config ''The requested resource could not be found.'' ''NOT_FOUND'' Error False),
     (409, status_config ''A conflicting resource already exists.'' ''CONFLICT'' Warning False),
     (422, status_config ''Validation failed. Please check the supplied fields.'' ''UNPROCESSABLE_ENTITY'' Warning False),
     (429, status_config ''Too many requests. Please slow down and try again later.'' ''RATE_LIMITED'' Warning True),
     (500, status_config ''An internal server error occurred.'' ''SERVER_ERROR'' Critical True),
     (502, status_config ''Bad Gateway - backend service may be starting or unavailable.'' ''SERVICE_UNAVAILABLE'' Critical True),
     (503, status_config ''Service temporarily unavailable. Please try again later.'' ''SERVICE_UNAVAILABLE'' Critical True),
     (504, status_config ''Gateway timeout waiting for upstream microservice.'' ''TIMEOUT'' Critical True)]"

definition registered :: "string \<Rightarrow> code_config option" where
  "registered code = map_of CODE_REGISTRY code"

definition fallback_of :: "int \<Rightarrow> status_config option" where
  "fallback_of status = map_of STATUS_FALLBACKS status"

record api_error =
  ae_message :: string
  ae_status :: int
  ae_code :: string
  ae_severity :: severity
  ae_retryable :: bool
  ae_field :: "string option"

text \<open>\<open>a ?? b\<close> and, as no severity is an empty string, \<open>a || b\<close> on severities.\<close>

fun or_else :: "'a option \<Rightarrow> 'a option \<Rightarrow> 'a option" where
  "or_else (Some x) y = Some x"
| "or_else None y = y"

fun get_or :: "'a \<Rightarrow> 'a option \<Rightarrow> 'a" where
  "get_or d (Some x) = x"
| "get_or d None = d"

definition code_for :: "string option \<Rightarrow> int \<Rightarrow> string" where
  "code_for code status = first_truthy [code, map_option st_code (fallback_of status)] ''UNKNOWN_ERROR''"

definition severity_for :: "string \<Rightarrow> int \<Rightarrow> severity" where
  "severity_for code status =
     get_or Error (or_else (map_option cc_severity (registered code)) (map_option st_severity (fallback_of status)))"

definition retryable_for :: "bool \<Rightarrow> string \<Rightarrow> int \<Rightarrow> bool" where
  "retryable_for d code status =
     get_or d (or_else (map_option cc_retryable (registered code)) (map_option st_retryable (fallback_of status)))"

text \<open>The constructor of \<open>ApiError\<close>: \<open>field\<close>, \<open>severity\<close> and \<open>retryable\<close> are its options.\<close>

definition new_ApiError ::
  "string \<Rightarrow> int \<Rightarrow> string option \<Rightarrow> string option \<Rightarrow> severity option \<Rightarrow> bool option \<Rightarrow> api_error" where
  "new_ApiError message status code field severity retryable =
     (let c = code_for code status in
      \<lparr>ae_message = message, ae_status = status, ae_code = c,
       ae_severity = get_or (severity_for c status) severity,
       ae_retryable = get_or (retryable_for False c status) retryable, ae_field = field\<rparr>)"

definition fromCode :: "string \<Rightarrow> int \<Rightarrow> string option \<Rightarrow> api_error" where
  "fromCode code status customMessage =
     new_ApiError (first_truthy [customMessage, map_option cc_message (registered code)] ''Operation failed'')
       status (Some code) None None None"

text \<open>
  What the browser can throw: the body of an answer is an object with these fields, or missing; \<open>ax_config\<close>
  tells whether the error has the configuration of its call.
\<close>

record server_data =
  sd_error :: "string option"
  sd_message :: "string option"
  sd_code :: "string option"
  sd_field :: "string option"

record axios_error =
  ax_message :: string
  ax_config :: bool
  ax_response :: "(int \<times> server_data option) option"

datatype js_error =
    ApiErr api_error
  | AxiosErr axios_error
  | PlainErr string
  | StringErr string
  | NoValue

record error_details =
  ed_message :: string
  ed_code :: string
  ed_status :: int
  ed_severity :: severity
  ed_retryable :: bool
  ed_field :: "string option"

definition unexpected :: string where
  "unexpected = ''An unexpected error occurred.''"

definition unknown_details :: "string \<Rightarrow> error_details" where
  "unknown_details message = \<lparr>ed_message = message, ed_code = ''UNKNOWN_ERROR'', ed_status = 500,
     ed_severity = Error, ed_retryable = True, ed_field = None\<rparr>"

definition toDetails :: "api_error \<Rightarrow> error_details" where
  "toDetails e = \<lparr>ed_message = ae_message e, ed_code = ae_code e, ed_status = ae_status e,
     ed_severity = ae_severity e, ed_retryable = ae_retryable e, ed_field = ae_field e\<rparr>"

definition data_of :: "axios_error \<Rightarrow> server_data option" where
  "data_of e = Option.bind (ax_response e) snd"

definition status_of :: "axios_error \<Rightarrow> int" where
  "status_of e = (case ax_response e of None \<Rightarrow> 500 | Some (s, _) \<Rightarrow> if s = 0 then 500 else s)"

definition data_field :: "(server_data \<Rightarrow> string option) \<Rightarrow> axios_error \<Rightarrow> string option" where
  "data_field f e = Option.bind (data_of e) f"

definition axios_details :: "axios_error \<Rightarrow> string option \<Rightarrow> error_details" where
  "axios_details e fallback =
     (let status = status_of e;
          serverCode = data_field sd_code e;
          matched = code_for serverCode status;
          friendly = (if truthy serverCode then map_option cc_message (registered (the serverCode)) else None)
      in \<lparr>ed_message = first_truthy [friendly, data_field sd_error e, data_field sd_message e,
            map_option st_message (fallback_of status), fallback] ''Network request failed.'',
          ed_code = matched, ed_status = status, ed_severity = severity_for matched status,
          ed_retryable = retryable_for True matched status, ed_field = data_field sd_field e\<rparr>)"

fun normalizeError :: "js_error \<Rightarrow> string option \<Rightarrow> error_details" where
  "normalizeError (ApiErr e) fallback =
     (let friendly = map_option cc_message (registered (ae_code e)) in
      (toDetails e)\<lparr>ed_message :=
         if truthy friendly then the friendly
         else if ae_message e \<noteq> ''Request failed'' then ae_message e
         else first_truthy [fallback, friendly] unexpected\<rparr>)"
| "normalizeError (AxiosErr e) fallback = axios_details e fallback"
| "normalizeError (PlainErr msg) fallback = unknown_details (first_truthy [fallback, Some msg] unexpected)"
| "normalizeError (StringErr s) fallback = unknown_details (first_truthy [fallback, Some s] unexpected)"
| "normalizeError NoValue fallback = unknown_details (first_truthy [fallback] unexpected)"

fun getErrorMessage :: "js_error \<Rightarrow> string option \<Rightarrow> string" where
  "getErrorMessage (ApiErr e) fallback =
     (case (if ae_code e = [] then None else registered (ae_code e)) of
        Some reg \<Rightarrow> cc_message reg
      | None \<Rightarrow> first_truthy [map_option st_message (fallback_of (ae_status e)), fallback, Some (ae_message e)] unexpected)"
| "getErrorMessage (AxiosErr e) fallback = first_truthy [fallback] (ax_message e)"
| "getErrorMessage (PlainErr msg) fallback = first_truthy [fallback] msg"
| "getErrorMessage (StringErr s) fallback = first_truthy [fallback] (if s = [] then unexpected else s)"
| "getErrorMessage NoValue fallback = first_truthy [fallback] unexpected"

section \<open>The client of the gateway\<close>

text \<open>The error of the interceptor, from the answer of a call that was not repeated.\<close>

definition rejection :: "axios_error \<Rightarrow> api_error" where
  "rejection e =
     (let status = status_of e;
          msg = (if data_of e \<noteq> None then first_truthy [data_field sd_error e, data_field sd_message e] ''Request failed''
                 else if status = 502 \<or> status = 503 \<or> status = 504
                   then ''Service unavailable - backend may not be running'' else ''Request failed'')
      in new_ApiError msg status (data_field sd_code e) None None None)"

text \<open>
  A call is on its way, waits for the refresh, or is settled: with the body of the answer (none for a
  204) or with the error thrown. \<open>cl_sends\<close> counts how often the call was sent; the code has no such counter.
\<close>

datatype phase = Sent_out | Awaiting_refresh axios_error | Settled "js_error + string option"

record call =
  cl_url :: string
  cl_retry :: bool
  cl_phase :: phase
  cl_sends :: nat

text \<open>
  The client: its calls and whether \<open>refreshPromise\<close> is set. \<open>wc_refreshes\<close> counts the calls of the
  refresh route.
\<close>

record web_client =
  wc_calls :: "call list"
  wc_refreshing :: bool
  wc_refreshes :: nat

definition idle_client :: web_client where
  "idle_client = \<lparr>wc_calls = [], wc_refreshing = False, wc_refreshes = 0\<rparr>"

definition send_call :: "string \<Rightarrow> web_client \<Rightarrow> web_client" where
  "send_call url c =
     c\<lparr>wc_calls := wc_calls c @ [\<lparr>cl_url = url, cl_retry = False, cl_phase = Sent_out, cl_sends = 1\<rparr>]\<rparr>"

definition response_ok :: "nat \<Rightarrow> string \<Rightarrow> call \<Rightarrow> call" where
  "response_ok status body k = k\<lparr>cl_phase := Settled (Inr (if status = 204 then None else Some body))\<rparr>"

definition may_refresh :: "axios_error \<Rightarrow> call \<Rightarrow> bool" where
  "may_refresh e k \<longleftrightarrow> map_option fst (ax_response e) = Some 401 \<and>
     \<not> str_includes ''/api/auth/refresh'' (cl_url k) \<and> \<not> str_includes ''/api/auth/login'' (cl_url k) \<and> \<not> cl_retry k"

text \<open>The first who needs new tokens asks for them; the others wait for the same promise.\<close>

definition refreshTokens :: "web_client \<Rightarrow> web_client" where
  "refreshTokens c = (if wc_refreshing c then c
     else c\<lparr>wc_refreshing := True, wc_refreshes := wc_refreshes c + 1\<rparr>)"

text \<open>Of an error without a configuration the address cannot be read, which throws in the interceptor.\<close>

definition no_config :: js_error where
  "no_config = PlainErr ''Cannot read properties of undefined''"

definition response_error :: "axios_error \<Rightarrow> nat \<Rightarrow> web_client \<Rightarrow> web_client" where
  "response_error e i c =
     (let k = wc_calls c ! i in
      if \<not> ax_config e then c\<lparr>wc_calls := (wc_calls c)[i := k\<lparr>cl_phase := Settled (Inl no_config)\<rparr>]\<rparr>
      else if may_refresh e k
      then refreshTokens (c\<lparr>wc_calls := (wc_calls c)[i := k\<lparr>cl_retry := True, cl_phase := Awaiting_refresh e\<rparr>]\<rparr>)
      else c\<lparr>wc_calls := (wc_calls c)[i := k\<lparr>cl_phase := Settled (Inl (ApiErr (rejection e)))\<rparr>]\<rparr>)"

text \<open>A call that waited is sent again after a refresh that worked, and fails as it did otherwise.\<close>

definition resume :: "bool \<Rightarrow> call \<Rightarrow> call" where
  "resume refreshed k = (case cl_phase k of
       Awaiting_refresh e \<Rightarrow>
         if refreshed then k\<lparr>cl_phase := Sent_out, cl_sends := cl_sends k + 1\<rparr>
         else k\<lparr>cl_phase := Settled (Inl (ApiErr (rejection e)))\<rparr>
     | _ \<Rightarrow> k)"

text \<open>The answer of the refresh route: its status, or none when the call throws.\<close>

definition refresh_answered :: "nat option \<Rightarrow> web_client \<Rightarrow> web_client" where
  "refresh_answered status c =
     c\<lparr>wc_refreshing := False, wc_calls := List.map (resume (status = Some 200)) (wc_calls c)\<rparr>"

datatype client_event =
    Send string
  | Answer nat nat string
  | Fails nat axios_error
  | RefreshAnswer "nat option"

definition on_its_way :: "nat \<Rightarrow> web_client \<Rightarrow> bool" where
  "on_its_way i c \<longleftrightarrow> i < length (wc_calls c) \<and> cl_phase (wc_calls c ! i) = Sent_out"

inductive client_step :: "web_client \<Rightarrow> client_event \<Rightarrow> web_client \<Rightarrow> bool" where
  send: "client_step c (Send url) (send_call url c)"
| answer: "on_its_way i c \<Longrightarrow> 200 \<le> status \<Longrightarrow> status < 300 \<Longrightarrow>
     client_step c (Answer i status body) (c\<lparr>wc_calls := (wc_calls c)[i := response_ok status body (wc_calls c ! i)]\<rparr>)"
| fails: "on_its_way i c \<Longrightarrow> client_step c (Fails i e) (response_error e i c)"
| refreshed: "wc_refreshing c \<Longrightarrow> client_step c (RefreshAnswer status) (refresh_answered status c)"

inductive_cases client_stepE: "client_step c e c'"

inductive client_run :: "web_client \<Rightarrow> client_event list \<Rightarrow> web_client \<Rightarrow> bool" where
  client_nil: "client_run c [] c"
| client_cons: "client_step c e c1 \<Longrightarrow> client_run c1 es c2 \<Longrightarrow> client_run c (e # es) c2"

text \<open>The result of the calls that do not throw.\<close>

datatype 'a api_result =
    Ok_data 'a nat
  | Failed_with string int "string option" "'a option"

fun makeFailure :: "js_error \<Rightarrow> 'a api_result" where
  "makeFailure (ApiErr e) = Failed_with (ae_message e) (ae_status e) (Some (ae_code e)) None"
| "makeFailure (AxiosErr e) =
     Failed_with (first_truthy [data_field sd_message e, Some (ax_message e)] ''Request failed'') (status_of e) None None"
| "makeFailure (PlainErr msg) = Failed_with msg 500 None None"
| "makeFailure (StringErr s) = Failed_with s 500 None None"
| "makeFailure NoValue = Failed_with ''Request failed'' 500 None None"

fun safe_result :: "js_error + 'a \<Rightarrow> 'a api_result" where
  "safe_result (Inr data) = Ok_data data 200"
| "safe_result (Inl err) = makeFailure err"

text \<open>\<open>safeRawPost\<close> on an answer: its engine throws for a status from 500 on only.\<close>

definition safeRawPost :: "js_error + (int \<times> 'a \<times> string option) \<Rightarrow> 'a api_result" where
  "safeRawPost r = (case r of
       Inl err \<Rightarrow> makeFailure err
     | Inr (status, data, message) \<Rightarrow>
         if 200 \<le> status \<and> status < 300 then Ok_data data (nat status)
         else Failed_with (first_truthy [message] ''Request failed'') status None (Some data))"

section \<open>Progress without an account\<close>

text \<open>
  The entry of a roadmap; \<open>None\<close> where the stored value is not an array. Of the local storage we keep
  the item of this module: absent, text that is no JSON, or the parsed object. Storing an object and
  parsing it again gives the object, here the list of its entries. Nothing else writes the item, so that it
  is never another JSON value, such as \<open>null\<close>.
\<close>

record guest_entry =
  ge_completed :: "string list option"
  ge_inProgress :: "string list option"
  ge_updatedAt :: int

datatype stored_item = Absent | Unreadable | Stored "(string \<times> guest_entry) list"

record browser =
  br_window :: bool
  br_readable :: bool
  br_writable :: bool
  br_item :: stored_item

record roadmap_progress =
  rp_roadmapId :: string
  rp_completed :: "string list"
  rp_inProgress :: "string list"

definition getGuestRoadmapStore :: "browser \<Rightarrow> (string \<times> guest_entry) list" where
  "getGuestRoadmapStore b =
     (if \<not> br_window b \<or> \<not> br_readable b then []
      else case br_item b of Stored s \<Rightarrow> s | _ \<Rightarrow> [])"

definition getGuestRoadmapProgress :: "browser \<Rightarrow> string \<Rightarrow> roadmap_progress option" where
  "getGuestRoadmapProgress b slug = (case map_of (getGuestRoadmapStore b) slug of
       None \<Rightarrow> None
     | Some entry \<Rightarrow> Some \<lparr>rp_roadmapId = slug, rp_completed = get_or [] (ge_completed entry),
         rp_inProgress = get_or [] (ge_inProgress entry)\<rparr>)"

definition saveGuestRoadmapProgress :: "int \<Rightarrow> string \<Rightarrow> string list \<Rightarrow> string list \<Rightarrow> browser \<Rightarrow> browser" where
  "saveGuestRoadmapProgress now slug completed inProgress b =
     (if \<not> br_window b \<or> \<not> br_writable b then b
      else b\<lparr>br_item := Stored (AList.update slug
        \<lparr>ge_completed = Some completed, ge_inProgress = Some inProgress, ge_updatedAt = now\<rparr> (getGuestRoadmapStore b))\<rparr>)"

definition clearGuestRoadmapStore :: "browser \<Rightarrow> browser" where
  "clearGuestRoadmapStore b = (if \<not> br_window b \<or> \<not> br_writable b then b else b\<lparr>br_item := Absent\<rparr>)"

text \<open>\<open>Array.from(new Set(xs))\<close> keeps the first of equal elements.\<close>

fun from_set :: "'a list \<Rightarrow> 'a list" where
  "from_set [] = []"
| "from_set (x # xs) = x # List.filter (\<lambda>y. y \<noteq> x) (from_set xs)"

definition mergeRoadmapProgress :: "roadmap_progress option \<Rightarrow> string list \<Rightarrow> string list \<Rightarrow> roadmap_progress" where
  "mergeRoadmapProgress account guestCompleted guestInProgress =
     (let completed = from_set (get_or [] (map_option rp_completed account) @ guestCompleted);
          inProgress = from_set (get_or [] (map_option rp_inProgress account) @ guestInProgress)
      in \<lparr>rp_roadmapId = get_or [] (map_option rp_roadmapId account), rp_completed = completed,
          rp_inProgress = List.filter (\<lambda>n. n \<notin> set completed) inProgress\<rparr>)"

end
