(* ===== verification/Web_Client_Laws.thy ===== *)
theory Web_Client_Laws
  imports Web_Client
begin

text \<open>
  What the library of the web client promises: one refresh at a time and a bounded number of answers,
  errors that are classified the same way however they come, messages that are never empty, and a merge
  of progress that loses nothing.
\<close>

section \<open>Errors\<close>

text \<open>
  An error of the gateway is classified the same way whether the interceptor has wrapped it or a page
  looks at it directly: code, status and severity agree, the severity is that of the registered code when
  there is one, and a retry is offered alike unless neither code nor status is known.
\<close>

lemma classified_alike:
  "let wrapped = normalizeError (ApiErr (rejection e)) fb; direct = normalizeError (AxiosErr e) fb' in
    ed_code wrapped = ed_code direct \<and> ed_status wrapped = ed_status direct \<and>
    ed_severity wrapped = ed_severity direct \<and>
    (ed_retryable wrapped \<noteq> ed_retryable direct \<longleftrightarrow>
      registered (ed_code direct) = None \<and> fallback_of (ed_status direct) = None)"
  by (cases "registered (code_for (data_field sd_code e) (status_of e))"; cases "fallback_of (status_of e)")
     (simp_all add: rejection_def new_ApiError_def axios_details_def toDetails_def severity_for_def retryable_for_def Let_def)

lemma tables_not_empty:
  "list_all (\<lambda>(c, r). cc_message r \<noteq> []) CODE_REGISTRY" "list_all (\<lambda>(n, r). st_message r \<noteq> []) STATUS_FALLBACKS"
  by (simp_all add: CODE_REGISTRY_def STATUS_FALLBACKS_def)

lemma messages_not_empty:
  "registered code = Some reg \<Longrightarrow> cc_message reg \<noteq> []" "fallback_of status = Some st \<Longrightarrow> st_message st \<noteq> []"
  using tables_not_empty by (auto simp: list_all_iff registered_def fallback_of_def dest!: map_of_SomeD)

lemma first_truthy_not_empty: "d \<noteq> [] \<Longrightarrow> first_truthy xs d \<noteq> []"
  by (induction xs) (auto dest: truthyD)

text \<open>
  Whatever the gateway answers, the page has something to say about it: neither message of a rejected
  call is empty, and the more detailed one is the one the code stands for when the code is registered.
\<close>

lemma rejections_explained:
  "getErrorMessage (ApiErr (rejection e)) fb \<noteq> [] \<and> ed_message (normalizeError (ApiErr (rejection e)) fb) \<noteq> [] \<and>
    (case registered (ae_code (rejection e)) of
       None \<Rightarrow> True
     | Some reg \<Rightarrow> ed_message (normalizeError (ApiErr (rejection e)) fb) = cc_message reg)"
proof -
  let ?c = "ae_code (rejection e)"
  have msg: "ae_message (rejection e) \<noteq> []"
    by (simp add: rejection_def new_ApiError_def Let_def first_truthy_not_empty del: first_truthy.simps)
  have "ed_message (normalizeError (ApiErr (rejection e)) fb) \<noteq> []"
    using msg by (cases "registered ?c") (auto simp: Let_def first_truthy_not_empty unexpected_def messages_not_empty simp del: first_truthy.simps)
  moreover have "getErrorMessage (ApiErr (rejection e)) fb \<noteq> []"
    by (auto simp: first_truthy_not_empty unexpected_def messages_not_empty simp del: first_truthy.simps split: option.split)
  moreover have "ed_message (normalizeError (ApiErr (rejection e)) fb) = cc_message reg" if "registered ?c = Some reg" for reg
    using that by (simp add: Let_def messages_not_empty)
  ultimately show ?thesis by (auto split: option.split simp del: normalizeError.simps getErrorMessage.simps)
qed

text \<open>
  The pages ask for the message of a code by passing the code itself, and what they show is the code: a
  string is shown as it is.
\<close>

lemma codes_shown_raw: "code \<noteq> [] \<Longrightarrow> getErrorMessage (StringErr code) None = code"
  by simp

section \<open>One refresh at a time\<close>

definition waits :: "call \<Rightarrow> bool" where
  "waits k \<longleftrightarrow> (\<exists>e. cl_phase k = Awaiting_refresh e)"

definition call_ok :: "call \<Rightarrow> bool" where
  "call_ok k \<longleftrightarrow> (if cl_retry k then (if waits k then cl_sends k = 1 else cl_sends k \<le> 2) else cl_sends k = 1 \<and> \<not> waits k)"

definition client_ok :: "web_client \<Rightarrow> bool" where
  "client_ok c \<longleftrightarrow> list_all call_ok (wc_calls c) \<and> (wc_refreshing c \<longleftrightarrow> list_ex waits (wc_calls c)) \<and>
     wc_refreshes c \<le> count_rows cl_retry (wc_calls c)"

lemma resumed: "call_ok k \<Longrightarrow> call_ok (resume r k) \<and> \<not> waits (resume r k)"
  by (auto simp: call_ok_def waits_def resume_def split: phase.split if_splits)

lemma ok_at: "client_ok c \<Longrightarrow> on_its_way i c \<Longrightarrow> call_ok (wc_calls c ! i) \<and> \<not> waits (wc_calls c ! i) \<and> i < length (wc_calls c)"
  by (auto simp: client_ok_def on_its_way_def list_all_length waits_def)

lemma waits_update:
  "i < length ks \<Longrightarrow> \<not> waits (ks ! i) \<Longrightarrow> list_ex waits (ks[i := k]) \<longleftrightarrow> waits k \<or> list_ex waits ks"
  by (auto simp: list_ex_length nth_list_update)

lemma ok_update: "list_all P ks \<Longrightarrow> P k \<Longrightarrow> list_all P (ks[i := k])"
  by (cases "i < length ks") (auto simp: list_all_length nth_list_update)

lemma count_update:
  "i < length ks \<Longrightarrow> count_rows P (ks[i := k]) + (if P (ks ! i) then 1 else 0) = count_rows P ks + (if P k then 1 else 0)"
proof (induction ks arbitrary: i)
  case (Cons x ks)
  show ?case
  proof (cases i)
    case (Suc j)
    with Cons.IH [of j] Cons.prems show ?thesis by auto
  qed auto
qed simp

lemma resume_retry [simp]: "cl_retry (resume r k) = cl_retry k"
  by (simp add: resume_def split: phase.split)

lemma count_resume: "count_rows cl_retry (List.map (resume r) ks) = count_rows cl_retry ks"
  by (induction ks) auto

lemma client_ok_step:
  assumes "client_step c e c'" and "client_ok c"
  shows "client_ok c'"
  using assms(1)
proof cases
  case (send url)
  with assms(2) show ?thesis by (auto simp: client_ok_def send_call_def call_ok_def waits_def)
next
  case (answer i status body)
  then have k: "call_ok (response_ok status body (wc_calls c ! i))" "\<not> waits (response_ok status body (wc_calls c ! i))"
    using ok_at [OF assms(2)] by (auto simp: response_ok_def call_ok_def waits_def split: if_splits)
  have "cl_retry (response_ok status body (wc_calls c ! i)) = cl_retry (wc_calls c ! i)" by (simp add: response_ok_def)
  with answer ok_at [OF assms(2) answer(3)] assms(2) k
    count_update [of i "wc_calls c" cl_retry "response_ok status body (wc_calls c ! i)"] show ?thesis
    by (simp add: client_ok_def waits_update ok_update split: if_splits)
next
  case (fails i x)
  note at = ok_at [OF assms(2) fails(3)]
  define k where "k = wc_calls c ! i"
  let ?w = "k\<lparr>cl_retry := True, cl_phase := Awaiting_refresh x\<rparr>"
  let ?s = "k\<lparr>cl_phase := Settled (Inl (if ax_config x then ApiErr (rejection x) else no_config))\<rparr>"
  have w: "call_ok ?w" "waits ?w" if "may_refresh x k" using at that by (auto simp: k_def call_ok_def waits_def may_refresh_def)
  have s: "call_ok ?s" "\<not> waits ?s" using at by (auto simp: k_def call_ok_def waits_def split: if_splits)
  show ?thesis
  proof (cases "ax_config x \<and> may_refresh x k")
    case True
    then have may: "may_refresh x k" by simp
    from True fails at assms(2) w [OF may] count_update [of i "wc_calls c" cl_retry ?w] show ?thesis
      by (simp add: client_ok_def response_error_def refreshTokens_def k_def [symmetric] Let_def waits_update ok_update may_refresh_def)
  next
    case False
    with fails at assms(2) s count_update [of i "wc_calls c" cl_retry ?s] show ?thesis
      by (simp add: client_ok_def response_error_def k_def [symmetric] Let_def waits_update ok_update split: if_splits)
  qed
next
  case (refreshed status)
  with assms(2) resumed show ?thesis
    by (auto simp: client_ok_def refresh_answered_def list_all_iff list_ex_iff count_resume)
qed

lemma client_run_ok: "client_run c es c' \<Longrightarrow> client_ok c \<Longrightarrow> client_ok c'"
  by (induction rule: client_run.induct) (auto intro: client_ok_step)

lemma idle_ok: "client_ok idle_client"
  by (simp add: client_ok_def idle_client_def)

text \<open>Each refresh was answered, but for the one in flight.\<close>

fun answers_refresh :: "client_event \<Rightarrow> bool" where
  "answers_refresh (RefreshAnswer status) = True"
| "answers_refresh _ = False"

definition in_flight :: "web_client \<Rightarrow> nat" where
  "in_flight c = (if wc_refreshing c then 1 else 0)"

lemma refreshes_step:
  "client_step c e c' \<Longrightarrow>
     wc_refreshes c' + in_flight c = wc_refreshes c + in_flight c' + (if answers_refresh e then 1 else 0)"
  by (auto elim!: client_stepE simp: in_flight_def send_call_def response_error_def refreshTokens_def refresh_answered_def Let_def
      split: if_splits)

lemma refreshes_run:
  "client_run c es c' \<Longrightarrow> wc_refreshes c' + in_flight c = wc_refreshes c + in_flight c' + count_rows answers_refresh es"
  by (induction rule: client_run.induct) (auto dest: refreshes_step)

text \<open>
  C10. At most one refresh is in flight, however many calls are refused at the same time and in whatever
  order the gateway answers: the refreshes that were asked for are those that were answered and, exactly while
  some call waits for it, one more. No call is sent more than twice, and there are no more refreshes than calls.
\<close>

theorem single_flight:
  assumes "client_run idle_client es c"
  shows "wc_refreshes c = count_rows answers_refresh es + (if list_ex waits (wc_calls c) then 1 else 0) \<and>
    (wc_refreshing c \<longleftrightarrow> list_ex waits (wc_calls c)) \<and> list_all (\<lambda>k. cl_sends k \<le> 2) (wc_calls c) \<and>
    wc_refreshes c \<le> length (wc_calls c)"
proof -
  from client_run_ok [OF assms idle_ok] have ok: "client_ok c" .
  then have "list_all (\<lambda>k. cl_sends k \<le> 2) (wc_calls c)"
    by (auto simp: client_ok_def list_all_iff call_ok_def split: if_splits)
  moreover have "count_rows cl_retry (wc_calls c) \<le> length (wc_calls c)" by (simp add: count_rows_def)
  moreover have "wc_refreshes c = count_rows answers_refresh es + in_flight c"
    using refreshes_run [OF assms] by (simp add: in_flight_def idle_client_def)
  ultimately show ?thesis using ok by (auto simp: client_ok_def in_flight_def)
qed

text \<open>What a call throws comes from the interceptor, never an error with a response.\<close>

definition settles_ok :: "call \<Rightarrow> bool" where
  "settles_ok k \<longleftrightarrow> (\<forall>err. cl_phase k = Settled (Inl err) \<longrightarrow> err = no_config \<or> (\<exists>e. err = ApiErr (rejection e)))"

lemma settles_phases:
  "settles_ok (k\<lparr>cl_retry := b, cl_phase := Awaiting_refresh e\<rparr>)" "settles_ok (k\<lparr>cl_phase := Settled (Inl (ApiErr (rejection e)))\<rparr>)"
  "settles_ok (k\<lparr>cl_phase := Settled (Inl no_config)\<rparr>)" "settles_ok (response_ok status body k)" "settles_ok k \<Longrightarrow> settles_ok (resume r k)"
  by (auto simp: settles_ok_def response_ok_def resume_def split: phase.split)

lemma settles_step: "client_step c e c' \<Longrightarrow> list_all settles_ok (wc_calls c) \<Longrightarrow> list_all settles_ok (wc_calls c')"
  by (auto elim!: client_stepE simp: response_error_def refreshTokens_def refresh_answered_def ok_update settles_phases Let_def
      list.pred_map o_def elim!: list.pred_mono_strong)
    (auto simp: send_call_def settles_ok_def)

lemma client_throws:
  assumes "client_run idle_client es c" and "k \<in> set (wc_calls c)" and "cl_phase k = Settled (Inl err)"
  shows "err = no_config \<or> (\<exists>e. err = ApiErr (rejection e))"
proof -
  have "client_run c0 es c' \<Longrightarrow> list_all settles_ok (wc_calls c0) \<Longrightarrow> list_all settles_ok (wc_calls c')" for c0 c'
    by (induction rule: client_run.induct) (auto intro: settles_step)
  with assms show ?thesis by (fastforce simp: idle_client_def list_all_iff settles_ok_def)
qed

section \<open>Every call is settled\<close>

text \<open>How many events a call can still take part in.\<close>

definition to_come :: "call \<Rightarrow> nat" where
  "to_come k = (case cl_phase k of Settled r \<Rightarrow> 0 | Awaiting_refresh e \<Rightarrow> 2 | Sent_out \<Rightarrow> if cl_retry k then 1 else 3)"

definition pending :: "web_client \<Rightarrow> nat" where
  "pending c = sum_list (List.map to_come (wc_calls c))"

fun sends :: "client_event \<Rightarrow> bool" where
  "sends (Send url) = True"
| "sends _ = False"

lemma pending_update:
  "i < length ks \<Longrightarrow> sum_list (List.map to_come (ks[i := k])) + to_come (ks ! i) = sum_list (List.map to_come ks) + to_come k"
  by (induction ks arbitrary: i) (auto split: nat.split simp: less_Suc_eq_0_disj)

lemma pending_resume:
  assumes "list_all call_ok ks"
  shows "sum_list (List.map to_come (List.map (resume r) ks)) + (if list_ex waits ks then 1 else 0) \<le> sum_list (List.map to_come ks)"
  using assms by (induction ks) (auto simp: call_ok_def waits_def resume_def to_come_def split: phase.splits if_splits)

lemma pending_step:
  assumes "client_step c e c'" and "client_ok c"
  shows "pending c' + (if sends e then 0 else 1) \<le> pending c + (if sends e then 3 else 0)"
  using assms(1)
proof cases
  case (send url)
  then show ?thesis by (simp add: pending_def send_call_def to_come_def)
next
  case (answer i status body)
  with ok_at [OF assms(2) answer(3)] pending_update [of i "wc_calls c" "response_ok status body (wc_calls c ! i)"]
  show ?thesis by (auto simp: pending_def on_its_way_def response_ok_def to_come_def split: if_splits)
next
  case (fails i x)
  with ok_at [OF assms(2) fails(3)] show ?thesis
    using pending_update [of i "wc_calls c" "(wc_calls c ! i)\<lparr>cl_retry := True, cl_phase := Awaiting_refresh x\<rparr>"]
      pending_update [of i "wc_calls c" "(wc_calls c ! i)\<lparr>cl_phase := Settled (Inl (ApiErr (rejection x)))\<rparr>"]
      pending_update [of i "wc_calls c" "(wc_calls c ! i)\<lparr>cl_phase := Settled (Inl no_config)\<rparr>"]
    by (auto simp: pending_def on_its_way_def response_error_def refreshTokens_def to_come_def may_refresh_def Let_def split: if_splits)
next
  case (refreshed status)
  with assms(2) pending_resume [of "wc_calls c" "status = Some 200"] show ?thesis
    by (simp add: pending_def refresh_answered_def client_ok_def)
qed

text \<open>The routes whose refusal is final: asking for tokens cannot need new tokens.\<close>

definition final_route :: "string \<Rightarrow> bool" where
  "final_route url \<longleftrightarrow> str_includes ''/api/auth/refresh'' url \<or> str_includes ''/api/auth/login'' url"

definition route_ok :: "call \<Rightarrow> bool" where
  "route_ok k \<longleftrightarrow> (final_route (cl_url k) \<longrightarrow> \<not> cl_retry k)"

lemma route_phases:
  "route_ok k \<Longrightarrow> route_ok (k\<lparr>cl_phase := p\<rparr>)" "may_refresh e k \<Longrightarrow> route_ok (k\<lparr>cl_retry := b, cl_phase := p\<rparr>)"
  "route_ok k \<Longrightarrow> route_ok (response_ok status body k)" "route_ok k \<Longrightarrow> route_ok (resume r k)"
  by (auto simp: route_ok_def final_route_def may_refresh_def response_ok_def resume_def split: phase.split)

lemma route_step:
  assumes "client_step c e c'" and "list_all route_ok (wc_calls c)"
  shows "list_all route_ok (wc_calls c')"
proof -
  have nth: "route_ok (wc_calls c ! i)" if "on_its_way i c" for i
    using assms(2) that by (auto simp: on_its_way_def list_all_length)
  from assms show ?thesis
    by (auto elim!: client_stepE simp: response_error_def refreshTokens_def refresh_answered_def Let_def list.pred_map o_def
        intro!: ok_update route_phases nth elim!: list.pred_mono_strong)
      (auto simp: send_call_def route_ok_def)
qed

lemma route_run: "client_run c es c' \<Longrightarrow> list_all route_ok (wc_calls c) \<Longrightarrow> list_all route_ok (wc_calls c')"
  by (induction rule: client_run.induct) (auto intro: route_step)

text \<open>After a refused refresh nobody waits, nothing was sent again and nothing else was asked for.\<close>

lemma refused_refresh:
  assumes "client_ok c" and "status \<noteq> Some 200"
  shows "list_all (\<lambda>k. \<not> waits k) (wc_calls (refresh_answered status c))"
    and "map cl_sends (wc_calls (refresh_answered status c)) = map cl_sends (wc_calls c)"
    and "wc_refreshes (refresh_answered status c) = wc_refreshes c"
proof -
  have "cl_sends (resume False k) = cl_sends k" for k by (simp add: resume_def split: phase.split)
  with assms show "map cl_sends (wc_calls (refresh_answered status c)) = map cl_sends (wc_calls c)"
    by (simp add: refresh_answered_def)
  show "list_all (\<lambda>k. \<not> waits k) (wc_calls (refresh_answered status c))"
    using assms resumed by (auto simp: refresh_answered_def client_ok_def list_all_iff)
qed (simp add: refresh_answered_def)

text \<open>
  C11. Every call ends: a client that was idle takes at most three answers for each call it sends, and as
  long as a call is not settled there is an answer that it can take. A refused refresh cannot start another
  one: the refusal of a call of the refresh or of the login route is final, such a call is sent once and never
  waits for new tokens; and when the answer to a refresh is not 200, nobody waits any more, no call is sent again
  and no refresh is asked for.
\<close>

theorem calls_settle:
  assumes "client_run idle_client es c"
  shows "length es \<le> 4 * count_rows sends es \<and>
    (\<forall>k \<in> set (wc_calls c). (\<exists>r. cl_phase k = Settled r) \<or> (\<exists>e c'. \<not> sends e \<and> client_step c e c')) \<and>
    (\<forall>k \<in> set (wc_calls c). final_route (cl_url k) \<longrightarrow> cl_sends k = 1 \<and> \<not> waits k) \<and>
    (\<forall>status c'. client_step c (RefreshAnswer status) c' \<and> status \<noteq> Some 200 \<longrightarrow>
       list_all (\<lambda>k. \<not> waits k) (wc_calls c') \<and> map cl_sends (wc_calls c') = map cl_sends (wc_calls c) \<and>
       wc_refreshes c' = wc_refreshes c)"
proof -
  have ok: "client_ok c" by (rule client_run_ok [OF assms idle_ok])
  have "client_run c0 es c' \<Longrightarrow> client_ok c0 \<Longrightarrow> pending c' + length es \<le> pending c0 + 4 * count_rows sends es" for c0 es c'
  proof (induction rule: client_run.induct)
    case (client_cons c e c1 es c2)
    with client_ok_step [OF client_cons(1,4)] pending_step [OF client_cons(1,4)] show ?case by (simp split: if_splits)
  qed simp
  with assms idle_ok have "length es \<le> 4 * count_rows sends es"
    by (fastforce simp: pending_def idle_client_def)
  moreover have "(\<exists>r. cl_phase k = Settled r) \<or> (\<exists>e c'. \<not> sends e \<and> client_step c e c')" if k: "k \<in> set (wc_calls c)" for k
  proof (cases "cl_phase k")
    case Sent_out
    with k obtain i where "on_its_way i c" by (auto simp: on_its_way_def in_set_conv_nth)
    then show ?thesis using client_step.fails by (metis sends.simps(3))
  next
    case (Awaiting_refresh e)
    with k ok have "wc_refreshing c" by (auto simp: client_ok_def list_ex_iff waits_def)
    then show ?thesis using client_step.refreshed by (metis sends.simps(4))
  qed simp
  moreover have "cl_sends k = 1 \<and> \<not> waits k" if "k \<in> set (wc_calls c)" "final_route (cl_url k)" for k
    using that ok route_run [OF assms] by (auto simp: client_ok_def list_all_iff route_ok_def call_ok_def idle_client_def)
  moreover have "list_all (\<lambda>k. \<not> waits k) (wc_calls c') \<and> map cl_sends (wc_calls c') = map cl_sends (wc_calls c) \<and>
      wc_refreshes c' = wc_refreshes c" if "client_step c (RefreshAnswer status) c'" "status \<noteq> Some 200" for status c'
  proof -
    have "c' = refresh_answered status c" using that(1) by (auto elim: client_stepE)
    then show ?thesis using refused_refresh [OF ok that(2)] by simp
  qed
  ultimately show ?thesis by blast
qed

section \<open>Progress without an account\<close>

lemma from_set_simps [simp]: "set (from_set xs) = set xs" "distinct (from_set xs)"
  by (induction xs) auto

lemma from_set_distinct: "distinct xs \<Longrightarrow> from_set xs = xs"
proof (induction xs)
  case (Cons x xs)
  then show ?case by (auto simp: filter_id_conv)
qed simp

lemma from_set_append: "from_set (xs @ ys) = from_set xs @ List.filter (\<lambda>y. y \<notin> set xs) (from_set ys)"
  by (induction xs) (auto intro!: filter_cong)

lemma from_set_extend:
  assumes "distinct xs" and "set ys \<subseteq> set xs"
  shows "from_set (xs @ ys) = xs"
  using assms by (auto simp: from_set_append from_set_distinct filter_empty_conv)

lemma merge_again:
  assumes "distinct I" and "set gi \<subseteq> set I"
  shows "List.filter (\<lambda>n. n \<notin> C) (from_set (List.filter (\<lambda>n. n \<notin> C) I @ gi)) = List.filter (\<lambda>n. n \<notin> C) I"
  using assms by (auto simp: from_set_append from_set_distinct filter_empty_conv)

text \<open>
  Merging the progress of a visitor into an account loses nothing and counts nothing twice: completed
  is what is completed on either side, in progress is what is in progress on either side and not
  completed, and merging a second time changes nothing.
\<close>

lemma merge_is_union:
  "let m = mergeRoadmapProgress account gc gi in
    set (rp_completed m) = set (get_or [] (map_option rp_completed account)) \<union> set gc \<and>
    set (rp_inProgress m) = (set (get_or [] (map_option rp_inProgress account)) \<union> set gi) - set (rp_completed m) \<and>
    distinct (rp_completed m) \<and> distinct (rp_inProgress m) \<and>
    mergeRoadmapProgress (Some m) gc gi = m"
proof -
  define C where "C = from_set (get_or [] (map_option rp_completed account) @ gc)"
  define I where "I = from_set (get_or [] (map_option rp_inProgress account) @ gi)"
  have facts: "distinct C" "set C = set (get_or [] (map_option rp_completed account)) \<union> set gc"
      "distinct I" "set I = set (get_or [] (map_option rp_inProgress account)) \<union> set gi"
    by (simp_all add: C_def I_def del: from_set.simps)
  have m: "mergeRoadmapProgress account gc gi = \<lparr>rp_roadmapId = get_or [] (map_option rp_roadmapId account),
      rp_completed = C, rp_inProgress = List.filter (\<lambda>n. n \<notin> set C) I\<rparr>"
    by (simp add: mergeRoadmapProgress_def Let_def C_def I_def)
  have "from_set (C @ gc) = C" by (rule from_set_extend) (simp_all add: facts)
  moreover have "set gi \<subseteq> set I" by (simp add: facts)
  note merge_again [OF facts(3) this, of "set C"]
  ultimately have "mergeRoadmapProgress (Some (mergeRoadmapProgress account gc gi)) gc gi = mergeRoadmapProgress account gc gi"
    unfolding m by (simp add: mergeRoadmapProgress_def)
  then show ?thesis
    using facts unfolding m Let_def by auto
qed

text \<open>
  What is saved for a roadmap is read back, the progress of the other roadmaps is kept, and after
  clearing nothing is left; a browser without a usable storage keeps nothing and breaks nothing.
\<close>

lemma guest_progress_roundtrip:
  "let b' = saveGuestRoadmapProgress now slug done_nodes open_nodes b in
    (if br_window b \<and> br_readable b \<and> br_writable b
     then getGuestRoadmapProgress b' slug =
        Some \<lparr>rp_roadmapId = slug, rp_completed = done_nodes, rp_inProgress = open_nodes\<rparr> \<and>
      (\<forall>other. other \<noteq> slug \<longrightarrow> getGuestRoadmapProgress b' other = getGuestRoadmapProgress b other) \<and>
      getGuestRoadmapProgress (clearGuestRoadmapStore b') slug = None
     else \<forall>other. getGuestRoadmapProgress b' other = getGuestRoadmapProgress b other)"
  by (auto simp: saveGuestRoadmapProgress_def getGuestRoadmapProgress_def getGuestRoadmapStore_def
      clearGuestRoadmapStore_def Let_def update_conv')

section \<open>Examples\<close>

definition refused :: axios_error where
  "refused = \<lparr>ax_message = ''Request failed with status code 401'', ax_config = True, ax_response = Some (401, None)\<rparr>"

text \<open>Two calls that are refused at the same time, and the refresh that both wait for.\<close>

definition two_refused :: "client_event list" where
  "two_refused = [Send ''/api/challenges'', Send ''/api/me/dashboard'', Fails 0 refused, Fails 1 refused,
     RefreshAnswer (Some 200), Answer 1 200 ''{}'']"

definition two_after :: web_client where
  "two_after = \<lparr>wc_calls =
     [\<lparr>cl_url = ''/api/challenges'', cl_retry = True, cl_phase = Sent_out, cl_sends = 2\<rparr>,
      \<lparr>cl_url = ''/api/me/dashboard'', cl_retry = True, cl_phase = Settled (Inr (Some ''{}'')), cl_sends = 2\<rparr>],
     wc_refreshing = False, wc_refreshes = 1\<rparr>"

lemmas client_simps = on_its_way_def send_call_def idle_client_def response_error_def refreshTokens_def may_refresh_def
  refused_def starts_with_def refresh_answered_def resume_def response_ok_def two_after_def Let_def

lemma two_refused_run: "client_run idle_client two_refused two_after"
proof -
  let ?c2 = "send_call ''/api/me/dashboard'' (send_call ''/api/challenges'' idle_client)"
  let ?c4 = "response_error refused 1 (response_error refused 0 ?c2)"
  have "client_run (refresh_answered (Some 200) ?c4) [Answer 1 200 ''{}''] two_after"
    using client_step.answer [of 1 "refresh_answered (Some 200) ?c4" "200" "''{}''"]
    by (intro client_cons [OF _ client_nil]) (simp add: client_simps numeral_2_eq_2)
  moreover have "wc_refreshing ?c4" by (simp add: client_simps)
  ultimately have "client_run ?c4 [RefreshAnswer (Some 200), Answer 1 200 ''{}''] two_after"
    by (intro client_cons [OF client_step.refreshed])
  moreover have "on_its_way 0 ?c2" "on_its_way 1 (response_error refused 0 ?c2)" by (simp_all add: client_simps)
  ultimately show ?thesis
    unfolding two_refused_def
    by (blast intro: client_cons client_step.send client_step.fails)
qed

lemma single_flight_witness:
  "client_run idle_client two_refused two_after \<and> wc_refreshes two_after = 1 \<and> wc_refreshing two_after = False \<and>
    list_all (\<lambda>k. cl_sends k \<le> 2) (wc_calls two_after)"
  using two_refused_run single_flight [OF two_refused_run] by (auto simp: two_refused_def two_after_def waits_def)

lemma calls_settle_witness:
  "length two_refused \<le> 4 * count_rows sends two_refused \<and> (\<exists>e c'. \<not> sends e \<and> client_step two_after e c')"
  using calls_settle [OF two_refused_run] by (simp add: two_after_def)

end
