(* ===== verification/Terminal.thy ===== *)
theory Terminal
  imports Complex_Main Web_Client
begin

text \<open>
  The state machine of the challenge page (\<open>apps/web/src/lib/useTerminalMachine.ts\<close>): what the page
  keeps, and what each user action, answer of the server, timer and event of a socket does to it. An
  asynchronous function of the page is cut at its awaits: what waits for an answer stands in
  \<open>tm_tasks\<close>. Of the browser we keep the timers that are due and the sockets whose close event is
  still to come; \<open>close()\<close> only asks for it, so that its handler runs later.
\<close>

datatype terminal_state =
  IDLE | REQUESTING_SANDBOX | PROVISIONING | CONNECTING | CONNECTED | RECONNECTING | SANDBOX_LOST | FAILED

record session_info =
  si_sessionId :: string
  si_terminalUrl :: string
  si_validateUrl :: string
  si_token :: "string option"

record validation_result =
  vr_passed :: bool
  vr_feedback :: string
  vr_checkResults :: "string list"

datatype task =
    StartCall | TrialCall | StartWorkerCall session_info "string option" | HealthCall session_info
  | ReconnectWorkerCall session_info | TerminateCall | ValidateCall

record machine =
  tm_state :: terminal_state
  tm_session :: "session_info option"
  tm_reconnectAttempt :: nat
  tm_validation :: "validation_result option"
  tm_isValidating :: bool
  tm_error :: "string option"
  tm_progress :: "(string \<times> string) list"
  tm_ttlWarning :: "int option"
  tm_isolationDowngraded :: bool
  tm_wsRef :: "nat option"
  tm_timerRef :: "nat option"
  tm_attemptRef :: nat
  tm_sessionRef :: "session_info option"
  tm_intentionalRef :: bool
  tm_protocols :: "string list"
  tm_sockets :: "nat list"
  tm_timers :: "nat list"
  tm_tasks :: "task list"
  tm_next :: nat

definition initial_machine :: machine where
  "initial_machine = \<lparr>tm_state = IDLE, tm_session = None, tm_reconnectAttempt = 0, tm_validation = None,
     tm_isValidating = False, tm_error = None, tm_progress = [], tm_ttlWarning = None,
     tm_isolationDowngraded = False, tm_wsRef = None, tm_timerRef = None, tm_attemptRef = 0,
     tm_sessionRef = None, tm_intentionalRef = False, tm_protocols = [], tm_sockets = [], tm_timers = [],
     tm_tasks = [], tm_next = 0\<rparr>"

section \<open>Reconnecting\<close>

definition MAX_RECONNECT_ATTEMPTS :: nat where "MAX_RECONNECT_ATTEMPTS = 6"

text \<open>\<open>rnd\<close> is \<open>Math.random()\<close>; \<open>Math.round\<close> rounds halves upwards.\<close>

definition backoffMs :: "real \<Rightarrow> nat \<Rightarrow> int" where
  "backoffMs rnd attempt =
     (let base = min (1000 * 2 ^ attempt) 15000;
          jitter = base * (1 / 10) * (rnd * 2 - 1)
      in \<lfloor>base + jitter + 1 / 2\<rfloor>)"

definition scheduleReconnect :: "machine \<Rightarrow> machine" where
  "scheduleReconnect m =
     (let attempt = tm_attemptRef m in
      if attempt \<ge> MAX_RECONNECT_ATTEMPTS then m\<lparr>tm_state := SANDBOX_LOST\<rparr>
      else m\<lparr>tm_attemptRef := attempt + 1, tm_reconnectAttempt := attempt + 1,
             tm_timerRef := Some (tm_next m), tm_timers := tm_timers m @ [tm_next m], tm_next := tm_next m + 1\<rparr>)"

definition handleWsClose :: "int \<Rightarrow> machine \<Rightarrow> machine" where
  "handleWsClose closeCode m =
     (if tm_intentionalRef m then m
      else if closeCode = 1000 \<or> closeCode = 1001 then m\<lparr>tm_state := SANDBOX_LOST\<rparr>
      else scheduleReconnect (m\<lparr>tm_state := RECONNECTING\<rparr>))"

text \<open>
  The old socket, if there is one, is asked to close. The flag that marks its close as intended is
  reset in the same turn, before the close event can be handled, so that the flag ends as false. Left out is
  that the constructor of the socket throws when the address or the token cannot be used in one.
\<close>

definition connectWs :: "string option \<Rightarrow> string option \<Rightarrow> machine \<Rightarrow> machine" where
  "connectWs storedToken explicitToken m =
     (let token = (if truthy explicitToken then explicitToken else storedToken) in
      m\<lparr>tm_intentionalRef := (if tm_wsRef m = None then tm_intentionalRef m else False),
        tm_state := CONNECTING,
        tm_protocols := (if truthy token then [''terminal'', ''bearer.'' @ the token] else [''terminal'']),
        tm_wsRef := Some (tm_next m), tm_sockets := tm_sockets m @ [tm_next m], tm_next := tm_next m + 1\<rparr>)"

datatype ws_message = Progress string string | TtlWarning int | OtherMessage

definition on_message :: "ws_message \<Rightarrow> machine \<Rightarrow> machine" where
  "on_message msg m = (case msg of
       Progress stage text \<Rightarrow>
         (let m1 = m\<lparr>tm_progress := tm_progress m @ [(stage, text)]\<rparr>;
              m2 = (if stage = ''READY'' then m1\<lparr>tm_state := CONNECTED\<rparr> else m1)
          in if stage = ''ISOLATION_DOWNGRADED'' then m2\<lparr>tm_isolationDowngraded := True\<rparr> else m2)
     | TtlWarning minutes \<Rightarrow> m\<lparr>tm_ttlWarning := Some minutes\<rparr>
     | OtherMessage \<Rightarrow> m)"

definition on_open :: "machine \<Rightarrow> machine" where
  "on_open m = m\<lparr>tm_attemptRef := 0, tm_reconnectAttempt := 0, tm_error := None\<rparr>"

text \<open>
  An answer of a health check: the body, or what the client throws. The page looks for a response in
  what was thrown, \<open>err?.response?.status === 502\<close>, which only an error of Axios has.
\<close>

datatype health = Alive bool | Rejected js_error

fun gateway_down :: "js_error \<Rightarrow> bool" where
  "gateway_down (AxiosErr e) = (map_option fst (ax_response e) = Some 502)"
| "gateway_down _ = False"

definition unavailable :: "machine \<Rightarrow> machine" where
  "unavailable m = m\<lparr>tm_error := Some ''Sandbox service is currently unavailable. Please try again later.'',
     tm_state := FAILED\<rparr>"

definition await_task :: "task \<Rightarrow> machine \<Rightarrow> machine" where
  "await_task t m = m\<lparr>tm_tasks := tm_tasks m @ [t]\<rparr>"

definition timer_fires :: "machine \<Rightarrow> machine" where
  "timer_fires m = (case tm_sessionRef m of
       None \<Rightarrow> m\<lparr>tm_state := SANDBOX_LOST\<rparr>
     | Some s \<Rightarrow> await_task (HealthCall s) m)"

definition health_answered :: "string option \<Rightarrow> session_info \<Rightarrow> health \<Rightarrow> machine \<Rightarrow> machine" where
  "health_answered stored s h m = (case h of
       Alive alive \<Rightarrow>
         if \<not> alive then m\<lparr>tm_state := SANDBOX_LOST\<rparr> else await_task (ReconnectWorkerCall s) m
     | Rejected err \<Rightarrow> if gateway_down err then unavailable m else connectWs stored (si_token s) m)"

definition worker_answered :: "string option \<Rightarrow> string option \<Rightarrow> health \<Rightarrow> machine \<Rightarrow> machine" where
  "worker_answered stored token h m = (case h of
       Rejected err \<Rightarrow> if gateway_down err then unavailable m else connectWs stored token m
     | Alive alive \<Rightarrow> connectWs stored token m)"

section \<open>What the user does\<close>

definition requesting :: "machine \<Rightarrow> machine" where
  "requesting m = m\<lparr>tm_state := REQUESTING_SANDBOX, tm_error := None, tm_validation := None, tm_progress := [],
     tm_isolationDowngraded := False\<rparr>"

definition startSession :: "machine \<Rightarrow> machine" where
  "startSession m = await_task StartCall (requesting m)"

definition startTrial :: "machine \<Rightarrow> machine" where
  "startTrial m = await_task TrialCall (requesting m)"

text \<open>A new session: connected without a token of its own, a trial with the one it came with.\<close>

definition started :: "string option \<Rightarrow> string + session_info \<Rightarrow> machine \<Rightarrow> machine" where
  "started token r m = (case r of
       Inl msg \<Rightarrow> m\<lparr>tm_error := Some msg, tm_state := FAILED\<rparr>
     | Inr s \<Rightarrow> await_task (StartWorkerCall s token)
         (m\<lparr>tm_session := Some s, tm_sessionRef := Some s, tm_state := PROVISIONING\<rparr>))"

definition terminateSession :: "machine \<Rightarrow> machine" where
  "terminateSession m =
     (if tm_session m = None then m
      else await_task TerminateCall (m\<lparr>tm_intentionalRef := False, tm_wsRef := None,
        tm_timers := (case tm_timerRef m of None \<Rightarrow> tm_timers m | Some t \<Rightarrow> remove1 t (tm_timers m))\<rparr>))"

definition terminated :: "machine \<Rightarrow> machine" where
  "terminated m = m\<lparr>tm_session := None, tm_sessionRef := None, tm_validation := None, tm_error := None,
     tm_attemptRef := 0, tm_reconnectAttempt := 0, tm_state := IDLE\<rparr>"

definition retryAfterLoss :: "machine \<Rightarrow> machine" where
  "retryAfterLoss m = startSession (m\<lparr>tm_session := None, tm_sessionRef := None, tm_attemptRef := 0,
     tm_reconnectAttempt := 0\<rparr>)"

definition validateSolution :: "machine \<Rightarrow> machine" where
  "validateSolution m =
     (if tm_session m = None then m
      else await_task ValidateCall (m\<lparr>tm_isValidating := True, tm_error := None\<rparr>))"

definition validated :: "string + validation_result \<Rightarrow> machine \<Rightarrow> machine" where
  "validated r m = (case r of
       Inl msg \<Rightarrow> m\<lparr>tm_error := Some msg, tm_isValidating := False\<rparr>
     | Inr v \<Rightarrow> m\<lparr>tm_validation := Some v, tm_isValidating := False\<rparr>)"

definition unmount :: "machine \<Rightarrow> machine" where
  "unmount m = m\<lparr>tm_intentionalRef := True,
     tm_timers := (case tm_timerRef m of None \<Rightarrow> tm_timers m | Some t \<Rightarrow> remove1 t (tm_timers m))\<rparr>"

section \<open>Steps\<close>

datatype ui_event =
    StartSession | StartTrial | Terminate | RetryAfterLoss | Validate | Unmount
  | StartAnswers "string + session_info" | TrialAnswers "string + session_info"
  | StartWorkerAnswers session_info "string option" health | HealthAnswers session_info health
  | ReconnectWorkerAnswers session_info health | TerminateAnswers | ValidateAnswers "string + validation_result"
  | TimerFires nat | SocketOpens nat | SocketSays nat ws_message | SocketCloses nat int

text \<open>The task, timer or socket that an event needs.\<close>

fun enabled :: "ui_event \<Rightarrow> machine \<Rightarrow> bool" where
  "enabled (StartAnswers r) m = (StartCall \<in> set (tm_tasks m))"
| "enabled (TrialAnswers r) m = (TrialCall \<in> set (tm_tasks m))"
| "enabled (StartWorkerAnswers s t h) m = (StartWorkerCall s t \<in> set (tm_tasks m))"
| "enabled (HealthAnswers s h) m = (HealthCall s \<in> set (tm_tasks m))"
| "enabled (ReconnectWorkerAnswers s h) m = (ReconnectWorkerCall s \<in> set (tm_tasks m))"
| "enabled TerminateAnswers m = (TerminateCall \<in> set (tm_tasks m))"
| "enabled (ValidateAnswers r) m = (ValidateCall \<in> set (tm_tasks m))"
| "enabled (TimerFires t) m = (t \<in> set (tm_timers m))"
| "enabled (SocketOpens i) m = (i \<in> set (tm_sockets m))"
| "enabled (SocketSays i msg) m = (i \<in> set (tm_sockets m))"
| "enabled (SocketCloses i c) m = (i \<in> set (tm_sockets m))"
| "enabled _ m = True"

definition finish :: "task \<Rightarrow> machine \<Rightarrow> machine" where
  "finish t m = m\<lparr>tm_tasks := remove1 t (tm_tasks m)\<rparr>"

text \<open>\<open>stored\<close> is the token in the local storage.\<close>

fun on_event :: "string option \<Rightarrow> ui_event \<Rightarrow> machine \<Rightarrow> machine" where
  "on_event stored StartSession m = startSession m"
| "on_event stored StartTrial m = startTrial m"
| "on_event stored Terminate m = terminateSession m"
| "on_event stored RetryAfterLoss m = retryAfterLoss m"
| "on_event stored Validate m = validateSolution m"
| "on_event stored Unmount m = unmount m"
| "on_event stored (StartAnswers r) m = started None r (finish StartCall m)"
| "on_event stored (TrialAnswers r) m =
     started (case r of Inl e \<Rightarrow> None | Inr s \<Rightarrow> si_token s) r (finish TrialCall m)"
| "on_event stored (StartWorkerAnswers s t h) m = worker_answered stored t h (finish (StartWorkerCall s t) m)"
| "on_event stored (HealthAnswers s h) m = health_answered stored s h (finish (HealthCall s) m)"
| "on_event stored (ReconnectWorkerAnswers s h) m =
     worker_answered stored (si_token s) h (finish (ReconnectWorkerCall s) m)"
| "on_event stored TerminateAnswers m = terminated (finish TerminateCall m)"
| "on_event stored (ValidateAnswers r) m = validated r (finish ValidateCall m)"
| "on_event stored (TimerFires t) m = timer_fires (m\<lparr>tm_timers := remove1 t (tm_timers m)\<rparr>)"
| "on_event stored (SocketOpens i) m = on_open m"
| "on_event stored (SocketSays i msg) m = on_message msg m"
| "on_event stored (SocketCloses i c) m = handleWsClose c (m\<lparr>tm_sockets := remove1 i (tm_sockets m)\<rparr>)"

inductive ui_step :: "string option \<Rightarrow> machine \<Rightarrow> ui_event \<Rightarrow> machine \<Rightarrow> bool" for stored where
  "enabled e m \<Longrightarrow> ui_step stored m e (on_event stored e m)"

inductive_cases ui_stepE: "ui_step stored m e m'"

inductive ui_run :: "string option \<Rightarrow> machine \<Rightarrow> ui_event list \<Rightarrow> machine \<Rightarrow> bool" for stored where
  run_nil: "ui_run stored m [] m"
| run_cons: "ui_step stored m e m1 \<Longrightarrow> ui_run stored m1 es m2 \<Longrightarrow> ui_run stored m (e # es) m2"

end
