(* ===== verification/Terminal_Laws.thy ===== *)
theory Terminal_Laws
  imports Terminal
begin

text \<open>
  What the state machine of the challenge page promises: its parts stay consistent, delays and
  attempts are bounded as long as no socket opens. And where it fails its own description: the close
  events that it means to ignore are not ignored, and an opening socket refills the budget.
\<close>

lemmas machine_defs = startSession_def startTrial_def terminateSession_def retryAfterLoss_def validateSolution_def
  unmount_def started_def worker_answered_def health_answered_def timer_fires_def terminated_def validated_def
  on_open_def handleWsClose_def scheduleReconnect_def connectWs_def unavailable_def await_task_def
  requesting_def finish_def Let_def

section \<open>Delays\<close>

text \<open>The delay before a reconnection is the doubled second, at most fifteen, up to a tenth more or less.\<close>

lemma backoff_bounds:
  assumes "0 \<le> rnd" and "rnd < 1"
  shows "9 * min (1000 * 2 ^ attempt) 15000 \<le> 10 * backoffMs rnd attempt \<and>
    10 * backoffMs rnd attempt \<le> 11 * min (1000 * 2 ^ attempt) 15000"
proof -
  define b :: int where "b = min (2 ^ attempt) 15"
  have r: "(2::real) ^ attempt = real_of_int (2 ^ attempt)" by simp
  have "(2::real) ^ attempt \<le> 15 \<longleftrightarrow> (2::int) ^ attempt \<le> 15"
    unfolding r by (metis of_int_le_iff of_int_numeral)
  then have b: "min (1000 * 2 ^ attempt) 15000 = 1000 * real_of_int b" "min (1000 * 2 ^ attempt) 15000 = 1000 * b" "0 < b"
    by (auto simp: b_def min_def)
  let ?x = "1000 * real_of_int b + 1000 * real_of_int b * (1 / 10) * (rnd * 2 - 1) + 1 / 2"
  have eq: "backoffMs rnd attempt = \<lfloor>?x\<rfloor>" by (simp add: backoffMs_def b(1) Let_def mult.assoc)
  have "- 1 \<le> rnd * 2 - 1" "rnd * 2 - 1 \<le> 1" using assms by simp_all
  moreover have "0 \<le> 100 * real_of_int b" using b(3) by simp
  ultimately have "100 * real_of_int b * (- 1) \<le> 100 * real_of_int b * (rnd * 2 - 1)"
    "100 * real_of_int b * (rnd * 2 - 1) \<le> 100 * real_of_int b * 1"
    by (intro mult_left_mono; simp)+
  then have "real_of_int (900 * b) \<le> ?x" "?x < real_of_int (1100 * b) + 1" by simp_all
  then have "900 * b \<le> \<lfloor>?x\<rfloor>" "\<lfloor>?x\<rfloor> < 1100 * b + 1" by (simp_all only: le_floor_iff floor_less_iff of_int_add of_int_1)
  then show ?thesis by (simp add: eq b(2))
qed

section \<open>Consistency\<close>

text \<open>
  The session is known twice and so is the number of attempts; sockets and timers have names of their
  own, and what is shown as connected has a socket.
\<close>

definition machine_ok :: "machine \<Rightarrow> bool" where
  "machine_ok m \<longleftrightarrow> tm_session m = tm_sessionRef m \<and> tm_reconnectAttempt m = tm_attemptRef m \<and>
     tm_attemptRef m \<le> MAX_RECONNECT_ATTEMPTS \<and> distinct (tm_sockets m) \<and> distinct (tm_timers m) \<and>
     (\<forall>i \<in> set (tm_sockets m). i < tm_next m) \<and> (\<forall>i \<in> set (tm_timers m). i < tm_next m)"

lemma machine_ok_step:
  assumes "machine_ok m"
  shows "machine_ok (on_event stored e m)"
proof -
  have less: "i \<noteq> tm_next m" if "i \<in> set (tm_sockets m) \<or> i \<in> set (tm_timers m)" for i
    using assms that by (auto simp: machine_ok_def)
  have new: "tm_next m \<notin> set (remove1 i (tm_sockets m))" "tm_next m \<notin> set (remove1 i (tm_timers m))"
      "tm_next m \<notin> set (tm_sockets m)" "tm_next m \<notin> set (tm_timers m)" for i
    using less set_remove1_subset [of i "tm_sockets m"] set_remove1_subset [of i "tm_timers m"] by blast+
  show ?thesis
    using assms new
    by (cases e) (auto simp: machine_ok_def machine_defs on_message_def MAX_RECONNECT_ATTEMPTS_def
        dest: in_set_remove1 notin_set_remove1 less_SucI
        split: option.split sum.split health.split ws_message.split)
qed

text \<open>
  C12. Whatever the user does and the servers and sockets answer, in whatever order, the parts of the
  page stay consistent: both copies of the session and of the attempts agree, no more than six
  attempts are counted, and no socket or timer is known twice.
\<close>

theorem machine_stays_ok:
  assumes "ui_run stored initial_machine es m"
  shows "tm_session m = tm_sessionRef m \<and> tm_reconnectAttempt m = tm_attemptRef m \<and> tm_attemptRef m \<le> 6 \<and>
    distinct (tm_sockets m) \<and> distinct (tm_timers m)"
proof -
  have "ui_run stored m0 es m \<Longrightarrow> machine_ok m0 \<Longrightarrow> machine_ok m" for m0
    by (induction rule: ui_run.induct) (auto elim!: ui_stepE intro: machine_ok_step)
  moreover have "machine_ok initial_machine" by (simp add: machine_ok_def initial_machine_def)
  ultimately have "machine_ok m" using assms by blast
  then show ?thesis by (simp add: machine_ok_def MAX_RECONNECT_ATTEMPTS_def)
qed

text \<open>
  C13. The page shows a terminal as connected only when a socket has reported that it is ready: no
  other event makes it so.
\<close>

theorem connected_by_ready:
  assumes "ui_step stored m e m'" and "tm_state m' = CONNECTED" and "tm_state m \<noteq> CONNECTED"
  shows "\<exists>i text. e = SocketSays i (Progress ''READY'' text) \<and> i \<in> set (tm_sockets m)"
  using assms
  by (cases e) (auto elim!: ui_stepE simp: machine_defs on_message_def
      split: option.splits sum.splits health.splits ws_message.splits if_splits)

section \<open>The budget of attempts\<close>

fun fires :: "ui_event \<Rightarrow> bool" where
  "fires (TimerFires t) = True"
| "fires _ = False"

fun refills :: "ui_event \<Rightarrow> bool" where
  "refills (SocketOpens i) = True"
| "refills TerminateAnswers = True"
| "refills RetryAfterLoss = True"
| "refills _ = False"

definition budget :: "machine \<Rightarrow> nat" where
  "budget m = length (tm_timers m) + (MAX_RECONNECT_ATTEMPTS - tm_attemptRef m)"

lemma budget_step:
  assumes "ui_step stored m e m'" and "\<not> refills e"
  shows "budget m' + (if fires e then 1 else 0) \<le> budget m"
proof -
  have pos: "Suc (length (tm_timers m) - Suc 0) = length (tm_timers m)" if "t \<in> set (tm_timers m)" for t
    using length_pos_if_in_set [OF that] by simp
  show ?thesis
    using assms
    by (cases e) (auto elim!: ui_stepE simp: budget_def machine_defs on_message_def length_remove1 pos
        split: option.splits sum.splits health.splits ws_message.splits)
qed

text \<open>Closings that the page takes for a broken connection.\<close>

fun breaks :: "ui_event \<Rightarrow> bool" where
  "breaks (SocketCloses i c) = (c \<noteq> 1000 \<and> c \<noteq> 1001)"
| "breaks _ = False"

lemma attempts_step:
  assumes "ui_step stored m e m'" and "\<not> refills e" and "e \<noteq> Unmount" and "\<not> tm_intentionalRef m" and "tm_attemptRef m \<le> 6"
  shows "\<not> tm_intentionalRef m' \<and> tm_attemptRef m' = min 6 (tm_attemptRef m + (if breaks e then 1 else 0))"
  using assms
  by (cases e) (auto elim!: ui_stepE simp: machine_defs on_message_def MAX_RECONNECT_ATTEMPTS_def
      split: option.splits sum.splits health.splits ws_message.splits if_splits)

lemma attempts_run:
  "ui_run stored m es m' \<Longrightarrow> list_all (\<lambda>e. \<not> refills e) es \<Longrightarrow> Unmount \<notin> set es \<Longrightarrow> \<not> tm_intentionalRef m \<Longrightarrow>
     tm_attemptRef m \<le> 6 \<Longrightarrow>
   \<not> tm_intentionalRef m' \<and> tm_attemptRef m' = min 6 (tm_attemptRef m + count_rows breaks es)"
proof (induction rule: ui_run.induct)
  case (run_cons m e m1 es m2)
  with attempts_step [OF run_cons(1)] show ?case by auto
qed simp

lemma break_step:
  assumes "ui_step stored m (SocketCloses i c) m'" and "c \<noteq> 1000" and "c \<noteq> 1001" and "\<not> tm_intentionalRef m"
  shows "if tm_attemptRef m < 6
    then tm_state m' = RECONNECTING \<and> length (tm_timers m') = Suc (length (tm_timers m))
    else tm_state m' = SANDBOX_LOST \<and> tm_timers m' = tm_timers m"
  using assms by (auto elim!: ui_stepE simp: machine_defs MAX_RECONNECT_ATTEMPTS_def)

text \<open>
  C14. As long as no socket opens and the user does not end the session or ask for another one, the page
  tries to reconnect at most six times and what was already due; then it gives up. If the page stays
  and the run begins with at most six attempts counted and not in the middle of an intended close, a
  connection that breaks, closed with a code other than 1000 and 1001, is followed by a further attempt as long as
  fewer than six breaks were counted, and by none from then on: the page reports the sandbox as lost.
\<close>

theorem attempts_bounded:
  assumes "ui_run stored m es m'" and "list_all (\<lambda>e. \<not> refills e) es"
  shows "count_rows fires es \<le> length (tm_timers m) + 6 \<and>
    (\<not> tm_intentionalRef m \<and> tm_attemptRef m \<le> 6 \<and> Unmount \<notin> set es \<longrightarrow>
      (\<forall>i c m''. ui_step stored m' (SocketCloses i c) m'' \<and> c \<noteq> 1000 \<and> c \<noteq> 1001 \<longrightarrow>
        (if tm_attemptRef m + count_rows breaks es < 6
         then tm_state m'' = RECONNECTING \<and> length (tm_timers m'') = Suc (length (tm_timers m'))
         else tm_state m'' = SANDBOX_LOST \<and> tm_timers m'' = tm_timers m')))"
proof -
  have "count_rows fires es + budget m' \<le> budget m"
    using assms by (induction rule: ui_run.induct) (auto dest: budget_step)
  then have "count_rows fires es \<le> length (tm_timers m) + 6" by (simp add: budget_def MAX_RECONNECT_ATTEMPTS_def)
  moreover have "if tm_attemptRef m + count_rows breaks es < 6
      then tm_state m'' = RECONNECTING \<and> length (tm_timers m'') = Suc (length (tm_timers m'))
      else tm_state m'' = SANDBOX_LOST \<and> tm_timers m'' = tm_timers m'"
    if "\<not> tm_intentionalRef m" "tm_attemptRef m \<le> 6" "Unmount \<notin> set es"
      and "ui_step stored m' (SocketCloses i c) m''" "c \<noteq> 1000" "c \<noteq> 1001" for i c m''
    using attempts_run [OF assms(1,2) that(3,1,2)] break_step [OF that(4-6)] by (auto split: if_splits)
  ultimately show ?thesis by blast
qed

section \<open>Where the machine fails its description\<close>

text \<open>A page with one open socket that is waiting or working, and nothing else to come.\<close>

definition settled_page :: "terminal_state \<Rightarrow> session_info \<Rightarrow> nat list \<Rightarrow> machine \<Rightarrow> bool" where
  "settled_page st s sockets m \<longleftrightarrow> tm_state m = st \<and> tm_session m = Some s \<and> tm_sessionRef m = Some s \<and>
     tm_sockets m = sockets \<and> tm_timers m = [] \<and> tm_tasks m = [] \<and> \<not> tm_intentionalRef m \<and>
     tm_wsRef m = Some (last sockets) \<and> distinct sockets \<and> (\<forall>i \<in> set sockets. i < tm_next m)"

lemma run_step: "enabled e m \<Longrightarrow> ui_run stored (on_event stored e m) es m' \<Longrightarrow> ui_run stored m (e # es) m'"
  by (rule run_cons [OF ui_step.intros])

fun after :: "string option \<Rightarrow> ui_event list \<Rightarrow> machine \<Rightarrow> machine" where
  "after stored [] m = m"
| "after stored (e # es) m = after stored es (on_event stored e m)"

fun possible :: "string option \<Rightarrow> ui_event list \<Rightarrow> machine \<Rightarrow> bool" where
  "possible stored [] m = True"
| "possible stored (e # es) m = (enabled e m \<and> possible stored es (on_event stored e m))"

lemma run_after: "possible stored es m \<Longrightarrow> ui_run stored m es (after stored es m)"
  by (induction es arbitrary: m) (auto intro: run_nil run_step)

lemma run_append: "ui_run stored m es m1 \<Longrightarrow> ui_run stored m1 es' m2 \<Longrightarrow> ui_run stored m (es @ es') m2"
  by (induction rule: ui_run.induct) (auto intro: run_cons)

text \<open>
  Ending a session does not end its story. The close event of the socket, which the page means to
  ignore, is handled after the flag was reset: the page that was back at the start goes on to reconnect,
  and ends by reporting a lost sandbox.
\<close>

lemma terminate_comes_back:
  assumes "settled_page CONNECTED s [i] m" and "c \<noteq> 1000" and "c \<noteq> 1001"
    and "case tm_timerRef m of None \<Rightarrow> True | Some t \<Rightarrow> t < tm_next m"
  shows "\<exists>m1 m2 m3. ui_run stored m [Terminate, TerminateAnswers] m1 \<and> tm_state m1 = IDLE \<and> tm_session m1 = None \<and>
    ui_run stored m1 [SocketCloses i c] m2 \<and> tm_state m2 = RECONNECTING \<and>
    ui_run stored m2 [TimerFires (tm_next m)] m3 \<and> tm_state m3 = SANDBOX_LOST"
proof -
  let ?m1 = "on_event stored TerminateAnswers (on_event stored Terminate m)"
  let ?m2 = "on_event stored (SocketCloses i c) ?m1"
  let ?m3 = "on_event stored (TimerFires (tm_next m)) ?m2"
  note defs = settled_page_def machine_defs MAX_RECONNECT_ATTEMPTS_def
  have "ui_run stored m [Terminate, TerminateAnswers] ?m1"
    using assms(1) by (intro run_step run_nil) (auto simp: defs)
  moreover have "ui_run stored ?m1 [SocketCloses i c] ?m2"
    using assms(1) by (intro run_step run_nil) (auto simp: defs)
  moreover have "ui_run stored ?m2 [TimerFires (tm_next m)] ?m3"
    using assms by (intro run_step run_nil) (auto simp: defs split: option.split)
  moreover have "tm_state ?m1 = IDLE" "tm_session ?m1 = None" "tm_state ?m2 = RECONNECTING" "tm_state ?m3 = SANDBOX_LOST"
    using assms by (auto simp: defs)
  ultimately show ?thesis by blast
qed

text \<open>One round: the last socket opens, breaks, and is replaced after a healthy answer.\<close>

definition broken_round :: "session_info \<Rightarrow> nat \<Rightarrow> nat \<Rightarrow> ui_event list" where
  "broken_round s i t = [SocketOpens i, SocketCloses i 1006, TimerFires t, HealthAnswers s (Alive True),
     ReconnectWorkerAnswers s (Alive True)]"

lemma broken_round_run:
  assumes "settled_page CONNECTING s [i] m"
  shows "\<exists>m'. ui_run stored m (broken_round s i (tm_next m)) m' \<and> settled_page CONNECTING s [tm_next m + 1] m'"
  using assms
  by (intro exI [of _ "after stored (broken_round s i (tm_next m)) m"] conjI run_after)
     (simp_all add: broken_round_def settled_page_def machine_defs MAX_RECONNECT_ATTEMPTS_def)

text \<open>
  The six attempts are no bound. A server that accepts the socket and drops it before the terminal
  is ready keeps the page reconnecting forever, because the opening alone refills the budget: for
  each number there is a run with that many reconnections in which no message arrives.
\<close>

lemma reconnects_unbounded:
  assumes "settled_page CONNECTING s [i] m"
  shows "\<exists>es m'. ui_run stored m es m' \<and> count_rows fires es = n \<and> tm_state m' = CONNECTING \<and>
    list_all (\<lambda>e. \<not> (\<exists>j msg. e = SocketSays j msg)) es"
proof -
  have "\<exists>es m' j. ui_run stored m es m' \<and> count_rows fires es = n \<and> settled_page CONNECTING s [j] m' \<and>
    list_all (\<lambda>e. \<not> (\<exists>j msg. e = SocketSays j msg)) es"
  proof (induction n)
    case 0
    with assms show ?case by (intro exI [of _ "[]"]) (auto intro: run_nil)
  next
    case (Suc n)
    then obtain es m1 j where es: "ui_run stored m es m1" "count_rows fires es = n" "settled_page CONNECTING s [j] m1"
      "list_all (\<lambda>e. \<not> (\<exists>j msg. e = SocketSays j msg)) es" by blast
    from broken_round_run [OF es(3)] obtain m2 where
      m2: "ui_run stored m1 (broken_round s j (tm_next m1)) m2" "settled_page CONNECTING s [tm_next m1 + 1] m2" by blast
    have "count_rows fires (broken_round s j (tm_next m1)) = 1"
      "list_all (\<lambda>e. \<not> (\<exists>j msg. e = SocketSays j msg)) (broken_round s j (tm_next m1))"
      by (simp_all add: broken_round_def)
    with es m2 run_append [OF es(1) m2(1)] show ?case
      by (intro exI [of _ "es @ broken_round s j (tm_next m1)"]) auto
  qed
  then show ?thesis by (auto simp: settled_page_def)
qed

text \<open>One round of two sockets that both work: the old one's close event replaces the new one.\<close>

definition flap_round :: "session_info \<Rightarrow> nat \<Rightarrow> nat \<Rightarrow> ui_event list" where
  "flap_round s i t = [SocketCloses i 1005, TimerFires t, HealthAnswers s (Alive True),
     ReconnectWorkerAnswers s (Alive True), SocketOpens (t + 1), SocketSays (t + 1) (Progress ''READY'' [])]"

lemma flap_round_run:
  assumes "settled_page CONNECTED s [i, j] m"  and "tm_attemptRef m = 0"
  shows "\<exists>m'. ui_run stored m (flap_round s i (tm_next m)) m' \<and> settled_page CONNECTED s [j, tm_next m + 1] m' \<and> tm_attemptRef m' = 0"
  using assms
  by (intro exI [of _ "after stored (flap_round s i (tm_next m)) m"] conjI run_after)
     (simp_all add: flap_round_def settled_page_def machine_defs on_message_def MAX_RECONNECT_ATTEMPTS_def)

text \<open>
  Starting again while a terminal is connected never comes to rest. Although every socket works and
  every check is healthy, the close event of the replaced socket makes the page replace the next one,
  and so on: for each number there is such a run with that many reconnections.
\<close>

lemma restart_flaps:
  assumes "settled_page CONNECTED s [i] m" and "tm_attemptRef m = 0"
  shows "\<exists>es m'. ui_run stored m ([StartSession, StartAnswers (Inr s), StartWorkerAnswers s None (Alive True),
      SocketOpens (tm_next m), SocketSays (tm_next m) (Progress ''READY'' [])] @ es) m' \<and>
    count_rows fires es = n \<and> tm_state m' = CONNECTED \<and>
    list_all (\<lambda>e. \<forall>j c. e = SocketCloses j c \<longrightarrow> c = 1005) es"
proof -
  let ?restart = "[StartSession, StartAnswers (Inr s), StartWorkerAnswers s None (Alive True),
      SocketOpens (tm_next m), SocketSays (tm_next m) (Progress ''READY'' [])]"
  have "\<exists>m0. ui_run stored m ?restart m0 \<and> settled_page CONNECTED s [i, tm_next m] m0 \<and> tm_attemptRef m0 = 0"
    using assms
    by (intro exI [of _ "after stored ?restart m"] conjI run_after)
       (simp_all add: settled_page_def machine_defs on_message_def MAX_RECONNECT_ATTEMPTS_def)
  then obtain m0 where m0: "ui_run stored m ?restart m0" "settled_page CONNECTED s [i, tm_next m] m0" "tm_attemptRef m0 = 0" by blast
  have "\<exists>es m' j k. ui_run stored m0 es m' \<and> count_rows fires es = n \<and> settled_page CONNECTED s [j, k] m' \<and> tm_attemptRef m' = 0 \<and>
    list_all (\<lambda>e. \<forall>j c. e = SocketCloses j c \<longrightarrow> c = 1005) es"
  proof (induction n)
    case 0
    with m0 show ?case by (intro exI [of _ "[]"]) (auto intro: run_nil)
  next
    case (Suc n)
    then obtain es m1 j k where es: "ui_run stored m0 es m1" "count_rows fires es = n" "settled_page CONNECTED s [j, k] m1"
      "tm_attemptRef m1 = 0" "list_all (\<lambda>e. \<forall>j c. e = SocketCloses j c \<longrightarrow> c = 1005) es" by blast
    from flap_round_run [OF es(3,4)] obtain m2 where
      m2: "ui_run stored m1 (flap_round s j (tm_next m1)) m2" "settled_page CONNECTED s [k, tm_next m1 + 1] m2" "tm_attemptRef m2 = 0" by blast
    have "count_rows fires (flap_round s j (tm_next m1)) = 1"
      "list_all (\<lambda>e. \<forall>j c. e = SocketCloses j c \<longrightarrow> c = 1005) (flap_round s j (tm_next m1))"
      by (simp_all add: flap_round_def)
    with es m2 run_append [OF es(1) m2(1)] show ?case
      by (intro exI [of _ "es @ flap_round s j (tm_next m1)"]) auto
  qed
  with run_append [OF m0(1)] show ?thesis by (fastforce simp: settled_page_def)
qed

text \<open>The answers of health checks that the client of the gateway can give.\<close>

fun by_client :: "health \<Rightarrow> bool" where
  "by_client (Alive a) = True"
| "by_client (Rejected err) = (\<exists>e. err = ApiErr (rejection e))"

fun start_fails :: "ui_event \<Rightarrow> bool" where
  "start_fails (StartAnswers (Inl e)) = True"
| "start_fails (TrialAnswers (Inl e)) = True"
| "start_fails _ = False"

fun checked_by_client :: "ui_event \<Rightarrow> bool" where
  "checked_by_client (StartWorkerAnswers s t h) = by_client h"
| "checked_by_client (HealthAnswers s h) = by_client h"
| "checked_by_client (ReconnectWorkerAnswers s h) = by_client h"
| "checked_by_client _ = True"

lemma by_client_up: "by_client (Rejected err) \<Longrightarrow> \<not> gateway_down err"
  by auto

lemma failed_step:
  assumes "ui_step stored m e m'" and "checked_by_client e" and "\<not> start_fails e" and "tm_state m \<noteq> FAILED"
  shows "tm_state m' \<noteq> FAILED"
  using assms
  by (cases e) (auto elim!: ui_stepE simp: machine_defs on_message_def
      split: option.splits sum.splits health.splits ws_message.splits if_splits)

text \<open>
  The page never tells that the sandbox service is down. Its test for an answer 502 looks for the
  response of an Axios error, while the client throws errors of its own without one: unless the start of
  a session itself is refused, the page never shows a failure.
\<close>

lemma outage_never_shown:
  assumes "ui_run stored initial_machine es m" and "list_all checked_by_client es" and "\<not> list_ex start_fails es"
  shows "tm_state m \<noteq> FAILED"
proof -
  have "ui_run stored m0 es m \<Longrightarrow> list_all checked_by_client es \<Longrightarrow> \<not> list_ex start_fails es \<Longrightarrow>
      tm_state m0 \<noteq> FAILED \<Longrightarrow> tm_state m \<noteq> FAILED" for m0
    by (induction rule: ui_run.induct) (auto dest: failed_step)
  with assms show ?thesis by (simp add: initial_machine_def)
qed

section \<open>Examples\<close>

definition example_info :: session_info where
  "example_info = \<lparr>si_sessionId = ''s1'', si_terminalUrl = ''wss://t'', si_validateUrl = ''/v'', si_token = None\<rparr>"

definition first_run :: "ui_event list" where
  "first_run = [StartSession, StartAnswers (Inr example_info), StartWorkerAnswers example_info None (Alive True),
     SocketOpens 0, SocketSays 0 (Progress ''READY'' [])]"

lemmas first_run_simps = first_run_def initial_machine_def settled_page_def machine_defs on_message_def MAX_RECONNECT_ATTEMPTS_def

lemma first_run_facts:
  "possible None first_run initial_machine" "settled_page CONNECTED example_info [0] (after None first_run initial_machine)"
  "tm_attemptRef (after None first_run initial_machine) = 0" "tm_timerRef (after None first_run initial_machine) = None"
  "tm_next (after None first_run initial_machine) = 1" "tm_timers (after None first_run initial_machine) = []"
  by (simp_all add: first_run_simps)

lemma machine_stays_ok_witness:
  "let m = after None first_run initial_machine in ui_run None initial_machine first_run m \<and> tm_session m = tm_sessionRef m \<and>
    tm_reconnectAttempt m = tm_attemptRef m \<and> tm_attemptRef m \<le> 6 \<and> distinct (tm_sockets m) \<and> distinct (tm_timers m)"
  using machine_stays_ok [OF run_after [OF first_run_facts(1)]] run_after [OF first_run_facts(1)] by (simp only: Let_def simp_thms)

lemma connected_by_ready_witness:
  "let m = after None (butlast first_run) initial_machine; e = SocketSays 0 (Progress ''READY'' []) in
    ui_step None m e (on_event None e m) \<and> (\<exists>i text. e = SocketSays i (Progress ''READY'' text) \<and> i \<in> set (tm_sockets m))"
proof -
  let ?m = "after None (butlast first_run) initial_machine" and ?e = "SocketSays 0 (Progress ''READY'' [])"
  have facts: "enabled ?e ?m" "tm_state (on_event None ?e ?m) = CONNECTED" "tm_state ?m \<noteq> CONNECTED"
    by (simp_all add: first_run_simps)
  from ui_step.intros [OF facts(1), of None] connected_by_ready [OF ui_step.intros [OF facts(1)] facts(2,3)]
  show ?thesis unfolding Let_def by blast
qed

lemma attempts_bounded_witness:
  "let m = (after None first_run initial_machine)\<lparr>tm_attemptRef := 5, tm_reconnectAttempt := 5, tm_sockets := [0, 7]\<rparr>;
       es = [SocketCloses 0 1006, TimerFires 1] in
    ui_run None m es (after None es m) \<and> count_rows fires es \<le> 6 \<and>
    tm_state (on_event None (SocketCloses 7 1006) (after None es m)) = SANDBOX_LOST"
proof -
  let ?m = "(after None first_run initial_machine)\<lparr>tm_attemptRef := 5, tm_reconnectAttempt := 5, tm_sockets := [0, 7]\<rparr>"
  let ?es = "[SocketCloses 0 1006, TimerFires 1]"
  have "possible None ?es ?m" by (simp add: first_run_simps)
  note run = run_after [OF this]
  have "enabled (SocketCloses 7 1006) (after None ?es ?m)" by (simp add: first_run_simps)
  note step = ui_step.intros [OF this, of None]
  have "\<not> tm_intentionalRef ?m" by (simp add: first_run_simps)
  with attempts_bounded [OF run] step have "tm_state (on_event None (SocketCloses 7 1006) (after None ?es ?m)) = SANDBOX_LOST"
    by force
  then show ?thesis using run unfolding Let_def by simp
qed

lemma terminate_comes_back_witness:
  "let m = after None first_run initial_machine in \<exists>m1 m2 m3. ui_run None m [Terminate, TerminateAnswers] m1 \<and> tm_state m1 = IDLE \<and>
    tm_session m1 = None \<and> ui_run None m1 [SocketCloses 0 1005] m2 \<and> tm_state m2 = RECONNECTING \<and>
    ui_run None m2 [TimerFires (tm_next m)] m3 \<and> tm_state m3 = SANDBOX_LOST"
  unfolding Let_def by (rule terminate_comes_back [OF first_run_facts(2)]) (simp_all add: first_run_facts(4))

lemma restart_flaps_witness:
  "let m = after None first_run initial_machine; s = example_info in
    \<exists>es m'. ui_run None m ([StartSession, StartAnswers (Inr s), StartWorkerAnswers s None (Alive True),
      SocketOpens (tm_next m), SocketSays (tm_next m) (Progress ''READY'' [])] @ es) m' \<and>
    count_rows fires es = 7 \<and> tm_state m' = CONNECTED \<and>
    list_all (\<lambda>e. \<forall>j c. e = SocketCloses j c \<longrightarrow> c = 1005) es"
  unfolding Let_def by (rule restart_flaps [OF first_run_facts(2,3)])

text \<open>The gateway answers 502 to the check of the worker, and the page goes on to connect.\<close>

definition outage_run :: "ui_event list" where
  "outage_run = [StartSession, StartAnswers (Inr example_info),
     StartWorkerAnswers example_info None
       (Rejected (ApiErr (rejection \<lparr>ax_message = ''Request failed with status code 502'', ax_config = True, ax_response = Some (502, None)\<rparr>)))]"

lemma outage_never_shown_witness:
  "ui_run None initial_machine outage_run (after None outage_run initial_machine) \<and>
    tm_state (after None outage_run initial_machine) \<noteq> FAILED"
proof -
  have run: "possible None outage_run initial_machine" by (simp add: outage_run_def first_run_simps)
  have "list_all checked_by_client outage_run" "\<not> list_ex start_fails outage_run" by (auto simp: outage_run_def)
  from run_after [OF run] outage_never_shown [OF run_after [OF run] this] show ?thesis by blast
qed

end
