(* ===== verification/Observer.thy ===== *)
theory Observer
  imports Terminal_Laws
begin

text \<open>
  The observer of the challenge page (\<open>apps/web/src/lib/useSandboxObserver.ts\<close>): it watches the state machine
  through the values that a rendering shows and keeps a bounded log. An effect of the page runs after a
  rendering in which one of its dependencies changed; each of them does nothing when nothing changed, so
  that all of them can run after every rendering. Messages keep their parts apart instead of their text.
\<close>

datatype event_kind =
    STATE_CHANGE | WS_CONNECTING | WS_OPEN | WS_MESSAGE | WS_CLOSE | WS_ERROR | RECONNECT_SCHEDULED
  | RECONNECT_HEALTH_CHECK | RECONNECT_HEALTH_RESULT | RECONNECT_WORKER_CHECK | RECONNECT_WORKER_RESULT
  | HTTP_REQUEST | HTTP_RESPONSE | HTTP_ERROR | VALIDATION_START | VALIDATION_RESULT | INFO

datatype event_severity = Sev_ok | Sev_warn | Sev_error | Sev_info

datatype ready_state = Ws_connecting | Ws_open | Ws_closing | Ws_closed

datatype obs_message =
    Changed terminal_state terminal_state
  | Attempt nat nat
  | HealthProbe string
  | ProgressOf string
  | ValidationStarted
  | ValidationDone bool
  | SocketIs ready_state
  | Failure string

datatype detail = SessionStart string | Backoff int | SessionId string | Text string

record obs_event =
  oe_id :: nat
  oe_ts :: int
  oe_kind :: event_kind
  oe_severity :: event_severity
  oe_message :: obs_message
  oe_detail :: "detail option"

text \<open>\<open>ob_log\<close> has all events since the log was cleared; the code keeps the buffer only.\<close>

record observer =
  ob_eventId :: nat
  ob_buf :: "obs_event list"
  ob_log :: "obs_event list"
  ob_events :: "obs_event list"
  ob_prevState :: terminal_state
  ob_scheduledAt :: "int option"
  ob_delay :: "int option"
  ob_countdown :: "int option"
  ob_prevAttempt :: nat
  ob_prevProgress :: nat
  ob_wasValidating :: bool
  ob_prevWs :: "ready_state option"
  ob_prevErr :: "string option"

definition initial_observer :: observer where
  "initial_observer = \<lparr>ob_eventId = 0, ob_buf = [], ob_log = [], ob_events = [], ob_prevState = IDLE,
     ob_scheduledAt = None, ob_delay = None, ob_countdown = None, ob_prevAttempt = 0, ob_prevProgress = 0,
     ob_wasValidating = False, ob_prevWs = None, ob_prevErr = None\<rparr>"

definition RING_BUFFER_CAP :: nat where "RING_BUFFER_CAP = 500"

definition severityForKind :: "event_kind \<Rightarrow> int option \<Rightarrow> bool option \<Rightarrow> event_severity" where
  "severityForKind kind code alive =
     (if kind = WS_OPEN \<or> kind = RECONNECT_HEALTH_RESULT \<and> alive = Some True then Sev_ok
      else if kind = STATE_CHANGE then Sev_info
      else if kind = WS_CLOSE \<or> kind = WS_ERROR \<or> kind = HTTP_ERROR \<or>
        kind = RECONNECT_HEALTH_RESULT \<and> alive = Some False then Sev_error
      else if kind = RECONNECT_SCHEDULED \<or> kind = RECONNECT_WORKER_CHECK \<or> kind = RECONNECT_HEALTH_CHECK then Sev_warn
      else if kind = HTTP_RESPONSE \<and> (case code of Some c \<Rightarrow> c \<ge> 400 | None \<Rightarrow> False) then Sev_error
      else Sev_info)"

text \<open>\<open>id\<close> is the counter after it was increased; the hook passes neither \<open>code\<close> nor \<open>alive\<close>.\<close>

definition makeEvent :: "nat \<Rightarrow> int \<Rightarrow> event_kind \<Rightarrow> obs_message \<Rightarrow> detail option \<Rightarrow> event_severity option \<Rightarrow> obs_event" where
  "makeEvent i now kind message detail override =
     \<lparr>oe_id = i, oe_ts = now, oe_kind = kind, oe_severity = get_or (severityForKind kind None None) override,
      oe_message = message, oe_detail = detail\<rparr>"

definition pushEvent :: "obs_event \<Rightarrow> obs_event list \<Rightarrow> obs_event list" where
  "pushEvent e buf =
     (let buf' = buf @ [e] in
      if length buf' > RING_BUFFER_CAP then drop (length buf' - RING_BUFFER_CAP) buf' else buf')"

definition emit_event :: "int \<Rightarrow> event_kind \<Rightarrow> obs_message \<Rightarrow> detail option \<Rightarrow> event_severity option \<Rightarrow> observer \<Rightarrow> observer" where
  "emit_event now kind message detail override ob =
     (let e = makeEvent (ob_eventId ob + 1) now kind message detail override in
      ob\<lparr>ob_eventId := ob_eventId ob + 1, ob_buf := pushEvent e (ob_buf ob), ob_log := ob_log ob @ [e]\<rparr>)"

definition on_state :: "int \<Rightarrow> machine \<Rightarrow> observer \<Rightarrow> observer" where
  "on_state now m ob =
     (let prev = ob_prevState ob; nxt = tm_state m in
      if prev = nxt then ob
      else
        let ob1 = emit_event now STATE_CHANGE (Changed prev nxt)
              (map_option (\<lambda>s. SessionStart (take 8 (si_sessionId s))) (tm_session m))
              (Some (if nxt = CONNECTED then Sev_ok else if nxt = FAILED \<or> nxt = SANDBOX_LOST then Sev_error
                     else if nxt = RECONNECTING then Sev_warn else Sev_info)) (ob\<lparr>ob_prevState := nxt\<rparr>);
            ob2 = (if nxt = RECONNECTING then ob1\<lparr>ob_scheduledAt := Some now\<rparr> else ob1)
        in if nxt = CONNECTED then ob2\<lparr>ob_scheduledAt := None, ob_delay := None, ob_countdown := None\<rparr> else ob2)"

definition estimate :: "nat \<Rightarrow> int" where
  "estimate attempt = min (1000 * 2 ^ (attempt - 1)) 15000"

definition on_attempt :: "int \<Rightarrow> machine \<Rightarrow> observer \<Rightarrow> observer" where
  "on_attempt now m ob =
     (let attempt = tm_reconnectAttempt m in
      if attempt = ob_prevAttempt ob then ob
      else let ob1 = ob\<lparr>ob_prevAttempt := attempt\<rparr> in
        if attempt = 0 then ob1
        else
          let ob2 = emit_event now RECONNECT_SCHEDULED (Attempt attempt MAX_RECONNECT_ATTEMPTS)
                (Some (Backoff (estimate attempt))) (Some Sev_warn)
                (ob1\<lparr>ob_delay := Some (estimate attempt), ob_scheduledAt := Some now\<rparr>)
          in case tm_session m of None \<Rightarrow> ob2
             | Some s \<Rightarrow> emit_event now RECONNECT_HEALTH_CHECK (HealthProbe (take 8 (si_sessionId s)))
                 (Some (SessionId (si_sessionId s))) (Some Sev_warn) ob2)"

definition progress_event :: "int \<Rightarrow> string \<times> string \<Rightarrow> observer \<Rightarrow> observer" where
  "progress_event now pe = emit_event now WS_MESSAGE (ProgressOf (fst pe)) (Some (Text (snd pe)))
     (Some (if fst pe = ''READY'' then Sev_ok else if fst pe = ''FAILED'' then Sev_error else Sev_info))"

definition on_progress :: "int \<Rightarrow> machine \<Rightarrow> observer \<Rightarrow> observer" where
  "on_progress now m ob =
     List.fold (progress_event now) (drop (ob_prevProgress ob) (tm_progress m))
       (ob\<lparr>ob_prevProgress := length (tm_progress m)\<rparr>)"

definition on_validation :: "int \<Rightarrow> machine \<Rightarrow> observer \<Rightarrow> observer" where
  "on_validation now m ob =
     (if tm_isValidating m \<and> \<not> ob_wasValidating ob
      then emit_event now VALIDATION_START ValidationStarted (map_option (\<lambda>s. Text (si_validateUrl s)) (tm_session m))
        None (ob\<lparr>ob_wasValidating := True\<rparr>)
      else if \<not> tm_isValidating m \<and> ob_wasValidating ob
      then (case tm_validation m of None \<Rightarrow> ob\<lparr>ob_wasValidating := False\<rparr>
            | Some v \<Rightarrow> emit_event now VALIDATION_RESULT (ValidationDone (vr_passed v))
                (Some (Text (take 120 (vr_feedback v)))) (Some (if vr_passed v then Sev_ok else Sev_error))
                (ob\<lparr>ob_wasValidating := False\<rparr>))
      else ob)"

definition on_error :: "int \<Rightarrow> machine \<Rightarrow> observer \<Rightarrow> observer" where
  "on_error now m ob =
     (if truthy (tm_error m) \<and> tm_error m \<noteq> ob_prevErr ob
      then emit_event now HTTP_ERROR (Failure (the (tm_error m))) None (Some Sev_error) (ob\<lparr>ob_prevErr := tm_error m\<rparr>)
      else ob)"

text \<open>The effects after a rendering, in the order of the hook.\<close>

definition after_render :: "int \<Rightarrow> machine \<Rightarrow> observer \<Rightarrow> observer" where
  "after_render now m ob =
     on_error now m (on_validation now m (on_progress now m (on_attempt now m (on_state now m ob))))"

text \<open>The timers: the socket is looked at every 200 ms, the countdown every 100 ms, the log every 500 ms.\<close>

definition watch_socket :: "int \<Rightarrow> terminal_state \<Rightarrow> ready_state option \<Rightarrow> observer \<Rightarrow> observer" where
  "watch_socket now state rs ob =
     (if rs = ob_prevWs ob then ob
      else let ob1 = ob\<lparr>ob_prevWs := rs\<rparr> in
        case rs of None \<Rightarrow> ob1
        | Some Ws_open \<Rightarrow> emit_event now WS_OPEN (SocketIs Ws_open) None (Some Sev_ok) ob1
        | Some Ws_connecting \<Rightarrow> emit_event now WS_CONNECTING (SocketIs Ws_connecting) None None ob1
        | Some Ws_closing \<Rightarrow> emit_event now WS_CLOSE (SocketIs Ws_closing) None (Some Sev_warn) ob1
        | Some Ws_closed \<Rightarrow> emit_event now WS_CLOSE (SocketIs Ws_closed) None
            (Some (if state = RECONNECTING \<or> state = SANDBOX_LOST then Sev_error else Sev_info)) ob1)"

definition tick_countdown :: "int \<Rightarrow> observer \<Rightarrow> observer" where
  "tick_countdown now ob = ob\<lparr>ob_countdown := (case (ob_scheduledAt ob, ob_delay ob) of
       (Some t, Some d) \<Rightarrow> Some (max 0 (d - (now - t)))
     | _ \<Rightarrow> None)\<rparr>"

definition flush_events :: "observer \<Rightarrow> observer" where
  "flush_events ob = ob\<lparr>ob_events := rev (ob_buf ob)\<rparr>"

definition clearEvents :: "observer \<Rightarrow> observer" where
  "clearEvents ob = ob\<lparr>ob_buf := [], ob_log := [], ob_events := []\<rparr>"

section \<open>Service health\<close>

datatype health_status = Health_ok | Health_error | Health_loading | Health_unknown

record service_health =
  sh_label :: string
  sh_endpoint :: string
  sh_status :: health_status
  sh_statusCode :: "int option"
  sh_latencyMs :: "int option"
  sh_detail :: "string option"
  sh_checkedAt :: "int option"

definition unknown_service :: "string \<Rightarrow> string \<Rightarrow> service_health" where
  "unknown_service label endpoint = \<lparr>sh_label = label, sh_endpoint = endpoint, sh_status = Health_unknown,
     sh_statusCode = None, sh_latencyMs = None, sh_detail = None, sh_checkedAt = None\<rparr>"

definition INITIAL_SERVICES :: "service_health list" where
  "INITIAL_SERVICES =
     [unknown_service ''Core Service'' ''/api/core/health'', unknown_service ''Auth Service'' ''/api/auth/health'',
      unknown_service ''Notifications'' ''/api/notify/health'', unknown_service ''API Gateway'' ''/api/challenges'']"

text \<open>
  The answer of a ping: a status with the fields \<open>status\<close> and \<open>message\<close> of its body, or with the status
  text when the body is no JSON; or the message of what was thrown.
\<close>

datatype ping_body = Json_body "string option" "string option" | No_json string

definition pingService :: "int \<Rightarrow> int \<Rightarrow> string + (int \<times> ping_body) \<Rightarrow> service_health \<Rightarrow> service_health" where
  "pingService t0 t1 r svc = (case r of
       Inl msg \<Rightarrow> svc\<lparr>sh_status := Health_error, sh_statusCode := None, sh_latencyMs := Some (t1 - t0),
         sh_detail := Some (take 80 msg), sh_checkedAt := Some t1\<rparr>
     | Inr (status, body) \<Rightarrow>
         svc\<lparr>sh_status := (if 200 \<le> status \<and> status < 300 then Health_ok else Health_error),
           sh_statusCode := Some status, sh_latencyMs := Some (t1 - t0),
           sh_detail := (case body of Json_body st msg \<Rightarrow> or_else st msg | No_json txt \<Rightarrow> js_or_null (Some txt)),
           sh_checkedAt := Some t1\<rparr>)"

text \<open>The services are pinged only while a session is alive.\<close>

definition polls_health :: "terminal_state \<Rightarrow> bool" where
  "polls_health state \<longleftrightarrow> state \<in> {CONNECTING, CONNECTED, RECONNECTING}"

section \<open>Runs of the observer\<close>

datatype observation =
    Rendered int machine
  | SocketSeen int terminal_state "ready_state option"
  | CountdownTick int
  | Flush
  | ClearLog

fun observe :: "observation \<Rightarrow> observer \<Rightarrow> observer" where
  "observe (Rendered now m) = after_render now m"
| "observe (SocketSeen now st rs) = watch_socket now st rs"
| "observe (CountdownTick now) = tick_countdown now"
| "observe Flush = flush_events"
| "observe ClearLog = clearEvents"

end
