(* ===== verification/Observer_Laws.thy ===== *)
theory Observer_Laws
  imports Observer
begin

text \<open>
  What the observer of the challenge page promises: a log of the latest five hundred events without gaps
  in their numbers, every change of the machine's state in its order, and a countdown that follows the
  delays of the machine up to its jitter.
\<close>

lemmas observer_defs = on_state_def on_attempt_def on_validation_def on_error_def watch_socket_def
  tick_countdown_def flush_events_def clearEvents_def Let_def

section \<open>The log\<close>

definition latest_log :: "obs_event list \<Rightarrow> obs_event list" where
  "latest_log es = drop (length es - RING_BUFFER_CAP) es"

text \<open>The buffer is the end of the log, and the numbers of the log's events are consecutive.\<close>

definition log_ok :: "observer \<Rightarrow> bool" where
  "log_ok ob \<longleftrightarrow> ob_buf ob = latest_log (ob_log ob) \<and>
     List.map oe_id (ob_log ob) = [ob_eventId ob + 1 - length (ob_log ob)..<ob_eventId ob + 1] \<and>
     length (ob_log ob) \<le> ob_eventId ob"

lemma push_latest: "pushEvent e (latest_log es) = latest_log (es @ [e])"
proof (cases "length es < RING_BUFFER_CAP")
  case True
  then show ?thesis by (simp add: pushEvent_def latest_log_def Let_def)
next
  case False
  then have "Suc (length es - 500) = length es - 499" by (simp add: RING_BUFFER_CAP_def)
  with False show ?thesis by (simp add: pushEvent_def latest_log_def Let_def RING_BUFFER_CAP_def)
qed

lemma emit_ok: "log_ok ob \<Longrightarrow> log_ok (emit_event now k msg d sev ob)"
  by (auto simp: log_ok_def emit_event_def Let_def push_latest makeEvent_def)

text \<open>The parts of an observer that the log consists of.\<close>

lemma log_ok_fields [simp]:
  "log_ok (ob\<lparr>ob_prevState := x0\<rparr>) = log_ok ob"
  "log_ok (ob\<lparr>ob_scheduledAt := x1\<rparr>) = log_ok ob"
  "log_ok (ob\<lparr>ob_delay := x2\<rparr>) = log_ok ob"
  "log_ok (ob\<lparr>ob_countdown := x3\<rparr>) = log_ok ob"
  "log_ok (ob\<lparr>ob_prevAttempt := x4\<rparr>) = log_ok ob"
  "log_ok (ob\<lparr>ob_prevProgress := x5\<rparr>) = log_ok ob"
  "log_ok (ob\<lparr>ob_wasValidating := x6\<rparr>) = log_ok ob"
  "log_ok (ob\<lparr>ob_prevWs := x7\<rparr>) = log_ok ob"
  "log_ok (ob\<lparr>ob_prevErr := x8\<rparr>) = log_ok ob"
  "log_ok (ob\<lparr>ob_events := x9\<rparr>) = log_ok ob"
  by (simp_all add: log_ok_def)

lemma progress_ok: "log_ok ob \<Longrightarrow> log_ok (List.fold (progress_event now) ps ob)"
  by (induction ps arbitrary: ob) (simp_all add: progress_event_def emit_ok)

lemma effects_ok:
  assumes "log_ok ob"
  shows "log_ok (on_state now m ob)" "log_ok (on_attempt now m ob)" "log_ok (on_progress now m ob)"
    "log_ok (on_validation now m ob)" "log_ok (on_error now m ob)" "log_ok (watch_socket now st rs ob)"
  using assms
  by (simp_all add: observer_defs on_progress_def emit_ok progress_ok split: option.split ready_state.split)

lemma observe_ok: "log_ok ob \<Longrightarrow> log_ok (observe x ob)"
  by (cases x) (simp_all add: effects_ok after_render_def tick_countdown_def flush_events_def,
    simp add: log_ok_def clearEvents_def latest_log_def)

text \<open>
  C29. Whatever is observed, in whatever order, the buffer holds the latest five hundred events since the
  log was last cleared, in their order and with consecutive numbers, and nothing else: the ring buffer
  implements the end of an unbounded log.
\<close>

theorem buffer_is_latest:
  "let ob = List.fold observe xs initial_observer in
    ob_buf ob = drop (length (ob_log ob) - 500) (ob_log ob) \<and> length (ob_buf ob) \<le> 500 \<and>
    List.map oe_id (ob_log ob) = [ob_eventId ob + 1 - length (ob_log ob)..<ob_eventId ob + 1]"
proof -
  have "log_ok ob \<Longrightarrow> log_ok (List.fold observe xs ob)" for ob
    by (induction xs arbitrary: ob) (simp_all add: observe_ok)
  moreover have "log_ok initial_observer" by (simp add: log_ok_def initial_observer_def latest_log_def)
  ultimately have "log_ok (List.fold observe xs initial_observer)" by blast
  then show ?thesis by (simp add: log_ok_def latest_log_def RING_BUFFER_CAP_def Let_def)
qed

section \<open>The changes of state\<close>

text \<open>The changes along a list of states, from a first one.\<close>

fun changes :: "terminal_state \<Rightarrow> terminal_state list \<Rightarrow> obs_message list" where
  "changes s [] = []"
| "changes s (t # ts) = (if s = t then changes s ts else Changed s t # changes t ts)"

definition is_change :: "obs_event \<Rightarrow> bool" where
  "is_change e \<longleftrightarrow> oe_kind e = STATE_CHANGE"

definition change_log :: "observer \<Rightarrow> obs_message list" where
  "change_log ob = List.map oe_message (List.filter is_change (ob_log ob))"

text \<open>The machines that an observer saw in its renderings.\<close>

fun seen :: "observation \<Rightarrow> terminal_state list" where
  "seen (Rendered now m) = [tm_state m]"
| "seen _ = []"

lemma emit_other:
  "k \<noteq> STATE_CHANGE \<Longrightarrow> change_log (emit_event now k msg d sev ob) = change_log ob"
  "ob_prevState (emit_event now k msg d sev ob) = ob_prevState ob"
  by (simp_all add: change_log_def emit_event_def makeEvent_def is_change_def Let_def)

lemma change_log_fields [simp]:
  "change_log (ob\<lparr>ob_prevState := x0\<rparr>) = change_log ob"
  "change_log (ob\<lparr>ob_scheduledAt := x1\<rparr>) = change_log ob"
  "change_log (ob\<lparr>ob_delay := x2\<rparr>) = change_log ob"
  "change_log (ob\<lparr>ob_countdown := x3\<rparr>) = change_log ob"
  "change_log (ob\<lparr>ob_prevAttempt := x4\<rparr>) = change_log ob"
  "change_log (ob\<lparr>ob_prevProgress := x5\<rparr>) = change_log ob"
  "change_log (ob\<lparr>ob_wasValidating := x6\<rparr>) = change_log ob"
  "change_log (ob\<lparr>ob_prevWs := x7\<rparr>) = change_log ob"
  "change_log (ob\<lparr>ob_prevErr := x8\<rparr>) = change_log ob"
  "change_log (ob\<lparr>ob_events := x9\<rparr>) = change_log ob"
  by (simp_all add: change_log_def)

lemma emit_change:
  "change_log (emit_event now STATE_CHANGE msg d sev ob) = change_log ob @ [msg]"
  by (simp add: change_log_def emit_event_def makeEvent_def is_change_def Let_def)

lemma progress_changes:
  "change_log (List.fold (progress_event now) ps ob) = change_log ob"
  "ob_prevState (List.fold (progress_event now) ps ob) = ob_prevState ob"
  by (induction ps arbitrary: ob) (simp_all add: progress_event_def emit_other)

lemma quiet_effects:
  "change_log (on_attempt now m ob) = change_log ob" "ob_prevState (on_attempt now m ob) = ob_prevState ob"
  "change_log (on_progress now m ob) = change_log ob" "ob_prevState (on_progress now m ob) = ob_prevState ob"
  "change_log (on_validation now m ob) = change_log ob" "ob_prevState (on_validation now m ob) = ob_prevState ob"
  "change_log (on_error now m ob) = change_log ob" "ob_prevState (on_error now m ob) = ob_prevState ob"
  "change_log (watch_socket now st rs ob) = change_log ob" "ob_prevState (watch_socket now st rs ob) = ob_prevState ob"
  by (simp_all add: observer_defs on_progress_def emit_other progress_changes split: option.split ready_state.split)

lemma state_effect:
  "change_log (on_state now m ob) = change_log ob @ changes (ob_prevState ob) [tm_state m]"
  "ob_prevState (on_state now m ob) = tm_state m"
  by (simp_all add: observer_defs emit_change emit_other(2))

lemma observed:
  assumes "x \<noteq> ClearLog"
  shows "change_log (observe x ob) = change_log ob @ changes (ob_prevState ob) (seen x)"
    "ob_prevState (observe x ob) = last (ob_prevState ob # seen x)"
  using assms
  by (cases x; simp add: after_render_def quiet_effects state_effect tick_countdown_def flush_events_def)+

text \<open>
  The log has every change of the machine's state that a rendering showed, in order and without
  duplicates, as long as it is not cleared: each entry starts where the one before ended.
\<close>

lemma log_follows_machine:
  assumes "ClearLog \<notin> set xs"
  shows "change_log (List.fold observe xs initial_observer) = changes IDLE (concat (List.map seen xs))"
proof -
  have "ClearLog \<notin> set xs \<Longrightarrow> change_log (List.fold observe xs ob) =
      change_log ob @ changes (ob_prevState ob) (concat (List.map seen xs))" for ob
  proof (induction xs arbitrary: ob)
    case (Cons x xs)
    then have "change_log (observe x ob) = change_log ob @ changes (ob_prevState ob) (seen x)"
      "ob_prevState (observe x ob) = last (ob_prevState ob # seen x)"
      by (auto simp: observed)
    with Cons show ?case by (cases x) auto
  qed simp
  with assms show ?thesis by (simp add: initial_observer_def change_log_def)
qed

lemma log_follows_machine_witness:
  "let xs = [Rendered 10 (requesting initial_machine), Rendered 20 (requesting initial_machine),
      Rendered 30 (unavailable initial_machine)] in
    change_log (List.fold observe xs initial_observer) = [Changed IDLE REQUESTING_SANDBOX, Changed REQUESTING_SANDBOX FAILED]"
  using log_follows_machine [of "[Rendered 10 (requesting initial_machine), Rendered 20 (requesting initial_machine),
      Rendered 30 (unavailable initial_machine)]"]
  by (simp add: requesting_def unavailable_def initial_machine_def)

section \<open>The countdown\<close>

text \<open>
  The delay that the countdown starts from is the one the machine waits, up to a tenth: the estimate of
  the observer follows the backoff of the machine, whatever the jitter, and what is shown is never
  negative.
\<close>

lemma countdown_estimate:
  assumes "0 \<le> rnd" and "rnd < 1"
  shows "10 * \<bar>estimate (attempt + 1) - backoffMs rnd attempt\<bar> \<le> estimate (attempt + 1) \<and>
    (case ob_countdown (tick_countdown now ob) of None \<Rightarrow> True | Some left \<Rightarrow> 0 \<le> left)"
  using backoff_bounds [OF assms, of attempt]
  by (auto simp: estimate_def tick_countdown_def split: option.split)

lemma countdown_estimate_witness:
  "10 * \<bar>estimate (3 + 1) - backoffMs (1 / 4) 3\<bar> \<le> estimate (3 + 1) \<and>
    (case ob_countdown (tick_countdown 7000 (initial_observer\<lparr>ob_scheduledAt := Some 1000, ob_delay := Some (estimate 4)\<rparr>)) of
      None \<Rightarrow> True | Some left \<Rightarrow> 0 \<le> left)"
  by (rule countdown_estimate) simp_all

end
