(* ===== verification/Quiz_Page.thy ===== *)
theory Quiz_Page
  imports Curriculum_Laws
begin

text \<open>
  The page that plays a quiz (\<open>apps/web/src/app/quizzes/[slug]/page.tsx\<close>) together with the route it calls:
  what a choice and the next button do, and what a whole game comes to. An answer of the server arrives
  before the next action of the player; the texts of the toasts are left out.
\<close>

datatype page_mode = Play | Finished | Review

record validation =
  vl_questionId :: string
  vl_correct :: bool
  vl_correctIndex :: int
  vl_explanation :: string

record quiz_page =
  qp_slug :: string
  qp_user :: "string option"
  qp_quiz :: "question_view list option"
  qp_mode :: page_mode
  qp_currentIdx :: nat
  qp_selectedIdx :: "int option"
  qp_isSubmitted :: bool
  qp_validating :: bool
  qp_streak :: nat
  qp_results :: "(string \<times> validation) list"
  qp_userAnswers :: "(string \<times> int) list"
  qp_sessionScore :: nat

definition loaded_page :: "string \<Rightarrow> string option \<Rightarrow> question_view list \<Rightarrow> quiz_page" where
  "loaded_page slug user qs = \<lparr>qp_slug = slug, qp_user = user, qp_quiz = Some qs, qp_mode = Play, qp_currentIdx = 0,
     qp_selectedIdx = None, qp_isSubmitted = False, qp_validating = False, qp_streak = 0, qp_results = [],
     qp_userAnswers = [], qp_sessionScore = 0\<rparr>"

text \<open>What the page makes of an answer of the server, and of a choice of a visitor without an account.\<close>

definition verdict_of :: "string \<Rightarrow> int \<Rightarrow> quiz_result \<Rightarrow> bool \<times> int \<times> string" where
  "verdict_of qid idx g = (case find (\<lambda>r. qr_questionId r = qid) (qz_results g) of
       Some r \<Rightarrow> (qr_correct r, qr_correctIndex r,
         js_or (qr_explanation r) (if qr_correct r then ''Correct!'' else ''Incorrect.''))
     | None \<Rightarrow> (qz_passed g, idx, if qz_passed g then ''Correct!'' else ''Incorrect.''))"

definition guest_verdict :: "int \<Rightarrow> bool \<times> int \<times> string" where
  "guest_verdict idx = (idx = 0, 0, if idx = 0 then ''You got it right!'' else ''That was incorrect. Here is why.'')"

definition settle_question :: "string \<Rightarrow> int \<Rightarrow> bool \<times> int \<times> string \<Rightarrow> quiz_page \<Rightarrow> quiz_page" where
  "settle_question qid idx v p = (case v of (isCorrect, correctIdx, explanation) \<Rightarrow>
     p\<lparr>qp_results := (qid, \<lparr>vl_questionId = qid, vl_correct = isCorrect, vl_correctIndex = correctIdx,
         vl_explanation = (if qp_user p \<noteq> None then ''This explanation is loaded from the backend. '' else '''') @ explanation\<rparr>)
         # qp_results p,
       qp_userAnswers := (qid, idx) # qp_userAnswers p,
       qp_streak := (if isCorrect then qp_streak p + 1 else 0),
       qp_sessionScore := (if isCorrect then qp_sessionScore p + 1 else qp_sessionScore p),
       qp_validating := False\<rparr>)"

definition attempted :: "('w, 'a) act \<Rightarrow> ('w, exn + 'a) act" where
  "attempted m w = (case m w of (r, w') \<Rightarrow> (Inr r, w'))"

definition handleSelectOption :: "'r env \<Rightarrow> int \<Rightarrow> quiz_page \<Rightarrow> ('r world, quiz_page) act" where
  "handleSelectOption E idx p = (case qp_quiz p of
       None \<Rightarrow> ret p
     | Some qs \<Rightarrow>
         if qp_isSubmitted p \<or> qp_validating p then ret p
         else
           let p1 = p\<lparr>qp_selectedIdx := Some idx, qp_isSubmitted := True, qp_validating := True\<rparr> in
           if length qs \<le> qp_currentIdx p then ret p1
           else let q = qs ! qp_currentIdx p in
             (case qp_user p of
                None \<Rightarrow> ret (settle_question (qv_id q) idx (guest_verdict idx) p1)
              | Some u \<Rightarrow>
                  bnd (attempted (submit_quiz E (Some u) None (Some [(qv_id q, idx)]) (qp_slug p))) (\<lambda>r.
                  case r of
                    Inr (Sent _ g) \<Rightarrow> ret (settle_question (qv_id q) idx (verdict_of (qv_id q) idx g) p1)
                  | _ \<Rightarrow> ret (p1\<lparr>qp_validating := False\<rparr>))))"

definition handleNext :: "quiz_page \<Rightarrow> quiz_page" where
  "handleNext p = (case qp_quiz p of
       None \<Rightarrow> p
     | Some qs \<Rightarrow>
         if qp_currentIdx p + 1 < length qs
         then p\<lparr>qp_currentIdx := qp_currentIdx p + 1, qp_selectedIdx := None, qp_isSubmitted := False\<rparr>
         else p\<lparr>qp_mode := Finished\<rparr>)"

datatype page_action = Select int | Next | ReviewAnswers

fun act_on_page :: "'r env \<Rightarrow> page_action \<Rightarrow> quiz_page \<Rightarrow> ('r world, quiz_page) act" where
  "act_on_page E (Select idx) p = handleSelectOption E idx p"
| "act_on_page E Next p = ret (handleNext p)"
| "act_on_page E ReviewAnswers p = ret (p\<lparr>qp_mode := Review\<rparr>)"

primrec play :: "'r env \<Rightarrow> page_action list \<Rightarrow> quiz_page \<Rightarrow> ('r world, quiz_page) act" where
  "play E [] p = ret p"
| "play E (a # as) p = bnd (act_on_page E a p) (play E as)"

text \<open>What the finished page shows as a perfect score.\<close>

definition perfectScore :: "quiz_page \<Rightarrow> bool" where
  "perfectScore p \<longleftrightarrow> map_option length (qp_quiz p) = Some (qp_sessionScore p)"

section \<open>One answer at a time\<close>

lemma one_answer_fails:
  assumes "distinct (map q_id qs)" and "2 \<le> length qs"
  shows "\<not> qz_passed (grade [(i, k)] qs)"
proof -
  have "length (filter (\<lambda>q. q_id q = i \<and> k = q_correctIndex q) qs) \<le> 1"
    using assms(1) by (induction qs) (auto simp: filter_empty_conv image_iff)
  then have "qz_score (grade [(i, k)] qs) \<le> 1"
    by (simp add: grade_def Let_def count_rows_def filter_map comp_def mark_question_def) (metis (no_types, lifting) filter_cong)
  with assms(2) show ?thesis by (simp add: grade_def Let_def)
qed

lemma quiz_with_nodes: "quiz_with i qs d n \<Longrightarrow> nodes d' = nodes d \<Longrightarrow> quiz_with i qs d' n"
  by (simp add: quiz_with_def quiz_named_def)

lemma quiz_with_unique: "quiz_with i qs d n \<Longrightarrow> quiz_with i qs' d n' \<Longrightarrow> qs' = qs \<and> n' = n"
  by (auto simp: quiz_with_def)

lemma one_submission:
  assumes "quiz_with i qs (db w) n" and "distinct (map q_id qs)" and "2 \<le> length qs"
  shows "completed_by v (db (snd (submit_quiz E tok body (Some [(j, k)]) i w))) \<subseteq> completed_by v (db w) \<and>
    quiz_with i qs (db (snd (submit_quiz E tok body (Some [(j, k)]) i w))) n"
proof -
  define w' where "w' = snd (submit_quiz E tok body (Some [(j, k)]) i w)"
  have "fixing nodes (db w) (db w')"
    unfolding w'_def by (rule moves_db_run [OF submission_fixes_nodes])
  then have nodes: "quiz_with i qs (db w') n" unfolding fixing_def by (rule quiz_with_nodes [OF assms(1)])
  have "\<not> (quiz_with i qs' (db w) n' \<and> qz_passed (grade [(j, k)] qs'))" for n' qs'
    using one_answer_fails [OF assms(2,3), of j k] quiz_with_unique [OF assms(1), of qs' n'] by auto
  then have "{x. submitter tok body = Some v \<and> (\<exists>n' qs'. quiz_with i qs' (db w) n' \<and> x = nd_id n' \<and>
      qz_passed (grade [(j, k)] qs'))} = {}"
    by simp
  then have "completed_by v (db w') \<subseteq> completed_by v (db w)"
    using submission_completes [of v E tok body "Some [(j, k)]" i w] unfolding w'_def option.sel by (simp only: Un_empty_right)
  with nodes show ?thesis by (simp add: w'_def)
qed

text \<open>A choice either calls no route or submits one answer.\<close>

lemma choice_calls:
  assumes "handleSelectOption E idx p w = (r, w')"
  shows "(\<exists>p'. r = Inr p' \<and> qp_slug p' = qp_slug p) \<and>
    (w' = w \<or> (\<exists>tok j. w' = snd (submit_quiz E tok None (Some [(j, idx)]) (qp_slug p) w)))"
proof (cases "qp_quiz p")
  case None
  with assms show ?thesis by (auto simp: handleSelectOption_def act_simps)
next
  case (Some qs)
  show ?thesis
  proof (cases "qp_isSubmitted p \<or> qp_validating p \<or> length qs \<le> qp_currentIdx p \<or> qp_user p = None")
    case True
    with assms Some show ?thesis
      by (auto simp: handleSelectOption_def act_simps Let_def settle_question_def split: prod.splits if_splits option.splits)
  next
    case False
    then obtain u where u: "qp_user p = Some u" by auto
    let ?m = "submit_quiz E (Some u) None (Some [(qv_id (qs ! qp_currentIdx p), idx)]) (qp_slug p) w"
    from False u Some assms have "w' = snd ?m \<and> (\<exists>p'. r = Inr p' \<and> qp_slug p' = qp_slug p)"
      by (cases ?m; cases "fst ?m"; cases "projr (fst ?m)")
        (auto simp: handleSelectOption_def act_simps Let_def settle_question_def attempted_def split: prod.splits)
    then show ?thesis by blast
  qed
qed

lemma one_choice:
  assumes "quiz_with (qp_slug p) qs (db w) n" and "distinct (map q_id qs)" and "2 \<le> length qs"
    and "act_on_page E a p w = (r, w')"
  shows "completed_by v (db w') \<subseteq> completed_by v (db w) \<and> quiz_with (qp_slug p) qs (db w') n \<and>
    (\<exists>p'. r = Inr p' \<and> qp_slug p' = qp_slug p)"
proof (cases a)
  case (Select idx)
  with assms(4) have "handleSelectOption E idx p w = (r, w')" by simp
  from choice_calls [OF this] one_submission [OF assms(1-3), where v = v and E = E] assms(1)
  show ?thesis by blast
qed (use assms in \<open>auto simp: act_simps handleNext_def split: option.splits\<close>)

lemma game_completes_nothing:
  assumes "quiz_with (qp_slug p) qs (db w) n" and "distinct (map q_id qs)" and "2 \<le> length qs"
  shows "completed_by v (db (snd (play E as p w))) \<subseteq> completed_by v (db w)"
  using assms(1)
proof (induction as arbitrary: p w)
  case (Cons a as)
  obtain r w' where run: "act_on_page E a p w = (r, w')" by fastforce
  from one_choice [OF Cons.prems assms(2,3) run, of v] obtain p' where
    p': "r = Inr p'" "qp_slug p' = qp_slug p" "quiz_with (qp_slug p) qs (db w') n" "completed_by v (db w') \<subseteq> completed_by v (db w)"
    by blast
  with Cons.IH [of p' w'] run show ?case by (auto simp: act_simps)
qed (simp add: act_simps)

text \<open>
  Whatever the player chooses and whatever fails, a game on the page completes nothing, if the quiz has
  two questions or more: the page submits one answer at a time, and the server grades each submission as
  an attempt at the whole quiz.
\<close>

lemma games_complete_nothing:
  assumes "quiz_with (qp_slug p) qs (db w) n" and "distinct (map q_id qs)" and "2 \<le> length qs"
  shows "completed_by v (db (snd (play E as p w))) \<subseteq> completed_by v (db w)"
  by (rule game_completes_nothing [OF assms])

section \<open>A perfect game\<close>

definition right_answers :: "question list \<Rightarrow> page_action list" where
  "right_answers qs = concat (map (\<lambda>q. [Select (q_correctIndex q), Next]) qs)"

text \<open>The page before a question: \<open>k\<close> questions are answered, all of them right.\<close>

definition before_question :: "string \<Rightarrow> string \<Rightarrow> question list \<Rightarrow> nat \<Rightarrow> quiz_page \<Rightarrow> bool" where
  "before_question slug u qs k p \<longleftrightarrow> qp_slug p = slug \<and> qp_user p = Some u \<and> qp_quiz p = Some (map hide_answer qs) \<and>
     qp_mode p = Play \<and> qp_currentIdx p = k \<and> \<not> qp_isSubmitted p \<and> \<not> qp_validating p \<and> qp_sessionScore p = k"

lemma verdict_right:
  assumes "distinct (map q_id qs)" and "q \<in> set qs"
  shows "fst (verdict_of (q_id q) (q_correctIndex q) (grade [(q_id q, q_correctIndex q)] qs))"
proof -
  have "find (\<lambda>r. qr_questionId r = q_id q) (map (mark_question as) qs) = Some (mark_question as q)" for as
    using assms by (induction qs) (auto simp: mark_question_def)
  then show ?thesis by (simp add: verdict_of_def grade_def Let_def mark_question_def)
qed

lemma right_choice:
  assumes "calm E" and "quiz_with slug qs (db w) n" and "distinct (map q_id qs)" and "u \<noteq> []" and "has_user (db w) u"
    and "before_question slug u qs k p" and "k < length qs"
  shows "\<exists>p' w'. play E [Select (q_correctIndex (qs ! k)), Next] p w = (Inr p', w') \<and>
    quiz_with slug qs (db w') n \<and> has_user (db w') u \<and>
    (if k + 1 < length qs then before_question slug u qs (k + 1) p'
     else qp_mode p' = Finished \<and> perfectScore p')"
proof -
  let ?q = "qs ! k"
  from submit_run [OF assms(1,2) _ assms(4,5), of "Some u" None "[(q_id ?q, q_correctIndex ?q)]"] obtain w' where
    run: "submit_quiz E (Some u) None (Some [(q_id ?q, q_correctIndex ?q)]) slug w =
      (Inr (Sent 200 (grade [(q_id ?q, q_correctIndex ?q)] qs)), w')" and w': "nodes (db w') = nodes (db w)" "users (db w') = users (db w)"
    using assms(4) by (auto simp: submitter_def)
  have right: "fst (verdict_of (q_id ?q) (q_correctIndex ?q) (grade [(q_id ?q, q_correctIndex ?q)] qs))"
    using assms(3,7) by (simp add: verdict_right)
  then obtain c e where v: "verdict_of (q_id ?q) (q_correctIndex ?q) (grade [(q_id ?q, q_correctIndex ?q)] qs) = (True, c, e)"
    by (cases "verdict_of (q_id ?q) (q_correctIndex ?q) (grade [(q_id ?q, q_correctIndex ?q)] qs)") auto
  let ?p1 = "p\<lparr>qp_selectedIdx := Some (q_correctIndex ?q), qp_isSubmitted := True, qp_validating := True\<rparr>"
  let ?p2 = "settle_question (q_id ?q) (q_correctIndex ?q) (True, c, e) ?p1"
  have id: "qv_id (hide_answer ?q) = q_id ?q" by (simp add: hide_answer_def)
  have "handleSelectOption E (q_correctIndex ?q) p w = (Inr ?p2, w')"
    using assms(6,7) run
    by (simp add: handleSelectOption_def before_question_def id attempted_def act_simps v Let_def)
  then have "play E [Select (q_correctIndex ?q), Next] p w = (Inr (handleNext ?p2), w')"
    by (simp add: act_simps)
  moreover have "if k + 1 < length qs then before_question slug u qs (k + 1) (handleNext ?p2)
     else qp_mode (handleNext ?p2) = Finished \<and> perfectScore (handleNext ?p2)"
    using assms(6,7) by (auto simp: before_question_def settle_question_def handleNext_def perfectScore_def)
  moreover have "quiz_with slug qs (db w') n" by (rule quiz_with_nodes [OF assms(2) w'(1)])
  moreover have "has_user (db w') u" using assms(5) w'(2) by simp
  ultimately show ?thesis by blast
qed

lemma play_append: "play E (as @ bs) p = bnd (play E as p) (play E bs)"
  by (induction as arbitrary: p) (auto simp: fun_eq_iff act_simps split: prod.split sum.split)

lemma perfect_from:
  assumes "calm E" and "distinct (map q_id qs)" and "u \<noteq> []"
  shows "quiz_with slug qs (db w) n \<Longrightarrow> has_user (db w) u \<Longrightarrow> before_question slug u qs k p \<Longrightarrow> k < length qs \<Longrightarrow>
    \<exists>p' w'. play E (right_answers (drop k qs)) p w = (Inr p', w') \<and> qp_mode p' = Finished \<and> perfectScore p'"
proof (induction "length qs - k" arbitrary: k p w)
  case (Suc m)
  from right_choice [OF assms(1) Suc(3) assms(2,3) Suc(4,5,6)] obtain p' w' where
    step: "play E [Select (q_correctIndex (qs ! k)), Next] p w = (Inr p', w')"
    and rest: "quiz_with slug qs (db w') n" "has_user (db w') u"
      "if k + 1 < length qs then before_question slug u qs (k + 1) p' else qp_mode p' = Finished \<and> perfectScore p'"
    by blast
  have d: "right_answers (drop k qs) = [Select (q_correctIndex (qs ! k)), Next] @ right_answers (drop (Suc k) qs)"
    using Suc(6) by (simp add: right_answers_def Cons_nth_drop_Suc [symmetric])
  show ?case
  proof (cases "k + 1 < length qs")
    case True
    with rest have "before_question slug u qs (k + 1) p'" by simp
    from Suc(1) [OF _ rest(1,2) this True] Suc(2) step show ?thesis
      unfolding d play_append by (simp add: bnd_run)
  next
    case False
    with rest step Suc(6) show ?thesis unfolding d play_append by (simp add: bnd_run right_answers_def act_simps)
  qed
qed simp

text \<open>
  A perfect game is worth nothing. In a calm run a signed-in player who answers every question right
  ends on the finished page with a perfect score, and the quiz, if it has two questions or more, is not
  completed for her any more than before.
\<close>

lemma perfect_game_unrewarded:
  assumes "calm E" and "quiz_with slug qs (db w) n" and "distinct (map q_id qs)" and "2 \<le> length qs"
    and "u \<noteq> []" and "has_user (db w) u"
  shows "\<exists>p' w'. play E (right_answers qs) (loaded_page slug (Some u) (map hide_answer qs)) w = (Inr p', w') \<and>
    qp_mode p' = Finished \<and> perfectScore p' \<and> completed_by u (db w') \<subseteq> completed_by u (db w)"
proof -
  let ?p = "loaded_page slug (Some u) (map hide_answer qs)"
  have "before_question slug u qs 0 ?p" by (simp add: before_question_def loaded_page_def)
  with perfect_from [OF assms(1,3,5,2,6), of 0 ?p] assms(4) obtain p' w' where
    "play E (right_answers qs) ?p w = (Inr p', w')" "qp_mode p' = Finished" "perfectScore p'"
    by fastforce
  moreover have "completed_by u (db (snd (play E (right_answers qs) ?p w))) \<subseteq> completed_by u (db w)"
    by (rule game_completes_nothing) (use assms in \<open>simp_all add: loaded_page_def\<close>)
  ultimately show ?thesis by auto
qed

section \<open>Examples\<close>

definition two_questions :: "question list" where
  "two_questions =
     [\<lparr>q_id = ''q1'', q_correctIndex = 2, q_question = None, q_text = None, q_options = [], q_explanation = None\<rparr>,
      \<lparr>q_id = ''q2'', q_correctIndex = 0, q_question = None, q_text = None, q_options = [], q_explanation = None\<rparr>]"

definition quiz_node :: node where
  "quiz_node = \<lparr>nd_id = ''n1'', nd_type = QUIZ, nd_title = ''T'', nd_description = ''D'', nd_metadata = QuizMetadata
     \<lparr>qm_slug = Some ''quiz'', qm_category = None, qm_questions = Some two_questions, qm_editorial = None, qm_takeaways = None\<rparr>\<rparr>"

definition quiz_db :: db where
  "quiz_db = example_db\<lparr>nodes := [quiz_node]\<rparr>"

lemma quiz_db_facts:
  "quiz_with ''quiz'' two_questions quiz_db quiz_node" "distinct (map q_id two_questions)" "2 \<le> length two_questions"
  "has_user quiz_db ''ann''"
proof -
  have "has_user example_db ''ann''" by code_simp
  then show "has_user quiz_db ''ann''" by (simp add: quiz_db_def)
qed (simp_all add: quiz_with_def quiz_named_def quiz_slug_def quiz_db_def quiz_node_def two_questions_def)

lemma games_complete_nothing_witness:
  "completed_by ''ann'' (db (snd (play (faulty_env [(3, Unacked)]) [Select 2, Next, Select 1, Next]
     (loaded_page ''quiz'' (Some ''ann'') (map hide_answer two_questions)) (example_world quiz_db)))) \<subseteq> completed_by ''ann'' quiz_db"
  by (rule games_complete_nothing [where qs = two_questions and n = quiz_node and w = "example_world quiz_db",
      unfolded example_world_sel]) (use quiz_db_facts in \<open>simp_all add: loaded_page_def\<close>)

lemma perfect_game_unrewarded_witness:
  "\<exists>p' w'. play calm_env [Select 2, Next, Select 0, Next] (loaded_page ''quiz'' (Some ''ann'') (map hide_answer two_questions))
      (example_world quiz_db) = (Inr p', w') \<and>
    qp_mode p' = Finished \<and> perfectScore p' \<and> completed_by ''ann'' (db w') \<subseteq> completed_by ''ann'' quiz_db"
proof -
  have "right_answers two_questions = [Select 2, Next, Select 0, Next]" by (simp add: right_answers_def two_questions_def)
  with perfect_game_unrewarded [OF calm_calm_env, of "''quiz''" two_questions "example_world quiz_db" quiz_node "''ann''"] quiz_db_facts
  show ?thesis by simp
qed

end
