(* ===== verification/Roadmap_Page.thy ===== *)
theory Roadmap_Page
  imports Web_Client_Laws Dashboards
begin

text \<open>
  The page of a roadmap, \<open>apps/web/src/app/roadmaps/[slug]/page.tsx\<close>: the state of its nodes, the progress
  that visitors without an account mark by hand, the next node it offers; and what \<open>AuthProvider.tsx\<close> does
  with that progress after a login. What is drawn is not modelled.
\<close>

section \<open>The page\<close>

record roadmap_node =
  rn_id :: string
  rn_prerequisites :: "string list"

datatype node_state = Node_locked | Node_complete | Node_in_progress | Node_available

definition getNodeState :: "string \<Rightarrow> roadmap_progress option \<Rightarrow> roadmap_node list \<Rightarrow> node_state" where
  "getNodeState nodeId progress rns =
     (case progress of
        None \<Rightarrow> Node_locked
      | Some p \<Rightarrow>
          if nodeId \<in> set (rp_completed p) then Node_complete
          else if nodeId \<in> set (rp_inProgress p) then Node_in_progress
          else
            (case find (\<lambda>n. rn_id n = nodeId) rns of
               None \<Rightarrow> Node_locked
             | Some n \<Rightarrow>
                 if list_all (\<lambda>r. r \<in> set (rp_completed p)) (rn_prerequisites n) then Node_available
                 else Node_locked))"

text \<open>The roadmap is missing until it is loaded, and may come without nodes.\<close>

record roadmap_page =
  gp_slug :: string
  gp_user :: bool
  gp_roadmap :: "roadmap_node list option option"
  gp_progress :: "roadmap_progress option"
  gp_modal :: bool
  gp_loadError :: "string option"

definition page_nodes :: "roadmap_page \<Rightarrow> roadmap_node list" where
  "page_nodes pg = (case gp_roadmap pg of Some (Some rns) \<Rightarrow> rns | _ \<Rightarrow> [])"

definition all_marked :: "roadmap_node list option \<Rightarrow> string list \<Rightarrow> bool" where
  "all_marked rns completed \<longleftrightarrow> (case rns of None \<Rightarrow> False | Some ns \<Rightarrow> length completed = length ns \<and> 0 < length ns)"

text \<open>
  Loading: \<open>fetched\<close> is the answer of the two calls for roadmaps, \<open>account\<close> the one for the progress of the
  account, nothing if it failed.
\<close>

definition load_roadmap ::
  "browser \<Rightarrow> js_error + roadmap_node list option \<Rightarrow> roadmap_progress option \<Rightarrow> roadmap_page \<Rightarrow> roadmap_page" where
  "load_roadmap b fetched account pg =
     (case fetched of
        Inl e \<Rightarrow> pg\<lparr>gp_loadError := Some (getErrorMessage e
          (Some (getErrorMessage (StringErr ''ROADMAPS_LOAD_FAILED'') None)))\<rparr>
      | Inr rns \<Rightarrow>
          (let found = (if gp_user pg then account else getGuestRoadmapProgress b (gp_slug pg));
               prog = get_or \<lparr>rp_roadmapId = gp_slug pg, rp_completed = [], rp_inProgress = []\<rparr> found
           in pg\<lparr>gp_loadError := None, gp_roadmap := Some rns, gp_progress := Some prog,
                gp_modal := (all_marked rns (rp_completed prog) \<or> gp_modal pg)\<rparr>))"

definition toggleGuestNode :: "int \<Rightarrow> string \<Rightarrow> roadmap_page \<times> browser \<Rightarrow> roadmap_page \<times> browser" where
  "toggleGuestNode at nodeId = (\<lambda>(pg, b).
     case gp_roadmap pg of
       None \<Rightarrow> (pg, b)
     | Some rns \<Rightarrow>
         if gp_user pg then (pg, b)
         else
           (let currentCompleted = get_or [] (map_option rp_completed (gp_progress pg));
                isCompleted = nodeId \<in> set currentCompleted;
                nextCompleted = (if isCompleted then filter (\<lambda>i. i \<noteq> nodeId) currentCompleted
                                 else currentCompleted @ [nodeId]);
                nextInProgress = filter (\<lambda>i. i \<notin> set nextCompleted)
                  (get_or [] (map_option rp_inProgress (gp_progress pg)))
            in (pg\<lparr>gp_progress := Some \<lparr>rp_roadmapId = gp_slug pg, rp_completed = nextCompleted,
                     rp_inProgress = nextInProgress\<rparr>,
                   gp_modal := (all_marked rns nextCompleted \<and> \<not> isCompleted \<or> gp_modal pg)\<rparr>,
                saveGuestRoadmapProgress at (gp_slug pg) nextCompleted nextInProgress b)))"

definition progressPercent :: "roadmap_page \<Rightarrow> int" where
  "progressPercent pg =
     (let completedCount = length (get_or [] (map_option rp_completed (gp_progress pg)));
          n = length (page_nodes pg)
      in if n > 0 then min 100 (round_div (100 * int completedCount) (int n)) else 0)"

definition nextNode :: "roadmap_page \<Rightarrow> roadmap_node option" where
  "nextNode pg =
     (if gp_progress pg = None \<or> gp_roadmap pg = None then None
      else find (\<lambda>n. getNodeState (rn_id n) (gp_progress pg) (page_nodes pg) \<in> {Node_in_progress, Node_available})
        (page_nodes pg))"

section \<open>After a login\<close>

text \<open>
  \<open>AuthProvider\<close> reads the account's progress of each roadmap in the storage, merges it with what was marked
  and drops the result; a failed call counts as no progress. Then it clears the storage. The calls are those
  of the route \<open>/me/roadmaps/:slug/progress\<close>, here one after the other.
\<close>

definition account_progress :: "string list page \<Rightarrow> roadmap_progress option" where
  "account_progress answer = (case answer of
       Sent _ completed \<Rightarrow> Some \<lparr>rp_roadmapId = [], rp_completed = completed, rp_inProgress = []\<rparr>
     | Denied _ _ \<Rightarrow> None)"

fun sync_entries :: "'r env \<Rightarrow> string \<Rightarrow> (string \<times> guest_entry) list \<Rightarrow> ('r world, roadmap_progress list) act" where
  "sync_entries E userId [] = ret []"
| "sync_entries E userId ((slug, entry) # rest) =
     (if get_or [] (ge_completed entry) = [] then sync_entries E userId rest
      else
        bnd (catch (bnd (roadmap_progress E userId slug) (\<lambda>a. ret (account_progress a))) (\<lambda>_. ret None)) (\<lambda>accountProg.
        bnd (sync_entries E userId rest) (\<lambda>more.
        ret (mergeRoadmapProgress accountProg (get_or [] (ge_completed entry)) (get_or [] (ge_inProgress entry)) # more))))"

definition sync_guest :: "'r env \<Rightarrow> string \<Rightarrow> browser \<Rightarrow> 'r world \<Rightarrow> browser \<times> 'r world" where
  "sync_guest E userId b w =
     (let store = getGuestRoadmapStore b in
      if store = [] then (b, w)
      else (clearGuestRoadmapStore b, snd (sync_entries E userId store w)))"

section \<open>What the page shows\<close>

text \<open>Visitors mark nodes; \<open>ts\<close> are the times and nodes of the clicks.\<close>

definition marked :: "(int \<times> string) list \<Rightarrow> roadmap_page \<times> browser \<Rightarrow> roadmap_page \<times> browser" where
  "marked ts s = fold (\<lambda>(at, i). toggleGuestNode at i) ts s"

definition completed_of :: "roadmap_page \<Rightarrow> string set" where
  "completed_of pg = set (get_or [] (map_option rp_completed (gp_progress pg)))"

definition storing :: "browser \<Rightarrow> bool" where
  "storing b \<longleftrightarrow> br_window b \<and> br_readable b \<and> br_writable b"

definition in_step :: "roadmap_page \<times> browser \<Rightarrow> bool" where
  "in_step = (\<lambda>(pg, b). storing b \<and> \<not> gp_user pg \<and> gp_roadmap pg \<noteq> None \<and>
     gp_progress pg = Some (get_or \<lparr>rp_roadmapId = gp_slug pg, rp_completed = [], rp_inProgress = []\<rparr>
       (getGuestRoadmapProgress b (gp_slug pg))))"

lemma saved_progress:
  "storing b \<Longrightarrow> getGuestRoadmapProgress (saveGuestRoadmapProgress at slug xs ys b) slug =
     Some \<lparr>rp_roadmapId = slug, rp_completed = xs, rp_inProgress = ys\<rparr>"
  "storing (saveGuestRoadmapProgress at slug xs ys b) = storing b"
  by (auto simp: storing_def saveGuestRoadmapProgress_def getGuestRoadmapProgress_def getGuestRoadmapStore_def update_conv')

lemma toggle_in_step:
  assumes "in_step (pg, b)" and "toggleGuestNode at i (pg, b) = (pg', b')"
  shows "in_step (pg', b')" and "gp_roadmap pg' = gp_roadmap pg" and "gp_slug pg' = gp_slug pg"
    and "completed_of pg' = (if i \<in> completed_of pg then completed_of pg - {i} else insert i (completed_of pg))"
  using assms
  by (auto simp: in_step_def toggleGuestNode_def Let_def saved_progress completed_of_def split: option.splits if_splits)

lemma marked_in_step:
  "in_step (pg, b) \<Longrightarrow> marked ts (pg, b) = (pg', b') \<Longrightarrow>
     in_step (pg', b') \<and> gp_roadmap pg' = gp_roadmap pg \<and> gp_slug pg' = gp_slug pg \<and>
     completed_of pg' = {i. i \<in> completed_of pg \<longleftrightarrow> even (count_list (map snd ts) i)}"
proof (induction ts arbitrary: pg b)
  case Nil
  then show ?case by (simp add: marked_def)
next
  case (Cons t ts)
  obtain at i where t: "t = (at, i)" by (cases t)
  obtain pg1 b1 where first: "toggleGuestNode at i (pg, b) = (pg1, b1)" by fastforce
  note moved = toggle_in_step [OF Cons.prems(1) first]
  from Cons.prems(2) have "marked ts (pg1, b1) = (pg', b')" by (simp add: marked_def t first)
  from Cons.IH [OF moved(1) this] moved show ?case by (auto simp: t)
qed

text \<open>
  C39. What a visitor marks is kept. After any clicks a node of the roadmap is complete exactly if it was so
  before and was clicked an even number of times, or was not and was clicked an odd number of times; and when
  the page is loaded again in a browser that stores, it shows the same progress.
\<close>

theorem marks_survive_reload:
  assumes "storing b" and "\<not> gp_user pg"
    and "load_roadmap b (Inr rns) account pg = pg0" and "marked ts (pg0, b) = (pg1, b1)"
  shows "completed_of pg1 = {i. i \<in> completed_of pg0 \<longleftrightarrow> even (count_list (map snd ts) i)} \<and>
    gp_progress (load_roadmap b1 (Inr rns) account pg1) = gp_progress pg1"
proof -
  have "in_step (pg0, b)" using assms(1-3) by (auto simp: in_step_def load_roadmap_def Let_def)
  from marked_in_step [OF this assms(4)] show ?thesis
    by (auto simp: in_step_def load_roadmap_def Let_def)
qed

section \<open>The next node\<close>

definition requirements :: "roadmap_node list \<Rightarrow> (string \<times> string) set" where
  "requirements rns = {(r, rn_id n) | r n. n \<in> set rns \<and> r \<in> set (rn_prerequisites n)}"

lemma finite_requirements: "finite (requirements rns)"
proof -
  have "requirements rns = (\<Union>n \<in> set rns. (\<lambda>r. (r, rn_id n)) ` set (rn_prerequisites n))"
    by (auto simp: requirements_def)
  then show ?thesis by simp
qed

text \<open>
  C35. A roadmap does not get stuck: if the nodes require only nodes of the roadmap and not each other in a
  circle, the page offers a next node as long as some node is not complete, whatever was completed in whatever
  order.
\<close>

theorem next_node_offered:
  assumes "acyclic (requirements (page_nodes pg))" and "Domain (requirements (page_nodes pg)) \<subseteq> rn_id ` set (page_nodes pg)"
    and "gp_progress pg \<noteq> None" and "n \<in> set (page_nodes pg)" and "rn_id n \<notin> completed_of pg"
  shows "\<exists>m. nextNode pg = Some m \<and> m \<in> set (page_nodes pg) \<and> rn_id m \<notin> completed_of pg"
proof -
  let ?rns = "page_nodes pg"
  let ?left = "rn_id ` set ?rns - completed_of pg"
  obtain p where p: "gp_progress pg = Some p" using assms(3) by blast
  have loaded: "gp_roadmap pg \<noteq> None" using assms(4) by (cases "gp_roadmap pg") (auto simp: page_nodes_def)
  have completed: "completed_of pg = set (rp_completed p)" by (simp add: completed_of_def p)
  have "rn_id n \<in> ?left" using assms(4,5) by blast
  then obtain x where x: "x \<in> ?left" and least: "\<And>y. (y, x) \<in> requirements ?rns \<Longrightarrow> y \<notin> ?left"
    using wfE_min [OF finite_acyclic_wf [OF finite_requirements assms(1)]] by metis
  then obtain m where found: "find (\<lambda>n. rn_id n = x) ?rns = Some m"
    by (cases "find (\<lambda>n. rn_id n = x) ?rns") (auto simp: find_None_iff)
  then have m: "m \<in> set ?rns" "rn_id m = x" by (auto simp: find_Some_iff)
  have "r \<in> set (rp_completed p)" if "r \<in> set (rn_prerequisites m)" for r
  proof -
    have "(r, x) \<in> requirements ?rns" using that m by (auto simp: requirements_def)
    then show ?thesis using least assms(2) by (auto simp: completed Domain_iff)
  qed
  then have "getNodeState x (Some p) ?rns \<in> {Node_in_progress, Node_available}"
    using x by (auto simp: getNodeState_def found completed list_all_iff)
  then obtain m' where "nextNode pg = Some m'"
    using m p loaded by (cases "nextNode pg") (auto simp: nextNode_def find_None_iff)
  moreover from this have "m' \<in> set ?rns \<and> getNodeState (rn_id m') (Some p) ?rns \<in> {Node_in_progress, Node_available}"
    using p by (auto simp: nextNode_def find_Some_iff split: if_splits)
  ultimately show ?thesis by (auto simp: getNodeState_def completed split: if_splits)
qed

text \<open>
  The percentage is between 0 and 100, and 100 once every node is complete; but rounding shows 100 before:
  with one of two hundred nodes missing.
\<close>

lemma percent_bounds:
  "0 \<le> progressPercent pg \<and> progressPercent pg \<le> 100 \<and>
   (all_marked (Some (page_nodes pg)) (get_or [] (map_option rp_completed (gp_progress pg))) \<longrightarrow> progressPercent pg = 100)"
proof -
  let ?n = "length (page_nodes pg)" and ?k = "length (get_or [] (map_option rp_completed (gp_progress pg)))"
  have "0 \<le> round_div (100 * int ?k) (int ?n)" by (simp add: round_div_def div_int_pos_iff)
  moreover have "round_div (100 * int ?n) (int ?n) = 100" if "0 < ?n" using round_div_exact [of "int ?n" 100] that by simp
  ultimately show ?thesis by (auto simp: progressPercent_def Let_def all_marked_def)
qed

lemma percent_rounds_up:
  assumes "length (page_nodes pg) = 200" and "gp_progress pg = Some p" and "length (rp_completed p) = 199"
  shows "progressPercent pg = 100"
  using assms by (simp add: progressPercent_def round_div_def)

section \<open>The marks after a login\<close>

lemma sync_reads: "moves (on_db (fixing (\<lambda>d. d))) (sync_entries E u es)"
proof (induction es rule: sync_entries.induct [of _ E u])
  case (2 E u slug entry rest)
  have "moves (on_db (fixing (\<lambda>d. d))) (roadmap_progress E u slug)"
    unfolding roadmap_progress_def by (intro fixing_steps)
  with 2 show ?case by (simp, intro conjI impI fixing_steps) auto
qed (simp add: fixing_steps)

text \<open>
  A login loses what the visitor has marked: the account is as it was, whatever the calls give, and the
  storage is empty.
\<close>

lemma guest_progress_dropped:
  assumes "storing b" and "sync_guest E u b w = (b', w')"
  shows "db w' = db w \<and> getGuestRoadmapProgress b' slug = None"
proof -
  have "db (snd (sync_entries E u (getGuestRoadmapStore b) w)) = db w"
    using moves_db_run [OF sync_reads [of E u "getGuestRoadmapStore b"], where w = w] by (simp add: fixing_def)
  with assms show ?thesis
    by (auto simp: sync_guest_def Let_def getGuestRoadmapProgress_def getGuestRoadmapStore_def clearGuestRoadmapStore_def
        storing_def split: if_splits)
qed

section \<open>Examples\<close>

definition two_nodes :: "roadmap_node list" where
  "two_nodes = [\<lparr>rn_id = ''n1'', rn_prerequisites = []\<rparr>, \<lparr>rn_id = ''n2'', rn_prerequisites = [''n1'']\<rparr>]"

definition empty_browser :: browser where
  "empty_browser = \<lparr>br_window = True, br_readable = True, br_writable = True, br_item = Absent\<rparr>"

definition new_page :: roadmap_page where
  "new_page = \<lparr>gp_slug = ''linux'', gp_user = False, gp_roadmap = None, gp_progress = None, gp_modal = False,
     gp_loadError = None\<rparr>"

lemmas page_examples = two_nodes_def empty_browser_def new_page_def storing_def

lemma marks_survive_reload_witness:
  "let pg0 = load_roadmap empty_browser (Inr (Some two_nodes)) None new_page;
       (pg1, b1) = marked [(1, ''n2''), (2, ''n1''), (3, ''n2'')] (pg0, empty_browser)
   in completed_of pg1 = {''n1''} \<and> gp_progress (load_roadmap b1 (Inr (Some two_nodes)) None pg1) = gp_progress pg1"
proof -
  let ?pg0 = "load_roadmap empty_browser (Inr (Some two_nodes)) None new_page"
  let ?ts = "[(1, ''n2''), (2, ''n1''), (3, ''n2'')] :: (int \<times> string) list"
  obtain pg1 b1 where run: "marked ?ts (?pg0, empty_browser) = (pg1, b1)" by fastforce
  have start: "completed_of ?pg0 = {}"
    by (simp add: completed_of_def load_roadmap_def page_examples getGuestRoadmapProgress_def getGuestRoadmapStore_def Let_def)
  have "{i. i \<in> completed_of ?pg0 \<longleftrightarrow> even (count_list (map snd ?ts) i)} = {''n1''}"
    unfolding start by auto
  moreover have "storing empty_browser" "\<not> gp_user new_page" by (simp_all add: page_examples)
  ultimately show ?thesis
    using marks_survive_reload [OF _ _ refl run] by (simp add: run)
qed

lemma next_node_offered_witness:
  "let pg0 = load_roadmap empty_browser (Inr (Some two_nodes)) None new_page
   in \<exists>m. nextNode pg0 = Some m \<and> m \<in> set (page_nodes pg0) \<and> rn_id m \<notin> completed_of pg0"
proof -
  let ?pg0 = "load_roadmap empty_browser (Inr (Some two_nodes)) None new_page"
  have pg: "page_nodes ?pg0 = two_nodes" "completed_of ?pg0 = {}" "gp_progress ?pg0 \<noteq> None"
    by (simp_all add: page_nodes_def completed_of_def load_roadmap_def page_examples getGuestRoadmapProgress_def
        getGuestRoadmapStore_def Let_def)
  have hd: "hd two_nodes \<in> set two_nodes" by (simp add: two_nodes_def)
  have req: "requirements two_nodes = {(''n1'', ''n2'')}"
    by (auto simp: requirements_def two_nodes_def intro!: exI [of _ "\<lparr>rn_id = ''n2'', rn_prerequisites = [''n1'']\<rparr>"])
  have "acyclic (requirements two_nodes)" unfolding req by (rule wf_acyclic) (simp add: wf_insert)
  moreover have "Domain (requirements two_nodes) \<subseteq> rn_id ` set two_nodes" unfolding req by (simp add: two_nodes_def)
  ultimately have "\<exists>m. nextNode ?pg0 = Some m \<and> m \<in> set (page_nodes ?pg0) \<and> rn_id m \<notin> completed_of ?pg0"
    using next_node_offered [of ?pg0 "hd two_nodes"] hd by (simp add: pg)
  then show ?thesis by (simp only: Let_def)
qed

end
