(* ===== verification/Sign_In.thy ===== *)
theory Sign_In
  imports Web_Client Notifications
begin

text \<open>
  Who sees which page of the web client: the kinds of pages (\<open>getPageType\<close> in \<open>lib/utils.ts\<close>), the redirects
  and the logout of \<open>AuthProvider.tsx\<close>, and the landing page of federated logins (\<open>auth/callback/page.tsx\<close>)
  with its exchange, the refresh of the user and the timeout, in any order.
\<close>

section \<open>Pages\<close>

definition AUTH_PAGES :: "string list" where
  "AUTH_PAGES = [''/login'', ''/register'', ''/forgot-password'', ''/reset-password'', ''/verify-email'', ''/auth/callback'']"

definition PUBLIC_PAGES :: "string list" where
  "PUBLIC_PAGES = [''/'', ''/challenges'', ''/paths'', ''/roadmaps'', ''/quizzes'', ''/articles'', ''/community'',
     ''/leaderboard'', ''/teams'', ''/profile'']"

record page_type =
  isAuthPage :: bool
  isPublicPage :: bool
  isProtectedPage :: bool

definition getPageType :: "string option \<Rightarrow> page_type" where
  "getPageType pathname =
     (let auth = list_ex (\<lambda>p. case pathname of None \<Rightarrow> False | Some s \<Rightarrow> starts_with p s) AUTH_PAGES;
          open_page = list_ex (\<lambda>p. pathname = Some p \<or>
            (case pathname of None \<Rightarrow> False | Some s \<Rightarrow> starts_with (p @ ''/'') s)) PUBLIC_PAGES
      in \<lparr>isAuthPage = auth, isPublicPage = open_page, isProtectedPage = (\<not> auth \<and> \<not> open_page)\<rparr>)"

text \<open>The redirect of \<open>AuthProvider\<close>, once the user is known or known to be missing.\<close>

definition redirect :: "bool \<Rightarrow> bool \<Rightarrow> bool \<Rightarrow> string option \<Rightarrow> string option" where
  "redirect mounted loading signedIn pathname =
     (let kind = getPageType pathname in
      if loading \<or> \<not> mounted then None
      else if \<not> signedIn \<and> isProtectedPage kind then Some ''/login''
      else if signedIn \<and> isAuthPage kind \<and> pathname \<noteq> Some ''/auth/callback'' then Some ''/''
      else None)"

text \<open>The logout removes the keys of sandbox sessions: first it collects them, then it removes each.\<close>

definition forget_sessions :: "(string \<times> string) list \<Rightarrow> (string \<times> string) list" where
  "forget_sessions storage =
     (let keysToRemove = filter (starts_with ''session_'') (map fst storage) in fold AList.delete keysToRemove storage)"

section \<open>The landing page of federated logins\<close>

datatype exchange_state = Ex_idle | Ex_exchanging | Ex_success | Ex_error

record callback_page =
  cbk_state :: exchange_state
  cbk_done :: bool
  cbk_went :: "string list"
  cbk_posted :: nat
  cbk_revalidating :: nat
  cbk_timer :: bool

definition fresh_callback :: callback_page where
  "fresh_callback = \<lparr>cbk_state = Ex_idle, cbk_done = False, cbk_went = [], cbk_posted = 0, cbk_revalidating = 0,
     cbk_timer = True\<rparr>"

definition go_to :: "string \<Rightarrow> callback_page \<Rightarrow> callback_page" where
  "go_to dest c = (if cbk_done c then c else c\<lparr>cbk_done := True, cbk_went := cbk_went c @ [dest]\<rparr>)"

definition failRedirect :: "callback_page \<Rightarrow> callback_page" where
  "failRedirect = go_to ''/login?error=oauth_failed''"

definition succeedRedirect :: "callback_page \<Rightarrow> callback_page" where
  "succeedRedirect = go_to ''/dashboard''"

text \<open>
  The effect on the query: \<open>urlToken\<close> is what the address has, \<open>searchToken\<close> what the router knows, and
  \<open>mentioned\<close> whether the address has the word at all.
\<close>

definition on_params :: "string option \<Rightarrow> string option \<Rightarrow> bool \<Rightarrow> callback_page \<Rightarrow> callback_page" where
  "on_params urlToken searchToken mentioned c =
     (let exchangeToken = (if truthy urlToken then urlToken else searchToken) in
      if \<not> truthy exchangeToken then (if \<not> mentioned then failRedirect c else c)
      else c\<lparr>cbk_state := Ex_exchanging, cbk_posted := cbk_posted c + 1\<rparr>)"

text \<open>The answer of the exchange: whether it is \<open>ok\<close>, or nothing if the call throws.\<close>

definition on_exchanged :: "bool option \<Rightarrow> callback_page \<Rightarrow> callback_page" where
  "on_exchanged answer c =
     (let c' = c\<lparr>cbk_posted := cbk_posted c - 1\<rparr> in
      if answer = Some True then c'\<lparr>cbk_state := Ex_success, cbk_revalidating := cbk_revalidating c' + 1\<rparr>
      else failRedirect (c'\<lparr>cbk_state := Ex_error\<rparr>))"

definition on_revalidated :: "bool \<Rightarrow> callback_page \<Rightarrow> callback_page" where
  "on_revalidated fine c =
     (let c' = c\<lparr>cbk_revalidating := cbk_revalidating c - 1\<rparr> in
      if fine then succeedRedirect c' else failRedirect (c'\<lparr>cbk_state := Ex_error\<rparr>))"

datatype callback_event =
    Params "string option" "string option" bool
  | Exchanged "bool option"
  | Revalidated bool
  | TimedOut

fun on_callback :: "callback_event \<Rightarrow> callback_page \<Rightarrow> callback_page" where
  "on_callback (Params u s m) c = on_params u s m c"
| "on_callback (Exchanged a) c = on_exchanged a c"
| "on_callback (Revalidated f) c = on_revalidated f c"
| "on_callback TimedOut c = failRedirect (c\<lparr>cbk_timer := False\<rparr>)"

fun can_happen :: "callback_event \<Rightarrow> callback_page \<Rightarrow> bool" where
  "can_happen (Params u s m) c = True"
| "can_happen (Exchanged a) c = (cbk_posted c > 0)"
| "can_happen (Revalidated f) c = (cbk_revalidating c > 0)"
| "can_happen TimedOut c = cbk_timer c"

inductive callback_run :: "callback_event list \<Rightarrow> callback_page \<Rightarrow> bool" where
  start: "callback_run [] fresh_callback"
| event: "callback_run tr c \<Longrightarrow> can_happen e c \<Longrightarrow> callback_run (tr @ [e]) (on_callback e c)"

section \<open>Redirects\<close>

lemma page_kinds:
  "getPageType (Some ''/login'') = \<lparr>isAuthPage = True, isPublicPage = False, isProtectedPage = False\<rparr>"
  "getPageType (Some ''/'') = \<lparr>isAuthPage = False, isPublicPage = True, isProtectedPage = False\<rparr>"
  by code_simp+

text \<open>A redirect leads to a page that does not redirect again.\<close>

lemma no_redirect_loop:
  "redirect mounted loading signedIn pathname = Some dest \<Longrightarrow> redirect mounted loading signedIn (Some dest) = None"
  by (auto simp: redirect_def page_kinds Let_def split: if_splits)

text \<open>
  Pages that mails and links lead to: the address in the verification mail is none of an auth page, and a visitor
  who opens it, or a link to a shared result, is sent to the login.
\<close>

lemma links_need_login:
  "redirect True False False (Some ''/verify'') = Some ''/login''"
  "redirect True False False (Some (''/share/'' @ token)) = Some ''/login''"
  by (simp_all add: redirect_def getPageType_def AUTH_PAGES_def PUBLIC_PAGES_def starts_with_def Let_def)

lemma verification_link_path: "\<exists>base. verification_link frontend token = base @ ''/verify?token='' @ token"
  by (auto simp: verification_link_def)

text \<open>After a logout no key of a sandbox session is left, and all other keys keep their values.\<close>

lemma sessions_forgotten:
  "map_of (forget_sessions storage) k = (if starts_with ''session_'' k then None else map_of storage k)"
proof -
  have fold: "map_of (fold AList.delete ks st) k = (if k \<in> set ks then None else map_of st k)" for ks and st :: "(string \<times> string) list"
    by (induction ks arbitrary: st) (auto simp: delete_conv')
  have "map_of storage k = None" if "k \<notin> fst ` set storage" using that by (simp add: map_of_eq_None_iff)
  then show ?thesis by (auto simp: forget_sessions_def fold Let_def)
qed

section \<open>The landing page\<close>

definition callback_ok :: "callback_event list \<Rightarrow> callback_page \<Rightarrow> bool" where
  "callback_ok tr c \<longleftrightarrow>
     length (cbk_went c) = (if cbk_done c then 1 else 0) \<and>
     set (cbk_went c) \<subseteq> {''/dashboard'', ''/login?error=oauth_failed''} \<and>
     (cbk_revalidating c > 0 \<longrightarrow> Exchanged (Some True) \<in> set tr) \<and>
     (''/dashboard'' \<in> set (cbk_went c) \<longrightarrow> Exchanged (Some True) \<in> set tr \<and> Revalidated True \<in> set tr) \<and>
     (TimedOut \<in> set tr \<longrightarrow> cbk_done c) \<and> (\<not> cbk_timer c \<longrightarrow> TimedOut \<in> set tr)"

lemma callback_run_ok: "callback_run tr c \<Longrightarrow> callback_ok tr c"
proof (induction rule: callback_run.induct)
  case start
  then show ?case by (simp add: callback_ok_def fresh_callback_def)
next
  case (event tr c e)
  then show ?case
    by (cases e) (auto simp: callback_ok_def on_params_def on_exchanged_def on_revalidated_def failRedirect_def
        succeedRedirect_def go_to_def Let_def split: if_splits)
qed

text \<open>
  C36. The landing page of a federated login leads somewhere once, in whatever order its calls are answered:
  it goes to one place at most, to the dashboard only after an exchange was accepted and the user was read
  again, and when its timer has run out it has gone somewhere.
\<close>

theorem callback_leads_once:
  assumes "callback_run tr c"
  shows "length (cbk_went c) \<le> 1 \<and>
    (''/dashboard'' \<in> set (cbk_went c) \<longrightarrow> Exchanged (Some True) \<in> set tr \<and> Revalidated True \<in> set tr) \<and>
    (TimedOut \<in> set tr \<longrightarrow> (\<exists>dest \<in> {''/dashboard'', ''/login?error=oauth_failed''}. cbk_went c = [dest]))"
proof -
  have ok: "callback_ok tr c" using assms by (rule callback_run_ok)
  then have "cbk_went c = [] \<or> (\<exists>dest. cbk_went c = [dest])"
    by (cases "cbk_went c") (auto simp: callback_ok_def split: if_splits)
  with ok show ?thesis by (auto simp: callback_ok_def split: if_splits)
qed

fun follow :: "callback_event list \<Rightarrow> callback_page \<Rightarrow> callback_page option" where
  "follow [] c = Some c"
| "follow (e # es) c = (if can_happen e c then follow es (on_callback e c) else None)"

lemma follow_run: "callback_run tr c \<Longrightarrow> follow es c = Some c' \<Longrightarrow> callback_run (tr @ es) c'"
proof (induction es arbitrary: tr c)
  case (Cons e es)
  from Cons.prems(2) have e: "can_happen e c" "follow es (on_callback e c) = Some c'" by (auto split: if_splits)
  from Cons.IH [OF callback_run.event [OF Cons.prems(1) e(1)] e(2)] show ?case by simp
qed simp

lemma followed_run: "follow es fresh_callback = Some c \<Longrightarrow> callback_run es c"
  using follow_run [OF callback_run.start] by simp

lemmas callback_defs = on_params_def on_exchanged_def on_revalidated_def failRedirect_def succeedRedirect_def go_to_def
  fresh_callback_def

text \<open>
  An accepted exchange can still end at the login: when the query of the page changes, the one-time token is
  posted again, and if the refusal of the second exchange comes before the user is read, it wins.
\<close>

lemma accepted_exchange_spoiled:
  "\<exists>c. callback_run [Params (Some ''t'') None True, Params (Some ''t'') None True, Exchanged (Some True),
       Exchanged (Some False), Revalidated True] c \<and> cbk_went c = [''/login?error=oauth_failed'']"
proof -
  let ?p = "Params (Some ''t'') None True"
  obtain c where "follow [?p, ?p, Exchanged (Some True), Exchanged (Some False), Revalidated True] fresh_callback = Some c"
    "cbk_went c = [''/login?error=oauth_failed'']"
    by (simp add: callback_defs)
  with followed_run show ?thesis by blast
qed

lemma callback_leads_once_witness:
  "\<exists>c. callback_run [Params (Some ''t'') None True, Exchanged (Some True), Revalidated True, TimedOut] c \<and>
     cbk_went c = [''/dashboard'']"
proof -
  let ?tr = "[Params (Some ''t'') None True, Exchanged (Some True), Revalidated True, TimedOut]"
  obtain c where c: "follow ?tr fresh_callback = Some c" "''/dashboard'' \<in> set (cbk_went c)"
    by (simp add: callback_defs)
  from callback_leads_once [OF followed_run [OF c(1)]] c(2) have "cbk_went c = [''/dashboard'']" by auto
  with followed_run [OF c(1)] show ?thesis by blast
qed

end
