(* ===== verification/Catalog.thy ===== *)
theory Catalog
  imports Web_Client Social "HOL-Library.Multiset"
begin

text \<open>
  The catalogs of the web client: their state in the query string and its updates, the filters and orders of
  challenges (\<open>CatalogContent.tsx\<close>), roadmaps (\<open>RoadmapsContent.tsx\<close>) and quizzes (\<open>QuizzesContent.tsx\<close>), and
  the search field of the toolbar (\<open>CatalogToolbar.tsx\<close>), with its delay, as a machine. \<open>toLowerCase\<close> is that of
  ASCII; \<open>localeCompare\<close> compares by the sort keys of the browser, the parameter \<open>collate\<close>.
\<close>

section \<open>The query string\<close>

text \<open>\<open>URLSearchParams\<close>: a list of pairs.\<close>

type_synonym params = "(string \<times> string) list"

definition param_get :: "string \<Rightarrow> params \<Rightarrow> string option" where
  "param_get k ps = map_of ps k"

definition param_all :: "string \<Rightarrow> params \<Rightarrow> string list" where
  "param_all k ps = map snd (filter (\<lambda>p. fst p = k) ps)"

definition param_delete :: "string \<Rightarrow> params \<Rightarrow> params" where
  "param_delete k ps = filter (\<lambda>p. fst p \<noteq> k) ps"

fun param_set :: "string \<Rightarrow> string \<Rightarrow> params \<Rightarrow> params" where
  "param_set k v [] = [(k, v)]"
| "param_set k v ((a, x) # ps) = (if a = k then (k, v) # param_delete k ps else (a, x) # param_set k v ps)"

record catalog_state =
  ct_q :: string
  ct_sort :: string
  ct_difficulty :: "string list"
  ct_time :: "string list"
  ct_type :: "string list"
  ct_view :: string

definition state_of :: "params \<Rightarrow> catalog_state" where
  "state_of ps = \<lparr>ct_q = js_or (param_get ''q'' ps) '''', ct_sort = js_or (param_get ''sort'' ps) ''Recommended'',
     ct_difficulty = param_all ''difficulty'' ps, ct_time = param_all ''time'' ps, ct_type = param_all ''type'' ps,
     ct_view = js_or (param_get ''view'' ps) ''grid''\<rparr>"

text \<open>A \<open>Partial<CatalogState>\<close>.\<close>

record catalog_change =
  ce_q :: "string option"
  ce_sort :: "string option"
  ce_difficulty :: "string list option"
  ce_time :: "string list option"
  ce_type :: "string list option"
  ce_view :: "string option"

definition no_change :: catalog_change where
  "no_change = \<lparr>ce_q = None, ce_sort = None, ce_difficulty = None, ce_time = None, ce_type = None, ce_view = None\<rparr>"

definition set_array :: "string \<Rightarrow> string list option \<Rightarrow> params \<Rightarrow> params" where
  "set_array k arr ps = (case arr of None \<Rightarrow> ps | Some vs \<Rightarrow> param_delete k ps @ map (Pair k) vs)"

definition set_truthy :: "string \<Rightarrow> string option \<Rightarrow> params \<Rightarrow> params" where
  "set_truthy k v ps = (if truthy v then param_set k (the v) ps else ps)"

definition updateState :: "catalog_change \<Rightarrow> params \<Rightarrow> params" where
  "updateState ch ps =
     (let ps1 = (case ce_q ch of None \<Rightarrow> ps | Some q \<Rightarrow> if q \<noteq> [] then param_set ''q'' q ps else param_delete ''q'' ps);
          ps2 = set_truthy ''sort'' (ce_sort ch) ps1;
          ps3 = set_truthy ''view'' (ce_view ch) ps2;
          ps4 = set_array ''difficulty'' (ce_difficulty ch) ps3;
          ps5 = set_array ''time'' (ce_time ch) ps4
      in set_array ''type'' (ce_type ch) ps5)"

section \<open>Challenges\<close>

record catalog_item =
  cg_id :: string
  cg_title :: string
  cg_description :: string
  cg_difficulty :: string
  cg_tags :: "string list"

text \<open>What the page adds to every challenge.\<close>

definition timeEstimate :: "catalog_item \<Rightarrow> string" where "timeEstimate c = ''15 min''"

definition isRecommended :: "catalog_item \<Rightarrow> bool" where "isRecommended c \<longleftrightarrow> cg_id c = ''c1''"

text \<open>The counts of the filter options: entries of an object, each set to \<open>(old || 0) + 1\<close>.\<close>

fun tally :: "(string \<times> nat) list \<Rightarrow> string list \<Rightarrow> (string \<times> nat) list" where
  "tally opts [] = opts"
| "tally opts (v # vs) = tally (AList.update v (get_or 0 (map_of opts v) + 1) opts) vs"

definition difficulty_options :: "catalog_item list \<Rightarrow> (string \<times> nat) list" where
  "difficulty_options cs = tally [] (map cg_difficulty cs)"

definition type_options :: "catalog_item list \<Rightarrow> (string \<times> nat) list" where
  "type_options cs = tally [] (concat (map cg_tags cs))"

definition found_by :: "string \<Rightarrow> catalog_item \<Rightarrow> bool" where
  "found_by rawQ c \<longleftrightarrow>
     (let q = map lower_char rawQ in
      str_includes q (map lower_char (cg_title c)) \<or> str_includes q (map lower_char (cg_description c)) \<or>
      list_ex (\<lambda>t. str_includes q (map lower_char t)) (cg_tags c))"

definition apply_when :: "bool \<Rightarrow> ('a \<Rightarrow> bool) \<Rightarrow> 'a list \<Rightarrow> 'a list" where
  "apply_when b P xs = (if b then filter P xs else xs)"

definition filter_items :: "catalog_state \<Rightarrow> catalog_item list \<Rightarrow> catalog_item list" where
  "filter_items st cs =
     (let r1 = apply_when (ct_q st \<noteq> []) (found_by (ct_q st)) cs;
          r2 = apply_when (ct_difficulty st \<noteq> []) (\<lambda>c. cg_difficulty c \<in> set (ct_difficulty st)) r1;
          r3 = apply_when (ct_time st \<noteq> []) (\<lambda>c. timeEstimate c \<in> set (ct_time st)) r2
      in apply_when (ct_type st \<noteq> []) (\<lambda>c. list_ex (\<lambda>t. t \<in> set (ct_type st)) (cg_tags c)) r3)"

definition sort_items :: "(string \<Rightarrow> 'k::linorder) \<Rightarrow> string \<Rightarrow> catalog_item list \<Rightarrow> catalog_item list" where
  "sort_items collate order cs =
     (if order = ''Recommended'' then sort_key (\<lambda>c. if isRecommended c then 0 else 1 :: nat) cs
      else if order = ''Newest'' then sort_key (\<lambda>c. collate (cg_id c)) cs
      else if str_includes ''Difficulty'' order then sort_key (\<lambda>c. collate (cg_difficulty c)) cs
      else cs)"

text \<open>
  Without any filter the list that is sorted is the list of challenges itself, which is kept between renders:
  the second component is that list afterwards.
\<close>

definition show_catalog ::
  "(string \<Rightarrow> 'k::linorder) \<Rightarrow> catalog_state \<Rightarrow> catalog_item list \<Rightarrow> catalog_item list \<times> catalog_item list" where
  "show_catalog collate st cs =
     (let result = sort_items collate (ct_sort st) (filter_items st cs) in
      (result, if ct_q st = [] \<and> ct_difficulty st = [] \<and> ct_time st = [] \<and> ct_type st = [] then result else cs))"

text \<open>The kept list after showing one state after the other.\<close>

definition kept_after :: "(string \<Rightarrow> 'k::linorder) \<Rightarrow> catalog_state list \<Rightarrow> catalog_item list \<Rightarrow> catalog_item list" where
  "kept_after collate sts cs = fold (\<lambda>st cs. snd (show_catalog collate st cs)) sts cs"

section \<open>Roadmaps and quizzes\<close>

record roadmap_item =
  ri_id :: string
  ri_title :: string
  ri_description :: string
  ri_category :: "string option"
  ri_tags :: "string list option"
  ri_timeEstimate :: "string option"
  ri_nodeCount :: int

text \<open>\<open>match(/\d+/)\<close>: the first digits.\<close>

definition parseMinutes :: "string option \<Rightarrow> int" where
  "parseMinutes text =
     (case text of
        None \<Rightarrow> 0
      | Some s \<Rightarrow> get_or 0 (parse_int (takeWhile is_digit (dropWhile (\<lambda>c. \<not> is_digit c) s))))"

definition arrow :: string where "arrow = [CHR 0xE2, CHR 0x86, CHR 0x92]"

definition roadmap_found :: "string \<Rightarrow> roadmap_item \<Rightarrow> bool" where
  "roadmap_found rawQ r \<longleftrightarrow>
     (let q = map lower_char rawQ in
      str_includes q (map lower_char (ri_title r)) \<or> str_includes q (map lower_char (ri_description r)) \<or>
      truthy (ri_category r) \<and> str_includes q (map lower_char (the (ri_category r))) \<or>
      list_ex (\<lambda>t. str_includes q (map lower_char t)) (get_or [] (ri_tags r)))"

definition filter_roadmaps :: "catalog_state \<Rightarrow> roadmap_item list \<Rightarrow> roadmap_item list" where
  "filter_roadmaps st rs =
     (let r1 = apply_when (ct_q st \<noteq> []) (roadmap_found (ct_q st)) rs;
          r2 = apply_when (ct_difficulty st \<noteq> [])
                 (\<lambda>r. truthy (ri_category r) \<and> the (ri_category r) \<in> set (ct_difficulty st)) r1;
          r3 = apply_when (ct_time st \<noteq> [])
                 (\<lambda>r. truthy (ri_timeEstimate r) \<and> the (ri_timeEstimate r) \<in> set (ct_time st)) r2
      in apply_when (ct_type st \<noteq> []) (\<lambda>r. list_ex (\<lambda>t. t \<in> set (ct_type st)) (get_or [] (ri_tags r))) r3)"

definition show_roadmaps :: "catalog_state \<Rightarrow> roadmap_item list \<Rightarrow> roadmap_item list" where
  "show_roadmaps st rs =
     (let result = filter_roadmaps st rs in
      if ct_sort st = ''Newest'' then rev result
      else if ct_sort st = ''Time: Shortest '' @ arrow @ '' Longest'' then
        sort_key (\<lambda>r. parseMinutes (ri_timeEstimate r)) result
      else if ct_sort st = ''Difficulty: Beginner '' @ arrow @ '' Advanced'' then sort_key ri_nodeCount result
      else if ct_sort st = ''Most attempted'' then sort_key (\<lambda>r. - ri_nodeCount r) result
      else result)"

definition roadmap_status :: "roadmap_progress option \<Rightarrow> roadmap_item \<Rightarrow> string" where
  "roadmap_status progress r =
     (case progress of
        None \<Rightarrow> ''Not started''
      | Some p \<Rightarrow>
          if int (length (rp_completed p)) = ri_nodeCount r \<and> ri_nodeCount r > 0 then ''Completed''
          else if rp_completed p \<noteq> [] \<or> rp_inProgress p \<noteq> [] then ''In progress''
          else ''Not started'')"

record quiz_item =
  qi_id :: string
  qi_category :: string

definition toggleTopic :: "string \<Rightarrow> string list \<Rightarrow> string list" where
  "toggleTopic topic prev = (if topic \<in> set prev then filter (\<lambda>t. t \<noteq> topic) prev else prev @ [topic])"

definition filter_quizzes ::
  "bool \<Rightarrow> string list \<Rightarrow> string \<Rightarrow> (string \<Rightarrow> string option) \<Rightarrow> quiz_item list \<Rightarrow> quiz_item list" where
  "filter_quizzes signedIn selectedTopics selectedStatus progress qs = filter (\<lambda>q.
     \<not> (selectedTopics \<noteq> [] \<and> qi_category q \<notin> set selectedTopics) \<and>
     \<not> (signedIn \<and> selectedStatus \<noteq> ''All'' \<and>
        (selectedStatus = ''Completed'' \<and> progress (qi_id q) \<noteq> Some ''Completed'' \<or>
         selectedStatus = ''Not started'' \<and> progress (qi_id q) = Some ''Completed''))) qs"

section \<open>The search field\<close>

text \<open>
  The text of the field, its delayed copy and the timer that brings it, the query string, and the navigations
  that were asked for. The toolbar gets a new \<open>onChange\<close> with every render, so its first effect runs each time.
\<close>

record toolbar =
  tb_local :: string
  tb_debounced :: string
  tb_timer :: "string option"
  tb_params :: params
  tb_pending :: "params list"

definition effect_search :: "toolbar \<Rightarrow> toolbar" where
  "effect_search tb =
     (if tb_debounced tb \<noteq> ct_q (state_of (tb_params tb))
      then tb\<lparr>tb_pending := tb_pending tb @ [updateState (no_change\<lparr>ce_q := Some (tb_debounced tb)\<rparr>) (tb_params tb)]\<rparr>
      else tb)"

definition set_local :: "string \<Rightarrow> toolbar \<Rightarrow> toolbar" where
  "set_local v tb = (if tb_local tb = v then tb else effect_search (tb\<lparr>tb_local := v, tb_timer := Some v\<rparr>))"

definition timer_rings :: "toolbar \<Rightarrow> toolbar" where
  "timer_rings tb = (case tb_timer tb of
       None \<Rightarrow> tb
     | Some v \<Rightarrow>
         if tb_debounced tb = v then tb\<lparr>tb_timer := None\<rparr>
         else effect_search (tb\<lparr>tb_timer := None, tb_debounced := v\<rparr>))"

text \<open>A navigation is done: both effects of the toolbar run, the second if the query has changed.\<close>

definition navigated :: "toolbar \<Rightarrow> toolbar" where
  "navigated tb = (case tb_pending tb of
       [] \<Rightarrow> tb
     | ps # rest \<Rightarrow>
         if ps = tb_params tb then tb\<lparr>tb_pending := rest\<rparr>
         else
           (let tb1 = effect_search (tb\<lparr>tb_params := ps, tb_pending := rest\<rparr>) in
            if ct_q (state_of ps) \<noteq> ct_q (state_of (tb_params tb)) then set_local (ct_q (state_of ps)) tb1 else tb1))"

definition ask_change :: "catalog_change \<Rightarrow> toolbar \<Rightarrow> toolbar" where
  "ask_change ch tb = tb\<lparr>tb_pending := tb_pending tb @ [updateState ch (tb_params tb)]\<rparr>"

datatype toolbar_event = Typed string | Rings | Navigated | Changed_filters catalog_change

fun on_toolbar :: "toolbar_event \<Rightarrow> toolbar \<Rightarrow> toolbar" where
  "on_toolbar (Typed v) tb = set_local v tb"
| "on_toolbar Rings tb = timer_rings tb"
| "on_toolbar Navigated tb = navigated tb"
| "on_toolbar (Changed_filters ch) tb = ask_change ch tb"

definition settled_toolbar :: "toolbar \<Rightarrow> bool" where
  "settled_toolbar tb \<longleftrightarrow> tb_timer tb = None \<and> tb_pending tb = [] \<and> tb_debounced tb = tb_local tb \<and>
     tb_local tb = ct_q (state_of (tb_params tb))"

end
