(* ===== verification/Catalog_Laws.thy ===== *)
theory Catalog_Laws
  imports Catalog
begin

text \<open>
  The catalogs of the web client: the query string keeps their state, the list shows what matches whatever
  was shown before, the counts of the options are the sizes of the lists they lead to; and a search that
  cannot be cleared.
\<close>

section \<open>The query string\<close>

lemma param_get_all: "param_get k ps = (case param_all k ps of [] \<Rightarrow> None | v # _ \<Rightarrow> Some v)"
  by (induction ps) (auto simp: param_get_def param_all_def)

lemma param_all_simps [simp]:
  "param_all k [] = []"
  "param_all k (p # ps) = (if fst p = k then snd p # param_all k ps else param_all k ps)"
  "param_all k (ps @ qs) = param_all k ps @ param_all k qs"
  "param_all k (param_delete j ps) = (if k = j then [] else param_all k ps)"
  "param_all k (map (Pair j) vs) = (if k = j then vs else [])"
  by (auto simp: param_all_def param_delete_def filter_empty_conv comp_def intro!: arg_cong [of _ _ "map snd"] filter_cong)

lemma param_all_set [simp]: "param_all k (param_set j v ps) = (if k = j then [v] else param_all k ps)"
  by (induction j v ps rule: param_set.induct) auto

lemma param_all_update:
  "param_all k (set_truthy j v ps) = (if k = j \<and> truthy v then [the v] else param_all k ps)"
  "param_all k (set_array j arr ps) = (if k = j then get_or (param_all k ps) arr else param_all k ps)"
  by (auto simp: set_truthy_def set_array_def split: option.split)

definition changed :: "catalog_change \<Rightarrow> catalog_state \<Rightarrow> catalog_state" where
  "changed ch st = \<lparr>ct_q = get_or (ct_q st) (ce_q ch), ct_sort = js_or (ce_sort ch) (ct_sort st),
     ct_difficulty = get_or (ct_difficulty st) (ce_difficulty ch), ct_time = get_or (ct_time st) (ce_time ch),
     ct_type = get_or (ct_type st) (ce_type ch), ct_view = js_or (ce_view ch) (ct_view st)\<rparr>"

lemma state_updated: "state_of (updateState ch ps) = changed ch (state_of ps)"
  by (cases "ce_q ch"; cases "ce_sort ch"; cases "ce_view ch")
    (auto simp: state_of_def changed_def updateState_def param_get_all param_all_update Let_def)

text \<open>The parameters that are not the catalog's.\<close>

definition catalog_keys :: "string set" where
  "catalog_keys = {''q'', ''sort'', ''difficulty'', ''time'', ''type'', ''view''}"

definition others :: "params \<Rightarrow> params" where
  "others ps = filter (\<lambda>p. fst p \<notin> catalog_keys) ps"

lemma others_updated [simp]:
  assumes "k \<in> catalog_keys"
  shows "others (param_delete k ps) = others ps" and "others (param_set k v ps) = others ps"
    and "others (set_truthy k x ps) = others ps" and "others (set_array k arr ps) = others ps"
proof -
  have del: "others (param_delete k ps) = others ps" for ps
    using assms by (auto simp: others_def param_delete_def intro!: filter_cong)
  have set: "others (param_set k v ps) = others ps" for v
    using assms del by (induction k v ps rule: param_set.induct) (auto simp: others_def)
  show "others (param_delete k ps) = others ps" "others (param_set k v ps) = others ps"
    "others (set_truthy k x ps) = others ps"
    by (simp_all add: del set set_truthy_def)
  show "others (set_array k arr ps) = others ps"
    using assms del by (auto simp: set_array_def others_def filter_empty_conv split: option.split)
qed

text \<open>
  C28. The query string keeps the state of a catalog: what is read from it after an update is the state before
  with the given parts replaced, an empty order or view counting as not given; and parameters of others are
  left alone, in their order.
\<close>

theorem catalog_url_roundtrip:
  "state_of (updateState ch ps) = changed ch (state_of ps) \<and> others (updateState ch ps) = others ps"
  by (rule conjI [OF state_updated]) (simp add: updateState_def catalog_keys_def Let_def split: option.split)

section \<open>The list\<close>

definition matches_item :: "catalog_state \<Rightarrow> catalog_item \<Rightarrow> bool" where
  "matches_item st c \<longleftrightarrow> (ct_q st \<noteq> [] \<longrightarrow> found_by (ct_q st) c) \<and>
     (ct_difficulty st \<noteq> [] \<longrightarrow> cg_difficulty c \<in> set (ct_difficulty st)) \<and>
     (ct_time st \<noteq> [] \<longrightarrow> timeEstimate c \<in> set (ct_time st)) \<and>
     (ct_type st \<noteq> [] \<longrightarrow> (\<exists>t \<in> set (cg_tags c). t \<in> set (ct_type st)))"

lemma filter_items_matches: "filter_items st cs = filter (matches_item st) cs"
  by (auto simp: filter_items_def apply_when_def matches_item_def list_ex_iff Let_def intro!: filter_cong)

lemma mset_sort_items: "mset (sort_items collate order cs) = mset cs"
  by (simp add: sort_items_def)

lemma mset_kept: "mset (kept_after collate sts cs) = mset cs"
proof (induction sts arbitrary: cs)
  case (Cons st sts)
  have "mset (snd (show_catalog collate st cs)) = mset cs"
    by (auto simp: show_catalog_def Let_def mset_sort_items filter_items_matches matches_item_def)
  with Cons.IH show ?case by (simp add: kept_after_def)
qed (simp add: kept_after_def)

lemma orders_apart: "\<not> str_includes ''Difficulty'' ''Newest''" "\<not> str_includes ''Difficulty'' ''Recommended''"
  by (simp_all add: starts_with_def)

text \<open>
  What a reader means by the search, without any conversion of the letters: somewhere in the text stands the query,
  each letter of it in either case.
\<close>

definition capital_of :: "char \<Rightarrow> char \<Rightarrow> bool" where
  "capital_of b a \<longleftrightarrow> of_char a \<in> {65..90 :: nat} \<and> of_char b = of_char a + (32 :: nat)"

definition same_letter :: "char \<Rightarrow> char \<Rightarrow> bool" where
  "same_letter a b \<longleftrightarrow> a = b \<or> capital_of a b \<or> capital_of b a"

definition occurs_in :: "string \<Rightarrow> string \<Rightarrow> bool" where
  "occurs_in q t \<longleftrightarrow> (\<exists>pre mid post. t = pre @ mid @ post \<and> list_all2 same_letter q mid)"

definition wanted :: "catalog_state \<Rightarrow> catalog_item \<Rightarrow> bool" where
  "wanted st c \<longleftrightarrow>
     (ct_q st = [] \<or> (\<exists>t \<in> {cg_title c, cg_description c} \<union> set (cg_tags c). occurs_in (ct_q st) t)) \<and>
     (ct_difficulty st = [] \<or> cg_difficulty c \<in> set (ct_difficulty st)) \<and>
     (ct_time st = [] \<or> ''15 min'' \<in> set (ct_time st)) \<and>
     (ct_type st = [] \<or> set (cg_tags c) \<inter> set (ct_type st) \<noteq> {})"

lemma code_inj: "of_char a = (of_char b :: nat) \<longleftrightarrow> a = b"
  by (metis char_of_char)

lemma lower_char_code:
  "of_char (lower_char a) = (let n = of_char a :: nat in if 65 \<le> n \<and> n \<le> 90 then n + 32 else n)"
  by (simp add: lower_char_def Let_def of_char_of)

lemma lower_char_same: "lower_char a = lower_char b \<longleftrightarrow> same_letter a b"
  unfolding code_inj [symmetric, of "lower_char a"] lower_char_code same_letter_def capital_of_def
    code_inj [symmetric, of a b] Let_def by auto

lemma lower_text_same: "map lower_char xs = map lower_char ys \<longleftrightarrow> list_all2 same_letter xs ys"
  by (auto simp: list_eq_iff_nth_eq list_all2_conv_all_nth lower_char_same)

lemma str_includes_iff: "str_includes p s \<longleftrightarrow> (\<exists>pre post. s = pre @ p @ post)"
proof (induction p s rule: str_includes.induct)
  case (2 p ch s)
  have "(\<exists>pre post. ch # s = pre @ p @ post) \<longleftrightarrow> (\<exists>post. ch # s = p @ post) \<or> (\<exists>pre post. s = pre @ p @ post)"
    by (subst Cons_eq_append_conv [where ys = "_ :: string"]) blast
  with 2 show ?case by (simp add: starts_with_iff)
qed auto

lemma includes_occurs: "str_includes (map lower_char q) (map lower_char t) \<longleftrightarrow> occurs_in q t"
  unfolding str_includes_iff occurs_in_def
proof safe
  fix pre post assume "map lower_char t = pre @ map lower_char q @ post"
  then obtain xs mid ys where "t = xs @ mid @ ys" "map lower_char q = map lower_char mid"
    by (auto simp: map_eq_append_conv append_eq_map_conv)
  then show "\<exists>pre mid post. t = pre @ mid @ post \<and> list_all2 same_letter q mid"
    unfolding lower_text_same by blast
next
  fix pre mid post assume "list_all2 same_letter q mid"
  then have "map lower_char (pre @ mid @ post) = map lower_char pre @ map lower_char q @ map lower_char post"
    unfolding lower_text_same [symmetric] by simp
  then show "\<exists>u v. map lower_char (pre @ mid @ post) = u @ map lower_char q @ v" by blast
qed

lemma matches_wanted: "matches_item st = wanted st"
  by (auto simp: fun_eq_iff matches_item_def wanted_def found_by_def includes_occurs timeEstimate_def Let_def list_ex_iff)

text \<open>
  C38. Whatever was shown before, the list has each loaded challenge as often as it was loaded if the query stands
  in its title, its description or one of its tags, in letters of either case, and if its difficulty, its time (always
  15 minutes) and one of its tags are among the chosen ones, where any were chosen; and nothing else. Under
  Recommended the recommended ones come first; an order by difficulty sorts by the name of the difficulty. Newest
  sorts by ascending identifiers, which are no times of creation; where they grow with time, the oldest
  comes first.
\<close>

theorem catalog_shows_matches:
  "let shown = fst (show_catalog collate st (kept_after collate sts cs)) in
    mset shown = filter_mset (wanted st) (mset cs) \<and>
    (ct_sort st = ''Recommended'' \<longrightarrow> sorted (map (\<lambda>c. if isRecommended c then 0 else 1 :: nat) shown)) \<and>
    (ct_sort st = ''Newest'' \<longrightarrow> sorted (map (\<lambda>c. collate (cg_id c)) shown)) \<and>
    (str_includes ''Difficulty'' (ct_sort st) \<longrightarrow> sorted (map (\<lambda>c. collate (cg_difficulty c)) shown))"
  by (simp add: show_catalog_def Let_def mset_sort_items filter_items_matches mset_filter mset_kept matches_wanted del: str_includes.simps)
     (auto simp: sort_items_def orders_apart simp del: str_includes.simps)

text \<open>
  The order of equals depends on what was shown before: the list that is kept is itself sorted when there is
  no filter.
\<close>

lemma order_depends_on_history:
  "fst (show_catalog length (state_of [(''sort'', ''Most attempted'')])
     (kept_after length [state_of [(''sort'', ''Newest'')]]
       [\<lparr>cg_id = ''bb'', cg_title = [], cg_description = [], cg_difficulty = [], cg_tags = []\<rparr>,
        \<lparr>cg_id = ''a'', cg_title = [], cg_description = [], cg_difficulty = [], cg_tags = []\<rparr>]))
   \<noteq> fst (show_catalog length (state_of [(''sort'', ''Most attempted'')])
       [\<lparr>cg_id = ''bb'', cg_title = [], cg_description = [], cg_difficulty = [], cg_tags = []\<rparr>,
        \<lparr>cg_id = ''a'', cg_title = [], cg_description = [], cg_difficulty = [], cg_tags = []\<rparr>])"
  by (simp add: show_catalog_def kept_after_def state_of_def param_get_def param_all_def filter_items_def
      apply_when_def sort_items_def Let_def)

section \<open>The counts of the options\<close>

lemma tally_counts: "get_or 0 (map_of (tally opts vs) v) = get_or 0 (map_of opts v) + count_list vs v"
  by (induction opts vs rule: tally.induct) (auto simp: update_conv')

definition only_difficulty :: "string \<Rightarrow> catalog_state" where
  "only_difficulty v = changed (no_change\<lparr>ce_difficulty := Some [v]\<rparr>) (state_of [])"

definition only_type :: "string \<Rightarrow> catalog_state" where
  "only_type v = changed (no_change\<lparr>ce_type := Some [v]\<rparr>) (state_of [])"

lemmas only_defs = only_difficulty_def only_type_def changed_def no_change_def state_of_def param_get_def param_all_def

lemma count_in_map: "count_list (map f xs) v = length (filter (\<lambda>x. f x = v) xs)"
  by (induction xs) auto

lemma count_distinct: "distinct xs \<Longrightarrow> count_list xs v = (if v \<in> set xs then 1 else 0)"
  by (induction xs) auto

lemma count_in_tags:
  "\<forall>c \<in> set cs. distinct (cg_tags c) \<Longrightarrow>
     count_list (concat (map cg_tags cs)) v = length (filter (\<lambda>c. v \<in> set (cg_tags c)) cs)"
proof (induction cs)
  case (Cons c cs)
  then have "count_list (cg_tags c) v = (if v \<in> set (cg_tags c) then 1 else 0)" by (simp add: count_distinct)
  with Cons show ?case by simp
qed simp

text \<open>
  The number beside a difficulty, or beside a tag if no challenge has a tag twice, is the number of
  challenges that the catalog shows when only this option is chosen.
\<close>

lemma option_counts:
  assumes "\<forall>c \<in> set cs. distinct (cg_tags c)"
  shows "get_or 0 (map_of (difficulty_options cs) v) = length (fst (show_catalog collate (only_difficulty v) cs)) \<and>
    get_or 0 (map_of (type_options cs) v) = length (fst (show_catalog collate (only_type v) cs))"
proof -
  have len: "length (fst (show_catalog collate st cs)) = length (filter (matches_item st) cs)" for st
    using mset_eq_length [OF mset_sort_items [of collate "ct_sort st" "filter_items st cs"]]
    by (simp add: show_catalog_def Let_def filter_items_matches)
  have "matches_item (only_difficulty v) = (\<lambda>c. cg_difficulty c = v)" "matches_item (only_type v) = (\<lambda>c. v \<in> set (cg_tags c))"
    by (auto simp: matches_item_def only_defs)
  then show ?thesis
    using assms by (simp add: len difficulty_options_def type_options_def tally_counts count_in_map count_in_tags)
qed

section \<open>The search field\<close>

lemma query_updated: "ct_q (state_of (updateState ch ps)) = get_or (ct_q (state_of ps)) (ce_q ch)"
  by (simp add: state_updated changed_def)

lemma same_query: "updateState ch ps = ps' \<Longrightarrow> ct_q (state_of ps') = get_or (ct_q (state_of ps)) (ce_q ch)"
  using query_updated by blast

lemmas toolbar_steps = settled_toolbar_def effect_search_def set_local_def timer_rings_def navigated_def ask_change_def
  query_updated no_change_def

text \<open>
  A text that is typed reaches the query string once the timer has rung and the navigation is done, and the
  toolbar is at rest again.
\<close>

lemma typed_text_searched:
  assumes "settled_toolbar tb" and "v \<noteq> tb_local tb"
  shows "let tb' = fold on_toolbar [Typed v, Rings, Navigated] tb in
    settled_toolbar tb' \<and> ct_q (state_of (tb_params tb')) = v \<and>
    ct_difficulty (state_of (tb_params tb')) = ct_difficulty (state_of (tb_params tb))"
  using assms by (auto simp: toolbar_steps Let_def state_updated changed_def dest!: same_query)

text \<open>
  A search cannot be cleared: after \<open>Clear all\<close> the filters are gone, but the delayed copy brings the text back,
  and at rest the field and the query string have it again.
\<close>

lemma clear_search_undone:
  assumes "settled_toolbar tb" and "tb_local tb \<noteq> []"
    and "ch = no_change\<lparr>ce_q := Some [], ce_difficulty := Some [], ce_time := Some [], ce_type := Some []\<rparr>"
  shows "let tb' = fold on_toolbar [Changed_filters ch, Navigated, Navigated, Navigated, Rings] tb in
    settled_toolbar tb' \<and> tb_local tb' = tb_local tb \<and> ct_q (state_of (tb_params tb')) = tb_local tb \<and>
    ct_difficulty (state_of (tb_params tb')) = []"
  using assms by (auto simp: toolbar_steps Let_def state_updated changed_def dest!: same_query)

section \<open>Examples\<close>

definition item :: "string \<Rightarrow> string \<Rightarrow> string list \<Rightarrow> catalog_item" where
  "item i df ts = \<lparr>cg_id = i, cg_title = i, cg_description = [], cg_difficulty = df, cg_tags = ts\<rparr>"

lemma catalog_shows_matches_witness:
  "let shown = fst (show_catalog length (state_of [(''sort'', ''Newest'')])
       (kept_after length [state_of []] [item ''c22'' ''EASY'' [], item ''c1'' ''HARD'' []]))
   in mset shown = {#item ''c22'' ''EASY'' [], item ''c1'' ''HARD'' []#} \<and> sorted (map (\<lambda>c. length (cg_id c)) shown)"
proof -
  have "ct_sort (state_of [(''sort'', ''Newest'')]) = ''Newest''" "wanted (state_of [(''sort'', ''Newest'')]) = (\<lambda>c. True)"
    by (auto simp: state_of_def param_get_def param_all_def wanted_def)
  then show ?thesis
    using catalog_shows_matches [of length "state_of [(''sort'', ''Newest'')]" "[state_of []]"
        "[item ''c22'' ''EASY'' [], item ''c1'' ''HARD'' []]"]
    by (simp add: Let_def del: str_includes.simps)
qed

lemma option_counts_witness:
  "get_or 0 (map_of (difficulty_options [item ''c1'' ''EASY'' [''linux''], item ''c2'' ''EASY'' [''docker'']]) ''EASY'') =
     length (fst (show_catalog length (only_difficulty ''EASY'') [item ''c1'' ''EASY'' [''linux''], item ''c2'' ''EASY'' [''docker'']]))"
  using option_counts [of "[item ''c1'' ''EASY'' [''linux''], item ''c2'' ''EASY'' [''docker'']]" "''EASY''" length]
  by (simp add: item_def)

end
