(* ===== verification/Media.thy ===== *)
theory Media
  imports Schema
begin

text \<open>
  Uploaded media (\<open>services/core/src/modules/content/media.routes.ts\<close>): the routes over a file system and the
  table \<open>Media\<close>, the decoding of base 64 by \<open>Buffer.from\<close>, and what an upload keeps: the bytes that were sent
  are read back under the address that was answered. Directories are not modelled; \<open>mediaDir\<close> is the configured
  one as a normal path.
\<close>

section \<open>Base 64\<close>

text \<open>
  Bytes are numbers below 256. \<open>Buffer.from(s, 'base64')\<close> takes both alphabets, stops at the padding and leaves
  out what is in no alphabet.
\<close>

definition sextet :: "char \<Rightarrow> nat option" where
  "sextet c = (let n = of_char c :: nat in
     if 65 \<le> n \<and> n \<le> 90 then Some (n - 65)
     else if 97 \<le> n \<and> n \<le> 122 then Some (n - 71)
     else if 48 \<le> n \<and> n \<le> 57 then Some (n + 4)
     else if n = 43 \<or> n = 45 then Some 62
     else if n = 47 \<or> n = 95 then Some 63
     else None)"

definition sextets :: "string \<Rightarrow> nat list" where
  "sextets s = List.map_filter sextet (takeWhile (\<lambda>c. c \<noteq> CHR ''='') s)"

fun of_sextets :: "nat list \<Rightarrow> nat list" where
  "of_sextets (a # b # c # d # rest) =
     [a * 4 + b div 16, b mod 16 * 16 + c div 4, c mod 4 * 64 + d] @ of_sextets rest"
| "of_sextets [a, b, c] = [a * 4 + b div 16, b mod 16 * 16 + c div 4]"
| "of_sextets [a, b] = [a * 4 + b div 16]"
| "of_sextets _ = []"

definition from_base64 :: "string \<Rightarrow> nat list" where
  "from_base64 s = of_sextets (sextets s)"

section \<open>Paths\<close>

definition basename :: "string \<Rightarrow> string" where
  "basename path = rev (takeWhile (\<lambda>c. c \<noteq> CHR ''/'') (dropWhile (\<lambda>c. c = CHR ''/'') (rev path)))"

text \<open>\<open>path.extname\<close>: from the last dot of the last part, unless that part starts with it or is \<open>..\<close>.\<close>

definition extname :: "string \<Rightarrow> string" where
  "extname path = (let b = basename path; ext = rev (takeWhile (\<lambda>c. c \<noteq> CHR ''.'') (rev b)) in
     if b = ''..'' \<or> length b \<le> length ext + 1 then '''' else CHR ''.'' # ext)"

section \<open>The routes\<close>

record media_row =
  md_id :: string
  md_filename :: string
  md_mimeType :: string
  md_sizeBytes :: nat
  md_storagePath :: string
  md_url :: string
  md_uploadedBy :: "string option"
  md_createdAt :: int

record media_world =
  mw_rows :: "media_row list"
  mw_files :: "string \<rightharpoonup> nat list"
  mw_calls :: nat
  mw_fresh :: nat
  mw_clock :: int

text \<open>An awaited call: as for the other services, it is done, fails, or loses its acknowledgement.\<close>

definition media_call ::
  "'r env \<Rightarrow> (media_world \<Rightarrow> (exn + 'a) \<times> media_world) \<Rightarrow> (media_world, 'a) act" where
  "media_call E f = (\<lambda>w.
     let w1 = w\<lparr>mw_calls := Suc (mw_calls w), mw_clock := mw_clock w + int (latency E (mw_calls w))\<rparr> in
     case outcome_of E (mw_calls w) of
       Done \<Rightarrow> f w1
     | Failed \<Rightarrow> (Inl ConnectionLost, w1)
     | Unacked \<Rightarrow> (Inl ConnectionLost, snd (f w1)))"

datatype media_error = MediaMissing | FileMissing | MediaReadError | NoData | UploadError | NotUploader

record media_file =
  mf_type :: string
  mf_length :: nat
  mf_bytes :: "nat list"

definition get_media :: "'r env \<Rightarrow> string \<Rightarrow> (media_world, (media_error, media_file) response) act" where
  "get_media E i = catch (
     bnd (media_call E (\<lambda>w. (Inr (find (\<lambda>m. md_id m = i) (mw_rows w)), w))) (\<lambda>media.
     case media of
       None \<Rightarrow> ret (Denied 404 MediaMissing)
     | Some m \<Rightarrow>
         bnd (look (\<lambda>w. mw_files w (md_storagePath m))) (\<lambda>stored.
         case stored of
           None \<Rightarrow> ret (Denied 404 FileMissing)
         | Some bytes \<Rightarrow> ret (Sent 200 \<lparr>mf_type = js_or (Some (md_mimeType m)) ''application/octet-stream'',
             mf_length = md_sizeBytes m, mf_bytes = bytes\<rparr>))))
     (\<lambda>_. ret (Denied 500 MediaReadError))"

record upload_body =
  up_filename :: "string option"
  up_mimeType :: "string option"
  up_data :: "string option"

definition media_url :: "string \<Rightarrow> string" where
  "media_url i = ''/api/media/'' @ i"

definition set_url :: "string \<Rightarrow> media_world \<Rightarrow> (exn + media_row) \<times> media_world" where
  "set_url i w = (case find (\<lambda>m. md_id m = i) (mw_rows w) of
       None \<Rightarrow> (Inl RecordNotFound, w)
     | Some m \<Rightarrow> (Inr (m\<lparr>md_url := media_url i\<rparr>),
         w\<lparr>mw_rows := update_rows (\<lambda>m. md_id m = i) (\<lambda>m. m\<lparr>md_url := media_url i\<rparr>) (mw_rows w)\<rparr>))"

text \<open>The answer shows the row without its place and uploader.\<close>

record media_sent =
  ms_id :: string
  ms_url :: string
  ms_filename :: string
  ms_mimeType :: string
  ms_sizeBytes :: nat
  ms_createdAt :: int

definition sent_media :: "media_row \<Rightarrow> media_sent" where
  "sent_media m = \<lparr>ms_id = md_id m, ms_url = md_url m, ms_filename = md_filename m, ms_mimeType = md_mimeType m,
     ms_sizeBytes = md_sizeBytes m, ms_createdAt = md_createdAt m\<rparr>"

text \<open>The user is the one of a verified token, if there is one.\<close>

definition upload_media ::
  "'r env \<Rightarrow> string \<Rightarrow> string option option \<Rightarrow> upload_body option \<Rightarrow>
   (media_world, (media_error, media_sent) response) act" where
  "upload_media E mediaDir user body =
     (case user of
        None \<Rightarrow> ret (Denied 401 NotUploader)
      | Some userId \<Rightarrow>
        (case body of
           None \<Rightarrow> ret (Denied 400 NoData)
         | Some b \<Rightarrow>
           if \<not> truthy (up_data b) then ret (Denied 400 NoData)
           else catch (
             bnd (look mw_clock) (\<lambda>t.
             bnd (\<lambda>w. (Inr (uuid E (mw_fresh w)), w\<lparr>mw_fresh := Suc (mw_fresh w)\<rparr>)) (\<lambda>u.
             let rawBuffer = from_base64 (the (up_data b));
                 filename = js_or (up_filename b) (''upload-'' @ show_int t @ ''.png'');
                 mimeType = js_or (up_mimeType b) ''image/png'';
                 fileExt = js_or (Some (extname filename)) ''.png'';
                 uniqueFilename = u @ fileExt;
                 targetPath = mediaDir @ ''/'' @ uniqueFilename
             in
             sq (media_call E (\<lambda>w. (Inr (), w))) (
             sq (media_call E (\<lambda>w. (Inr (), w\<lparr>mw_files := (mw_files w)(targetPath \<mapsto> rawBuffer)\<rparr>))) (
             bnd (media_call E (\<lambda>w.
               let i = cuid E (map md_id (mw_rows w));
                   m = \<lparr>md_id = i, md_filename = filename, md_mimeType = mimeType, md_sizeBytes = length rawBuffer,
                     md_storagePath = targetPath, md_url = media_url uniqueFilename,
                     md_uploadedBy = js_or_null userId, md_createdAt = mw_clock w\<rparr>
               in (Inr m, w\<lparr>mw_rows := mw_rows w @ [m]\<rparr>))) (\<lambda>media.
             bnd (media_call E (set_url (md_id media))) (\<lambda>updated.
             ret (Sent 201 (sent_media updated))))))))) (\<lambda>_. ret (Denied 500 UploadError))))"

end
