(* ===== verification/Media_Laws.thy ===== *)
theory Media_Laws
  imports Media Example
begin

text \<open>
  What an upload keeps: the decoding is inverse to the encoding of base 64, the bytes that were sent come back
  under the address that was answered, files stay in their directory; and what is left after a failure.
\<close>

section \<open>Base 64\<close>

text \<open>The encoding of RFC 4648, which the client uses.\<close>

definition digit64 :: "nat \<Rightarrow> char" where
  "digit64 n = char_of (if n < 26 then n + 65 else if n < 52 then n + 71 else if n < 62 then n - 4
     else if n = 62 then 43 else 47)"

fun to_base64 :: "nat list \<Rightarrow> string" where
  "to_base64 (a # b # c # rest) = map digit64 [a div 4, a mod 4 * 16 + b div 16, b mod 16 * 4 + c div 64, c mod 64] @ to_base64 rest"
| "to_base64 [a, b] = map digit64 [a div 4, a mod 4 * 16 + b div 16, b mod 16 * 4] @ ''=''"
| "to_base64 [a] = map digit64 [a div 4, a mod 4 * 16] @ ''==''"
| "to_base64 [] = []"

lemma sextet_digit: "n < 64 \<Longrightarrow> sextet (digit64 n) = Some n"
  by (auto simp: sextet_def digit64_def Let_def of_char_of)

lemma digit_no_padding: "n < 64 \<Longrightarrow> digit64 n \<noteq> CHR ''=''"
  using sextet_digit [of n] by (auto simp: sextet_def Let_def)

lemma sextets_digit: "n < 64 \<Longrightarrow> sextets (digit64 n # s) = n # sextets s"
  by (simp add: sextets_def digit_no_padding sextet_digit List.map_filter_simps)

lemma sextets_end: "sextets (CHR ''='' # s) = []" "sextets [] = []"
  by (simp_all add: sextets_def List.map_filter_simps)

lemma digits_apart:
  fixes x y k :: nat
  assumes "y < k"
  shows "(x * k + y) div k = x" "(x * k + y) mod k = y"
  using assms by simp_all

lemma byte_parts:
  fixes a b c :: nat
  assumes "a < 256" "b < 256" "c < 256"
  shows "a div 4 < 64" "a mod 4 * 16 + b div 16 < 64" "b mod 16 * 4 + c div 64 < 64" "c mod 64 < 64"
    "a mod 4 * 16 < 64" "b mod 16 * 4 < 64"
    "a div 4 * 4 + (a mod 4 * 16 + b div 16) div 16 = a" "a div 4 * 4 + a mod 4 * 16 div 16 = a"
    "(a mod 4 * 16 + b div 16) mod 16 * 16 + (b mod 16 * 4 + c div 64) div 4 = b"
    "(a mod 4 * 16 + b div 16) mod 16 * 16 + b mod 16 * 4 div 4 = b"
    "(b mod 16 * 4 + c div 64) mod 4 * 64 + c mod 64 = c"
proof -
  have "a div 4 < 64" "b div 16 < 16" "c div 64 < 4" using assms by (simp_all add: less_mult_imp_div_less)
  moreover have "a mod 4 \<le> 3" "b mod 16 \<le> 15" using mod_less_divisor [of 4 a] mod_less_divisor [of 16 b] by linarith+
  ultimately show "a div 4 < 64" "a mod 4 * 16 + b div 16 < 64" "b mod 16 * 4 + c div 64 < 64" "c mod 64 < 64"
    "a mod 4 * 16 < 64" "b mod 16 * 4 < 64"
    "a div 4 * 4 + (a mod 4 * 16 + b div 16) div 16 = a" "a div 4 * 4 + a mod 4 * 16 div 16 = a"
    "(a mod 4 * 16 + b div 16) mod 16 * 16 + (b mod 16 * 4 + c div 64) div 4 = b"
    "(a mod 4 * 16 + b div 16) mod 16 * 16 + b mod 16 * 4 div 4 = b"
    "(b mod 16 * 4 + c div 64) mod 4 * 64 + c mod 64 = c"
    by (simp_all add: digits_apart)
qed

lemma base64_inverse: "\<forall>x \<in> set bs. x < 256 \<Longrightarrow> from_base64 (to_base64 bs) = bs"
proof (induction bs rule: to_base64.induct)
  case (1 a b c rest)
  with byte_parts [of a b c] show ?case by (simp add: from_base64_def sextets_digit)
next
  case (2 a b)
  with byte_parts [of a b 0] show ?case by (simp add: from_base64_def sextets_digit sextets_end)
next
  case (3 a)
  with byte_parts [of a 0 0] show ?case by (simp add: from_base64_def sextets_digit sextets_end)
next
  case 4
  show ?case by (simp add: from_base64_def sextets_end)
qed

section \<open>What an upload keeps\<close>

lemma calm_media_call:
  "calm E \<Longrightarrow> media_call E f w =
     f (w\<lparr>mw_calls := Suc (mw_calls w), mw_clock := mw_clock w + int (latency E (mw_calls w))\<rparr>)"
  by (simp add: media_call_def calm_def Let_def)

lemma to_base64_empty: "to_base64 bs = [] \<longleftrightarrow> bs = []"
  by (cases bs rule: to_base64.cases) auto

lemma find_last: "md_id m \<notin> md_id ` set rs \<Longrightarrow> find (\<lambda>x. md_id x = md_id m) (rs @ [m]) = Some m"
  by (induction rs) auto

lemma set_url_new:
  assumes "md_id m \<notin> md_id ` set rs"
  shows "set_url (md_id m) (w\<lparr>mw_rows := rs @ [m]\<rparr>) =
    (Inr (m\<lparr>md_url := media_url (md_id m)\<rparr>), w\<lparr>mw_rows := rs @ [m\<lparr>md_url := media_url (md_id m)\<rparr>]\<rparr>)"
proof -
  have "update_rows (\<lambda>x. md_id x = md_id m) f rs = rs" for f
  proof -
    have "md_id x \<noteq> md_id m" if "x \<in> set rs" for x using assms that by (metis imageI)
    then show ?thesis by (simp add: update_rows_def map_idI)
  qed
  then show ?thesis using find_last [OF assms] by (simp add: set_url_def)
qed

text \<open>What an upload in a calm run answers and leaves behind.\<close>

lemma upload_calm:
  assumes "calm E" and "cuid_fresh E" and "d \<noteq> []"
  shows "\<exists>m w'. upload_media E mediaDir (Some user) (Some \<lparr>up_filename = name, up_mimeType = mime, up_data = Some d\<rparr>) w =
      (Inr (Sent 201 (sent_media m)), w') \<and> md_id m \<notin> md_id ` set (mw_rows w) \<and> md_url m = media_url (md_id m) \<and>
    md_mimeType m = js_or mime ''image/png'' \<and> md_sizeBytes m = length (from_base64 d) \<and>
    mw_rows w' = mw_rows w @ [m] \<and> mw_files w' (md_storagePath m) = Some (from_base64 d)"
proof -
  have fresh: "cuid E (map md_id (mw_rows w)) \<notin> md_id ` set (mw_rows w)"
    using assms(2) unfolding cuid_fresh_def by (metis list.set_map)
  have url: "set_url (cuid E (map md_id (mw_rows w))) (v\<lparr>mw_rows := mw_rows w @ [m]\<rparr>) =
      (Inr (m\<lparr>md_url := media_url (md_id m)\<rparr>), v\<lparr>mw_rows := mw_rows w @ [m\<lparr>md_url := media_url (md_id m)\<rparr>]\<rparr>)"
    if "md_id m = cuid E (map md_id (mw_rows w))" for m and v :: media_world
    using set_url_new [of m "mw_rows w" v] fresh that by simp
  have later: "v\<lparr>mw_rows := rs, mw_calls := n, mw_clock := t\<rparr> = v\<lparr>mw_calls := n, mw_clock := t, mw_rows := rs\<rparr>" for v :: media_world and rs n t
    by simp
  show ?thesis
    using assms(3) fresh
    by (simp add: upload_media_def act_simps calm_media_call [OF assms(1)] later url Let_def del: js_or.simps)
qed

text \<open>
  C30. In a calm run the bytes that are uploaded in base 64 are read back: the upload is answered with a new
  identifier and the address of the file under it, and fetching that gives the same bytes with their number and
  the type that was named.
\<close>

theorem upload_roundtrip:
  assumes "calm E" and "cuid_fresh E" and "bs \<noteq> []" and "\<forall>x \<in> set bs. x < 256"
  shows "\<exists>m w'. upload_media E mediaDir (Some user)
        (Some \<lparr>up_filename = name, up_mimeType = mime, up_data = Some (to_base64 bs)\<rparr>) w = (Inr (Sent 201 m), w') \<and>
    ms_id m \<notin> md_id ` set (mw_rows w) \<and> ms_url m = ''/api/media/'' @ ms_id m \<and>
    fst (get_media E (ms_id m) w') = Inr (Sent 200 \<lparr>mf_type = js_or mime ''image/png'', mf_length = length bs, mf_bytes = bs\<rparr>)"
proof -
  have "to_base64 bs \<noteq> []" using assms(3) by (simp add: to_base64_empty)
  from upload_calm [OF assms(1,2) this, of mediaDir user name mime w] obtain m w' where
    up: "upload_media E mediaDir (Some user) (Some \<lparr>up_filename = name, up_mimeType = mime, up_data = Some (to_base64 bs)\<rparr>) w =
      (Inr (Sent 201 (sent_media m)), w')"
    and m: "md_id m \<notin> md_id ` set (mw_rows w)" "md_url m = media_url (md_id m)" "md_mimeType m = js_or mime ''image/png''"
      "md_sizeBytes m = length bs" "mw_rows w' = mw_rows w @ [m]" "mw_files w' (md_storagePath m) = Some bs"
    by (auto simp: base64_inverse [OF assms(4)])
  note find_last [OF m(1)]
  then have "fst (get_media E (md_id m) w') =
      Inr (Sent 200 \<lparr>mf_type = js_or (Some (md_mimeType m)) ''application/octet-stream'', mf_length = length bs, mf_bytes = bs\<rparr>)"
    by (simp add: get_media_def act_simps calm_media_call [OF assms(1)] m del: js_or.simps)
  moreover have "js_or (Some (md_mimeType m)) ''application/octet-stream'' = js_or mime ''image/png''"
    unfolding m(3) by (cases mime) auto
  ultimately show ?thesis using up m(1,2) by (auto simp: media_url_def sent_media_def)
qed

section \<open>Where files go, and what failures leave\<close>

lemma extname_flat: "CHR ''/'' \<notin> set (extname f)"
  by (auto simp: extname_def basename_def Let_def dest!: set_takeWhileD)

text \<open>Whatever name is given, a file is written directly in the directory for media.\<close>

definition in_media_dir :: "string \<Rightarrow> string \<Rightarrow> bool" where
  "in_media_dir mediaDir f \<longleftrightarrow> (\<exists>n. f = mediaDir @ ''/'' @ n \<and> CHR ''/'' \<notin> set n)"

text \<open>An upload writes nothing, or one file under a name that it generates.\<close>

definition at_most_written :: "'r env \<Rightarrow> string \<Rightarrow> (string \<rightharpoonup> nat list) \<Rightarrow> (string \<rightharpoonup> nat list) \<Rightarrow> bool" where
  "at_most_written E mediaDir fs fs' \<longleftrightarrow> fs' = fs \<or>
     (\<exists>n f bs. fs' = fs(mediaDir @ ''/'' @ uuid E n @ js_or (Some (extname f)) ''.png'' \<mapsto> bs))"

lemma at_most_written_cases [simp]:
  "at_most_written E mediaDir fs fs"
  "at_most_written E mediaDir fs (fs(mediaDir @ CHR ''/'' # uuid E n @ js_or (Some (extname f)) ''.png'' \<mapsto> bs))"
  by (auto simp: at_most_written_def simp del: js_or.simps)

lemma upload_writes: "at_most_written E mediaDir (mw_files w) (mw_files (snd (upload_media E mediaDir user body w)))"
proof -
  have url: "mw_files (snd (set_url i w)) = mw_files w" for i w by (simp add: set_url_def split: option.split)
  then have url': "set_url i w = (r, v) \<Longrightarrow> mw_files v = mw_files w" for i w r v by (metis snd_conv)
  show ?thesis
    by (auto dest!: url' simp: upload_media_def act_simps media_call_def url Let_def simp del: js_or.simps
        split: outcome.split option.split prod.split sum.split)
qed

lemma uploads_stay_in_directory:
  assumes "\<And>n. CHR ''/'' \<notin> set (uuid E n)" and "\<forall>f \<in> dom (mw_files w). in_media_dir mediaDir f"
  shows "\<forall>f \<in> dom (mw_files (snd (upload_media E mediaDir user body w))). in_media_dir mediaDir f"
proof -
  have flat: "CHR ''/'' \<notin> set (js_or (Some (extname f)) ''.png'')" for f
    using extname_flat [of f] by simp
  note upload_writes [where E = E and mediaDir = mediaDir and user = user and body = body and w = w]
  with assms flat show ?thesis by (auto simp: at_most_written_def in_media_dir_def simp del: js_or.simps at_most_written_cases split: if_splits)
qed

text \<open>
  If only the last call fails, the answer is an error, but the row and the file stay, and the row has the address
  of its file name, under which there is nothing.
\<close>

lemma upload_half_done:
  assumes "outcome_of E (mw_calls w) = Done" "outcome_of E (Suc (mw_calls w)) = Done"
    "outcome_of E (Suc (Suc (mw_calls w))) = Done" "outcome_of E (Suc (Suc (Suc (mw_calls w)))) = Failed"
    and "d \<noteq> []"
  shows "\<exists>m w'. upload_media E mediaDir (Some user) (Some \<lparr>up_filename = Some ''a.png'', up_mimeType = mime, up_data = Some d\<rparr>) w =
      (Inr (Denied 500 UploadError), w') \<and> mw_rows w' = mw_rows w @ [m] \<and>
    md_url m = media_url (uuid E (mw_fresh w) @ ''.png'') \<and> mw_files w' (md_storagePath m) = Some (from_base64 d)"
proof -
  have ext: "extname ''a.png'' = ''.png''" by (simp add: extname_def basename_def Let_def)
  show ?thesis
    using assms(5) by (simp add: upload_media_def act_simps media_call_def assms(1-4) ext Let_def)
qed

section \<open>Examples\<close>

definition empty_media :: media_world where
  "empty_media = \<lparr>mw_rows = [], mw_files = Map.empty, mw_calls = 0, mw_fresh = 0, mw_clock = 0\<rparr>"

lemma upload_roundtrip_witness:
  "\<exists>m w'. upload_media calm_env ''/data/media'' (Some (Some ''bob''))
      (Some \<lparr>up_filename = Some ''a.png'', up_mimeType = None, up_data = Some (to_base64 [137, 80, 78, 71])\<rparr>) empty_media =
      (Inr (Sent 201 m), w') \<and> ms_url m = ''/api/media/'' @ ms_id m \<and>
    fst (get_media calm_env (ms_id m) w') = Inr (Sent 200 \<lparr>mf_type = ''image/png'', mf_length = 4, mf_bytes = [137, 80, 78, 71]\<rparr>)"
proof -
  note up = upload_roundtrip [of calm_env "[137, 80, 78, 71]" "''/data/media''" "Some ''bob''" "Some ''a.png''" None empty_media]
  then show ?thesis by auto
qed

end
