(* ===== verification/Spec2Isabelle.thy ===== *)
theory Spec2Isabelle
  imports Prelude Redis_Store Schema Redis_Calls Example Brokers Streak Badges Progress Sessions Outbox
    Cascades Json Auth_Tokens Accounts Federated_Login Token_Life Login_Laws Auth_Steps
    Social Collections Social_Laws Social_Steps Orgs Org_Laws
    Curriculum Curriculum_Laws Dashboards Dashboard_Laws Admin Admin_Laws Access_Laws Articles Article_Laws
    Notifications Tenancy Web_Client Web_Client_Laws Terminal Terminal_Laws Observer Observer_Laws Quiz_Page
    Roadmap_Page Sign_In Catalog Catalog_Laws Media Media_Laws
begin

text \<open>
  Devops.Lab is a platform on which users solve operations challenges in sandboxes. Modelled is the part
  that is written in TypeScript: the core service (challenges, sandbox sessions, progress, social features,
  curriculum, organizations, administration), the auth service, the notification service, the messaging
  package they share, and of the web client its library and the pages that carry logic. The state of the
  services is a PostgreSQL database reached through Prisma, a Redis server, Kafka topics, RabbitMQ queues and
  a few variables of the process. Requests come over HTTP, events over the brokers, and timers start the
  outbox pollers and the session reaper. The web client calls the services through one client of the gateway.

  \<^bold>\<open>How the services are modelled.\<close> A handler is an \<open>act\<close> (Prelude): a function from the world to an
  error or a result and the next world, composed with \<open>bnd\<close> and \<open>sq\<close> as the code composes awaited
  calls, with \<open>catch\<close> for its try blocks and \<open>throw\<close> for its errors. The \<open>world\<close> (Schema) holds the
  database, Redis, what was handed to the brokers, the circuit breakers and the clock. Every
  awaited call goes through \<open>await\<close>: the environment \<open>env\<close> says of the n-th call how long it takes
  and whether it is done, fails without an effect, or takes effect and loses its acknowledgement.
  So a theorem that quantifies over the environment covers every pattern of failures, and one that
  assumes \<open>calm E\<close> speaks of a run without any. A database call is atomic and is refused where it would violate a key or a
  reference of \<open>schema.prisma\<close> that the model names at the call (\<open>guarded\<close>); \<open>constraints\<close> collects those that theorems
  rely on, which are not all. Whether a batch or
  a transaction of a client with extensions is atomic is documented by the library in two ways,
  so the environment says it (\<open>oneTransaction\<close>). The properties hold in both readings; the lemmas that need
  one of them say so.
  What the services do not implement is a parameter: the Redis commands (the record
  \<open>redis_ops\<close>, whose documented laws are the locale \<open>redis_store\<close> in Redis\_Store), generated
  identifiers, hashes and random bytes (\<open>auth_env\<close>), one-time codes, and the answers of the sandbox router and
  of the login providers. A signed token is represented by its claims. Handlers of one process are
  modelled one after the other; the runs of the invariants interleave whole handlers, pollers and reapers
  in any order.

  \<^bold>\<open>How the web client is modelled.\<close> A hook is a machine: a record of its state and references, and a
  step for each action of the user, answer of a server, timer or event of a socket. An asynchronous
  function is cut at its awaits, so that what waits for an answer is part of the state and answers come in any order.

  \<^bold>\<open>Theories of the services.\<close>
  \<^item> Prelude: the effects, the calculus of what every step of a handler preserves (locale
    \<open>effect_order\<close>, interpreted for invariants by \<open>keeping\<close> and for unchanged parts by \<open>fixing\<close>),
    JavaScript's \<open>||\<close>, \<open>??\<close>, string and rounding operations, and tables as lists of rows.
  \<^item> Redis\_Store, Redis\_Calls: the interface of Redis as a locale, with expiry, and an association list
    that implements it; the calls that handlers share and those with a time limit (\<open>utils/redis-safe.ts\<close>).
  \<^item> Json: \<open>JSON.parse\<close> and \<open>JSON.stringify\<close> on the values that the services keep in Redis, the first
    inverse to the second.
  \<^item> Schema: the rows of \<open>packages/db/prisma/schema.prisma\<close>, the world, the awaited
    calls, postconditions of handlers on the database (\<open>db_post\<close>, rules \<open>post_rules\<close> and
    \<open>calm_rules\<close>) and step relations on the database (locale \<open>db_order\<close>). Cascades: what is deleted along.
  \<^item> Example: a small database and environments with chosen faults, for the witnesses.
  \<^item> Brokers (\<open>packages/messaging\<close>): publishing to Kafka and RabbitMQ, the three attempts of a
    consumer and its dead letter topic, acknowledgements, reconnection with backoff, which is found to
    end at the first attempt that works.
  \<^item> Streak (\<open>services/core/src/utils/streak.ts\<close>): \<open>calculateStreak\<close> over UTC calendar days, with the
    calendar computed from the millisecond clock; it counts consecutive days of activity.
  \<^item> Badges (\<open>utils/badges.ts\<close>): awards and the milestone rules; a specification
    of the earned badges by their rules and what an evaluation may and must do.
  \<^item> Progress (\<open>modules/progress/consumers.ts\<close>): the consumers of solved, failed and aborted
    challenges; what a solve does, and that XP is paid at most once, and exactly once without faults.
  \<^item> Sessions (\<open>modules/challenge/challenge.routes.ts\<close>): reading challenges, editorials, guest
    trials, starting sessions (health probe with its breaker, plan limit, Redis lock, transactional
    outbox), ending and reading them, the onboarding tour; a session that was answered is announced.
  \<^item> Outbox (\<open>plugins/outbox-poller.ts\<close>, \<open>plugins/outbox.ts\<close> of the auth service,
    \<open>plugins/session-reaper.ts\<close>): delivery of outbox events with retries and a breaker, the reaper
    with its leader lock, and runs of the core service that interleave requests, polls and reaps.
  \<^item> Auth\_Tokens, Accounts, Federated\_Login (\<open>services/auth/src/utils/session.ts\<close>, \<open>routes/account.ts\<close>,
    \<open>routes/mfa.ts\<close>, \<open>routes/oauth.ts\<close>): tokens and their revocation, all account routes, second factor,
    GitHub, Google and organizations. Token\_Life has the life of a refresh token as an abstract machine which
    the refresh route refines, and what log-outs and resets achieve; Login\_Laws the guarantees of logins and
    registrations; Auth\_Steps that each request keeps the constraints.
  \<^item> Social, Collections (the social routes, \<open>comment.routes.ts\<close>, \<open>list.routes.ts\<close>, \<open>share.routes.ts\<close>), with
    Social\_Laws (toggles refine a symmetric difference, the feed is the latest of all events, votes,
    deletions, private lists) and Social\_Steps.
  \<^item> Orgs (\<open>modules/org/org.routes.ts\<close>) with Org\_Laws: who writes in an organization, joining, the
    progress report, and that the compliance export says what the database does when it is read by RFC 4180.
  \<^item> Curriculum (\<open>node.routes.ts\<close>, \<open>quiz.routes.ts\<close>, \<open>roadmap.routes.ts\<close>) with Curriculum\_Laws: the recursive
    query computes the reachable prerequisites also in cyclic graphs, the frontier leads to everything in
    acyclic ones, answers stay hidden, only a passing grade completes.
  \<^item> Dashboards (\<open>dashboard.routes.ts\<close>, \<open>leaderboard.routes.ts\<close>) with Dashboard\_Laws: the leaderboard ranks the best.
  \<^item> Admin (\<open>admin.routes.ts\<close>, \<open>authenticate\<close> of \<open>app.ts\<close>) with Admin\_Laws and Access\_Laws: only administrators
    change anything, pages cover all users, and what the doors of the core service do not check.
  \<^item> Articles (\<open>article.routes.ts\<close>) with Article\_Laws: canonical slugs, who writes articles.
  \<^item> Media (\<open>media.routes.ts\<close>) with Media\_Laws: what is uploaded in base 64 is read back, files stay in
    their directory, and what an interrupted upload leaves.
  \<^item> Notifications (\<open>services/notification/src\<close>): one mail job per registration and day, and how one is lost.
  \<^item> Tenancy (\<open>packages/db/index.ts\<close>, \<open>plugins/tenant-prisma.ts\<close>, the row level security migration): the
    isolation that the clients and policies give, and that the services bypass it.
  \<^item> This theory: the system as a whole, its steps in any order, and that they keep the collected constraints.

  \<^bold>\<open>Theories of the web client\<close> (\<open>apps/web/src\<close>).
  \<^item> Web\_Client (\<open>lib/errors.ts\<close>, \<open>lib/apiClient.ts\<close>, \<open>lib/guestRoadmap.ts\<close>) with Web\_Client\_Laws: errors and
    their messages, the client with its single refresh in flight, in which every call ends, and the
    progress of visitors.
  \<^item> Terminal (\<open>lib/useTerminalMachine.ts\<close>) with Terminal\_Laws: the machine stays well formed, says
    connected only after the server said so, spends a bounded budget of attempts per connection and then gives up.
  \<^item> Observer (\<open>lib/useSandboxObserver.ts\<close>) with Observer\_Laws: the buffer holds the latest five hundred of all
    events and the log follows the machine.
  \<^item> Quiz\_Page, Roadmap\_Page, Sign\_In, Catalog, Catalog\_Laws (the pages of a quiz and of a roadmap, redirects
    and the landing page of logins, the catalogs): games with the route they call, marks of visitors and
    the next node, one destination per login, state in the query string and lists that show what matches.

  \<^bold>\<open>Bounds.\<close> Loops of the code are structural recursion on the batch or the list they run over; the
  retry loop of a consumer and the reconnection loop recurse on the number of attempts left, three and
  ten as in the code; the recursive query on the graph has a measure, the nodes not found yet. So no fuel is
  needed. Integers are JavaScript numbers used as integers far
  below 2 to the 53, modelled as \<open>int\<close> and \<open>nat\<close>; times are milliseconds. Divisions that the code rounds
  are exact fractions here. Text is ASCII where case or alphabet matters.

  \<^bold>\<open>Not modelled.\<close> Logs, metrics, traces and health routes, which do not decide anything; HTTP parsing and
  cookie attributes, whose values are arguments; rate limits of the web framework; the timers themselves; the
  assistant, which passes requests on to another service; start-up; the database
  seed; and what the pages of the web client draw, their forms, tours and mocks.
\<close>

section \<open>The timers\<close>

lemma poll_constraints: "moves (on_db (keeping constraints)) (poll E)"
proof -
  have "moves (on_db (keeping constraints)) (poll_event E e)" for e
    unfolding poll_event_def deliver_event_def update_event_def
    by (intro keeping_steps kept.moves_mail kept.moves_quiet_change) (auto simp: constraint_defs)
  then have "moves (on_db (keeping constraints)) (poll_events E es)" for es
    by (induction es) (auto intro!: keeping_steps)
  then show ?thesis unfolding poll_def by (intro keeping_steps; simp)
qed

lemma auth_update_constraints: "moves (on_db (keeping constraints)) (run_db E (update_auth_event i f))"
  unfolding update_auth_event_def [abs_def] by (rule keeping_guarded) (simp add: constraint_defs)

lemma auth_outbox_constraints: "moves (on_db (keeping constraints)) (processOutbox E)"
proof -
  have "moves (on_db (keeping constraints)) (process_events E es)" for es
    by (induction es) (auto intro!: keeping_steps kept.moves_mail kept.moves_quiet_change auth_update_constraints)
  then show ?thesis unfolding processOutbox_def by (intro keeping_steps; simp)
qed

lemma reap_constraints: "moves (on_db (keeping constraints)) (reap E i)"
  unfolding reap_def reap_session_def reap_tx_def Let_def update_event_def terminate_session_def
  by (intro keeping_steps kept.moves_mail kept.moves_batch kept.guarded_step)
     (auto simp: file_event_def keeping_def constraint_defs row_updates)

lemma keep_run: "moves (on_db (keeping constraints)) m \<Longrightarrow> constraints (db w) \<Longrightarrow> constraints (db (snd (m w)))"
  using moves_db_run [of "keeping constraints" m w] by (simp add: keeping_def)

section \<open>The system\<close>

text \<open>
  Everything that changes the database, in any order and each time with an environment of its own:
  requests to the core and the auth service, deliveries to the progress consumers, cycles of the outboxes and
  of the reaper.
\<close>

inductive system_step :: "'r world \<Rightarrow> 'r world \<Rightarrow> bool" where
  session_request: "system_step w (serve E rq w)"
| social_request: "social_step E hex8 w w' \<Longrightarrow> system_step w w'"
| org_request: "org_step E w w' \<Longrightarrow> system_step w w'"
| auth_request: "auth_step E A w w' \<Longrightarrow> system_step w w'"
| article_request: "article_step E tok w w' \<Longrightarrow> system_step w w'"
| admin_request: "admin_step E tok w w' \<Longrightarrow> system_step w w'"
| quiz_submission: "system_step w (snd (submit_quiz E tokenUser bodyUser chosen i w))"
| profile_edit: "system_step w (snd (update_profile E i name title w))"
| delivery: "system_step w (snd (deliver E e w))"
| poll_cycle: "system_step w (snd (poll E w))"
| auth_outbox_cycle: "system_step w (snd (processOutbox E w))"
| reap_cycle: "system_step w (snd (reap E i w))"

lemma serve_constraints: "constraints (db w) \<Longrightarrow> constraints (db (serve E rq w))"
  by (rule steps_invariant [OF serve_steps]) (auto intro: constraints_step)

lemma system_step_constraints: "system_step w w' \<Longrightarrow> constraints (db w) \<Longrightarrow> constraints (db w')"
  by (induction rule: system_step.induct)
     (simp_all add: serve_constraints social_step_constraints org_step_constraints auth_step_constraints
       article_step_constraints admin_step_constraints keep_submit_quiz keep_update_profile keep_run constraints_deliver poll_constraints auth_outbox_constraints reap_constraints)

text \<open>
  Whatever requests, deliveries and cycles follow each other, whatever calls fail in them and
  whether or not the client's transactions are transactions of the database, the collected keys and references
  are kept.
\<close>

lemma system_keeps_constraints:
  assumes "system_step\<^sup>*\<^sup>* w w'" and "constraints (db w)"
  shows "constraints (db w')"
  using assms by (induction rule: rtranclp_induct) (auto intro: system_step_constraints)

lemma system_keeps_constraints_witness:
  "constraints (db (snd (deliver (faulty_env [(3, Unacked)]) (SessionFailed ''s1'')
     (serve calm_env (Start ''bob'' ''c1'') (example_world example_db)))))"
proof -
  have "system_step\<^sup>*\<^sup>* (example_world example_db) (snd (deliver (faulty_env [(3, Unacked)]) (SessionFailed ''s1'')
     (serve calm_env (Start ''bob'' ''c1'') (example_world example_db))))"
    by (rule rtranclp.rtrancl_into_rtrancl [OF r_into_rtranclp], rule session_request, rule delivery)
  then show ?thesis by (rule system_keeps_constraints) simp
qed

end
